(* ===== verification/Prelude.thy ===== *)
theory Prelude
  imports Main "HOL-Library.Word" "HOL-Library.Signed_Division"
begin

text \<open>
  What every component of the development shares: Go's 64-bit integer arithmetic on
  \<open>int\<close> with the wrap-around written out, its truncating division, decimal printing,
  fallible results, and the generic list lemmas the component proofs use.

  A Go \<open>error\<close> return is an \<open>'e option\<close> (\<open>None\<close> is \<open>nil\<close>); a Go function that returns
  a value and an error is an \<open>'e + 'a\<close> (\<open>Inl\<close> the error). The error datatypes of the
  components name the sentinel and the branch that raised it; the rendered message text
  is not modelled.
\<close>

named_theorems go_arith \<open>facts that remove the 64-bit wrap-around from an in-range value\<close>
named_theorems validate_simps \<open>the validation functions of the domain, unfolded\<close>

type_synonym ('e, 'a) result = "'e + 'a"

subsection \<open>64-bit integers\<close>

text \<open>
  \<open>wrap64\<close> is the value an \<open>int64\<close> variable holds after an arithmetic operation whose
  mathematical result is its argument. \<open>wrap64_word\<close> ties it to the library's words.
\<close>

definition wrap64 :: "int \<Rightarrow> int" where
  "wrap64 x = (x + 2 ^ 63) mod 2 ^ 64 - 2 ^ 63"

definition in64 :: "int \<Rightarrow> bool" where
  "in64 x \<longleftrightarrow> - (2 ^ 63) \<le> x \<and> x < 2 ^ 63"

lemma wrap64_word: "wrap64 x = sint (word_of_int x :: 64 word)"
  by (simp add: wrap64_def sint_sbintrunc' signed_take_bit_eq_take_bit_shift take_bit_eq_mod)

lemma wrap64_in64 [simp]: "in64 (wrap64 x)"
  by (simp add: wrap64_def in64_def)

lemma wrap64_id [go_arith]: "in64 x \<Longrightarrow> wrap64 x = x"
  by (simp add: wrap64_def in64_def)

lemma wrap64_idem [simp]: "wrap64 (wrap64 x) = wrap64 x"
  by (simp add: wrap64_id)

lemma wrap64_add_left [simp]: "wrap64 (wrap64 x + y) = wrap64 (x + y)"
  by (simp add: wrap64_def algebra_simps mod_simps)

lemma wrap64_add_right [simp]: "wrap64 (x + wrap64 y) = wrap64 (x + y)"
  by (simp add: wrap64_def algebra_simps mod_simps)

lemma in64_0 [simp]: "in64 0"
  by (simp add: in64_def)

lemma in64_bound: "\<bar>x\<bar> < 2 ^ 63 \<Longrightarrow> in64 x"
  by (auto simp: in64_def)

text \<open>Go's \<open>/\<close> and \<open>%\<close> truncate towards zero: the library's signed division.\<close>

lemma sdiv_nonneg: "0 \<le> a \<Longrightarrow> 0 \<le> b \<Longrightarrow> (a::int) sdiv b = a div b"
  by (cases "a = 0"; cases "b = 0") (simp_all add: signed_divide_int_def)

lemma smod_nonneg: "0 \<le> a \<Longrightarrow> 0 \<le> b \<Longrightarrow> (a::int) smod b = a mod b"
  by (rule smod_mod_positive)

text \<open>Division read off a Euclidean decomposition.\<close>

lemma euclid_div: "n = q * x + r \<Longrightarrow> 0 \<le> r \<Longrightarrow> r < q \<Longrightarrow> n div q = (x::int)"
  by simp

lemma euclid_mod: "n = q * x + r \<Longrightarrow> 0 \<le> r \<Longrightarrow> r < q \<Longrightarrow> n mod q = (r::int)"
  by simp

subsection \<open>Decimal text\<close>

text \<open>The decimal digits \<open>fmt\<close> prints for \<open>%d\<close>, \<open>%0wd\<close>, and what reads them back.\<close>

definition digit :: "nat \<Rightarrow> char" where
  "digit n = char_of (48 + n)"

definition digit_val :: "char \<Rightarrow> nat" where
  "digit_val c = of_char c - 48"

definition is_digit :: "char \<Rightarrow> bool" where
  "is_digit c \<longleftrightarrow> 48 \<le> (of_char c :: nat) \<and> (of_char c :: nat) \<le> 57"

fun digits_of_nat :: "nat \<Rightarrow> string" where
  "digits_of_nat n = (if n < 10 then [digit n] else digits_of_nat (n div 10) @ [digit (n mod 10)])"

declare digits_of_nat.simps [simp del]

definition nat_of_digits :: "string \<Rightarrow> nat" where
  "nat_of_digits s = foldl (\<lambda>acc c. 10 * acc + digit_val c) 0 s"

definition itoa :: "int \<Rightarrow> string" where
  "itoa n = (if n < 0 then CHR ''-'' # digits_of_nat (nat (- n)) else digits_of_nat (nat n))"

definition zero_pad :: "nat \<Rightarrow> string \<Rightarrow> string" where
  "zero_pad w s = replicate (w - length s) (CHR ''0'') @ s"

definition itoa_pad :: "nat \<Rightarrow> int \<Rightarrow> string" where
  "itoa_pad w n = (if n < 0 then CHR ''-'' # zero_pad (w - 1) (digits_of_nat (nat (- n)))
                   else zero_pad w (digits_of_nat (nat n)))"

lemma digit_val_digit [simp]: "n < 10 \<Longrightarrow> digit_val (digit n) = n"
  by (simp add: digit_def digit_val_def of_char_of)

lemma is_digit_digit [simp]: "n < 10 \<Longrightarrow> is_digit (digit n)"
  by (simp add: digit_def is_digit_def of_char_of)

lemma digit_0: "digit 0 = CHR ''0''"
  by code_simp

lemma digits_all_digits: "list_all is_digit (digits_of_nat n)"
proof (induction n rule: digits_of_nat.induct)
  case (1 n)
  then show ?case by (cases "n < 10") (simp_all add: digits_of_nat.simps [of n])
qed

lemma nat_of_digits_snoc [simp]: "nat_of_digits (s @ [c]) = 10 * nat_of_digits s + digit_val c"
  by (simp add: nat_of_digits_def)

lemma nat_of_digits_Nil [simp]: "nat_of_digits [] = 0"
  by (simp add: nat_of_digits_def)

lemma nat_of_digits_digits [simp]: "nat_of_digits (digits_of_nat n) = n"
proof (induction n rule: digits_of_nat.induct)
  case (1 n)
  show ?case
  proof (cases "n < 10")
    case True
    then show ?thesis
      using nat_of_digits_snoc [of "[]" "digit n"] by (simp add: digits_of_nat.simps [of n])
  next
    case False
    with "1.IH" show ?thesis by (simp add: digits_of_nat.simps [of n])
  qed
qed

lemma nat_of_digits_zeros [simp]: "nat_of_digits (replicate k (CHR ''0'') @ s) = nat_of_digits s"
  by (induction k) (simp_all add: nat_of_digits_def digit_val_def)

lemma nat_of_digits_zero_pad [simp]: "nat_of_digits (zero_pad w s) = nat_of_digits s"
  by (simp add: zero_pad_def)

lemma length_digits_le: "n < 10 ^ k \<Longrightarrow> 0 < k \<Longrightarrow> length (digits_of_nat n) \<le> k"
proof (induction k arbitrary: n)
  case (Suc k)
  show ?case
  proof (cases "n < 10")
    case False
    with Suc.prems have "n div 10 < 10 ^ k" "0 < k"
      by (simp_all add: less_mult_imp_div_less mult.commute gr0_conv_Suc) (cases k; simp)
    with Suc.IH have "length (digits_of_nat (n div 10)) \<le> k" by blast
    with False show ?thesis by (simp add: digits_of_nat.simps [of n])
  qed (simp add: digits_of_nat.simps)
qed simp

lemma length_zero_pad: "length s \<le> w \<Longrightarrow> length (zero_pad w s) = w"
  by (simp add: zero_pad_def)

lemma zero_pad_digits: "list_all is_digit s \<Longrightarrow> list_all is_digit (zero_pad w s)"
  by (auto simp: zero_pad_def is_digit_def list_all_iff)

end
