(* ===== verification/Calendar.thy ===== *)
theory Calendar
  imports Prelude
begin

text \<open>
  The part of Go's \<open>time\<close> package that \<open>api/internal/domain/brcal/date.go\<close> rests on: the
  proleptic Gregorian calendar with \<open>time.Date\<close>'s normalisation of out-of-range months and
  days, and the conversion between wall-clock time in America/Sao_Paulo and instants.

  A day is its number counted from 1970-01-01, an instant the number of seconds since
  1970-01-01T00:00Z. \<open>day_number\<close> counts days, \<open>civil\<close> reads a day number back, and the two
  are inverse on valid dates. \<open>sp_transitions\<close> is the zone's transition table in the IANA
  database (release 2025b), which the package embeds through \<open>time/tzdata\<close>; \<open>go_unix\<close> is the
  two-lookup rule by which \<open>time.Date\<close> picks the offset of a wall-clock time. Where daylight
  saving time began at midnight, that midnight does not exist and the rule answers 23:00
  of the day before. The last transition is on 2019-02-17; from the day after it on
  (\<open>modern\<close>), midnight in Sao Paulo is the plain day number.
\<close>

subsection \<open>The proleptic Gregorian calendar of Go's time package\<close>

datatype Date = mk_date (Year: int) (Month: int) (Day: int)

text \<open>Dates are ordered by year, month and day, as \<open>Date.Compare\<close> orders them.\<close>

instantiation Date :: linorder
begin

definition less_Date :: "Date \<Rightarrow> Date \<Rightarrow> bool" where
  "d < e \<longleftrightarrow> Year d < Year e \<or> Year d = Year e \<and> (Month d < Month e \<or> Month d = Month e \<and> Day d < Day e)"

definition less_eq_Date :: "Date \<Rightarrow> Date \<Rightarrow> bool" where
  "d \<le> e \<longleftrightarrow> d < e \<or> d = (e :: Date)"

instance
proof
  fix x y z :: Date
  show "x < y \<longleftrightarrow> x \<le> y \<and> \<not> y \<le> x" by (auto simp: less_Date_def less_eq_Date_def)
  show "x \<le> x" by (simp add: less_eq_Date_def)
  show "x \<le> y \<Longrightarrow> y \<le> z \<Longrightarrow> x \<le> z" by (auto simp: less_Date_def less_eq_Date_def)
  show "x \<le> y \<Longrightarrow> y \<le> x \<Longrightarrow> x = y" by (auto simp: less_Date_def less_eq_Date_def)
  show "x \<le> y \<or> y \<le> x"
    by (cases x; cases y) (auto simp: less_Date_def less_eq_Date_def)
qed

end

definition leap :: "int \<Rightarrow> bool" where
  "leap y \<longleftrightarrow> y mod 4 = 0 \<and> (y mod 100 \<noteq> 0 \<or> y mod 400 = 0)"

definition leap_day :: "int \<Rightarrow> int" where
  "leap_day y = (if leap y then 1 else 0)"

definition month_length :: "int \<Rightarrow> int \<Rightarrow> int" where
  "month_length y m =
     (if m = 2 then 28 + leap_day y else if m = 4 \<or> m = 6 \<or> m = 9 \<or> m = 11 then 30 else 31)"

text \<open>Days before month \<open>m\<close> of year \<open>y\<close>, counted from its first of January.\<close>

definition before_month :: "int \<Rightarrow> int \<Rightarrow> int" where
  "before_month y m =
     (if m \<le> 1 then 0 else if m = 2 then 31
      else leap_day y +
        (if m = 3 then 59 else if m = 4 then 90 else if m = 5 then 120 else if m = 6 then 151
         else if m = 7 then 181 else if m = 8 then 212 else if m = 9 then 243
         else if m = 10 then 273 else if m = 11 then 304 else 334))"

text \<open>Days before year \<open>y\<close>, counted from 0001-01-01.\<close>

definition before_year :: "int \<Rightarrow> int" where
  "before_year y = 365 * (y - 1) + (y - 1) div 4 - (y - 1) div 100 + (y - 1) div 400"

definition day_number :: "Date \<Rightarrow> int" where
  "day_number d =
     (let y = Year d + (Month d - 1) div 12; m = (Month d - 1) mod 12 + 1
      in before_year y + before_month y m + Day d - 1 - 719162)"

definition year_of_days :: "int \<Rightarrow> int" where
  "year_of_days n =
     (let r = n mod 146097; c = min 3 (r div 36524); r' = r - 36524 * c;
          r'' = r' mod 1461
      in 400 * (n div 146097) + 100 * c + 4 * (r' div 1461) + min 3 (r'' div 365) + 1)"

definition month_of_days :: "int \<Rightarrow> int \<Rightarrow> int" where
  "month_of_days y k =
     (if k < 31 then 1 else if k < 59 + leap_day y then 2 else if k < 90 + leap_day y then 3
      else if k < 120 + leap_day y then 4 else if k < 151 + leap_day y then 5
      else if k < 181 + leap_day y then 6 else if k < 212 + leap_day y then 7
      else if k < 243 + leap_day y then 8 else if k < 273 + leap_day y then 9
      else if k < 304 + leap_day y then 10 else if k < 334 + leap_day y then 11 else 12)"

definition civil :: "int \<Rightarrow> Date" where
  "civil n =
     (let z = n + 719162; y = year_of_days z; k = z - before_year y; m = month_of_days y k
      in mk_date y m (k - before_month y m + 1))"

definition valid_date :: "Date \<Rightarrow> bool" where
  "valid_date d \<longleftrightarrow> 1 \<le> Month d \<and> Month d \<le> 12 \<and> 1 \<le> Day d \<and> Day d \<le> month_length (Year d) (Month d)"

lemma leap_day_cases: "leap_day y = 0 \<or> leap_day y = 1"
  by (simp add: leap_day_def)

lemma leap_day_bounds [simp]: "0 \<le> leap_day y" "leap_day y \<le> 1"
  by (simp_all add: leap_day_def)

text \<open>A year, split into 400-, 100-, 4- and 1-year cycles.\<close>

lemma before_year_cycles:
  assumes "0 \<le> b" "b \<le> 3" "0 \<le> c" "c \<le> 24" "0 \<le> e" "e \<le> 3"
  shows "before_year (400 * a + 100 * b + 4 * c + e + 1) = 146097 * a + 36524 * b + 1461 * c + 365 * e"
proof -
  have "(400 * a + 100 * b + 4 * c + e) div 4 = 100 * a + 25 * b + c"
    using assms by (intro euclid_div [where r = e]) simp_all
  moreover have "(400 * a + 100 * b + 4 * c + e) div 100 = 4 * a + b"
    using assms by (intro euclid_div [where r = "4 * c + e"]) simp_all
  moreover have "(400 * a + 100 * b + 4 * c + e) div 400 = a"
    using assms by (intro euclid_div [where r = "100 * b + 4 * c + e"]) simp_all
  ultimately show ?thesis by (simp add: before_year_def)
qed

lemma leap_cycles:
  assumes "0 \<le> b" "b \<le> 3" "0 \<le> c" "c \<le> 24" "0 \<le> e" "e \<le> 3"
  shows "leap (400 * a + 100 * b + 4 * c + e + 1) \<longleftrightarrow> e = 3 \<and> (c \<noteq> 24 \<or> b = 3)"
proof (cases "e = 3")
  case True
  have 4: "(400 * a + 100 * b + 4 * c + e + 1) mod 4 = 0"
    by (rule euclid_mod [where x = "100 * a + 25 * b + c + 1"]) (simp_all add: True)
  show ?thesis
  proof (cases "c = 24")
    case c: True
    have 100: "(400 * a + 100 * b + 4 * c + e + 1) mod 100 = 0"
      by (rule euclid_mod [where x = "4 * a + b + 1"]) (simp_all add: True c)
    have "(400 * a + 100 * b + 4 * c + e + 1) mod 400 = 100 * b + 100" if "b \<noteq> 3"
      using assms that by (intro euclid_mod [where x = a]) (simp_all add: True c)
    moreover have "(400 * a + 100 * b + 4 * c + e + 1) mod 400 = 0" if "b = 3"
      by (rule euclid_mod [where x = "a + 1"]) (simp_all add: True c that)
    ultimately show ?thesis using 4 100 True c assms unfolding leap_def by (cases "b = 3") simp_all
  next
    case False
    have "(400 * a + 100 * b + 4 * c + e + 1) mod 100 = 4 * c + 4"
      using assms False by (intro euclid_mod [where x = "4 * a + b"]) (simp_all add: True)
    with 4 True False assms show ?thesis by (simp add: leap_def)
  qed
next
  case False
  have "(400 * a + 100 * b + 4 * c + e + 1) mod 4 = e + 1"
    using assms False by (intro euclid_mod [where x = "100 * a + 25 * b + c"]) simp_all
  with False assms show ?thesis by (simp add: leap_def)
qed

lemma year_cycles:
  obtains a b c e :: int where
    "y = 400 * a + 100 * b + 4 * c + e + 1"
    "0 \<le> b" "b \<le> 3" "0 \<le> c" "c \<le> 24" "0 \<le> e" "e \<le> 3"
proof -
  define z where "z = (y - 1) mod 400"
  define w where "w = z mod 100"
  have z: "0 \<le> z" "z < 400" "y - 1 = 400 * ((y - 1) div 400) + z" by (simp_all add: z_def)
  have w: "0 \<le> w" "w < 100" "z = 100 * (z div 100) + w" by (simp_all add: w_def)
  have v: "w = 4 * (w div 4) + w mod 4" by simp
  show ?thesis
    by (rule that [of "(y - 1) div 400" "z div 100" "w div 4" "w mod 4"]) (use z w v in linarith)+
qed

lemma year_of_days_unique:
  assumes k: "0 \<le> k" "k < 365 + leap_day y"
  shows "year_of_days (before_year y + k) = y"
proof -
  obtain a b c e where y: "y = 400 * a + 100 * b + 4 * c + e + 1"
    and r: "0 \<le> b" "b \<le> 3" "0 \<le> c" "c \<le> 24" "0 \<le> e" "e \<le> 3"
    by (rule year_cycles)
  define t where "t = 36524 * b + 1461 * c + 365 * e + k"
  have leap: "leap_day y = (if e = 3 \<and> (c \<noteq> 24 \<or> b = 3) then 1 else 0)"
    using leap_cycles [OF r] by (simp add: leap_day_def y)
  have n: "before_year y + k = 146097 * a + t"
    using before_year_cycles [OF r] by (simp add: y t_def)
  have t: "0 \<le> t" "t < 146097"
    using r k leap by (auto simp: t_def split: if_splits)
  then have 1: "(146097 * a + t) div 146097 = a" "(146097 * a + t) mod 146097 = t"
    by simp_all
  have c': "min 3 (t div 36524) = b"
    using r k leap unfolding t_def by (auto split: if_splits simp: min_def)
  have rest: "t - 36524 * b = 1461 * c + (365 * e + k)" by (simp add: t_def)
  have ek: "0 \<le> 365 * e + k" "365 * e + k < 1461" using r k leap by (auto split: if_splits)
  then have 2: "(1461 * c + (365 * e + k)) div 1461 = c" "(1461 * c + (365 * e + k)) mod 1461 = 365 * e + k"
    by simp_all
  have 3: "min 3 ((365 * e + k) div 365) = e"
    using r k leap by (auto split: if_splits simp: min_def)
  have "year_of_days (before_year y + k) = 400 * a + 100 * b + 4 * c + e + 1"
    unfolding n year_of_days_def Let_def 1 c' rest 2 3 ..
  then show ?thesis by (simp only: y)
qed

lemma year_of_days_bounds:
  "before_year (year_of_days n) \<le> n \<and> n < before_year (year_of_days n) + 365 + leap_day (year_of_days n)"
proof -
  define r where "r = n mod 146097"
  define b where "b = min 3 (r div 36524)"
  define r' where "r' = r - 36524 * b"
  define c where "c = r' div 1461"
  define r'' where "r'' = r' mod 1461"
  define e where "e = min 3 (r'' div 365)"
  define a where "a = n div 146097"
  have y: "year_of_days n = 400 * a + 100 * b + 4 * c + e + 1"
    by (simp add: year_of_days_def Let_def a_def b_def c_def e_def r_def r'_def r''_def)
  have r: "0 \<le> r" "r < 146097" "n = 146097 * a + r" by (simp_all add: r_def a_def)
  have b: "0 \<le> b" "b \<le> 3" using r by (simp_all add: b_def)
  have r': "0 \<le> r'" "r' < 36525" "r' = 36524 \<Longrightarrow> b = 3"
  proof -
    show "0 \<le> r'" using r by (auto simp: r'_def b_def min_def)
    show "r' < 36525" using r by (auto simp: r'_def b_def min_def)
    show "b = 3" if "r' = 36524"
    proof (rule ccontr)
      assume "b \<noteq> 3"
      then have "b = r div 36524" by (auto simp: b_def min_def split: if_splits)
      with that show False using pos_mod_bound [of 36524 r] by (simp add: r'_def minus_mult_div_eq_mod)
    qed
  qed
  have c: "0 \<le> c" "c \<le> 24" "r' = 1461 * c + r''" "0 \<le> r''" "r'' < 1461"
    using r' by (simp_all add: c_def r''_def)
  have e: "0 \<le> e" "e \<le> 3" using c by (simp_all add: e_def)
  have "365 * e \<le> r''" "r'' < 365 * e + 365 \<or> (r'' = 1460 \<and> e = 3)"
    using c by (auto simp: e_def min_def)
  moreover have "r'' = 1460 \<Longrightarrow> c \<noteq> 24 \<or> b = 3" using c(3) r'(3) by auto
  ultimately have "0 \<le> r'' - 365 * e"
    "r'' - 365 * e < 365 + (if e = 3 \<and> (c \<noteq> 24 \<or> b = 3) then 1 else 0)" by auto
  moreover have "before_year (year_of_days n) = 146097 * a + 36524 * b + 1461 * c + 365 * e"
    by (simp only: y before_year_cycles [OF b c(1,2) e])
  moreover have "leap_day (year_of_days n) = (if e = 3 \<and> (c \<noteq> 24 \<or> b = 3) then 1 else 0)"
    by (simp only: leap_day_def y leap_cycles [OF b c(1,2) e])
  ultimately show ?thesis using r(3) c(3) by (simp add: r'_def)
qed

lemma month_of_days_bounds:
  assumes "0 \<le> k" "k < 365 + leap_day y"
  shows "1 \<le> month_of_days y k \<and> month_of_days y k \<le> 12 \<and> before_month y (month_of_days y k) \<le> k
    \<and> k < before_month y (month_of_days y k) + month_length y (month_of_days y k)"
  using assms leap_day_cases [of y] by (auto simp: month_of_days_def before_month_def month_length_def)

lemma int_1_12: "1 \<le> m \<Longrightarrow> m \<le> (12::int) \<Longrightarrow>
   m = 1 \<or> m = 2 \<or> m = 3 \<or> m = 4 \<or> m = 5 \<or> m = 6 \<or> m = 7 \<or> m = 8 \<or> m = 9 \<or> m = 10 \<or> m = 11 \<or> m = 12"
  by arith

lemma month_of_days_unique:
  assumes "1 \<le> m" "m \<le> 12" "0 \<le> j" "j < month_length y m"
  shows "month_of_days y (before_month y m + j) = m"
  using int_1_12 [OF assms(1,2)] assms(3,4) leap_day_cases [of y]
  by (elim disjE) (simp_all add: month_of_days_def before_month_def month_length_def)

lemma before_month_bounds:
  assumes "1 \<le> m" "m \<le> 12"
  shows "0 \<le> before_month y m \<and> before_month y m + month_length y m \<le> 365 + leap_day y"
  using int_1_12 [OF assms] leap_day_cases [of y]
  by (elim disjE) (simp_all add: before_month_def month_length_def)

lemma day_number_valid:
  "valid_date d \<Longrightarrow> day_number d = before_year (Year d) + before_month (Year d) (Month d) + Day d - 719163"
  by (simp add: day_number_def valid_date_def Let_def)

lemma civil_day_number: "valid_date d \<Longrightarrow> civil (day_number d) = d"
proof -
  assume v: "valid_date d"
  then have m: "1 \<le> Month d" "Month d \<le> 12" and j: "0 \<le> Day d - 1" "Day d - 1 < month_length (Year d) (Month d)"
    by (auto simp: valid_date_def)
  define k where "k = before_month (Year d) (Month d) + (Day d - 1)"
  have k: "0 \<le> k" "k < 365 + leap_day (Year d)" using before_month_bounds [OF m, of "Year d"] j by (simp_all add: k_def)
  have n: "day_number d + 719162 = before_year (Year d) + k" by (simp add: day_number_valid [OF v] k_def)
  have "year_of_days (before_year (Year d) + k) = Year d" by (rule year_of_days_unique [OF k])
  moreover have "month_of_days (Year d) k = Month d" unfolding k_def by (rule month_of_days_unique [OF m j])
  ultimately show ?thesis by (simp add: civil_def n Let_def) (cases d; simp add: k_def)
qed

lemma valid_civil [simp]: "valid_date (civil n)"
proof -
  define y where "y = year_of_days (n + 719162)"
  have "0 \<le> n + 719162 - before_year y" "n + 719162 - before_year y < 365 + leap_day y"
    using year_of_days_bounds [of "n + 719162"] by (simp_all add: y_def)
  from month_of_days_bounds [OF this] show ?thesis
    by (auto simp: civil_def Let_def valid_date_def y_def)
qed

lemma day_number_civil [simp]: "day_number (civil n) = n"
proof -
  have "day_number (civil n) = before_year (Year (civil n)) + before_month (Year (civil n)) (Month (civil n)) + Day (civil n) - 719163"
    by (rule day_number_valid) simp
  then show ?thesis by (simp add: civil_def Let_def)
qed

lemma day_number_eq_iff: "valid_date d \<Longrightarrow> valid_date e \<Longrightarrow> day_number d = day_number e \<longleftrightarrow> d = e"
  by (metis civil_day_number)

lemma civil_eq_iff [simp]: "civil m = civil n \<longleftrightarrow> m = n"
  by (metis day_number_civil)

text \<open>Day numbers order valid dates as their components do.\<close>

lemma before_year_step: "before_year (y + 1) = before_year y + 365 + leap_day y"
proof -
  obtain a b c e where y: "y = 400 * a + 100 * b + 4 * c + e + 1"
    and r: "0 \<le> b" "b \<le> 3" "0 \<le> c" "c \<le> 24" "0 \<le> e" "e \<le> 3"
    by (rule year_cycles)
  have here: "before_year y = 146097 * a + 36524 * b + 1461 * c + 365 * e"
    using before_year_cycles [OF r] by (simp add: y)
  have leap: "leap_day y = (if e = 3 \<and> (c \<noteq> 24 \<or> b = 3) then 1 else 0)"
    using leap_cycles [OF r] by (simp add: leap_day_def y)
  consider "e \<noteq> 3" | "e = 3" "c \<noteq> 24" | "e = 3" "c = 24" "b \<noteq> 3" | "e = 3" "c = 24" "b = 3" by blast
  then show ?thesis
  proof cases
    case 1
    with r before_year_cycles [of b c "e + 1" a] here leap show ?thesis by (simp add: y ac_simps)
  next
    case 2
    with r before_year_cycles [of b "c + 1" 0 a] here leap show ?thesis by (simp add: y algebra_simps)
  next
    case 3
    with r before_year_cycles [of "b + 1" 0 0 a] here leap show ?thesis by (simp add: y algebra_simps)
  next
    case 4
    with r before_year_cycles [of 0 0 0 "a + 1"] here leap show ?thesis by (simp add: y algebra_simps)
  qed
qed

lemma before_year_mono: "y < z \<Longrightarrow> before_year y + 365 + leap_day y \<le> before_year z"
proof (induction z rule: int_gr_induct)
  case base
  then show ?case by (simp add: before_year_step)
next
  case (step z)
  then show ?case using before_year_step [of z] leap_day_bounds(1) [of z] by linarith
qed

lemma before_month_mono:
  assumes "1 \<le> m" "m < n" "n \<le> 12"
  shows "before_month y m + month_length y m \<le> before_month y n"
proof -
  have "before_month y i + month_length y i = before_month y (i + 1)" if "1 \<le> i" "i < 12" for i
    using int_1_12 [OF that(1)] that by (auto simp: before_month_def month_length_def)
  then have "before_month y m + month_length y m = before_month y (m + 1)" using assms by simp
  moreover have "before_month y (m + 1) \<le> before_month y n"
    using assms by (auto simp: before_month_def) presburger
  ultimately show ?thesis by simp
qed

lemma day_number_mono:
  assumes "valid_date d" "valid_date e" and "d < e"
  shows "day_number d < day_number e"
proof -
  have vd: "1 \<le> Month d" "Month d \<le> 12" "Day d \<le> month_length (Year d) (Month d)"
    and ve: "1 \<le> Month e" "Month e \<le> 12" "1 \<le> Day e"
    using assms(1,2) by (simp_all add: valid_date_def)
  note n = day_number_valid [OF assms(1)] day_number_valid [OF assms(2)]
  from assms(3) [unfolded less_Date_def] consider "Year d < Year e" | "Year d = Year e" "Month d < Month e"
    | "Year d = Year e" "Month d = Month e" "Day d < Day e" by blast
  then show ?thesis
  proof cases
    case 1
    have "before_month (Year d) (Month d) + Day d \<le> 365 + leap_day (Year d)"
      using before_month_bounds [OF vd(1,2), of "Year d"] vd(3) by linarith
    moreover have "0 \<le> before_month (Year e) (Month e)" using before_month_bounds [OF ve(1,2)] by simp
    ultimately show ?thesis using before_year_mono [OF 1] ve(3) n by linarith
  next
    case 2
    with before_month_mono [OF vd(1) 2(2) ve(2), of "Year d"] vd ve n show ?thesis by simp
  next
    case 3
    with n show ?thesis by simp
  qed
qed

lemma day_number_less_iff: "valid_date d \<Longrightarrow> valid_date e \<Longrightarrow> day_number d < day_number e \<longleftrightarrow> d < e"
  by (metis day_number_mono less_irrefl less_linear order_less_trans)

lemma day_number_le_iff: "valid_date d \<Longrightarrow> valid_date e \<Longrightarrow> day_number d \<le> day_number e \<longleftrightarrow> d \<le> e"
  by (metis day_number_less_iff not_less)

lemma civil_less_iff [simp]: "civil m < civil n \<longleftrightarrow> m < n"
  using day_number_less_iff [of "civil m" "civil n"] by simp

lemma civil_le_iff [simp]: "civil m \<le> civil n \<longleftrightarrow> m \<le> n"
  using day_number_le_iff [of "civil m" "civil n"] by simp

subsection \<open>America/Sao_Paulo\<close>

definition sp_transitions :: "(int \<times> int) list" where
  "sp_transitions =
   [(- 1767214412, - 10800), (- 1206957600, - 7200), (- 1191362400, - 10800),
    (- 1175374800, - 7200), (- 1159826400, - 10800), (- 633819600, - 7200),
    (- 622069200, - 10800), (- 602283600, - 7200), (- 591832800, - 10800),
    (- 570747600, - 7200), (- 560210400, - 10800), (- 539125200, - 7200),
    (- 531352800, - 10800), (- 195426000, - 7200), (- 184197600, - 10800),
    (- 155163600, - 7200), (- 150069600, - 10800), (- 128898000, - 7200),
    (- 121125600, - 10800), (- 99954000, - 7200), (- 89589600, - 10800), (- 68418000, - 7200),
    (- 57967200, - 10800), (499748400, - 7200), (511236000, - 10800), (530593200, - 7200),
    (540266400, - 10800), (562129200, - 7200), (571197600, - 10800), (592974000, - 7200),
    (602042400, - 10800), (624423600, - 7200), (634701600, - 10800), (656478000, - 7200),
    (666756000, - 10800), (687927600, - 7200), (697600800, - 10800), (719982000, - 7200),
    (728445600, - 10800), (750826800, - 7200), (761709600, - 10800), (782276400, - 7200),
    (793159200, - 10800), (813726000, - 7200), (824004000, - 10800), (844570800, - 7200),
    (856058400, - 10800), (876106800, - 7200), (888717600, - 10800), (908074800, - 7200),
    (919562400, - 10800), (938919600, - 7200), (951616800, - 10800), (970974000, - 7200),
    (982461600, - 10800), (1003028400, - 7200), (1013911200, - 10800), (1036292400, - 7200),
    (1045360800, - 10800), (1066532400, - 7200), (1076810400, - 10800), (1099364400, - 7200),
    (1108864800, - 10800), (1129431600, - 7200), (1140314400, - 10800), (1162695600, - 7200),
    (1172368800, - 10800), (1192330800, - 7200), (1203213600, - 10800), (1224385200, - 7200),
    (1234663200, - 10800), (1255834800, - 7200), (1266717600, - 10800), (1287284400, - 7200),
    (1298167200, - 10800), (1318734000, - 7200), (1330221600, - 10800), (1350788400, - 7200),
    (1361066400, - 10800), (1382238000, - 7200), (1392516000, - 10800), (1413687600, - 7200),
    (1424570400, - 10800), (1445137200, - 7200), (1456020000, - 10800), (1476586800, - 7200),
    (1487469600, - 10800), (1508036400, - 7200), (1518919200, - 10800), (1541300400, - 7200),
    (1550368800, - 10800)]"

text \<open>
  \<open>Location.lookup\<close>: the offset in force at an instant and the bounds of its interval,
  \<open>None\<close> for an unbounded end. Before the first transition the zone is at local mean time.
\<close>

fun zone_search :: "int \<Rightarrow> int option \<Rightarrow> (int \<times> int) list \<Rightarrow> int \<Rightarrow> int \<times> int option \<times> int option" where
  "zone_search off start [] u = (off, start, None)"
| "zone_search off start ((t, o') # ts) u =
     (if u < t then (off, start, Some t) else zone_search o' (Some t) ts u)"

definition zone_lookup :: "int \<Rightarrow> int \<times> int option \<times> int option" where
  "zone_lookup u = zone_search (- 11188) None sp_transitions u"

definition zone_offset :: "int \<Rightarrow> int" where
  "zone_offset u = fst (zone_lookup u)"

text \<open>
  The instant \<open>time.Date\<close> picks for a wall-clock time given as seconds: the offset found by
  looking the wall clock up as if it were UTC, corrected once when the instant it gives
  lies outside the interval of that offset.
\<close>

definition go_unix :: "int \<Rightarrow> int" where
  "go_unix local =
     (case zone_lookup local of (off, start, stop) \<Rightarrow>
        let utc = local - off
        in if off = 0 then local
           else if (case start of None \<Rightarrow> False | Some t \<Rightarrow> utc < t) \<or>
              (case stop of None \<Rightarrow> False | Some t \<Rightarrow> t \<le> utc)
           then local - zone_offset utc
           else local - off)"

definition wall_clock :: "int \<Rightarrow> int" where
  "wall_clock u = u + zone_offset u"

definition last_transition :: int where
  "last_transition = 1550368800"

lemma zone_search_last:
  "ts \<noteq> [] \<Longrightarrow> list_all (\<lambda>(t, _). t \<le> u) ts \<Longrightarrow>
   zone_search off start ts u = (snd (last ts), Some (fst (last ts)), None)"
  by (induction off start ts u rule: zone_search.induct) (auto simp: neq_Nil_conv)

lemma sp_transitions_before: "list_all (\<lambda>(t, _). t \<le> last_transition) sp_transitions"
  by (simp add: sp_transitions_def last_transition_def)

lemma zone_lookup_modern:
  assumes "last_transition \<le> u"
  shows "zone_lookup u = (- 10800, Some last_transition, None)"
proof -
  have "list_all (\<lambda>(t, _). t \<le> u) sp_transitions"
    using sp_transitions_before assms by (force simp: list_all_iff)
  then show ?thesis
    unfolding zone_lookup_def by (subst zone_search_last) (simp_all add: sp_transitions_def last_transition_def)
qed

lemma zone_offset_modern: "last_transition \<le> u \<Longrightarrow> zone_offset u = - 10800"
  by (simp add: zone_offset_def zone_lookup_modern)

lemma go_unix_modern: "last_transition \<le> u \<Longrightarrow> go_unix u = u + 10800"
  by (simp add: go_unix_def zone_lookup_modern)

lemma wall_clock_go_unix_modern: "last_transition \<le> u \<Longrightarrow> wall_clock (go_unix u) = u"
  by (simp add: wall_clock_def go_unix_modern zone_offset_modern)

end
