(* ===== verification/Brcal.thy ===== *)
theory Brcal
  imports Calendar
begin

text \<open>
  Package \<open>brcal\<close>, files \<open>date.go\<close> and \<open>dynamo.go\<close> under \<open>api/internal/domain/brcal\<close>: civil
  dates in America/Sao_Paulo, their arithmetic and their text and DynamoDB forms.
  A date goes to an instant (midnight in Sao Paulo) and back as the code does; every
  operation is written over \<open>go_unix\<close> and \<open>wall_clock\<close>, so the days whose midnight does not
  exist behave as they do in the program. The lemmas with the suffix \<open>_modern\<close> remove the
  time zone for days after the last transition of the zone; the rest of the development
  uses those. \<open>time.Now\<close> is not modelled: functions that read the clock take today as an
  argument. The shifts count days, months and seconds in unbounded integers, as Go's 64 bits do
  while a date stays within a hundred billion years; the product of \<open>AddYears\<close> wraps.
\<close>

subsection \<open>date.go\<close>

definition FromUnix :: "int \<Rightarrow> Date" where
  "FromUnix u = civil (wall_clock u div 86400)"

text \<open>\<open>FromTime\<close> takes an instant in nanoseconds, as \<open>time.Time\<close> resolves it.\<close>

definition FromTime :: "int \<Rightarrow> Date" where
  "FromTime t = FromUnix (t div 1000000000)"

definition Time :: "Date \<Rightarrow> int" where
  "Time d = go_unix (86400 * day_number d)"

definition New :: "int \<Rightarrow> int \<Rightarrow> int \<Rightarrow> Date" where
  "New y m d = FromUnix (go_unix (86400 * day_number (mk_date y m d)))"

definition IsZero :: "Date \<Rightarrow> bool" where
  "IsZero d \<longleftrightarrow> d = mk_date 0 0 0"

text \<open>Sunday is 0, as in \<open>time.Weekday\<close>; 1970-01-01 was a Thursday.\<close>

definition Weekday :: "Date \<Rightarrow> int" where
  "Weekday d = (wall_clock (Time d) div 86400 + 4) mod 7"

text \<open>\<open>Time.AddDate(0, 0, n)\<close> keeps the wall clock and shifts the day.\<close>

definition AddDays :: "Date \<Rightarrow> int \<Rightarrow> Date" where
  "AddDays d n = FromUnix (go_unix (wall_clock (Time d) + 86400 * n))"

definition DaysInMonth :: "int \<Rightarrow> int \<Rightarrow> int" where
  "DaysInMonth y m = Day (FromUnix (go_unix (86400 * day_number (mk_date y (m + 1) 0))))"

definition AddMonths :: "Date \<Rightarrow> int \<Rightarrow> Date" where
  "AddMonths d n =
     (let m = Month d + n;
          y = Year d + (m - 1) sdiv 12;
          m = (m - 1) smod 12 + 1;
          (y, m) = (if m \<le> 0 then (y - 1, m + 12) else (y, m));
          last = DaysInMonth y m
      in mk_date y m (if Day d > last then last else Day d))"

definition AddYears :: "Date \<Rightarrow> int \<Rightarrow> Date" where
  "AddYears d n = AddMonths d (wrap64 (12 * n))"

definition sign :: "int \<Rightarrow> int" where
  "sign n = (if n < 0 then - 1 else if n > 0 then 1 else 0)"

definition Compare :: "Date \<Rightarrow> Date \<Rightarrow> int" where
  "Compare d e =
     (if Year d \<noteq> Year e then sign (Year d - Year e)
      else if Month d \<noteq> Month e then sign (Month d - Month e)
      else sign (Day d - Day e))"

definition Before :: "Date \<Rightarrow> Date \<Rightarrow> bool" where
  "Before d e \<longleftrightarrow> Compare d e < 0"

definition After :: "Date \<Rightarrow> Date \<Rightarrow> bool" where
  "After d e \<longleftrightarrow> Compare d e > 0"

text \<open>
  \<open>Time.Sub\<close> saturates at the largest duration, so the day count saturates at
  \<open>(2 ^ 63 - 1)\<close> nanoseconds, which is 106751 whole days, in either direction.
\<close>

definition DaysBetween :: "Date \<Rightarrow> Date \<Rightarrow> int" where
  "DaysBetween d e = max (- 106751) (min 106751 (day_number e - day_number d))"

definition String :: "Date \<Rightarrow> string" where
  "String d = itoa_pad 4 (Year d) @ ''-'' @ itoa_pad 2 (Month d) @ ''-'' @ itoa_pad 2 (Day d)"

datatype parse_error = ErrParse

text \<open>
  \<open>time.ParseInLocation\<close> with the layout \<open>2006-01-02\<close>: a four-digit year and two-digit month
  and day, the month within the year, the day within the month, no further text.
\<close>

definition Parse :: "string \<Rightarrow> (parse_error, Date) result" where
  "Parse s =
     (if length s = 10 \<and> list_all is_digit (take 4 s) \<and> s ! 4 = CHR ''-''
         \<and> list_all is_digit (take 2 (drop 5 s)) \<and> s ! 7 = CHR ''-''
         \<and> list_all is_digit (drop 8 s)
      then let y = int (nat_of_digits (take 4 s));
               m = int (nat_of_digits (take 2 (drop 5 s)));
               d = int (nat_of_digits (drop 8 s))
           in if m \<le> 0 \<or> 12 < m then Inl ErrParse
              else if d < 1 \<or> d > month_length y m then Inl ErrParse
              else Inr (FromUnix (go_unix (86400 * day_number (mk_date y m d))))
      else Inl ErrParse)"

definition MarshalText :: "Date \<Rightarrow> string" where
  "MarshalText d = String d"

definition UnmarshalText :: "string \<Rightarrow> (parse_error, Date) result" where
  "UnmarshalText b = Parse b"

subsection \<open>dynamo.go\<close>

text \<open>The attribute values the date codec distinguishes; \<open>AV_other\<close> is any other member.\<close>

datatype attribute_value = AV_null | AV_S string | AV_other

definition MarshalDynamoDBAttributeValue :: "Date \<Rightarrow> attribute_value" where
  "MarshalDynamoDBAttributeValue d = (if IsZero d then AV_null else AV_S (String d))"

fun UnmarshalDynamoDBAttributeValue :: "attribute_value \<Rightarrow> (parse_error, Date) result" where
  "UnmarshalDynamoDBAttributeValue AV_null = Inr (mk_date 0 0 0)"
| "UnmarshalDynamoDBAttributeValue (AV_S v) = (if v = '''' then Inr (mk_date 0 0 0) else Parse v)"
| "UnmarshalDynamoDBAttributeValue AV_other = Inr (mk_date 0 0 0)"

subsection \<open>Comparison\<close>

lemma Compare_less: "Compare d e < 0 \<longleftrightarrow> d < e"
  by (auto simp: Compare_def sign_def less_Date_def)

lemma Compare_greater: "Compare d e > 0 \<longleftrightarrow> e < d"
  by (auto simp: Compare_def sign_def less_Date_def)

lemma Before_iff [simp]: "Before d e \<longleftrightarrow> d < e"
  by (simp add: Before_def Compare_less)

lemma After_iff [simp]: "After d e \<longleftrightarrow> e < d"
  by (simp add: After_def Compare_greater)

lemma Compare_eq_0: "Compare d e = 0 \<longleftrightarrow> d = e"
  by (cases d; cases e) (auto simp: Compare_def sign_def)

subsection \<open>Days after the last transition of the time zone\<close>

definition first_modern_day :: int where
  "first_modern_day = 17945"

definition modern :: "Date \<Rightarrow> bool" where
  "modern d \<longleftrightarrow> valid_date d \<and> first_modern_day \<le> day_number d"

lemma modern_valid: "modern d \<Longrightarrow> valid_date d"
  by (simp add: modern_def)

lemma modern_day: "modern d \<Longrightarrow> first_modern_day \<le> day_number d"
  by (simp add: modern_def)

lemma modern_civil [simp]: "modern (civil n) \<longleftrightarrow> first_modern_day \<le> n"
  by (simp add: modern_def)

lemma civil_of_modern: "modern d \<Longrightarrow> civil (day_number d) = d"
  by (simp add: modern_def civil_day_number)

lemma modern_mono: "modern d \<Longrightarrow> valid_date e \<Longrightarrow> d \<le> e \<Longrightarrow> modern e"
  using day_number_le_iff [of d e] by (simp add: modern_def)

lemma modern_2020: "valid_date d \<Longrightarrow> 2020 \<le> Year d \<Longrightarrow> modern d"
proof -
  assume v: "valid_date d" and y: "2020 \<le> Year d"
  have "mk_date 2019 12 31 < d" using y by (simp add: less_Date_def)
  moreover have "valid_date (mk_date 2019 12 31)" by code_simp
  ultimately have "day_number (mk_date 2019 12 31) < day_number d" using v by (simp add: day_number_mono)
  moreover have "day_number (mk_date 2019 12 31) = 18261" by code_simp
  ultimately show ?thesis using v by (simp add: modern_def first_modern_day_def)
qed

lemma wall_clock_midnight: "first_modern_day \<le> n \<Longrightarrow> wall_clock (go_unix (86400 * n)) = 86400 * n"
  by (rule wall_clock_go_unix_modern) (simp add: first_modern_day_def last_transition_def)

lemma FromUnix_midnight: "first_modern_day \<le> n \<Longrightarrow> FromUnix (go_unix (86400 * n)) = civil n"
  by (simp add: FromUnix_def wall_clock_midnight)

lemma New_modern: "modern (mk_date y m d) \<Longrightarrow> New y m d = mk_date y m d"
  by (simp add: New_def FromUnix_midnight modern_day civil_of_modern)

lemma wall_clock_Time: "modern d \<Longrightarrow> wall_clock (Time d) = 86400 * day_number d"
  by (simp add: Time_def wall_clock_midnight modern_day)

lemma FromUnix_Time: "modern d \<Longrightarrow> FromUnix (Time d) = d"
  by (simp add: FromUnix_def wall_clock_Time civil_of_modern)

lemma Weekday_modern: "modern d \<Longrightarrow> Weekday d = (day_number d + 4) mod 7"
  by (simp add: Weekday_def wall_clock_Time)

lemma AddDays_modern:
  "modern d \<Longrightarrow> first_modern_day \<le> day_number d + n \<Longrightarrow> AddDays d n = civil (day_number d + n)"
  using FromUnix_midnight [of "day_number d + n"]
  by (simp add: AddDays_def wall_clock_Time algebra_simps)

lemma AddDays_nonneg: "modern d \<Longrightarrow> 0 \<le> n \<Longrightarrow> AddDays d n = civil (day_number d + n)"
  by (rule AddDays_modern) (simp_all add: modern_def)

lemma modern_AddDays: "modern d \<Longrightarrow> 0 \<le> n \<Longrightarrow> modern (AddDays d n)"
  by (simp add: AddDays_nonneg) (simp add: modern_def)

lemma AddDays_0: "modern d \<Longrightarrow> AddDays d 0 = d"
  by (simp add: AddDays_nonneg civil_of_modern)

subsection \<open>Months\<close>

lemma day_number_month_end:
  assumes "1 \<le> m" "m \<le> 12"
  shows "day_number (mk_date y (m + 1) 0) = day_number (mk_date y m (month_length y m))"
proof (cases "m = 12")
  case True
  then show ?thesis
    using before_year_step [of y]
    by (simp add: day_number_def Let_def before_month_def month_length_def)
next
  case False
  with assms have "before_month y m + month_length y m = before_month y (m + 1)"
    using int_1_12 [OF assms] by (auto simp: before_month_def month_length_def)
  with assms False show ?thesis by (simp add: day_number_def Let_def)
qed

lemma month_length_pos: "28 \<le> month_length y m"
  by (simp add: month_length_def)

lemma month_length_le: "month_length y m \<le> 31"
  using leap_day_cases [of y] by (auto simp: month_length_def)

lemma valid_month_end: "1 \<le> m \<Longrightarrow> m \<le> 12 \<Longrightarrow> valid_date (mk_date y m (month_length y m))"
  using month_length_pos [of y m] by (simp add: valid_date_def)

text \<open>\<open>DaysInMonth\<close> is the calendar's month length for months that end after the transition.\<close>

lemma DaysInMonth_modern:
  assumes "1 \<le> m" "m \<le> 12" "modern (mk_date y m (month_length y m))"
  shows "DaysInMonth y m = month_length y m"
  using assms
  by (simp add: DaysInMonth_def day_number_month_end FromUnix_midnight modern_day civil_of_modern)

text \<open>The month \<open>n\<close> months away, by floor division.\<close>

definition shift_year :: "Date \<Rightarrow> int \<Rightarrow> int" where
  "shift_year d n = Year d + (Month d - 1 + n) div 12"

definition shift_month :: "Date \<Rightarrow> int \<Rightarrow> int" where
  "shift_month d n = (Month d - 1 + n) mod 12 + 1"

lemma shift_month_bounds [simp]: "1 \<le> shift_month d n" "shift_month d n \<le> 12"
  by (simp_all add: shift_month_def)

text \<open>The code's truncating division with its correction is floor division.\<close>

lemma trunc_month_normalise:
  fixes k :: int
  shows "(if k smod 12 + 1 \<le> 0 then (y + k sdiv 12 - 1, k smod 12 + 1 + 12) else (y + k sdiv 12, k smod 12 + 1))
    = (y + k div 12, k mod 12 + 1)"
proof (cases "0 \<le> k")
  case True
  have "0 \<le> k mod 12" by simp
  with True show ?thesis by (simp add: sdiv_nonneg smod_nonneg)
next
  case False
  define j where "j = - k"
  have j: "0 < j" "k = - j" using False by (simp_all add: j_def)
  have "k sdiv 12 = - (j div 12)" "k smod 12 = - (j mod 12)"
    using j by (simp_all add: sdiv_nonneg smod_nonneg)
  moreover have "j mod 12 = 0 \<or> 1 \<le> j mod 12" using pos_mod_sign [of 12 j] by linarith
  ultimately show ?thesis
    using j by (auto simp: zdiv_zminus1_eq_if zmod_zminus1_eq_if)
qed

lemma AddMonths_shift:
  "AddMonths d n =
     (let y = shift_year d n; m = shift_month d n; last = DaysInMonth y m
      in mk_date y m (if Day d > last then last else Day d))"
proof -
  have "Month d + n - 1 = Month d - 1 + n" by simp
  then show ?thesis
    unfolding AddMonths_def Let_def shift_year_def shift_month_def
    by (simp only: trunc_month_normalise prod.case)
qed

lemma AddMonths_modern:
  assumes "modern (mk_date (shift_year d n) (shift_month d n) (month_length (shift_year d n) (shift_month d n)))"
  shows "AddMonths d n =
    mk_date (shift_year d n) (shift_month d n) (min (Day d) (month_length (shift_year d n) (shift_month d n)))"
  using DaysInMonth_modern [OF _ _ assms] by (simp add: AddMonths_shift Let_def min_def)

lemma shift_month_later:
  assumes "valid_date d" "0 \<le> n"
  shows "d \<le> mk_date (shift_year d n) (shift_month d n) (month_length (shift_year d n) (shift_month d n))"
proof -
  have m: "1 \<le> Month d" "Month d \<le> 12" "Day d \<le> month_length (Year d) (Month d)"
    using assms(1) by (simp_all add: valid_date_def)
  define k where "k = Month d - 1 + n"
  have k: "Month d - 1 \<le> k" "0 \<le> k" using assms m by (simp_all add: k_def)
  show ?thesis
  proof (cases "k div 12 = 0")
    case True
    with k have "k < 12" by (simp add: div_eq_0_iff)
    with k m True show ?thesis
      by (cases "k = Month d - 1")
        (auto simp: shift_year_def shift_month_def less_eq_Date_def less_Date_def k_def [symmetric] intro!: Date.expand)
  next
    case False
    with k have "0 < k div 12" using pos_imp_zdiv_nonneg_iff [of 12 k] by linarith
    then show ?thesis by (simp add: shift_year_def less_eq_Date_def less_Date_def k_def [symmetric])
  qed
qed

lemma AddMonths_nonneg:
  assumes "modern d" "0 \<le> n"
  shows "AddMonths d n =
    mk_date (shift_year d n) (shift_month d n) (min (Day d) (month_length (shift_year d n) (shift_month d n)))"
  by (rule AddMonths_modern, rule modern_mono [OF assms(1)])
    (simp_all add: assms valid_month_end shift_month_later modern_valid)

lemma shift_months_eq: "12 * shift_year d n + shift_month d n = 12 * Year d + Month d + n"
  by (simp add: shift_year_def shift_month_def)

lemma shift_0: "valid_date d \<Longrightarrow> shift_year d 0 = Year d \<and> shift_month d 0 = Month d"
  by (simp add: shift_year_def shift_month_def valid_date_def)

lemma valid_AddMonths: "modern d \<Longrightarrow> 0 \<le> n \<Longrightarrow> valid_date (AddMonths d n)"
  using month_length_pos [of "shift_year d n" "shift_month d n"]
  by (simp add: AddMonths_nonneg) (auto simp: valid_date_def modern_def)

lemma AddMonths_0: "modern d \<Longrightarrow> AddMonths d 0 = d"
  by (cases d) (auto simp: AddMonths_nonneg shift_0 modern_valid, auto simp: modern_def valid_date_def)

text \<open>A later month gives a later date, whatever the clamping does.\<close>

lemma AddMonths_strict_mono:
  assumes d: "modern d" and n: "0 \<le> n" "n < k"
  shows "AddMonths d n < AddMonths d k"
proof -
  have "12 * shift_year d n + shift_month d n < 12 * shift_year d k + shift_month d k"
    using n by (simp add: shift_months_eq)
  with shift_month_bounds [of d n] shift_month_bounds [of d k]
  have "shift_year d n < shift_year d k \<or> shift_year d n = shift_year d k \<and> shift_month d n < shift_month d k"
    by linarith
  with n show ?thesis by (auto simp: AddMonths_nonneg [OF d] less_Date_def)
qed

lemma AddMonths_ge:
  assumes "modern d" "0 \<le> n"
  shows "d \<le> AddMonths d n"
proof (cases "n = 0")
  case False
  with assms have "AddMonths d 0 < AddMonths d n" by (intro AddMonths_strict_mono) simp_all
  with assms show ?thesis by (simp add: AddMonths_0)
qed (simp add: assms AddMonths_0)

lemma modern_AddMonths: "modern d \<Longrightarrow> 0 \<le> n \<Longrightarrow> modern (AddMonths d n)"
  by (rule modern_mono [of d]) (auto intro: valid_AddMonths AddMonths_ge)

subsection \<open>Text\<close>

lemma itoa_pad_nat:
  assumes "0 \<le> n" "n < 10 ^ w" "0 < w"
  shows "length (itoa_pad w n) = w" "list_all is_digit (itoa_pad w n)" "nat_of_digits (itoa_pad w n) = nat n"
proof -
  have "nat n < 10 ^ w" using assms by (simp add: nat_less_iff)
  then have "length (digits_of_nat (nat n)) \<le> w" by (rule length_digits_le) (rule assms(3))
  then show "length (itoa_pad w n) = w" using assms(1) by (simp add: itoa_pad_def length_zero_pad)
qed (use assms(1) in \<open>simp_all add: itoa_pad_def zero_pad_digits digits_all_digits\<close>)

lemma Parse_String_valid:
  assumes "valid_date d" "0 \<le> Year d" "Year d \<le> 9999"
  shows "Parse (String d) = Inr (FromUnix (Time d))"
proof -
  have r: "1 \<le> Month d" "Month d \<le> 12" "1 \<le> Day d" "Day d \<le> month_length (Year d) (Month d)"
    using assms(1) by (simp_all add: valid_date_def)
  then have b: "Month d < 10 ^ 2" "Day d < 10 ^ 2" "Year d < 10 ^ 4"
    using month_length_le [of "Year d" "Month d"] assms(3) by simp_all
  note y = itoa_pad_nat [OF assms(2) b(3)] and m = itoa_pad_nat [OF _ b(1)] and k = itoa_pad_nat [OF _ b(2)]
  obtain y1 y2 y3 y4 where Y: "itoa_pad 4 (Year d) = [y1, y2, y3, y4]"
    using y(1) by (auto simp: length_Suc_conv eval_nat_numeral)
  obtain m1 m2 where M: "itoa_pad 2 (Month d) = [m1, m2]"
    using m(1) r by (auto simp: length_Suc_conv eval_nat_numeral)
  obtain k1 k2 where K: "itoa_pad 2 (Day d) = [k1, k2]"
    using k(1) r by (auto simp: length_Suc_conv eval_nat_numeral)
  have "int (nat_of_digits [y1, y2, y3, y4]) = Year d" "int (nat_of_digits [m1, m2]) = Month d"
    "int (nat_of_digits [k1, k2]) = Day d"
    using y(3) m(3) k(3) assms(2) r by (simp_all add: Y M K)
  moreover have "list_all is_digit [y1, y2, y3, y4]" "list_all is_digit [m1, m2]" "list_all is_digit [k1, k2]"
    using y(2) m(2) k(2) r by (simp_all add: Y M K)
  ultimately show ?thesis using r
    by (simp add: Parse_def String_def Y M K Let_def Time_def Date.collapse)
qed

text \<open>\<open>Parse\<close> only answers dates \<open>time.Date\<close> names, so a result is always a calendar date.\<close>

lemma Parse_valid: "Parse s = Inr d \<Longrightarrow> valid_date d"
  by (auto simp: Parse_def Let_def FromUnix_def split: if_splits)


lemma String_inj:
  assumes "String d = String e"
    and "valid_date d" "0 \<le> Year d" "Year d \<le> 9999" "valid_date e" "0 \<le> Year e" "Year e \<le> 9999"
  shows "d = e"
proof -
  have b: "0 \<le> Month x" "Month x < 10 ^ 2" "0 \<le> Day x" "Day x < 10 ^ 2" if "valid_date x" for x
    using that month_length_le [of "Year x" "Month x"] by (auto simp: valid_date_def)
  note d = b [OF assms(2)] and e = b [OF assms(5)]
  have Y: "Year d < 10 ^ 4" "Year e < 10 ^ 4" using assms by simp_all
  note yd = itoa_pad_nat [OF assms(3) Y(1)] and ye = itoa_pad_nat [OF assms(6) Y(2)]
  note md = itoa_pad_nat [OF d(1,2)] and me = itoa_pad_nat [OF e(1,2)]
  note kd = itoa_pad_nat [OF d(3,4)] and ke = itoa_pad_nat [OF e(3,4)]
  have "itoa_pad 4 (Year d) = itoa_pad 4 (Year e) \<and> itoa_pad 2 (Month d) = itoa_pad 2 (Month e)
      \<and> itoa_pad 2 (Day d) = itoa_pad 2 (Day e)"
    using assms(1) yd(1) ye(1) md(1) me(1) kd(1) ke(1) by (simp add: String_def)
  then have "nat (Year d) = nat (Year e)" "nat (Month d) = nat (Month e)" "nat (Day d) = nat (Day e)"
    using yd(3) ye(3) md(3) me(3) kd(3) ke(3) by (metis zero_less_numeral)+
  then have "Year d = Year e" "Month d = Month e" "Day d = Day e" using assms(3,6) d(1,3) e(1,3) by simp_all
  then show ?thesis by (cases d; cases e) simp
qed

lemma String_no_colon:
  assumes "valid_date d" "0 \<le> Year d" "Year d \<le> 9999"
  shows "CHR '':'' \<notin> set (String d)"
proof -
  have "Month d < 10 ^ 2" "Day d < 10 ^ 2" "0 \<le> Month d" "0 \<le> Day d" "Year d < 10 ^ 4"
    using assms month_length_le [of "Year d" "Month d"] by (auto simp: valid_date_def)
  then have "list_all is_digit (itoa_pad 4 (Year d))" "list_all is_digit (itoa_pad 2 (Month d))"
    "list_all is_digit (itoa_pad 2 (Day d))" using assms(2) by (simp_all add: itoa_pad_nat(2))
  moreover have "\<not> is_digit (CHR '':'')" by (simp add: is_digit_def)
  ultimately show ?thesis by (auto simp: String_def list_all_iff)
qed


subsection \<open>Properties\<close>

text \<open>Adding months lands in the month that many months later, on the same day of the month
  or on its last day when the month is shorter, and adding more months gives a later date.\<close>

theorem add_months_clamps:
  assumes "modern d" "0 \<le> n" "n < k"
  shows "valid_date (AddMonths d n) \<and>
    12 * Year (AddMonths d n) + Month (AddMonths d n) = 12 * Year d + Month d + n \<and>
    Day (AddMonths d n) = min (Day d) (month_length (Year (AddMonths d n)) (Month (AddMonths d n))) \<and>
    AddMonths d n < AddMonths d k"
  using assms valid_AddMonths AddMonths_strict_mono by (simp add: AddMonths_nonneg shift_months_eq)

theorem add_months_clamps_witness:
  "Day (AddMonths (mk_date 2026 1 31) 1) =
     min (Day (mk_date 2026 1 31)) (month_length (Year (AddMonths (mk_date 2026 1 31) 1)) (Month (AddMonths (mk_date 2026 1 31) 1)))"
proof -
  have "modern (mk_date 2026 1 31)" by code_simp
  from add_months_clamps [OF this, of 1 2] show ?thesis by simp
qed

text \<open>A date after the last change of the time zone survives being written and read back,
  as text and as a DynamoDB attribute.\<close>

theorem date_round_trip:
  assumes "modern d" "Year d \<le> 9999"
  shows "Parse (String d) = Inr d \<and> UnmarshalText (MarshalText d) = Inr d \<and>
    UnmarshalDynamoDBAttributeValue (MarshalDynamoDBAttributeValue d) = Inr d"
proof -
  have v: "valid_date d" using assms(1) by (rule modern_valid)
  have "mk_date 0 1 1 \<le> d"
  proof (rule ccontr)
    assume "\<not> mk_date 0 1 1 \<le> d"
    then have "day_number d < day_number (mk_date 0 1 1)"
      using v day_number_mono [of d "mk_date 0 1 1"] by (auto simp: valid_date_def month_length_def)
    moreover have "day_number (mk_date 0 1 1) < first_modern_day" by code_simp
    ultimately show False using modern_day [OF assms(1)] by simp
  qed
  then have y: "0 \<le> Year d" by (cases d) (auto simp: less_eq_Date_def less_Date_def split: if_splits)
  have p: "Parse (String d) = Inr d" using Parse_String_valid [OF v y assms(2)] FromUnix_Time [OF assms(1)] by simp
  have "String d \<noteq> []" by (simp add: String_def)
  moreover have "\<not> IsZero d" using v by (cases d) (auto simp: IsZero_def valid_date_def)
  ultimately show ?thesis
    using p by (simp add: MarshalText_def UnmarshalText_def MarshalDynamoDBAttributeValue_def)
qed

theorem date_round_trip_witness: "Parse (String (mk_date 2026 2 28)) = Inr (mk_date 2026 2 28)"
proof -
  have "modern (mk_date 2026 2 28)" by code_simp
  from date_round_trip [OF this] show ?thesis by simp
qed

end
