(* ===== verification/Holidays.thy ===== *)
theory Holidays
  imports Brcal
begin

text \<open>
  \<open>api/internal/domain/brcal/holidays.go\<close>: the Brazilian national holidays, Easter by the
  Meeus/Jones/Butcher algorithm, and the business-day roll-forward. The holiday names are
  the constructors of \<open>holiday\<close>. \<open>RollForward\<close> panics after fifteen steps; the model answers
  \<open>None\<close> there, and \<open>roll_total\<close> shows that it never does.
\<close>

datatype holiday =
    Confraternizacao | Carnaval | SextaFeiraSanta | Tiradentes | DiaDoTrabalho | CorpusChristi
  | Independencia | NossaSraAparecida | Finados | ProclamacaoRepub | ConscienciaNegra | Natal

definition ConscienciaNegraFirstYear :: int where
  "ConscienciaNegraFirstYear = 2024"

definition fixedHolidays :: "((int \<times> int) \<times> holiday) list" where
  "fixedHolidays =
     [((1, 1), Confraternizacao), ((4, 21), Tiradentes), ((5, 1), DiaDoTrabalho),
      ((9, 7), Independencia), ((10, 12), NossaSraAparecida), ((11, 2), Finados),
      ((11, 15), ProclamacaoRepub), ((12, 25), Natal)]"

definition Easter :: "int \<Rightarrow> Date" where
  "Easter year =
     (let a = year smod 19;
          b = year sdiv 100;
          c = year smod 100;
          d = b sdiv 4;
          e = b smod 4;
          f = (b + 8) sdiv 25;
          g = (b - f + 1) sdiv 3;
          h = (19 * a + b - d - g + 15) smod 30;
          i = c sdiv 4;
          k = c smod 4;
          l = (32 + 2 * e + 2 * i - h - k) smod 7;
          m = (a + 11 * h + 22 * l) sdiv 451;
          month = (h + l - 7 * m + 114) sdiv 31;
          day = ((h + l - 7 * m + 114) smod 31) + 1
      in mk_date year month day)"

definition HolidayName :: "Date \<Rightarrow> holiday option" where
  "HolidayName d =
     (case map_of fixedHolidays (Month d, Day d) of
        Some name \<Rightarrow> Some name
      | None \<Rightarrow>
          if Month d = 11 \<and> Day d = 20 \<and> Year d \<ge> ConscienciaNegraFirstYear then Some ConscienciaNegra
          else let n = DaysBetween d (Easter (Year d))
               in if n = 48 \<or> n = 47 then Some Carnaval
                  else if n = 2 then Some SextaFeiraSanta
                  else if n = - 60 then Some CorpusChristi
                  else None)"

definition IsHoliday :: "Date \<Rightarrow> bool" where
  "IsHoliday d \<longleftrightarrow> HolidayName d \<noteq> None"

definition IsWeekend :: "Date \<Rightarrow> bool" where
  "IsWeekend d \<longleftrightarrow> Weekday d = 6 \<or> Weekday d = 0"

definition IsBusinessDay :: "Date \<Rightarrow> bool" where
  "IsBusinessDay d \<longleftrightarrow> \<not> IsWeekend d \<and> \<not> IsHoliday d"

fun roll :: "nat \<Rightarrow> Date \<Rightarrow> Date option" where
  "roll 0 d = None"
| "roll (Suc k) d = (if IsBusinessDay d then Some d else roll k (AddDays d 1))"

definition RollForward :: "Date \<Rightarrow> Date option" where
  "RollForward d = roll 15 d"

subsection \<open>Easter\<close>

text \<open>The variables of the algorithm for a year of the common era, with floor division.\<close>

lemma easter_h_nonneg: "0 \<le> (b::int) \<Longrightarrow> 0 \<le> b - b div 4 - (b - (b + 8) div 25 + 1) div 3 + 15"
  by linarith

lemma Easter_offset:
  assumes y: "0 \<le> y"
  shows "\<exists>h l m. 0 \<le> h + l - 7 * m \<and> h + l - 7 * m \<le> 34
    \<and> (32 + 2 * (y div 100 mod 4) + 2 * (y mod 100 div 4) - h - y mod 100 mod 4) mod 7 = l
    \<and> Easter y = (if h + l - 7 * m < 10 then mk_date y 3 (22 + (h + l - 7 * m))
                  else mk_date y 4 (h + l - 7 * m - 9))"
proof -
  define a where "a = y mod 19"
  define b where "b = y div 100"
  define c where "c = y mod 100"
  define h where "h = (19 * a + b - b div 4 - (b - (b + 8) div 25 + 1) div 3 + 15) mod 30"
  define l where "l = (32 + 2 * (b mod 4) + 2 * (c div 4) - h - c mod 4) mod 7"
  define m where "m = (a + 11 * h + 22 * l) div 451"
  define N where "N = h + l - 7 * m"
  have a: "0 \<le> a" "a \<le> 18" by (simp_all add: a_def)
  have b: "0 \<le> b" using y by (simp add: b_def pos_imp_zdiv_nonneg_iff)
  have c: "0 \<le> c" "c < 100" by (simp_all add: c_def)
  have h: "0 \<le> h" "h \<le> 29" by (simp_all add: h_def)
  have l: "0 \<le> l" "l \<le> 6" by (simp_all add: l_def)
  have m01: "m = 0 \<or> m = 1" using a h l unfolding m_def by linarith
  have N: "0 \<le> N" "N \<le> 34"
  proof -
    have "m = 1 \<Longrightarrow> 451 \<le> a + 11 * h + 22 * l" unfolding m_def using a h l by linarith
    then have "m = 1 \<Longrightarrow> 7 \<le> h + l" using a l by linarith
    then show "0 \<le> N" using m01 h l by (auto simp: N_def)
    have "m = 0 \<Longrightarrow> a + 11 * h + 22 * l < 451" unfolding m_def using a h l by linarith
    then have "m = 0 \<Longrightarrow> h + l \<le> 34" using a h l by linarith
    then show "N \<le> 34" using m01 h l by (auto simp: N_def)
  qed
  have E: "Easter y = mk_date y ((N + 114) div 31) ((N + 114) mod 31 + 1)"
  proof -
    have 1: "y smod 19 = a" "y sdiv 100 = b" "y smod 100 = c"
      using y by (simp_all add: a_def b_def c_def sdiv_nonneg smod_nonneg)
    have f: "0 \<le> (b + 8) div 25" "(b + 8) div 25 \<le> b + 1" using b by linarith+
    have 2: "b sdiv 4 = b div 4" "b smod 4 = b mod 4" "(b + 8) sdiv 25 = (b + 8) div 25"
      "c sdiv 4 = c div 4" "c smod 4 = c mod 4"
      using b c by (simp_all add: sdiv_nonneg smod_nonneg)
    have 3: "(b - (b + 8) div 25 + 1) sdiv 3 = (b - (b + 8) div 25 + 1) div 3"
      using f by (simp add: sdiv_nonneg)
    have 4: "(19 * a + b - b div 4 - (b - (b + 8) div 25 + 1) div 3 + 15) smod 30 = h"
      using easter_h_nonneg [OF b] a unfolding h_def by (intro smod_nonneg) linarith+
    have "c mod 4 < 4" "0 \<le> b mod 4" "0 \<le> c div 4" using c by (simp_all add: pos_imp_zdiv_nonneg_iff)
    then have 5: "(32 + 2 * (b mod 4) + 2 * (c div 4) - h - c mod 4) smod 7 = l"
      using h unfolding l_def by (intro smod_nonneg) linarith+
    have 6: "(a + 11 * h + 22 * l) sdiv 451 = m"
      using a h l unfolding m_def by (intro sdiv_nonneg) linarith+
    have 7: "(h + l - 7 * m + 114) sdiv 31 = (N + 114) div 31" "(h + l - 7 * m + 114) smod 31 = (N + 114) mod 31"
      using N unfolding N_def by (intro sdiv_nonneg smod_nonneg; linarith)+
    show ?thesis unfolding Easter_def Let_def 1 2 3 4 5 6 7 ..
  qed
  have "Easter y = (if N < 10 then mk_date y 3 (22 + N) else mk_date y 4 (N - 9))"
  proof (cases "N < 10")
    case True
    then have "(N + 114) div 31 = 3" "(N + 114) mod 31 = N + 21"
      using N by (intro euclid_div [where r = "N + 21"] euclid_mod [where x = 3]; simp)+
    with True E show ?thesis by simp
  next
    case False
    then have "(N + 114) div 31 = 4" "(N + 114) mod 31 = N - 10"
      using N by (intro euclid_div [where r = "N - 10"] euclid_mod [where x = 4]; simp)+
    with False E show ?thesis by simp
  qed
  with N show ?thesis unfolding N_def l_def b_def c_def by blast
qed

lemma day_number_Easter:
  assumes y: "0 \<le> y"
  shows "\<exists>N. 0 \<le> N \<and> N \<le> 34 \<and> valid_date (Easter y) \<and> Year (Easter y) = y
    \<and> mk_date y 3 22 \<le> Easter y \<and> Easter y \<le> mk_date y 4 25
    \<and> day_number (Easter y) = before_year y + leap_day y + 80 + N - 719162
    \<and> (day_number (Easter y) + 4) mod 7 = 0"
proof -
  obtain h l m where r: "0 \<le> h + l - 7 * m" "h + l - 7 * m \<le> 34"
    and l: "(32 + 2 * (y div 100 mod 4) + 2 * (y mod 100 div 4) - h - y mod 100 mod 4) mod 7 = l"
    and E: "Easter y = (if h + l - 7 * m < 10 then mk_date y 3 (22 + (h + l - 7 * m)) else mk_date y 4 (h + l - 7 * m - 9))"
    using Easter_offset [OF y] by blast
  define N where "N = h + l - 7 * m"
  note E = E [folded N_def] and r = r [folded N_def]
  have v: "valid_date (Easter y)" using r by (simp add: E valid_date_def month_length_def)
  have n: "day_number (Easter y) = before_year y + leap_day y + 80 + N - 719162"
    by (simp add: day_number_valid [OF v]) (simp add: E before_month_def)
  define D e i k where "D = y div 100 div 4" and "e = y div 100 mod 4" and "i = y mod 100 div 4" and "k = y mod 100 mod 4"
  define q where "q = (32 + 2 * e + 2 * i - h - k) div 7"
  have y100: "y = 100 * (y div 100) + y mod 100" "y div 100 = 4 * D + e" "y mod 100 = 4 * i + k"
    by (simp_all add: D_def e_def i_def k_def)
  have ek: "0 \<le> e" "e < 4" "0 \<le> i" "i < 25" "0 \<le> k" "k < 4" by (simp_all add: e_def i_def k_def)
  have y4: "y = 400 * D + 100 * e + 4 * i + k" using y100 by linarith
  have "y div 4 = 100 * D + 25 * e + i" using ek by (intro euclid_div [where r = k]) (simp_all add: y4)
  moreover have "y div 100 = 4 * D + e" by (rule y100)
  moreover have "y div 400 = D" using ek by (intro euclid_div [where r = "100 * e + 4 * i + k"]) (simp_all add: y4)
  ultimately have "before_year (y + 1) = 146097 * D + 36524 * e + 1461 * i + 365 * k"
    by (simp add: before_year_def) (simp add: y4)
  then have bef: "before_year y + leap_day y = 146097 * D + 36524 * e + 1461 * i + 365 * k - 365"
    using before_year_step [of y] by simp
  have "32 + 2 * e + 2 * i - h - k = 7 * q + l"
    unfolding q_def l [folded e_def i_def k_def, symmetric] by simp
  then have "day_number (Easter y) + 4 = 7 * (20871 * D + 5218 * e + 209 * i + 52 * k - q - m - 102773)"
    using n bef by (simp add: N_def)
  then have "(day_number (Easter y) + 4) mod 7 = 0" by (simp only: mod_mult_self1_is_0)
  moreover have "Year (Easter y) = y" by (simp add: E)
  moreover have "mk_date y 3 22 \<le> Easter y" "Easter y \<le> mk_date y 4 25"
    using r by (auto simp: E less_eq_Date_def less_Date_def)
  ultimately show ?thesis using r v n by (intro exI [of _ N] conjI)
qed

subsection \<open>At most two holidays in a row\<close>

definition fixed_holiday :: "Date \<Rightarrow> bool" where
  "fixed_holiday d \<longleftrightarrow> map_of fixedHolidays (Month d, Day d) \<noteq> None \<or> Month d = 11 \<and> Day d = 20"

definition easter_holiday :: "Date \<Rightarrow> bool" where
  "easter_holiday d \<longleftrightarrow> day_number (Easter (Year d)) - day_number d \<in> {48, 47, 2, - 60}"

lemma IsHoliday_cases: "IsHoliday d \<Longrightarrow> fixed_holiday d \<or> easter_holiday d"
  by (auto simp: IsHoliday_def HolidayName_def fixed_holiday_def easter_holiday_def Let_def DaysBetween_def
      max_def min_def split: option.splits if_splits)

lemma civil_same_month:
  assumes "valid_date d" "0 \<le> i" "Day d + i \<le> month_length (Year d) (Month d)"
  shows "civil (day_number d + i) = mk_date (Year d) (Month d) (Day d + i)"
proof -
  have v: "valid_date (mk_date (Year d) (Month d) (Day d + i))"
    using assms by (simp add: valid_date_def)
  have "day_number d + i = day_number (mk_date (Year d) (Month d) (Day d + i))"
    using day_number_valid [OF assms(1)] day_number_valid [OF v] by simp
  then show ?thesis by (simp add: civil_day_number [OF v])
qed

lemma fixed_holiday_iff:
  "fixed_holiday d \<longleftrightarrow> (Month d, Day d) \<in> {(1, 1), (4, 21), (5, 1), (9, 7), (10, 12), (11, 2), (11, 15), (11, 20), (12, 25)}"
  by (auto simp: fixed_holiday_def fixedHolidays_def)

lemma fixed_holidays_apart:
  assumes "fixed_holiday (civil n)" "0 < i" "i \<le> 4"
  shows "\<not> fixed_holiday (civil (n + i))"
proof -
  let ?d = "civil n"
  from assms(1) have md: "(Month ?d, Day ?d) \<in> {(1, 1), (4, 21), (5, 1), (9, 7), (10, 12), (11, 2), (11, 15), (11, 20), (12, 25)}"
    by (simp add: fixed_holiday_iff)
  then have "Day ?d + i \<le> month_length (Year ?d) (Month ?d)"
    using assms(3) by (auto simp: month_length_def)
  then have "civil (day_number ?d + i) = mk_date (Year ?d) (Month ?d) (Day ?d + i)"
    using assms(2) by (intro civil_same_month) simp_all
  then have "civil (n + i) = mk_date (Year ?d) (Month ?d) (Day ?d + i)" by simp
  moreover have "i = 1 \<or> i = 2 \<or> i = 3 \<or> i = 4" using assms(2,3) by linarith
  ultimately show ?thesis using md by (auto simp: fixed_holiday_iff)
qed

text \<open>The movable holidays fall between February and June, so neighbouring ones share a year.\<close>

lemma easter_holiday_range:
  assumes "easter_holiday (civil n)" "0 \<le> Year (civil n)"
  shows "before_year (Year (civil n)) + 32 \<le> n + 719162 \<and> n + 719162 \<le> before_year (Year (civil n)) + 175"
proof -
  obtain N where "0 \<le> N" "N \<le> 34"
    "day_number (Easter (Year (civil n))) = before_year (Year (civil n)) + leap_day (Year (civil n)) + 80 + N - 719162"
    using day_number_Easter [OF assms(2)] by blast
  moreover have "day_number (Easter (Year (civil n))) - n \<in> {48, 47, 2, - 60}"
    using assms(1) by (simp add: easter_holiday_def)
  ultimately show ?thesis using leap_day_cases [of "Year (civil n)"] by auto
qed

lemma modern_year: "first_modern_day \<le> n \<Longrightarrow> 2019 \<le> Year (civil n)"
proof (rule ccontr)
  assume n: "first_modern_day \<le> n" and "\<not> 2019 \<le> Year (civil n)"
  then have "civil n < mk_date 2019 1 1" by (simp add: less_Date_def)
  moreover have v: "valid_date (mk_date 2019 1 1)" by code_simp
  ultimately have "n < day_number (mk_date 2019 1 1)" using day_number_mono [OF valid_civil v] by simp
  moreover have "day_number (mk_date 2019 1 1) = 17897" by code_simp
  ultimately show False using n by (simp add: first_modern_day_def)
qed

lemma easter_holidays_same_year:
  assumes "easter_holiday (civil m)" "easter_holiday (civil n)" "m \<le> n" "n \<le> m + 4" "first_modern_day \<le> m"
  shows "Year (civil m) = Year (civil n)"
proof (rule ccontr)
  assume ne: "Year (civil m) \<noteq> Year (civil n)"
  have y: "0 \<le> Year (civil m)" "0 \<le> Year (civil n)" using modern_year [of m] modern_year [of n] assms(3,5) by simp_all
  have "civil m \<le> civil n" using assms(3) by simp
  then have "Year (civil m) < Year (civil n)" using ne by (auto simp: less_eq_Date_def less_Date_def)
  then have "before_year (Year (civil m)) + 365 + leap_day (Year (civil m)) \<le> before_year (Year (civil n))"
    by (rule before_year_mono)
  with easter_holiday_range [OF assms(1) y(1)] easter_holiday_range [OF assms(2) y(2)] assms(4)
    leap_day_bounds(1) [of "Year (civil m)"]
  show False by linarith
qed

lemma no_three_easter_holidays:
  assumes "easter_holiday (civil n)" "easter_holiday (civil (n + i))" "easter_holiday (civil (n + j))"
    and "0 < i" "i < j" "j \<le> 4" "first_modern_day \<le> n"
  shows False
proof -
  have "Year (civil (n + i)) = Year (civil n)" "Year (civil (n + j)) = Year (civil n)"
    using easter_holidays_same_year [of n "n + i"] easter_holidays_same_year [of n "n + j"] assms by simp_all
  with assms show False by (auto simp: easter_holiday_def)
qed

lemma no_five_holidays:
  assumes n: "first_modern_day \<le> n"
  shows "\<exists>i. 0 \<le> i \<and> i \<le> 4 \<and> \<not> IsHoliday (civil (n + i))"
proof (rule ccontr)
  assume "\<not> ?thesis"
  then have h: "fixed_holiday (civil (n + i)) \<or> easter_holiday (civil (n + i))" if "0 \<le> i" "i \<le> 4" for i
    using that IsHoliday_cases by blast
  have F: "\<not> fixed_holiday (civil (n + j))" if "fixed_holiday (civil (n + i))" "0 \<le> i" "i < j" "j \<le> 4" for i j
    using fixed_holidays_apart [of "n + i" "j - i"] that by simp
  have E: False if "easter_holiday (civil (n + i))" "easter_holiday (civil (n + j))" "easter_holiday (civil (n + k))"
    "0 \<le> i" "i < j" "j < k" "k \<le> 4" for i j k
    using no_three_easter_holidays [of "n + i" "j - i" "k - i"] that n by simp
  show False
    using h [of 0] h [of 1] h [of 2] h [of 3] h [of 4] F [of 0 1] F [of 0 2] F [of 0 3] F [of 0 4]
      F [of 1 2] F [of 1 3] F [of 1 4] F [of 2 3] F [of 2 4] F [of 3 4]
      E [of 0 1 2] E [of 1 2 3] E [of 2 3 4] E [of 0 3 4] E [of 0 1 4] E [of 0 1 3] E [of 0 2 3]
    by auto
qed

subsection \<open>Roll-forward\<close>

lemma week_has_business_day:
  assumes n: "first_modern_day \<le> n"
  shows "\<exists>i. 0 \<le> i \<and> i \<le> 10 \<and> IsBusinessDay (civil (n + i))"
proof -
  define j where "j = (1 - (n + 4)) mod 7"
  have j: "0 \<le> j" "j \<le> 6" by (simp_all add: j_def)
  have "(j + (n + 4)) mod 7 = (1 - (n + 4) + (n + 4)) mod 7" unfolding j_def by (rule mod_add_left_eq)
  then have mon: "(n + j + 4) mod 7 = 1" by (simp add: ac_simps)
  obtain i where i: "0 \<le> i" "i \<le> 4" "\<not> IsHoliday (civil (n + j + i))"
    using no_five_holidays [of "n + j"] n j by auto
  have "(n + j + i + 4) mod 7 = (1 + i) mod 7" using mon by (metis add.assoc add.commute mod_add_left_eq)
  then have "Weekday (civil (n + j + i)) = 1 + i"
    using n j i by (simp add: Weekday_modern)
  with i have "IsBusinessDay (civil (n + (j + i)))"
    by (simp add: IsBusinessDay_def IsWeekend_def add.assoc)
  with i j show ?thesis by (intro exI [of _ "j + i"]) simp
qed

lemma roll_first:
  assumes "first_modern_day \<le> n" "i < k" "IsBusinessDay (civil (n + int i))" "\<forall>j < i. \<not> IsBusinessDay (civil (n + int j))"
  shows "roll k (civil n) = Some (civil (n + int i))"
  using assms
proof (induction k arbitrary: n i)
  case (Suc k)
  show ?case
  proof (cases i)
    case 0
    with Suc.prems show ?thesis by simp
  next
    case (Suc i')
    have no: "\<not> IsBusinessDay (civil n)" using Suc.prems(4) Suc by force
    have next_day: "AddDays (civil n) 1 = civil (n + 1)" using Suc.prems(1) by (simp add: AddDays_nonneg)
    have "roll k (civil (n + 1)) = Some (civil (n + 1 + int i'))"
    proof (rule Suc.IH)
      show "\<forall>j < i'. \<not> IsBusinessDay (civil (n + 1 + int j))"
      proof (intro allI impI)
        fix j assume "j < i'"
        then have "Suc j < i" using Suc by simp
        with Suc.prems(4) have "\<not> IsBusinessDay (civil (n + int (Suc j)))" by blast
        then show "\<not> IsBusinessDay (civil (n + 1 + int j))" by (simp add: add.assoc)
      qed
    qed (use Suc.prems Suc in \<open>simp_all add: add.assoc\<close>)
    with no next_day show ?thesis by (simp add: Suc add.assoc)
  qed
qed simp

lemma roll_total:
  assumes n: "first_modern_day \<le> n"
  obtains i where "i \<le> 10" "RollForward (civil n) = Some (civil (n + int i))" "IsBusinessDay (civil (n + int i))"
    "\<forall>j < i. \<not> IsBusinessDay (civil (n + int j))"
proof -
  obtain z where z: "0 \<le> z" "z \<le> 10" "IsBusinessDay (civil (n + z))" using week_has_business_day [OF n] by blast
  let ?P = "\<lambda>i::nat. IsBusinessDay (civil (n + int i))"
  define i where "i = (LEAST i. ?P i)"
  have "?P (nat z)" using z by simp
  then have "?P i" "i \<le> nat z" unfolding i_def by (rule LeastI, rule Least_le)
  moreover have "\<forall>j < i. \<not> ?P j" unfolding i_def using not_less_Least by blast
  moreover have "RollForward (civil n) = Some (civil (n + int i))"
    unfolding RollForward_def using calculation z by (intro roll_first [OF n]) simp_all
  ultimately show ?thesis using that z by force
qed

text \<open>What \<open>RollForward\<close> promises its callers, for any day after the last transition.\<close>

lemma RollForward_spec:
  assumes d: "modern d"
  obtains e where "RollForward d = Some e" "modern e" "d \<le> e" "day_number e \<le> day_number d + 10"
    "IsBusinessDay e" "\<forall>f. valid_date f \<and> d \<le> f \<and> f < e \<longrightarrow> \<not> IsBusinessDay f"
proof -
  obtain i where i: "i \<le> 10" "RollForward (civil (day_number d)) = Some (civil (day_number d + int i))"
    "IsBusinessDay (civil (day_number d + int i))" "\<forall>j < i. \<not> IsBusinessDay (civil (day_number d + int j))"
    by (rule roll_total [OF modern_day [OF d]])
  let ?e = "civil (day_number d + int i)"
  have cd: "civil (day_number d) = d" by (rule civil_of_modern [OF d])
  show ?thesis
  proof (rule that [of ?e])
    show "d \<le> ?e" using civil_le_iff [of "day_number d" "day_number d + int i"] by (simp add: cd)
    show "\<forall>f. valid_date f \<and> d \<le> f \<and> f < ?e \<longrightarrow> \<not> IsBusinessDay f"
    proof (intro allI impI)
      fix f assume f: "valid_date f \<and> d \<le> f \<and> f < ?e"
      define j where "j = nat (day_number f - day_number d)"
      have "day_number d \<le> day_number f" using f d by (simp add: day_number_le_iff modern_def)
      moreover have "day_number f < day_number d + int i" using f day_number_mono [of f ?e] by simp
      ultimately have "j < i" "day_number d + int j = day_number f" by (simp_all add: j_def)
      with i(4) have "\<not> IsBusinessDay (civil (day_number f))" by metis
      with f show "\<not> IsBusinessDay f" by (simp add: civil_day_number)
    qed
  qed (use i d cd in \<open>simp_all add: modern_def\<close>)
qed


subsection \<open>Properties\<close>

text \<open>For every year the computed Easter is a Sunday between 22 March and 25 April of that
  year, the range the Gregorian calendar gives it.\<close>

theorem easter_is_a_sunday_in_range:
  assumes "0 \<le> y"
  shows "valid_date (Easter y) \<and> Year (Easter y) = y \<and> mk_date y 3 22 \<le> Easter y \<and> Easter y \<le> mk_date y 4 25 \<and>
    (day_number (Easter y) + 4) mod 7 = 0"
  using day_number_Easter [OF assms] by blast

theorem easter_is_a_sunday_in_range_witness:
  "valid_date (Easter 2026) \<and> Year (Easter 2026) = 2026 \<and> mk_date 2026 3 22 \<le> Easter 2026 \<and>
   Easter 2026 \<le> mk_date 2026 4 25 \<and> (day_number (Easter 2026) + 4) mod 7 = 0"
  by (rule easter_is_a_sunday_in_range) simp

text \<open>C32: Rolling forward a date of 18 February 2019 or later, when the time zone no longer changes, always
  ends, within ten days, on a business day, and on the first one on or after the date: for such
  dates the panic after fifteen days is not reached.\<close>

theorem roll_forward_to_business_day:
  assumes "modern d"
  shows "\<exists>e. RollForward d = Some e \<and> d \<le> e \<and> day_number e \<le> day_number d + 10 \<and> IsBusinessDay e \<and>
    (\<forall>f. valid_date f \<and> d \<le> f \<and> f < e \<longrightarrow> \<not> IsBusinessDay f)"
  by (rule RollForward_spec [OF assms]) blast

theorem roll_forward_to_business_day_witness:
  "\<exists>e. RollForward (mk_date 2026 4 3) = Some e \<and> mk_date 2026 4 3 \<le> e \<and> day_number e \<le> day_number (mk_date 2026 4 3) + 10 \<and>
    IsBusinessDay e \<and> (\<forall>f. valid_date f \<and> mk_date 2026 4 3 \<le> f \<and> f < e \<longrightarrow> \<not> IsBusinessDay f)"
proof -
  have "modern (mk_date 2026 4 3)" by code_simp
  then show ?thesis by (rule roll_forward_to_business_day)
qed

text \<open>On a day whose midnight Sao Paulo skipped when daylight saving started, civil dates
  do not hold: the text of 4 November 2018 parses to the day before, the day after the 3rd
  is the 3rd again, and rolling the 3rd, a Saturday, forward runs into the panic.\<close>

theorem skipped_midnight_breaks_dates:
  "Parse ''2018-11-04'' = Inr (mk_date 2018 11 3) \<and> AddDays (mk_date 2018 11 3) 1 = mk_date 2018 11 3 \<and>
   RollForward (mk_date 2018 11 3) = None"
  by code_simp

end
