(* ===== verification/Cycle.thy ===== *)
theory Cycle
  imports Holidays
begin

text \<open>
  \<open>api/internal/domain/billing/cycle.go\<close>: recurrences, the half-open billing periods they cut
  the calendar into, and due dates. \<open>Interval\<close> and \<open>BillingTiming\<close> are string types with
  named constants; their last constructor is any other string. \<open>Shift\<close> panics on an
  unknown interval, which is \<open>None\<close>; its products are of Go's 64-bit \<open>int\<close> and wrap, and nothing
  bounds a count from above, so the periods of a count or an index that makes them wrap do not
  tile anything. \<open>PeriodToInvoice\<close>, of the same file, is with the subscription it reads.
\<close>

datatype Interval = IntervalDay | IntervalWeek | IntervalMonth | IntervalYear | IntervalOther string

datatype BillingTiming = BillAdvance | BillArrears | TimingOther string

record Recurrence =
  RInterval :: Interval
  RCount :: int

datatype recurrence_error = ErrUnknownInterval | ErrRecurrenceCount

definition RecurrenceValidate :: "Recurrence \<Rightarrow> recurrence_error option" where
  "RecurrenceValidate r =
     (case RInterval r of
        IntervalOther _ \<Rightarrow> Some ErrUnknownInterval
      | _ \<Rightarrow> if RCount r < 1 then Some ErrRecurrenceCount else None)"

definition Shift :: "Recurrence \<Rightarrow> Date \<Rightarrow> int \<Rightarrow> Date option" where
  "Shift r anchor n =
     (let steps = wrap64 (RCount r * n)
      in case RInterval r of
           IntervalDay \<Rightarrow> Some (AddDays anchor steps)
         | IntervalWeek \<Rightarrow> Some (AddDays anchor (wrap64 (7 * steps)))
         | IntervalMonth \<Rightarrow> Some (AddMonths anchor steps)
         | IntervalYear \<Rightarrow> Some (AddYears anchor steps)
         | IntervalOther _ \<Rightarrow> None)"

record Period =
  Start :: Date
  End :: Date

definition PeriodAt :: "Recurrence \<Rightarrow> Date \<Rightarrow> int \<Rightarrow> Period option" where
  "PeriodAt r anchor n =
     (case Shift r anchor n of None \<Rightarrow> None
      | Some s \<Rightarrow> (case Shift r anchor (n + 1) of None \<Rightarrow> None
                   | Some e \<Rightarrow> Some \<lparr>Start = s, End = e\<rparr>))"

definition Days :: "Period \<Rightarrow> int" where
  "Days p = DaysBetween (Start p) (End p)"

definition Contains :: "Period \<Rightarrow> Date \<Rightarrow> bool" where
  "Contains p d \<longleftrightarrow> \<not> Before d (Start p) \<and> Before d (End p)"

definition DueDate :: "Period \<Rightarrow> BillingTiming \<Rightarrow> int \<Rightarrow> Date option" where
  "DueDate p timing netDays =
     (let base = (if timing = BillArrears then End p else Start p)
      in RollForward (AddDays base netDays))"

subsection \<open>Periods tile the calendar\<close>

text \<open>
  The interface between a recurrence and everything that files a date under a period: a
  sequence of boundaries that never stands still and passes every date.
\<close>

locale tiling =
  fixes boundary :: "'r \<Rightarrow> nat \<Rightarrow> 'd::linorder"
    and ok :: "'r \<Rightarrow> bool"
    and dom :: "'d \<Rightarrow> bool"
  assumes boundary_step: "ok r \<Longrightarrow> boundary r n < boundary r (Suc n)"
    and boundary_passes: "ok r \<Longrightarrow> dom d \<Longrightarrow> \<exists>n. d < boundary r n"
begin

lemma boundary_strict: "ok r \<Longrightarrow> m < n \<Longrightarrow> boundary r m < boundary r n"
  by (induction n) (auto simp: less_Suc_eq dest: boundary_step intro: less_trans)

lemma boundary_mono: "ok r \<Longrightarrow> m \<le> n \<Longrightarrow> boundary r m \<le> boundary r n"
  using boundary_strict [of r m n] by (cases "m = n") auto

lemma tile_exists:
  assumes "ok r" "dom d" "boundary r 0 \<le> d"
  shows "\<exists>n. boundary r n \<le> d \<and> d < boundary r (Suc n)"
proof -
  define k where "k = (LEAST n. d < boundary r n)"
  have k: "d < boundary r k" unfolding k_def using boundary_passes [OF assms(1,2)] by (rule LeastI_ex)
  with assms(3) have "k \<noteq> 0" by (metis not_le)
  then obtain n where n: "k = Suc n" by (cases k) auto
  then have "\<not> d < boundary r n" using not_less_Least [of n "\<lambda>n. d < boundary r n"] by (simp add: k_def)
  with k n have "boundary r n \<le> d \<and> d < boundary r (Suc n)" by simp
  then show ?thesis ..
qed

lemma tile_unique:
  assumes "ok r" "boundary r m \<le> d" "d < boundary r (Suc m)" "boundary r n \<le> d" "d < boundary r (Suc n)"
  shows "m = n"
proof (rule ccontr)
  assume "m \<noteq> n"
  then have "Suc m \<le> n \<or> Suc n \<le> m" by auto
  then show False using boundary_mono [OF assms(1)] assms by (meson leD order_trans)
qed

lemma exactly_one_tile:
  "ok r \<Longrightarrow> dom d \<Longrightarrow> boundary r 0 \<le> d \<Longrightarrow> \<exists>!n. boundary r n \<le> d \<and> d < boundary r (Suc n)"
  using tile_exists tile_unique by blast

end

text \<open>
  The recurrences that validate, of a count of at most ten thousand, anchored after the last transition
  of the time zone; and where their periods begin, in unbounded integers. Up to index one million
  none of the products of \<open>Shift\<close> wraps: they stay below a trillion.
\<close>

definition valid_cycle :: "Recurrence \<times> Date \<Rightarrow> bool" where
  "valid_cycle c \<longleftrightarrow> RecurrenceValidate (fst c) = None \<and> RCount (fst c) \<le> 10000 \<and> modern (snd c)"

definition cycle_boundary :: "Recurrence \<times> Date \<Rightarrow> nat \<Rightarrow> Date" where
  "cycle_boundary c n =
     (let steps = RCount (fst c) * int n
      in case RInterval (fst c) of
           IntervalDay \<Rightarrow> AddDays (snd c) steps
         | IntervalWeek \<Rightarrow> AddDays (snd c) (7 * steps)
         | IntervalMonth \<Rightarrow> AddMonths (snd c) steps
         | _ \<Rightarrow> AddMonths (snd c) (12 * steps))"

lemma valid_recurrence:
  "RecurrenceValidate r = None \<longleftrightarrow>
     (RInterval r = IntervalDay \<or> RInterval r = IntervalWeek \<or> RInterval r = IntervalMonth \<or> RInterval r = IntervalYear)
     \<and> 1 \<le> RCount r"
  by (auto simp: RecurrenceValidate_def split: Interval.splits if_splits)

lemma Shift_valid: "RecurrenceValidate r = None \<Longrightarrow> Shift r a n \<noteq> None"
  by (auto simp: valid_recurrence Shift_def Let_def)

lemma steps_bound:
  assumes "1 \<le> (c::int)" "c \<le> 10000" "n \<le> 1000000"
  shows "0 \<le> c * int n \<and> c * int n \<le> 10000000000"
proof -
  have "c * int n \<le> 10000 * 1000000" using assms by (intro mult_mono) simp_all
  then show ?thesis using assms(1) by simp
qed

lemma Shift_boundary:
  assumes v: "valid_cycle (r, a)" and n: "n \<le> 1000000"
  shows "Shift r a (int n) = Some (cycle_boundary (r, a) n)"
proof -
  have i: "RInterval r = IntervalDay \<or> RInterval r = IntervalWeek \<or> RInterval r = IntervalMonth \<or> RInterval r = IntervalYear"
    and b: "0 \<le> RCount r * int n \<and> RCount r * int n \<le> 10000000000"
    using v steps_bound [OF _ _ n, of "RCount r"] by (auto simp: valid_cycle_def valid_recurrence)
  have "wrap64 (RCount r * int n) = RCount r * int n" "wrap64 (7 * (RCount r * int n)) = 7 * (RCount r * int n)"
    "wrap64 (12 * (RCount r * int n)) = 12 * (RCount r * int n)"
    using b by (simp_all add: wrap64_id in64_def)
  then show ?thesis
    using i unfolding Shift_def cycle_boundary_def AddYears_def Let_def by auto
qed

lemma steps_mono: "1 \<le> (c::int) \<Longrightarrow> c * int n < c * int (Suc n)"
  by (simp add: distrib_left)

lemma AddDays_strict:
  assumes "modern a" "0 \<le> m" "m < n"
  shows "AddDays a m < AddDays a n"
  using assms by (simp add: AddDays_nonneg)

lemma cycle_boundary_step:
  assumes "valid_cycle c"
  shows "cycle_boundary c n < cycle_boundary c (Suc n)" and "modern (cycle_boundary c n)"
proof -
  obtain r a where c: "c = (r, a)" by force
  have r: "1 \<le> RCount r" and a: "modern a"
    and i: "RInterval r = IntervalDay \<or> RInterval r = IntervalWeek \<or> RInterval r = IntervalMonth \<or> RInterval r = IntervalYear"
    using assms by (auto simp: c valid_cycle_def valid_recurrence)
  note s = steps_mono [OF r, of n]
  have p: "0 \<le> RCount r * int n" using r by simp
  show "cycle_boundary c n < cycle_boundary c (Suc n)"
    using i s p a by (auto simp: c cycle_boundary_def Let_def
        intro!: AddDays_strict AddMonths_strict_mono)
  show "modern (cycle_boundary c n)"
    using i p a by (auto simp: c cycle_boundary_def Let_def
        intro!: modern_AddDays modern_AddMonths)
qed

lemma day_number_cycle_boundary:
  assumes "valid_cycle c"
  shows "day_number (cycle_boundary c 0) + int n \<le> day_number (cycle_boundary c n)"
proof (induction n)
  case (Suc n)
  have "day_number (cycle_boundary c n) < day_number (cycle_boundary c (Suc n))"
    using cycle_boundary_step [OF assms] by (intro day_number_mono) (auto dest: modern_valid)
  with Suc show ?case by simp
qed simp

lemma cycle_boundary_passes:
  assumes "valid_cycle c" "valid_date d"
  shows "\<exists>n. d < cycle_boundary c n"
proof -
  define n where "n = nat (day_number d - day_number (cycle_boundary c 0) + 1)"
  have "day_number d - day_number (cycle_boundary c 0) < int n" by (simp add: n_def)
  then have "day_number d < day_number (cycle_boundary c n)"
    using day_number_cycle_boundary [OF assms(1), of n] by linarith
  then show ?thesis
    using assms cycle_boundary_step(2) [OF assms(1)] by (auto simp: day_number_less_iff modern_valid)
qed

interpretation cycle: tiling cycle_boundary valid_cycle valid_date
  by unfold_locales (auto intro: cycle_boundary_step cycle_boundary_passes)

lemma cycle_boundary_0: "valid_cycle (r, a) \<Longrightarrow> cycle_boundary (r, a) 0 = a"
  by (auto simp: valid_cycle_def valid_recurrence cycle_boundary_def AddDays_0 AddMonths_0)

lemma PeriodAt_boundary:
  "valid_cycle (r, a) \<Longrightarrow> n < 1000000 \<Longrightarrow>
   PeriodAt r a (int n) = Some \<lparr>Start = cycle_boundary (r, a) n, End = cycle_boundary (r, a) (Suc n)\<rparr>"
  using Shift_boundary [of r a n] Shift_boundary [of r a "Suc n"] by (simp add: PeriodAt_def add.commute)

lemma Contains_iff: "Contains p d \<longleftrightarrow> Start p \<le> d \<and> d < End p"
  by (auto simp: Contains_def)


lemma boundary_index:
  assumes "valid_cycle (r, a)" "valid_date d" "cycle_boundary (r, a) n \<le> d"
  shows "int n \<le> day_number d - day_number a"
proof -
  have "day_number (cycle_boundary (r, a) n) \<le> day_number d"
    using assms(2,3) day_number_le_iff modern_valid [OF cycle_boundary_step(2) [OF assms(1)]] by blast
  then show ?thesis using day_number_cycle_boundary [OF assms(1), of n] cycle_boundary_0 [OF assms(1)] by simp
qed

subsection \<open>Properties\<close>

text \<open>C18: The periods of a valid recurrence tile the calendar from the anchor on: every date of the next
  hundred thousand days falls in exactly one of the first hundred thousand of them, each of those has
  at least one day, and each ends on the day the next starts. The anchor is 18 February 2019 or
  later, when the time zone no longer changes, and the count is at most ten thousand, so that no
  product wraps; nothing in the code bounds the count.\<close>

theorem periods_tile_the_calendar:
  assumes "RecurrenceValidate r = None" "RCount r \<le> 10000" "modern a"
    and "valid_date d" "a \<le> d" "day_number d < day_number a + 100000" "k < 100000"
  shows "(\<exists>!n. n < 100000 \<and> (\<exists>p. PeriodAt r a (int n) = Some p \<and> Contains p d)) \<and>
    (\<exists>p q. PeriodAt r a (int k) = Some p \<and> PeriodAt r a (int k + 1) = Some q \<and> Start p < End p \<and> End p = Start q)"
proof -
  have v: "valid_cycle (r, a)" using assms by (simp add: valid_cycle_def)
  let ?in = "\<lambda>n. cycle_boundary (r, a) n \<le> d \<and> d < cycle_boundary (r, a) (Suc n)"
  have one: "\<exists>!n. ?in n"
    using cycle.exactly_one_tile [OF v assms(4)] assms(5) cycle_boundary_0 [OF v] by simp
  moreover have "n < 100000" if "?in n" for n
    using boundary_index [OF v assms(4)] that assms(6) by fastforce
  ultimately have "\<exists>!n. n < 100000 \<and> ?in n" by blast
  moreover have "n < 100000 \<and> (\<exists>p. PeriodAt r a (int n) = Some p \<and> Contains p d) \<longleftrightarrow> n < 100000 \<and> ?in n" for n
    using PeriodAt_boundary [OF v, of n] by (auto simp: Contains_iff)
  ultimately have "\<exists>!n. n < 100000 \<and> (\<exists>p. PeriodAt r a (int n) = Some p \<and> Contains p d)" by simp
  moreover have "\<exists>p q. PeriodAt r a (int k) = Some p \<and> PeriodAt r a (int k + 1) = Some q \<and> Start p < End p \<and> End p = Start q"
  proof -
    have "k < 1000000" "Suc k < 1000000" using assms(7) by simp_all
    note p = PeriodAt_boundary [OF v this(1)] PeriodAt_boundary [OF v this(2)]
    have "int (Suc k) = int k + 1" by simp
    with p(2) have "PeriodAt r a (int k + 1) =
        Some \<lparr>Start = cycle_boundary (r, a) (Suc k), End = cycle_boundary (r, a) (Suc (Suc k))\<rparr>" by (simp only:)
    with p(1) show ?thesis using cycle.boundary_step [OF v, of k] by simp
  qed
  ultimately show ?thesis by blast
qed

theorem periods_tile_the_calendar_witness:
  "\<exists>!n. n < 100000 \<and> (\<exists>p. PeriodAt \<lparr>RInterval = IntervalMonth, RCount = 1\<rparr> (mk_date 2026 1 31) (int n) = Some p \<and>
     Contains p (mk_date 2026 2 28))"
proof -
  have "RecurrenceValidate \<lparr>RInterval = IntervalMonth, RCount = 1\<rparr> = None" "RCount \<lparr>RInterval = IntervalMonth, RCount = 1\<rparr> \<le> 10000"
    "modern (mk_date 2026 1 31)" "valid_date (mk_date 2026 2 28)" "mk_date 2026 1 31 \<le> mk_date 2026 2 28"
    "day_number (mk_date 2026 2 28) < day_number (mk_date 2026 1 31) + 100000" by code_simp+
  from periods_tile_the_calendar [OF this, of 0] show ?thesis by simp
qed

text \<open>Without a bound on the count the products do wrap: the fifth period of a recurrence of every \<open>2 ^ 62\<close>
  days, which validates, begins where the first did.\<close>

theorem unbounded_count_wraps:
  "RecurrenceValidate \<lparr>RInterval = IntervalDay, RCount = 2 ^ 62\<rparr> = None \<and>
   Shift \<lparr>RInterval = IntervalDay, RCount = 2 ^ 62\<rparr> a 4 = Shift \<lparr>RInterval = IntervalDay, RCount = 2 ^ 62\<rparr> a 0"
  by (simp add: RecurrenceValidate_def Shift_def wrap64_def)

text \<open>An invoice falls due on the first business day on or after its base date plus the net
  days, at most ten days later; the base is the period's end in arrears and its start in
  advance.\<close>

theorem due_date_is_business_day:
  assumes "modern (if timing = BillArrears then End p else Start p)" "0 \<le> netDays"
  shows "\<exists>e. DueDate p timing netDays = Some e \<and> IsBusinessDay e \<and>
    (let base = AddDays (if timing = BillArrears then End p else Start p) netDays
     in base \<le> e \<and> day_number e \<le> day_number base + 10 \<and>
        (\<forall>f. valid_date f \<and> base \<le> f \<and> f < e \<longrightarrow> \<not> IsBusinessDay f))"
  unfolding DueDate_def Let_def
  by (rule RollForward_spec [OF modern_AddDays [OF assms]]) blast

theorem due_date_is_business_day_witness:
  "\<exists>e. DueDate \<lparr>Start = mk_date 2026 1 1, End = mk_date 2026 2 1\<rparr> BillArrears 5 = Some e \<and> IsBusinessDay e"
proof -
  have "modern (if BillArrears = BillArrears then End \<lparr>Start = mk_date 2026 1 1, End = mk_date 2026 2 1\<rparr> else Start \<lparr>Start = mk_date 2026 1 1, End = mk_date 2026 2 1\<rparr>)"
    by code_simp
  from due_date_is_business_day [OF this, of 5] show ?thesis by (auto simp: Let_def)
qed

end
