(* ===== verification/Money.thy ===== *)
theory Money
  imports Prelude
begin

text \<open>
  \<open>api/internal/domain/billing/money.go\<close>: amounts in centavos, their Brazilian rendering and
  \<open>MulDiv\<close>, the one place billing rounds money. \<open>Cents\<close> is Go's \<open>int64\<close>: every sum and
  product of the domain is wrapped to 64 bits. A panic is \<open>None\<close>.
\<close>

type_synonym Cents = int

definition MaxChargeCents :: Cents where
  "MaxChargeCents = 1000000"

definition CurrencyBRL :: string where
  "CurrencyBRL = ''BRL''"

text \<open>The digits with a dot before every group of three counted from the right.\<close>

fun group_thousands :: "nat \<Rightarrow> nat \<Rightarrow> string \<Rightarrow> string" where
  "group_thousands len i [] = []"
| "group_thousands len i (r # rs) =
     (if i > 0 \<and> (len - i) mod 3 = 0 then [CHR ''.''] else []) @ r # group_thousands len (Suc i) rs"

definition CentsString :: "Cents \<Rightarrow> string" where
  "CentsString c =
     (let neg = c < 0;
          v = (if neg then wrap64 (- c) else c);
          units = v sdiv 100;
          frac = v smod 100;
          digits = itoa units
      in (if neg then ''-'' else '''') @ ''R$ '' @ group_thousands (length digits) 0 digits
         @ '','' @ itoa_pad 2 frac)"

definition absInt64 :: "int \<Rightarrow> int" where
  "absInt64 n = (if n < 0 then wrap64 (- n) else n)"

definition MulDiv :: "Cents \<Rightarrow> int \<Rightarrow> int \<Rightarrow> Cents option" where
  "MulDiv amount num den =
     (if den = 0 then None
      else let n = wrap64 (amount * num);
               negative = ((n < 0) \<noteq> (den < 0));
               a = absInt64 n;
               d = absInt64 den;
               q = wrap64 (wrap64 (a + d sdiv 2) sdiv d)
           in Some (if negative then wrap64 (- q) else q))"

subsection \<open>MulDiv\<close>

text \<open>
  The range in which the product and the rounding term fit in 64 bits: the contract the
  comment above \<open>MulDiv\<close> asks its callers to keep.
\<close>

definition muldiv_fits :: "Cents \<Rightarrow> int \<Rightarrow> int \<Rightarrow> bool" where
  "muldiv_fits amount num den \<longleftrightarrow> \<bar>amount * num\<bar> + \<bar>den\<bar> < 2 ^ 63"

definition round_half_away :: "int \<Rightarrow> int \<Rightarrow> int" where
  "round_half_away n d = sgn n * sgn d * ((\<bar>n\<bar> + \<bar>d\<bar> div 2) div \<bar>d\<bar>)"

lemma abs_fits: "\<bar>x\<bar> < 2 ^ 63 \<Longrightarrow> absInt64 x = \<bar>x\<bar>"
  by (auto simp: absInt64_def wrap64_id in64_def)

lemma MulDiv_round:
  assumes "den \<noteq> 0" "muldiv_fits amount num den"
  shows "MulDiv amount num den = Some (round_half_away (amount * num) den)"
proof -
  define n where "n = amount * num"
  have n: "\<bar>n\<bar> + \<bar>den\<bar> < 2 ^ 63" using assms(2) by (simp add: muldiv_fits_def n_def)
  then have "in64 n" unfolding in64_def by linarith
  then have "wrap64 n = n" by (rule wrap64_id)
  moreover have "absInt64 n = \<bar>n\<bar>" "absInt64 den = \<bar>den\<bar>" using n by (simp_all add: abs_fits)
  moreover have "\<bar>den\<bar> sdiv 2 = \<bar>den\<bar> div 2" by (simp add: sdiv_nonneg)
  moreover have s: "0 \<le> \<bar>n\<bar> + \<bar>den\<bar> div 2" "\<bar>n\<bar> + \<bar>den\<bar> div 2 < 2 ^ 63" using n by linarith+
  then have "wrap64 (\<bar>n\<bar> + \<bar>den\<bar> div 2) = \<bar>n\<bar> + \<bar>den\<bar> div 2" by (simp add: wrap64_id in64_def)
  moreover define q where "q = (\<bar>n\<bar> + \<bar>den\<bar> div 2) div \<bar>den\<bar>"
  have q: "0 \<le> q" "q < 2 ^ 63"
  proof -
    show "0 \<le> q" using s assms(1) by (simp add: q_def pos_imp_zdiv_nonneg_iff)
    have "q \<le> \<bar>n\<bar> + \<bar>den\<bar> div 2"
      using zdiv_mono2 [OF s(1), of 1 "\<bar>den\<bar>"] assms(1) by (simp add: q_def)
    then show "q < 2 ^ 63" using s by linarith
  qed
  then have "wrap64 q = q" "wrap64 (- q) = - q" by (simp_all add: wrap64_id in64_def)
  moreover have "(\<bar>n\<bar> + \<bar>den\<bar> div 2) sdiv \<bar>den\<bar> = q" using s by (simp add: q_def sdiv_nonneg)
  moreover have "n = 0 \<Longrightarrow> q = 0" using assms(1) by (auto simp: q_def div_eq_0_iff)
  ultimately show ?thesis using assms(1)
    unfolding MulDiv_def n_def [symmetric]
    by (auto simp: Let_def round_half_away_def q_def [symmetric] sgn_if)
qed

text \<open>Nearest, and away from zero on a tie: this determines the quotient.\<close>

lemma round_half_away_nearest:
  assumes "d \<noteq> 0"
  shows "2 * \<bar>round_half_away n d * d - n\<bar> \<le> \<bar>d\<bar>"
    and "2 * \<bar>round_half_away n d * d - n\<bar> = \<bar>d\<bar> \<Longrightarrow> \<bar>n\<bar> < \<bar>round_half_away n d * d\<bar>"
proof -
  define D where "D = \<bar>d\<bar>"
  define q where "q = (\<bar>n\<bar> + D div 2) div D"
  define r where "r = (\<bar>n\<bar> + D div 2) mod D"
  have D: "0 < D" using assms by (simp add: D_def)
  have e: "\<bar>n\<bar> + D div 2 = D * q + r" "0 \<le> r" "r < D" using D by (simp_all add: q_def r_def)
  have q0: "0 \<le> q" using D by (simp add: q_def pos_imp_zdiv_nonneg_iff)
  have h: "2 * (D div 2) = D - D mod 2" "0 \<le> D mod 2" "D mod 2 \<le> 1" by presburger+
  have prod: "round_half_away n d * d = sgn n * (q * D)"
    using assms by (simp add: round_half_away_def D_def [symmetric] q_def [symmetric] sgn_if) (auto simp: D_def)
  have diff: "\<bar>round_half_away n d * d - n\<bar> = \<bar>q * D - \<bar>n\<bar>\<bar>"
  proof (cases "n = 0")
    case True
    then have "q = 0" using D by (auto simp: q_def div_eq_0_iff)
    with True prod show ?thesis by simp
  qed (auto simp: prod sgn_if)
  have b: "- D \<le> 2 * (q * D - \<bar>n\<bar>)" "2 * (q * D - \<bar>n\<bar>) \<le> D" using e h by (simp_all add: mult.commute)
  then show "2 * \<bar>round_half_away n d * d - n\<bar> \<le> \<bar>d\<bar>" unfolding diff D_def [symmetric] by linarith
  assume tie: "2 * \<bar>round_half_away n d * d - n\<bar> = \<bar>d\<bar>"
  have "2 * (q * D - \<bar>n\<bar>) \<noteq> - D" using e h by (simp add: mult.commute)
  with tie have pos: "2 * (q * D - \<bar>n\<bar>) = D" unfolding diff D_def [symmetric] by linarith
  with D have "0 < 2 * (q * D - \<bar>n\<bar>)" by (simp only:)
  then have "\<bar>n\<bar> < q * D" by simp
  moreover have "n \<noteq> 0"
  proof
    assume "n = 0"
    then have "q = 0" using D by (auto simp: q_def div_eq_0_iff)
    with pos \<open>n = 0\<close> D show False by simp
  qed
  ultimately show "\<bar>n\<bar> < \<bar>round_half_away n d * d\<bar>" using q0 D by (auto simp: prod abs_mult sgn_if abs_of_nonneg)
qed

lemma round_half_away_minus: "round_half_away (- n) d = - round_half_away n d"
  by (simp add: round_half_away_def)

lemma round_half_away_0 [simp]: "round_half_away 0 d = 0"
  by (simp add: round_half_away_def)

lemma round_half_away_mono_nonneg:
  "0 < d \<Longrightarrow> 0 \<le> m \<Longrightarrow> m \<le> n \<Longrightarrow> round_half_away m d \<le> round_half_away n d"
  by (auto simp: round_half_away_def sgn_if pos_imp_zdiv_nonneg_iff intro: zdiv_mono1)

lemma round_half_away_mult [simp]: "0 < d \<Longrightarrow> round_half_away (k * d) d = k"
proof -
  assume d: "0 < d"
  have "(\<bar>k\<bar> * d + d div 2) div d = \<bar>k\<bar>" using d by simp
  with d show ?thesis by (simp add: round_half_away_def abs_mult sgn_mult mult_sgn_abs)
qed

text \<open>A share \<open>n / d\<close> of a non-negative amount, rounded, lies between nothing and all of it.\<close>

lemma round_half_away_share:
  assumes "0 < d" "0 \<le> k" "k \<le> d" "0 \<le> a"
  shows "0 \<le> round_half_away (a * k) d \<and> round_half_away (a * k) d \<le> a"
proof
  have ak: "0 \<le> a * k" "a * k \<le> a * d" using assms by (simp_all add: mult_left_mono)
  show "0 \<le> round_half_away (a * k) d"
    using round_half_away_mono_nonneg [OF assms(1), of 0 "a * k"] ak by simp
  show "round_half_away (a * k) d \<le> a"
    using round_half_away_mono_nonneg [OF assms(1) ak] assms(1) by simp
qed

subsection \<open>Rendering\<close>

lemma digits_group_thousands:
  "list_all is_digit ds \<Longrightarrow> filter is_digit (group_thousands len i ds) = ds"
  by (induction len i ds rule: group_thousands.induct) (auto simp: is_digit_def)

lemma filter_digits: "list_all is_digit s \<Longrightarrow> filter is_digit s = s"
  by (induction s) simp_all

lemma nat_of_digits_append:
  "nat_of_digits (s @ t) = nat_of_digits s * 10 ^ length t + nat_of_digits t"
proof (induction t rule: rev_induct)
  case (snoc c t)
  have "nat_of_digits (s @ t @ [c]) = 10 * nat_of_digits (s @ t) + digit_val c"
    using nat_of_digits_snoc [of "s @ t" c] by simp
  with snoc show ?case by (simp add: algebra_simps)
qed simp

text \<open>
  Reading the digits of a rendered amount gives its magnitude in centavos, and the sign is
  the only thing before the currency symbol.
\<close>

lemma CentsString_digits:
  assumes "\<bar>c\<bar> < 2 ^ 63"
  shows "nat_of_digits (filter is_digit (CentsString c)) = nat \<bar>c\<bar>"
    and "take 1 (CentsString c) = ''-'' \<longleftrightarrow> c < 0"
proof -
  define v where "v = \<bar>c\<bar>"
  have v: "0 \<le> v" "(if c < 0 then wrap64 (- c) else c) = v"
    using assms by (auto simp: v_def wrap64_id in64_def)
  define u f where "u = v div 100" and "f = v mod 100"
  have uf: "0 \<le> u" "0 \<le> f" "f < 10 ^ 2" "v = 100 * u + f"
    using v by (simp_all add: u_def f_def pos_imp_zdiv_nonneg_iff)
  have s: "CentsString c = (if c < 0 then ''-'' else '''') @ ''R$ ''
      @ group_thousands (length (itoa u)) 0 (itoa u) @ '','' @ itoa_pad 2 f"
    using v by (simp add: CentsString_def Let_def u_def f_def sdiv_nonneg smod_nonneg)
  have d: "list_all is_digit (itoa u)" using uf by (simp add: itoa_def digits_all_digits)
  have p: "list_all is_digit (itoa_pad 2 f)" "length (itoa_pad 2 f) = 2" "nat_of_digits (itoa_pad 2 f) = nat f"
  proof -
    have "nat f < 10 ^ 2" using uf by simp
    then have "length (digits_of_nat (nat f)) \<le> 2" by (rule length_digits_le) simp
    then show "length (itoa_pad 2 f) = 2" using uf by (simp add: itoa_pad_def length_zero_pad)
  qed (use uf in \<open>simp_all add: itoa_pad_def zero_pad_digits digits_all_digits\<close>)
  have "filter is_digit (CentsString c) = itoa u @ itoa_pad 2 f"
    using d p(1) by (simp add: s digits_group_thousands filter_digits) (simp add: is_digit_def)
  then have "nat_of_digits (filter is_digit (CentsString c)) = nat u * 100 + nat f"
    using p uf by (simp add: nat_of_digits_append itoa_def)
  then show "nat_of_digits (filter is_digit (CentsString c)) = nat \<bar>c\<bar>"
    using uf by (simp add: v_def [symmetric] nat_add_distrib nat_mult_distrib)
  show "take 1 (CentsString c) = ''-'' \<longleftrightarrow> c < 0" by (simp add: s)
qed


subsection \<open>Properties\<close>

text \<open>\<open>MulDiv\<close> returns the quotient rounded to the nearest cent: off by at most half the
  denominator, an exact half rounded away from zero, and the same magnitude for a credit as
  for the charge of the same size.\<close>

theorem muldiv_rounds_to_nearest:
  assumes "den \<noteq> 0" "muldiv_fits amount num den"
  shows "\<exists>q. MulDiv amount num den = Some q \<and> MulDiv (- amount) num den = Some (- q) \<and>
    2 * \<bar>q * den - amount * num\<bar> \<le> \<bar>den\<bar> \<and>
    (2 * \<bar>q * den - amount * num\<bar> = \<bar>den\<bar> \<longrightarrow> \<bar>amount * num\<bar> < \<bar>q * den\<bar>)"
proof -
  have "muldiv_fits (- amount) num den" using assms(2) by (simp add: muldiv_fits_def)
  then show ?thesis
    using MulDiv_round [OF assms] MulDiv_round [OF assms(1), of "- amount" num]
      round_half_away_nearest [OF assms(1), of "amount * num"] round_half_away_minus [of "amount * num" den]
    by simp
qed

theorem muldiv_rounds_to_nearest_witness:
  "\<exists>q. MulDiv 4990 10 31 = Some q \<and> MulDiv (- 4990) 10 31 = Some (- q) \<and>
    2 * \<bar>q * 31 - 4990 * 10\<bar> \<le> \<bar>31\<bar> \<and> (2 * \<bar>q * 31 - 4990 * 10\<bar> = \<bar>31\<bar> \<longrightarrow> \<bar>4990 * 10\<bar> < \<bar>q * 31\<bar>)"
  by (rule muldiv_rounds_to_nearest) (simp_all add: muldiv_fits_def)

text \<open>An amount printed for a customer shows exactly its cents: the digits of the text read
  as one number are the absolute amount, and it starts with a minus sign exactly when the
  amount is negative.\<close>

theorem cents_text_shows_amount:
  assumes "\<bar>c\<bar> < 2 ^ 63"
  shows "nat_of_digits (filter is_digit (CentsString c)) = nat \<bar>c\<bar> \<and> (take 1 (CentsString c) = ''-'' \<longleftrightarrow> c < 0)"
  using CentsString_digits [OF assms] by simp

theorem cents_text_shows_amount_witness:
  "nat_of_digits (filter is_digit (CentsString (- 123456789))) = nat \<bar>- 123456789\<bar> \<and>
   (take 1 (CentsString (- 123456789)) = ''-'' \<longleftrightarrow> - 123456789 < (0::int))"
  by (rule cents_text_shows_amount) simp

end
