(* ===== verification/Proration.thy ===== *)
theory Proration
  imports Cycle Money
begin

text \<open>
  \<open>api/internal/domain/billing/proration.go\<close>: charging for part of a period. \<open>Prorate\<close> calls
  \<open>MulDiv\<close> only with the positive length of the period as denominator, so the panic of
  \<open>MulDiv\<close> is not reached and \<open>the\<close> reads its result.
\<close>

definition Prorate :: "Cents \<Rightarrow> Period \<Rightarrow> Date \<Rightarrow> Date \<Rightarrow> Cents" where
  "Prorate full period src dst =
     (let total = Days period
      in if total \<le> 0 then 0
         else let src = (if Before src (Start period) then Start period else src);
                  dst = (if After dst (End period) then End period else dst);
                  covered = DaysBetween src dst
              in if covered \<le> 0 then 0
                 else if covered \<ge> total then full
                 else the (MulDiv full covered total))"

definition ProrateUsed :: "Cents \<Rightarrow> Period \<Rightarrow> Date \<Rightarrow> Cents" where
  "ProrateUsed full period at = Prorate full period (Start period) at"

definition ProrateRemaining :: "Cents \<Rightarrow> Period \<Rightarrow> Date \<Rightarrow> Cents" where
  "ProrateRemaining full period at = wrap64 (full - ProrateUsed full period at)"

record Swap =
  Credit :: Cents
  Charge :: Cents
  RemainingDays :: int
  PeriodDays :: int

definition Net :: "Swap \<Rightarrow> Cents" where
  "Net s = wrap64 (Charge s - Credit s)"

definition ProrateSwap :: "Cents \<Rightarrow> Cents \<Rightarrow> Period \<Rightarrow> Date \<Rightarrow> Swap" where
  "ProrateSwap oldFull newFull period at =
     (let at = (if Before at (Start period) then Start period else at);
          at = (if After at (End period) then End period else at);
          remaining = DaysBetween at (End period);
          remaining = (if remaining < 0 then 0 else remaining)
      in \<lparr>Credit = ProrateRemaining oldFull period at,
          Charge = ProrateRemaining newFull period at,
          RemainingDays = remaining,
          PeriodDays = Days period\<rparr>)"

text \<open>
  Amounts up to a hundred billion reais keep every product of a proration within 64 bits,
  whatever the period: a day count never exceeds 106751.
\<close>

definition money_range :: "Cents \<Rightarrow> bool" where
  "money_range c \<longleftrightarrow> \<bar>c\<bar> \<le> 10 ^ 13"

lemma money_range_in64: "money_range c \<Longrightarrow> in64 c"
  by (auto simp: money_range_def in64_def)

lemma Days_bounds: "- 106751 \<le> Days p" "Days p \<le> 106751"
  by (simp_all add: Days_def DaysBetween_def)

lemma prorate_fits:
  assumes "money_range full" "0 < k" "k < n" "n \<le> 106751"
  shows "muldiv_fits full k n"
proof -
  have "\<bar>full * k\<bar> \<le> 10 ^ 13 * 106751"
    using assms unfolding abs_mult money_range_def by (intro mult_mono) auto
  then show ?thesis using assms unfolding muldiv_fits_def by simp
qed

text \<open>The proration as the header comment states it: days covered over days of the period.\<close>

definition covered_days :: "Period \<Rightarrow> Date \<Rightarrow> Date \<Rightarrow> int" where
  "covered_days p src dst = DaysBetween (max src (Start p)) (min dst (End p))"

lemma Prorate_spec:
  assumes "money_range full"
  shows "Prorate full p src dst =
    (if Days p \<le> 0 \<or> covered_days p src dst \<le> 0 then 0
     else if covered_days p src dst \<ge> Days p then full
     else round_half_away (full * covered_days p src dst) (Days p))"
proof -
  have m: "(if Before src (Start p) then Start p else src) = max src (Start p)"
    "(if After dst (End p) then End p else dst) = min dst (End p)"
    by (auto simp: max_def min_def)
  have "the (MulDiv full k (Days p)) = round_half_away (full * k) (Days p)" if "0 < k" "k < Days p" for k
    using MulDiv_round [OF _ prorate_fits [OF assms that Days_bounds(2)]] that by simp
  then show ?thesis
    unfolding Prorate_def Let_def m covered_days_def [symmetric] by simp
qed

lemma Prorate_bounds:
  assumes "money_range full" "0 \<le> full"
  shows "0 \<le> Prorate full p src dst" "Prorate full p src dst \<le> full"
  using assms(2) round_half_away_share [of "Days p" "covered_days p src dst" full]
  by (auto simp: Prorate_spec [OF assms(1)])

lemma DaysBetween_mono_right: "valid_date d \<Longrightarrow> valid_date e \<Longrightarrow> d \<le> e \<Longrightarrow> DaysBetween a d \<le> DaysBetween a e"
  using day_number_le_iff [of d e] by (auto simp: DaysBetween_def max_def min_def)

lemma ProrateUsed_mono:
  assumes full: "money_range full" "0 \<le> full"
    and v: "valid_date d" "valid_date e" "valid_date (End p)" and le: "d \<le> e"
  shows "ProrateUsed full p d \<le> ProrateUsed full p e"
proof -
  define k where "k = (\<lambda>x. covered_days p (Start p) x)"
  have kmono: "k d \<le> k e"
    unfolding k_def covered_days_def using v le
    by (intro DaysBetween_mono_right) (auto simp: min_def)
  have "round_half_away (full * k d) (Days p) \<le> round_half_away (full * k e) (Days p)"
    if "0 < k d" "0 < Days p"
    using that kmono full(2) by (intro round_half_away_mono_nonneg) (simp_all add: mult_left_mono)
  moreover have "round_half_away (full * k d) (Days p) \<le> full" if "0 < k d" "k d < Days p"
    using round_half_away_share [of "Days p" "k d" full] that full(2) by simp
  moreover have "0 \<le> round_half_away (full * k e) (Days p)" if "0 < k e" "k e < Days p"
    using round_half_away_share [of "Days p" "k e" full] that full(2) by simp
  ultimately show ?thesis
    using kmono full(2) unfolding ProrateUsed_def Prorate_spec [OF full(1)] k_def [symmetric] by auto
qed

lemma used_plus_remaining:
  "in64 full \<Longrightarrow> wrap64 (ProrateUsed full p at + ProrateRemaining full p at) = full"
  by (simp add: ProrateRemaining_def wrap64_id)


lemma used_remaining_range:
  assumes "money_range full" "0 \<le> full"
  shows "ProrateUsed full p at + ProrateRemaining full p at = full"
    and "0 \<le> ProrateRemaining full p at" "ProrateRemaining full p at \<le> full"
    and "0 \<le> ProrateUsed full p at" "ProrateUsed full p at \<le> full"
proof -
  have b: "0 \<le> ProrateUsed full p at" "ProrateUsed full p at \<le> full"
    using Prorate_bounds [OF assms] by (simp_all add: ProrateUsed_def)
  have "in64 (full - ProrateUsed full p at)"
    using b assms by (auto simp: money_range_def intro!: in64_bound)
  then have "ProrateRemaining full p at = full - ProrateUsed full p at"
    by (simp add: ProrateRemaining_def wrap64_id)
  with b show "ProrateUsed full p at + ProrateRemaining full p at = full"
    "0 \<le> ProrateRemaining full p at" "ProrateRemaining full p at \<le> full"
    "0 \<le> ProrateUsed full p at" "ProrateUsed full p at \<le> full" by simp_all
qed

subsection \<open>Properties\<close>

text \<open>A prorated amount is the full price times the days covered over the days of the
  period, rounded once to the nearest cent (half away from zero), with the covered days cut
  to the period: nothing outside it, the full price when it covers the whole period.\<close>

theorem prorate_is_rounded_share:
  assumes "money_range full"
  shows "Prorate full p src dst =
    (if Days p \<le> 0 \<or> covered_days p src dst \<le> 0 then 0
     else if covered_days p src dst \<ge> Days p then full
     else round_half_away (full * covered_days p src dst) (Days p))"
  using assms by (rule Prorate_spec)

theorem prorate_is_rounded_share_witness:
  "Prorate 4990 \<lparr>Start = mk_date 2026 1 1, End = mk_date 2026 2 1\<rparr> (mk_date 2025 12 25) (mk_date 2026 1 11) = round_half_away (4990 * 10) 31"
proof -
  have "money_range 4990" by code_simp
  note prorate_is_rounded_share [OF this, of "\<lparr>Start = mk_date 2026 1 1, End = mk_date 2026 2 1\<rparr>" "mk_date 2025 12 25" "mk_date 2026 1 11"]
  moreover have "covered_days \<lparr>Start = mk_date 2026 1 1, End = mk_date 2026 2 1\<rparr> (mk_date 2025 12 25) (mk_date 2026 1 11) = 10"
    "Days \<lparr>Start = mk_date 2026 1 1, End = mk_date 2026 2 1\<rparr> = 31" by code_simp+
  ultimately show ?thesis by simp
qed

text \<open>C12: At any date the used and the remaining part of a price add up to exactly the price,
  cent for cent, both lie between zero and the price, and the used part never shrinks as the
  date moves forward.\<close>

theorem proration_splits_exactly:
  assumes "money_range full" "0 \<le> full" "valid_date d" "valid_date e" "valid_date (End p)" "d \<le> e"
  shows "ProrateUsed full p d + ProrateRemaining full p d = full \<and>
    0 \<le> ProrateUsed full p d \<and> 0 \<le> ProrateRemaining full p d \<and>
    ProrateUsed full p d \<le> ProrateUsed full p e"
  using used_remaining_range [OF assms(1,2)] ProrateUsed_mono [OF assms] by blast

theorem proration_splits_exactly_witness:
  "ProrateUsed 4990 \<lparr>Start = mk_date 2026 1 1, End = mk_date 2026 2 1\<rparr> (mk_date 2026 1 11) +
   ProrateRemaining 4990 \<lparr>Start = mk_date 2026 1 1, End = mk_date 2026 2 1\<rparr> (mk_date 2026 1 11) = 4990"
proof -
  have "money_range 4990" "(0::int) \<le> 4990" "valid_date (mk_date 2026 1 11)"
    "valid_date (End \<lparr>Start = mk_date 2026 1 1, End = mk_date 2026 2 1\<rparr>)" "mk_date 2026 1 11 \<le> mk_date 2026 1 11"
    by code_simp+
  then show ?thesis using proration_splits_exactly by blast
qed

end
