(* ===== verification/StateMachine.thy ===== *)
theory StateMachine
  imports Prelude
begin

text \<open>
  \<open>api/internal/domain/billing/statemachine.go\<close>: the causes and event types of the domain
  and \<open>apply\<close>, the one lookup every entity's \<open>Transition\<close> goes through. A transition table is
  the source's map from edges to rules. The locale \<open>lifecycle\<close> states what an entity's
  \<open>Transition\<close> promises on top of its table; the invoice, the subscription, the payment
  attempt and the checkout session interpret it.
\<close>

datatype EventType =
    EventInvoiceCreated | EventInvoiceFinalized | EventInvoicePaid | EventInvoicePaymentFailed
  | EventInvoiceUncollectible | EventInvoiceVoided
  | EventSubscriptionCreated | EventSubscriptionActivated | EventSubscriptionPastDue
  | EventSubscriptionRecovered | EventSubscriptionRenewed | EventSubscriptionPaused
  | EventSubscriptionResumed | EventSubscriptionCanceled | EventSubscriptionUpdated
  | EventPaymentAttempted | EventPaymentSucceeded | EventPaymentFailed | EventPaymentAbandoned
  | EventCheckoutCreated | EventCheckoutCompleted | EventCheckoutExpired | EventCheckoutCanceled
  | EventCreditNoteCreated | EventPayoutDone | EventPayoutFailed | EventPing

datatype Cause =
    CauseScheduler | CauseManual | CauseManualPayment | CauseWalletWebhook | CauseReconciliation
  | CausePaymentFailed | CauseDunningExhausted | CauseTrialEnded | CauseInvoicePaid
  | CauseActivationExpired | CauseRenewal | CauseScheduleCancel | CauseExpired | CauseCustomer
  | CauseNothingDue | CauseByokConfirmed | CauseByokDisconnected | CauseOther string

datatype transition_error = ErrInvalidTransition | ErrCauseNotAllowed

record rule =
  rule_event :: EventType
  rule_causes :: "Cause list"

type_synonym 's table = "(('s \<times> 's) \<times> rule list) list"

definition mk_rule :: "EventType \<Rightarrow> Cause list \<Rightarrow> rule" where
  "mk_rule e cs = \<lparr>rule_event = e, rule_causes = cs\<rparr>"

definition rule_allows :: "Cause \<Rightarrow> rule \<Rightarrow> bool" where
  "rule_allows c r \<longleftrightarrow> rule_causes r = [] \<or> c \<in> set (rule_causes r)"

definition apply_table :: "'s table \<Rightarrow> 's \<Rightarrow> 's \<Rightarrow> Cause \<Rightarrow> (transition_error, EventType) result" where
  "apply_table table src dst cause =
     (case map_of table (src, dst) of
        None \<Rightarrow> Inl ErrInvalidTransition
      | Some rules \<Rightarrow>
          (case find (rule_allows cause) rules of
             Some r \<Rightarrow> Inr (rule_event r)
           | None \<Rightarrow> Inl ErrCauseNotAllowed))"

text \<open>The causes that constitute an actual, reconciled payment (\<open>invoice.go\<close>).\<close>

definition paymentCauses :: "Cause list" where
  "paymentCauses = [CauseWalletWebhook, CauseReconciliation, CauseManualPayment, CauseByokConfirmed]"

text \<open>The statuses no edge leaves.\<close>

definition terminal :: "'s table \<Rightarrow> 's \<Rightarrow> bool" where
  "terminal table s \<longleftrightarrow> s \<notin> fst ` fst ` set table"

lemma apply_table_edge:
  "apply_table table src dst cause = Inr e \<Longrightarrow>
   \<exists>rules r. ((src, dst), rules) \<in> set table \<and> r \<in> set rules \<and> rule_allows cause r \<and> rule_event r = e"
  by (auto simp: apply_table_def find_Some_iff split: option.splits dest!: map_of_SomeD) (metis nth_mem)

lemma apply_table_terminal: "terminal table src \<Longrightarrow> apply_table table src dst cause = Inl ErrInvalidTransition"
proof -
  assume "terminal table src"
  then have "map_of table (src, dst) = None" by (force simp: terminal_def map_of_eq_None_iff)
  then show ?thesis by (simp add: apply_table_def)
qed

subsection \<open>The contract of an entity's Transition\<close>

text \<open>
  An entity moves to the status asked for exactly when its table allows the edge for the
  cause, emits the one event of that edge, and is handed back unchanged otherwise: a
  refusal is an error value and carries no entity. \<open>guard\<close> is the entity's own extra check.
\<close>

locale lifecycle =
  fixes table :: "'s table"
    and status :: "'e \<Rightarrow> 's"
    and guard :: "'e \<Rightarrow> Cause \<Rightarrow> bool"
    and transition :: "'e \<Rightarrow> 's \<Rightarrow> Cause \<Rightarrow> (transition_error, 'e \<times> EventType list) result"
  assumes guarded: "\<not> guard e c \<Longrightarrow> transition e s c = Inl ErrCauseNotAllowed"
    and refused: "guard e c \<Longrightarrow> apply_table table (status e) s c = Inl x \<Longrightarrow> transition e s c = Inl x"
    and accepted: "guard e c \<Longrightarrow> apply_table table (status e) s c = Inr ev \<Longrightarrow>
      \<exists>e'. transition e s c = Inr (e', [ev]) \<and> status e' = s"
begin

lemma transition_Inr:
  assumes "transition e s c = Inr (e', evs)"
  shows "guard e c \<and> status e' = s \<and> (\<exists>ev. evs = [ev] \<and> apply_table table (status e) s c = Inr ev)"
proof -
  have g: "guard e c" using assms guarded by fastforce
  then show ?thesis
    using assms refused [OF g, of s] accepted [OF g, of s]
    by (cases "apply_table table (status e) s c") fastforce+
qed

lemma transition_edge:
  "transition e s c = Inr (e', evs) \<Longrightarrow> \<exists>rules r. ((status e, s), rules) \<in> set table \<and> r \<in> set rules
     \<and> rule_allows c r \<and> evs = [rule_event r]"
  using transition_Inr apply_table_edge by fastforce

lemma terminal_stuck:
  "terminal table (status e) \<Longrightarrow> \<exists>x. transition e s c = Inl x"
  using apply_table_terminal guarded refused by metis

lemma one_event: "transition e s c = Inr (e', evs) \<Longrightarrow> length evs = 1"
  using transition_Inr by fastforce

end

text \<open>
  A history of attempted moves: an accepted one replaces the entity, a refused one leaves
  it. Every entity's runs are this fold.
\<close>

fun run_transitions ::
  "('e \<Rightarrow> 's \<Rightarrow> Cause \<Rightarrow> (transition_error, 'e \<times> EventType list) result) \<Rightarrow> 'e \<Rightarrow> ('s \<times> Cause) list \<Rightarrow> 'e" where
  "run_transitions tr e [] = e"
| "run_transitions tr e ((s, c) # ms) =
     (case tr e s c of Inl _ \<Rightarrow> run_transitions tr e ms | Inr (e', _) \<Rightarrow> run_transitions tr e' ms)"

lemma run_invariant_moves:
  assumes "P e" "\<And>e s c e' evs. P e \<Longrightarrow> (s, c) \<in> set ms \<Longrightarrow> tr e s c = Inr (e', evs) \<Longrightarrow> P e'"
  shows "P (run_transitions tr e ms)"
  using assms
proof (induction ms arbitrary: e)
  case (Cons m ms)
  obtain s c where m: "m = (s, c)" by force
  have "P e'" if "tr e s c = Inr (e', evs)" for e' evs
    by (rule Cons.prems(2) [OF Cons.prems(1) _ that]) (simp add: m)
  moreover have IH: "P e0 \<Longrightarrow> P (run_transitions tr e0 ms)" for e0
    by (erule Cons.IH) (erule Cons.prems(2), simp_all)
  ultimately show ?case
    using IH [OF Cons.prems(1)] by (cases "tr e s c") (auto simp: m)
qed simp

lemma run_invariant:
  "P e \<Longrightarrow> (\<And>e s c e' evs. P e \<Longrightarrow> tr e s c = Inr (e', evs) \<Longrightarrow> P e') \<Longrightarrow> P (run_transitions tr e ms)"
  by (rule run_invariant_moves) auto

context lifecycle
begin

lemma run_terminal: "terminal table (status e) \<Longrightarrow> run_transitions transition e ms = e"
proof (induction ms)
  case (Cons m ms)
  then show ?case using terminal_stuck [of e "fst m" "snd m"] by (cases m) (auto split: sum.splits)
qed simp

text \<open>
  If a run ends in a status it did not start in, some accepted move of the run entered that
  status along an edge of the table, from an entity the same run reaches.
\<close>

lemma run_enters:
  "status (run_transitions transition e ms) = s \<Longrightarrow> status e \<noteq> s \<Longrightarrow>
   \<exists>pre c post e' evs. ms = pre @ (s, c) # post \<and>
     transition (run_transitions transition e pre) s c = Inr (e', evs)"
proof (induction ms arbitrary: e)
  case (Cons m ms)
  obtain t c where m: "m = (t, c)" by force
  show ?case
  proof (cases "transition e t c")
    case (Inl x)
    with Cons m obtain pre c' post e' evs where
      "ms = pre @ (s, c') # post" "transition (run_transitions transition e pre) s c' = Inr (e', evs)"
      by fastforce
    with Inl m show ?thesis by (intro exI [of _ "m # pre"] exI [of _ c'] exI [of _ post]) auto
  next
    case (Inr r)
    obtain e1 evs1 where r: "r = (e1, evs1)" by force
    show ?thesis
    proof (cases "status e1 = s")
      case True
      then have "t = s" using transition_Inr [of e t c e1 evs1] Inr r by simp
      with Inr r m show ?thesis by (intro exI [of _ "[]"] exI [of _ c] exI [of _ ms]) auto
    next
      case False
      with Cons Inr r m obtain pre c' post e' evs where
        "ms = pre @ (s, c') # post" "transition (run_transitions transition e1 pre) s c' = Inr (e', evs)"
        by fastforce
      with Inr r m show ?thesis by (intro exI [of _ "m # pre"] exI [of _ c'] exI [of _ post]) auto
    qed
  qed
qed simp

end

end
