(* ===== verification/Text.thy ===== *)
theory Text
  imports Prelude
begin

text \<open>
  The operations of Go's \<open>strings\<close> and \<open>utf8\<close> packages the domain uses. A Go string is a
  sequence of bytes, modelled as a \<open>string\<close> of eight-bit characters; ranging over one
  decodes UTF-8, an invalid byte counting as one rune of its own.
\<close>

subsection \<open>utf8.RuneCountInString\<close>

definition byte_in :: "nat \<Rightarrow> nat \<Rightarrow> char \<Rightarrow> bool" where
  "byte_in lo hi c \<longleftrightarrow> lo \<le> (of_char c :: nat) \<and> (of_char c :: nat) \<le> hi"

text \<open>The bytes the first rune takes; an invalid or truncated encoding takes one.\<close>

definition rune_width :: "string \<Rightarrow> nat" where
  "rune_width s =
     (case s of [] \<Rightarrow> 0
      | b # r \<Rightarrow>
        let cont = byte_in 128 191;
            two = (\<lambda>lo hi. 1 \<le> length r \<and> byte_in lo hi (r ! 0));
            three = (\<lambda>lo hi. 2 \<le> length r \<and> byte_in lo hi (r ! 0) \<and> cont (r ! 1));
            four = (\<lambda>lo hi. 3 \<le> length r \<and> byte_in lo hi (r ! 0) \<and> cont (r ! 1) \<and> cont (r ! 2))
        in if byte_in 194 223 b then (if two 128 191 then 2 else 1)
           else if byte_in 224 224 b then (if three 160 191 then 3 else 1)
           else if byte_in 237 237 b then (if three 128 159 then 3 else 1)
           else if byte_in 225 239 b then (if three 128 191 then 3 else 1)
           else if byte_in 240 240 b then (if four 144 191 then 4 else 1)
           else if byte_in 241 243 b then (if four 128 191 then 4 else 1)
           else if byte_in 244 244 b then (if four 128 143 then 4 else 1)
           else 1)"

function rune_count :: "string \<Rightarrow> nat" where
  "rune_count s = (if s = [] then 0 else Suc (rune_count (drop (max 1 (rune_width s)) s)))"
  by pat_completeness auto
termination
  by (relation "measure length") auto

declare rune_count.simps [simp del]

lemma rune_count_le: "rune_count s \<le> length s"
proof (induction s rule: rune_count.induct)
  case (1 s)
  show ?case
  proof (cases "s = []")
    case False
    with 1 have "rune_count (drop (max 1 (rune_width s)) s) \<le> length s - max 1 (rune_width s)" by simp
    with False show ?thesis by (simp add: rune_count.simps [of s] Suc_le_eq) (cases s; auto)
  qed (simp add: rune_count.simps)
qed

text \<open>The runes of a string, each as the bytes that encode it.\<close>

function runes :: "string \<Rightarrow> string list" where
  "runes s = (if s = [] then [] else take (max 1 (rune_width s)) s # runes (drop (max 1 (rune_width s)) s))"
  by pat_completeness auto
termination
  by (relation "measure length") auto

declare runes.simps [simp del]

lemma concat_runes [simp]: "concat (runes s) = s"
  by (induction s rule: runes.induct) (subst runes.simps, simp)

lemma length_runes: "length (runes s) = rune_count s"
  by (induction s rule: runes.induct) (subst runes.simps, subst rune_count.simps, simp)

text \<open>\<open>unicode.IsSpace\<close> on the encoding of a rune.\<close>

definition bytes :: "nat list \<Rightarrow> string" where
  "bytes ns = map char_of ns"

definition space_runes :: "string list" where
  "space_runes =
     map (\<lambda>n. bytes [n]) [9, 10, 11, 12, 13, 32] @
     [bytes [194, 133], bytes [194, 160], bytes [225, 154, 128]] @
     map (\<lambda>n. bytes [226, 128, n]) [128, 129, 130, 131, 132, 133, 134, 135, 136, 137, 138, 168, 169, 175] @
     [bytes [226, 129, 159], bytes [227, 128, 128]]"

definition TrimSpace :: "string \<Rightarrow> string" where
  "TrimSpace s =
     concat (rev (dropWhile (\<lambda>r. r \<in> set space_runes)
       (rev (dropWhile (\<lambda>r. r \<in> set space_runes) (runes s)))))"

text \<open>Where a string begins and ends with a printable character and is in ASCII, nothing is trimmed.\<close>

lemma runes_ascii: "list_all (byte_in 0 127) s \<Longrightarrow> runes s = map (\<lambda>c. [c]) s"
proof (induction s)
  case (Cons c s)
  then have "rune_width (c # s) = 1" by (simp add: rune_width_def byte_in_def)
  then show ?case using Cons by (subst runes.simps) simp
qed (simp add: runes.simps)

lemma printable_no_space: "byte_in 33 127 c \<Longrightarrow> [c] \<notin> set space_runes"
  by (auto simp: space_runes_def bytes_def byte_in_def)

definition trimmed :: "string \<Rightarrow> bool" where
  "trimmed s \<longleftrightarrow> s = [] \<or> list_all (byte_in 0 127) s \<and> byte_in 33 127 (hd s) \<and> byte_in 33 127 (last s)"

lemma TrimSpace_trimmed: "trimmed s \<Longrightarrow> TrimSpace s = s"
proof (cases "s = []")
  case False
  assume "trimmed s"
  with False have t: "list_all (byte_in 0 127) s" "byte_in 33 127 (hd s)" "byte_in 33 127 (last s)" by (simp_all add: trimmed_def)
  have keep: "dropWhile P xs = xs" if "xs \<noteq> []" "\<not> P (hd xs)" for P and xs :: "string list"
    using that by (cases xs) auto
  have 1: "dropWhile (\<lambda>r. r \<in> set space_runes) (map (\<lambda>c. [c]) s) = map (\<lambda>c. [c]) s"
    using False t(2) printable_no_space by (intro keep) (auto simp: hd_map)
  have 2: "dropWhile (\<lambda>r. r \<in> set space_runes) (rev (map (\<lambda>c. [c]) s)) = rev (map (\<lambda>c. [c]) s)"
    using False t(3) printable_no_space by (intro keep) (auto simp: hd_rev last_map)
  show ?thesis by (simp add: TrimSpace_def runes_ascii [OF t(1)] 1 2 del: rev_map)
qed (simp add: TrimSpace_def runes.simps)

lemma TrimSpace_code [code]:
  "TrimSpace s = (if trimmed s then s
     else concat (rev (dropWhile (\<lambda>r. r \<in> set space_runes) (rev (dropWhile (\<lambda>r. r \<in> set space_runes) (runes s))))))"
  by (simp add: TrimSpace_trimmed) (simp add: TrimSpace_def)

lemma rune_count_code [code]:
  "rune_count s = (if list_all (byte_in 0 127) s then length s
     else if s = [] then 0 else Suc (rune_count (drop (max 1 (rune_width s)) s)))"
proof -
  have "rune_count s = length s" if "list_all (byte_in 0 127) s"
    using that by (simp add: length_runes [symmetric] runes_ascii)
  then show ?thesis by (simp add: rune_count.simps [of s])
qed

definition TrimPrefix :: "string \<Rightarrow> string \<Rightarrow> string" where
  "TrimPrefix s pre = (if take (length pre) s = pre then drop (length pre) s else s)"

subsection \<open>Keys joined by a colon\<close>

lemma split_at_last_colon:
  assumes "CHR '':'' \<notin> set b" "CHR '':'' \<notin> set d" "a @ '':'' @ b = c @ '':'' @ d"
  shows "a = c \<and> b = d"
proof -
  have "takeWhile (\<lambda>x. x \<noteq> CHR '':'') (rev (x @ '':'' @ y)) = rev y" if "CHR '':'' \<notin> set y" for x y
    using that by (auto simp: takeWhile_append)
  from this [OF assms(1)] this [OF assms(2)] assms(3) have "b = d" by (metis rev_rev_ident)
  with assms(3) show ?thesis by simp
qed


end
