(* ===== verification/Metadata.thy ===== *)
theory Metadata
  imports Text "HOL-Library.AList"
begin

text \<open>
  \<open>api/internal/domain/billing/metadata.go\<close>: the opaque key/value map attached to customers,
  subscriptions, invoices, products, prices, checkout sessions and credit notes. A Go map
  is an association list with distinct keys; \<open>nil\<close> and the empty map are both \<open>[]\<close> (the
  code never tells them apart). Iteration order is not specified in Go: \<open>MetadataValidate\<close>
  answers the one sentinel whatever key it meets first, and \<open>map_of_MetadataApply\<close> shows
  that \<open>MetadataApply\<close> does not depend on the order of the patch.
\<close>

subsection \<open>The map and its rules\<close>

type_synonym Metadata = "(string \<times> string) list"

definition MetadataMaxKeys :: nat where
  "MetadataMaxKeys = 50"

definition MetadataMaxKeyLen :: nat where
  "MetadataMaxKeyLen = 40"

definition MetadataMaxValueLen :: nat where
  "MetadataMaxValueLen = 500"

datatype metadata_error = ErrMetadataInvalid

definition MetadataValidate :: "Metadata \<Rightarrow> metadata_error option" where
  "MetadataValidate m =
     (if length m > MetadataMaxKeys then Some ErrMetadataInvalid
      else if list_ex (\<lambda>(k, v). k = '''' \<or> rune_count k > MetadataMaxKeyLen
                                \<or> rune_count v > MetadataMaxValueLen) m
      then Some ErrMetadataInvalid
      else None)"

definition MetadataClone :: "Metadata \<Rightarrow> Metadata" where
  "MetadataClone m = m"

fun apply_patch :: "Metadata \<Rightarrow> Metadata \<Rightarrow> Metadata" where
  "apply_patch [] out = out"
| "apply_patch ((k, v) # patch) out =
     apply_patch patch (if v = '''' then AList.delete k out else AList.update k v out)"

definition MetadataApply :: "Metadata \<Rightarrow> Metadata \<Rightarrow> (metadata_error, Metadata) result" where
  "MetadataApply m patch =
     (if patch = [] then Inr (MetadataClone m)
      else let out = apply_patch patch (MetadataClone m)
           in case MetadataValidate out of Some e \<Rightarrow> Inl e | None \<Rightarrow> Inr out)"

text \<open>A Go map never holds a key twice.\<close>

definition wf_metadata :: "Metadata \<Rightarrow> bool" where
  "wf_metadata m \<longleftrightarrow> distinct (map fst m)"

lemma wf_apply_patch: "wf_metadata out \<Longrightarrow> wf_metadata (apply_patch patch out)"
  by (induction patch out rule: apply_patch.induct)
    (auto simp: wf_metadata_def distinct_delete distinct_update)

lemma map_of_apply_patch:
  "distinct (map fst patch) \<Longrightarrow> map_of (apply_patch patch out) k =
     (case map_of patch k of None \<Rightarrow> map_of out k | Some v \<Rightarrow> if v = '''' then None else Some v)"
proof (induction patch out rule: apply_patch.induct)
  case (2 k' v patch out)
  have "map_of patch k' = None" using "2.prems" by (simp add: map_of_eq_None_iff)
  with 2 show ?case by (auto simp: delete_conv' update_conv' split: option.splits)
qed simp

lemma map_of_MetadataApply:
  assumes "wf_metadata patch" "MetadataApply m patch = Inr out"
  shows "map_of out k =
    (case map_of patch k of None \<Rightarrow> map_of m k | Some v \<Rightarrow> if v = '''' then None else Some v)"
proof (cases "patch = []")
  case False
  with assms(2) have "out = apply_patch patch m"
    by (simp add: MetadataApply_def MetadataClone_def Let_def split: option.splits)
  with assms(1) show ?thesis by (simp add: map_of_apply_patch wf_metadata_def)
qed (use assms(2) in \<open>simp add: MetadataApply_def MetadataClone_def\<close>)

lemma MetadataApply_wf: "wf_metadata m \<Longrightarrow> MetadataApply m patch = Inr out \<Longrightarrow> wf_metadata out"
  using wf_apply_patch [of m patch]
  by (auto simp: MetadataApply_def MetadataClone_def Let_def split: if_splits option.splits)

lemma MetadataApply_valid:
  "MetadataValidate m = None \<Longrightarrow> MetadataApply m patch = Inr out \<Longrightarrow> MetadataValidate out = None"
  by (auto simp: MetadataApply_def MetadataClone_def Let_def split: if_splits option.splits)

subsection \<open>Properties\<close>

text \<open>Applying a metadata patch keeps what the patch does not name, sets what it names and
  removes what it sets to the empty string, and the result is a well-formed map within the
  limits; a result outside them is refused.\<close>

theorem metadata_patch:
  assumes "wf_metadata m" "wf_metadata patch" "MetadataValidate m = None" "MetadataApply m patch = Inr out"
  shows "wf_metadata out \<and> MetadataValidate out = None \<and>
    map_of out k = (case map_of patch k of None \<Rightarrow> map_of m k | Some v \<Rightarrow> if v = '''' then None else Some v)"
  using assms MetadataApply_wf MetadataApply_valid map_of_MetadataApply by blast

theorem metadata_patch_witness:
  "map_of [(''a'', ''1'')] ''b'' = (case map_of [(''b'', '''')] ''b'' of None \<Rightarrow> map_of [(''a'', ''1''), (''b'', ''2'')] ''b''
     | Some v \<Rightarrow> if v = '''' then None else Some v)"
proof -
  have "wf_metadata [(''a'', ''1''), (''b'', ''2'')]" "wf_metadata [(''b'', '''')]"
    "MetadataValidate [(''a'', ''1''), (''b'', ''2'')] = None"
    "MetadataApply [(''a'', ''1''), (''b'', ''2'')] [(''b'', '''')] = Inr [(''a'', ''1'')]" by code_simp+
  from metadata_patch [OF this] show ?thesis by blast
qed

end
