(* ===== verification/Subscription.thy ===== *)
theory Subscription
  imports Cycle StateMachine Metadata
begin

text \<open>
  \<open>api/internal/domain/billing/subscription.go\<close> and \<open>PeriodToInvoice\<close> of \<open>cycle.go\<close>: the
  recurring agreement, its lifecycle table, the periods it derives from its anchor and the
  walk that files a date under one of them. \<open>None\<close> is the panic of \<open>Shift\<close> on a recurrence
  that was never validated.
\<close>

datatype SubscriptionStatus =
    SubscriptionIncomplete | SubscriptionTrialing | SubscriptionActive | SubscriptionPastDue
  | SubscriptionPaused | SubscriptionCanceled | SubscriptionStatusOther string

definition subscriptionTransitions :: "SubscriptionStatus table" where
  "subscriptionTransitions =
     [((SubscriptionIncomplete, SubscriptionActive),
         [mk_rule EventSubscriptionActivated [CauseInvoicePaid]]),
      ((SubscriptionIncomplete, SubscriptionCanceled),
         [mk_rule EventSubscriptionCanceled [CauseActivationExpired, CauseManual, CauseCustomer]]),
      ((SubscriptionTrialing, SubscriptionActive),
         [mk_rule EventSubscriptionActivated [CauseTrialEnded, CauseInvoicePaid]]),
      ((SubscriptionTrialing, SubscriptionPastDue),
         [mk_rule EventSubscriptionPastDue [CauseTrialEnded, CausePaymentFailed]]),
      ((SubscriptionTrialing, SubscriptionPaused),
         [mk_rule EventSubscriptionPaused [CauseManual]]),
      ((SubscriptionTrialing, SubscriptionCanceled),
         [mk_rule EventSubscriptionCanceled [CauseManual, CauseCustomer]]),
      ((SubscriptionActive, SubscriptionActive),
         [mk_rule EventSubscriptionRenewed [CauseRenewal],
          mk_rule EventSubscriptionUpdated [CauseScheduleCancel, CauseManual, CauseCustomer, CauseScheduler]]),
      ((SubscriptionActive, SubscriptionPastDue),
         [mk_rule EventSubscriptionPastDue [CausePaymentFailed, CauseScheduler]]),
      ((SubscriptionActive, SubscriptionPaused),
         [mk_rule EventSubscriptionPaused [CauseManual]]),
      ((SubscriptionActive, SubscriptionCanceled),
         [mk_rule EventSubscriptionCanceled [CauseManual, CauseCustomer, CauseScheduler]]),
      ((SubscriptionPastDue, SubscriptionActive),
         [mk_rule EventSubscriptionRecovered [CauseInvoicePaid]]),
      ((SubscriptionPastDue, SubscriptionCanceled),
         [mk_rule EventSubscriptionCanceled [CauseDunningExhausted, CauseManual, CauseCustomer]]),
      ((SubscriptionPaused, SubscriptionActive),
         [mk_rule EventSubscriptionResumed [CauseManual]]),
      ((SubscriptionPaused, SubscriptionCanceled),
         [mk_rule EventSubscriptionCanceled [CauseManual, CauseCustomer]])]"

record PendingChange =
  PcPriceIDs :: "string list"
  PcAt :: Date

record Subscription =
  SubID :: string
  SubOrganizationID :: string
  SubLivemode :: bool
  SubCustomerID :: string
  SubStatus :: SubscriptionStatus
  SubRecurrence :: Recurrence
  SubTiming :: BillingTiming
  SubAnchor :: Date
  SubPeriodIndex :: int
  SubNetDays :: int
  SubSince :: string
  SubTrialEnd :: Date
  SubCancelAtPeriodEnd :: bool
  SubCancelReason :: string
  SubPendingChange :: "PendingChange option"
  SubOwnerKey :: string
  SubMetadata :: Metadata

definition CurrentPeriod :: "Subscription \<Rightarrow> Period option" where
  "CurrentPeriod s = PeriodAt (SubRecurrence s) (SubAnchor s) (SubPeriodIndex s)"

text \<open>The indices the walk visits, in its order: back and forward by one, then by two.\<close>

definition walk_candidates :: "int \<Rightarrow> int list" where
  "walk_candidates index = concat (map (\<lambda>offset. [index - offset, index + offset]) [1..24])"

fun walk :: "Recurrence \<Rightarrow> Date \<Rightarrow> Date \<Rightarrow> Period \<Rightarrow> int list \<Rightarrow> Period option" where
  "walk r anchor d current [] = Some current"
| "walk r anchor d current (n # ns) =
     (if n < 0 then walk r anchor d current ns
      else case PeriodAt r anchor n of
             None \<Rightarrow> None
           | Some p \<Rightarrow> if Contains p d then Some p else walk r anchor d current ns)"

definition PeriodContaining :: "Subscription \<Rightarrow> Date \<Rightarrow> Period option" where
  "PeriodContaining s d =
     (case CurrentPeriod s of
        None \<Rightarrow> None
      | Some current \<Rightarrow>
          if Contains current d then Some current
          else walk (SubRecurrence s) (SubAnchor s) d current (walk_candidates (SubPeriodIndex s)))"

definition NextPeriod :: "Subscription \<Rightarrow> Period option" where
  "NextPeriod s = PeriodAt (SubRecurrence s) (SubAnchor s) (SubPeriodIndex s + 1)"

definition PeriodToInvoice :: "Subscription \<Rightarrow> Period option" where
  "PeriodToInvoice s = (if SubTiming s = BillArrears then CurrentPeriod s else NextPeriod s)"

definition IsEntitled :: "Subscription \<Rightarrow> bool" where
  "IsEntitled s =
     (case SubStatus s of
        SubscriptionTrialing \<Rightarrow> True
      | SubscriptionActive \<Rightarrow> True
      | SubscriptionPastDue \<Rightarrow> True
      | _ \<Rightarrow> False)"

definition SubscriptionTransition ::
  "Subscription \<Rightarrow> SubscriptionStatus \<Rightarrow> Cause \<Rightarrow> (transition_error, Subscription \<times> EventType list) result" where
  "SubscriptionTransition s dst cause =
     (case apply_table subscriptionTransitions (SubStatus s) dst cause of
        Inl err \<Rightarrow> Inl err
      | Inr event \<Rightarrow>
          let s = s\<lparr>SubStatus := dst\<rparr>;
              s = (if event = EventSubscriptionRenewed
                   then s\<lparr>SubPeriodIndex := SubPeriodIndex s + 1\<rparr> else s)
          in Inr (s, [event]))"

interpretation subscription: lifecycle subscriptionTransitions SubStatus "\<lambda>_ _. True" SubscriptionTransition
  by unfold_locales (simp_all add: SubscriptionTransition_def Let_def)

subsection \<open>The lifecycle\<close>

lemma subscription_terminal:
  "terminal subscriptionTransitions st \<longleftrightarrow>
     st = SubscriptionCanceled \<or> (\<exists>x. st = SubscriptionStatusOther x)"
  by (cases st) (simp_all add: terminal_def subscriptionTransitions_def)

lemma subscription_renewal:
  "apply_table subscriptionTransitions st dst c = Inr EventSubscriptionRenewed \<longleftrightarrow>
     st = SubscriptionActive \<and> dst = SubscriptionActive \<and> c = CauseRenewal"
proof
  assume "apply_table subscriptionTransitions st dst c = Inr EventSubscriptionRenewed"
  from apply_table_edge [OF this] show "st = SubscriptionActive \<and> dst = SubscriptionActive \<and> c = CauseRenewal"
    by (auto simp: subscriptionTransitions_def mk_rule_def rule_allows_def)
qed (simp add: apply_table_def subscriptionTransitions_def mk_rule_def rule_allows_def)

lemma SubscriptionTransition_frame:
  assumes "SubscriptionTransition s dst c = Inr (s', evs)"
  shows "s' = s\<lparr>SubStatus := dst, SubPeriodIndex := SubPeriodIndex s + (if c = CauseRenewal then 1 else 0)\<rparr>"
proof -
  obtain ev where ev: "apply_table subscriptionTransitions (SubStatus s) dst c = Inr ev"
    using subscription.transition_Inr [OF assms] by blast
  have "c \<noteq> CauseRenewal" if "ev \<noteq> EventSubscriptionRenewed"
    using apply_table_edge [OF ev] that
    by (auto simp: subscriptionTransitions_def mk_rule_def rule_allows_def)
  moreover have "c = CauseRenewal" if "ev = EventSubscriptionRenewed"
    using ev that subscription_renewal by blast
  ultimately show ?thesis using assms ev by (auto simp: SubscriptionTransition_def Let_def)
qed

text \<open>Until an invoice is paid, an \<open>INCOMPLETE\<close> subscription can only be cancelled.\<close>

lemma incomplete_without_payment:
  assumes "SubStatus s \<in> {SubscriptionIncomplete, SubscriptionCanceled}" "c \<noteq> CauseInvoicePaid"
    and "SubscriptionTransition s dst c = Inr (s', evs)"
  shows "SubStatus s' \<in> {SubscriptionIncomplete, SubscriptionCanceled}"
  using subscription.transition_edge [OF assms(3)] subscription.transition_Inr [OF assms(3)] assms(1,2)
  by (auto simp: subscriptionTransitions_def mk_rule_def rule_allows_def)

subsection \<open>The walk that files a date\<close>

text \<open>A subscription whose periods are those of a valid cycle, before its hundred thousandth period.\<close>

definition valid_subscription :: "Subscription \<Rightarrow> bool" where
  "valid_subscription s \<longleftrightarrow>
     valid_cycle (SubRecurrence s, SubAnchor s) \<and> 0 \<le> SubPeriodIndex s \<and> SubPeriodIndex s \<le> 100000"

lemma walk_candidates_iff:
  "n \<in> set (walk_candidates i) \<longleftrightarrow> n \<noteq> i \<and> \<bar>n - i\<bar> \<le> 24"
proof
  assume r: "n \<noteq> i \<and> \<bar>n - i\<bar> \<le> 24"
  then have "\<bar>n - i\<bar> \<in> set [1..24]" by (simp only: set_upto) auto
  moreover have "n = i - \<bar>n - i\<bar> \<or> n = i + \<bar>n - i\<bar>" by linarith
  ultimately show "n \<in> set (walk_candidates i)" unfolding walk_candidates_def by (auto simp del: upto.simps upto_rec_numeral)
qed (auto simp: walk_candidates_def)

lemma walk_some:
  "RecurrenceValidate r = None \<Longrightarrow> \<exists>p. PeriodAt r a n = Some p"
  using Shift_valid [of r a n] Shift_valid [of r a "n + 1"] by (auto simp: PeriodAt_def)

lemma walk_spec:
  assumes "RecurrenceValidate r = None"
  shows "\<exists>p. walk r a d current ns = Some p \<and>
     (Contains p d \<and> (\<exists>n \<in> set ns. 0 \<le> n \<and> PeriodAt r a n = Some p) \<or>
      p = current \<and> (\<forall>n \<in> set ns. 0 \<le> n \<longrightarrow> (\<forall>q. PeriodAt r a n = Some q \<longrightarrow> \<not> Contains q d)))"
proof (induction ns)
  case (Cons n ns)
  obtain p where "PeriodAt r a n = Some p" using walk_some [OF assms] by blast
  with Cons show ?case by auto
qed simp


lemma PeriodAt_Contains_iff:
  "valid_cycle (r, a) \<Longrightarrow> n < 1000000 \<Longrightarrow> PeriodAt r a (int n) = Some p \<Longrightarrow>
   Contains p d \<longleftrightarrow> cycle_boundary (r, a) n \<le> d \<and> d < cycle_boundary (r, a) (Suc n)"
  by (auto simp: PeriodAt_boundary Contains_iff)

text \<open>Two periods of one cycle that contain a common date are the same period.\<close>

lemma PeriodAt_unique:
  assumes "valid_cycle (r, a)" "0 \<le> m" "m < 1000000" "0 \<le> n" "n < 1000000" "PeriodAt r a m = Some p" "PeriodAt r a n = Some q"
    and "Contains p d" "Contains q d"
  shows "m = n"
proof -
  obtain m' n' where mn: "m = int m'" "n = int n'" using assms(2,4) by (meson nonneg_int_cases)
  then have b: "m' < 1000000" "n' < 1000000" using assms(3,5) by simp_all
  have "cycle_boundary (r, a) m' \<le> d \<and> d < cycle_boundary (r, a) (Suc m')"
    using assms(6,8) PeriodAt_Contains_iff [OF assms(1) b(1)] mn by blast
  moreover have "cycle_boundary (r, a) n' \<le> d \<and> d < cycle_boundary (r, a) (Suc n')"
    using assms(7,9) PeriodAt_Contains_iff [OF assms(1) b(2)] mn by blast
  ultimately show ?thesis using cycle.tile_unique [OF assms(1)] mn by blast
qed

lemma PeriodContaining_found:
  assumes s: "valid_subscription s" and n: "0 \<le> n" "\<bar>n - SubPeriodIndex s\<bar> \<le> 24"
    and p: "PeriodAt (SubRecurrence s) (SubAnchor s) n = Some p" "Contains p d"
  shows "PeriodContaining s d = Some p"
proof -
  have v: "valid_cycle (SubRecurrence s, SubAnchor s)" and i: "0 \<le> SubPeriodIndex s" "SubPeriodIndex s < 1000000"
    and n': "n < 1000000"
    using s n(2) by (auto simp: valid_subscription_def)
  then have r: "RecurrenceValidate (SubRecurrence s) = None" by (simp add: valid_cycle_def)
  obtain c where c: "CurrentPeriod s = Some c" using walk_some [OF r] by (auto simp: CurrentPeriod_def)
  show ?thesis
  proof (cases "Contains c d")
    case True
    then have "SubPeriodIndex s = n"
      using PeriodAt_unique [OF v i n(1) n'] c p by (auto simp: CurrentPeriod_def)
    then show ?thesis using c p by (simp add: PeriodContaining_def CurrentPeriod_def)
  next
    case False
    then have "n \<in> set (walk_candidates (SubPeriodIndex s))"
      using n(2) c p by (auto simp: walk_candidates_iff CurrentPeriod_def)
    then obtain q m where m: "m \<in> set (walk_candidates (SubPeriodIndex s))" "walk (SubRecurrence s) (SubAnchor s) d c (walk_candidates (SubPeriodIndex s)) = Some q"
      "0 \<le> m" "PeriodAt (SubRecurrence s) (SubAnchor s) m = Some q" "Contains q d"
      using walk_spec [OF r, of "SubAnchor s" d c "walk_candidates (SubPeriodIndex s)"] p n(1) by blast
    moreover have "m < 1000000" using m(1) s by (auto simp: walk_candidates_iff valid_subscription_def)
    moreover from calculation have "m = n" using PeriodAt_unique [OF v _ _ n(1) n'] p by blast
    ultimately show ?thesis using False c p by (simp add: PeriodContaining_def)
  qed
qed

lemma PeriodContaining_far:
  assumes s: "valid_subscription s" and n: "0 \<le> n" "24 < \<bar>n - SubPeriodIndex s\<bar>" "n < 1000000"
    and p: "PeriodAt (SubRecurrence s) (SubAnchor s) n = Some p" "Contains p d"
  shows "PeriodContaining s d = CurrentPeriod s"
proof -
  have v: "valid_cycle (SubRecurrence s, SubAnchor s)" and i: "0 \<le> SubPeriodIndex s"
    using s by (auto simp: valid_subscription_def)
  then have r: "RecurrenceValidate (SubRecurrence s) = None" by (simp add: valid_cycle_def)
  obtain c where c: "CurrentPeriod s = Some c" using walk_some [OF r] by (auto simp: CurrentPeriod_def)
  have "\<not> Contains q d" if "0 \<le> m" "PeriodAt (SubRecurrence s) (SubAnchor s) m = Some q" "\<bar>m - SubPeriodIndex s\<bar> \<le> 24" for m q
  proof
    assume "Contains q d"
    moreover have "m < 1000000" using that(3) s by (auto simp: valid_subscription_def)
    ultimately have "m = n" using PeriodAt_unique [OF v that(1) _ n(1,3) that(2) p(1) _ p(2)] by blast
    then show False using that(3) n(2) by simp
  qed
  then have "walk (SubRecurrence s) (SubAnchor s) d c (walk_candidates (SubPeriodIndex s)) = Some c"
    using walk_spec [OF r, of "SubAnchor s" d c "walk_candidates (SubPeriodIndex s)"]
    by (auto simp: walk_candidates_iff)
  then show ?thesis using c by (simp add: PeriodContaining_def)
qed


subsection \<open>Properties\<close>

text \<open>A date of the hundred thousand days from the anchor on belongs to exactly one of the
  subscription's periods before its hundred thousandth, and \<open>PeriodContaining\<close> answers that period whenever it is at most 24 periods from the current
  one; farther away it answers the current period.\<close>

theorem period_containing_correct:
  assumes "valid_subscription s" "valid_date d" "SubAnchor s \<le> d" "day_number d < day_number (SubAnchor s) + 100000"
  shows "\<exists>!n. n < 100000 \<and> (\<exists>p. PeriodAt (SubRecurrence s) (SubAnchor s) (int n) = Some p \<and> Contains p d \<and>
    PeriodContaining s d = (if \<bar>int n - SubPeriodIndex s\<bar> \<le> 24 then Some p else CurrentPeriod s))"
proof -
  let ?c = "(SubRecurrence s, SubAnchor s)"
  have v: "valid_cycle ?c" using assms(1) by (simp add: valid_subscription_def)
  obtain n where n: "cycle_boundary ?c n \<le> d" "d < cycle_boundary ?c (Suc n)"
    using cycle.tile_exists [OF v assms(2)] assms(3) cycle_boundary_0 [OF v] by auto
  have b: "n < 100000" using boundary_index [OF v assms(2) n(1)] assms(4) by simp
  obtain p where p: "PeriodAt (SubRecurrence s) (SubAnchor s) (int n) = Some p" "Contains p d"
    using PeriodAt_boundary [OF v, of n] n b by (auto simp: Contains_iff)
  have "PeriodContaining s d = (if \<bar>int n - SubPeriodIndex s\<bar> \<le> 24 then Some p else CurrentPeriod s)"
    using PeriodContaining_found [OF assms(1) _ _ p] PeriodContaining_far [OF assms(1) _ _ _ p] b by simp
  moreover have "m = n" if "m < 100000" "PeriodAt (SubRecurrence s) (SubAnchor s) (int m) = Some q" "Contains q d" for m q
    using PeriodAt_unique [OF v _ _ _ _ that(2) p(1) that(3) p(2)] that(1) b by simp
  ultimately show ?thesis using p b by blast
qed

definition sample_subscription :: Subscription where
  "sample_subscription = \<lparr>SubID = ''sub_1'', SubOrganizationID = ''org_1'', SubLivemode = True,
     SubCustomerID = ''cus_1'', SubStatus = SubscriptionIncomplete,
     SubRecurrence = \<lparr>RInterval = IntervalMonth, RCount = 1\<rparr>, SubTiming = BillArrears,
     SubAnchor = mk_date 2026 1 31, SubPeriodIndex = 0, SubNetDays = 5, SubSince = [],
     SubTrialEnd = mk_date 0 0 0, SubCancelAtPeriodEnd = False, SubCancelReason = [],
     SubPendingChange = None, SubOwnerKey = [], SubMetadata = []\<rparr>"

lemma sample_subscription_valid: "valid_subscription sample_subscription"
  by code_simp

theorem period_containing_correct_witness:
  "\<exists>!n. n < 100000 \<and> (\<exists>p. PeriodAt (SubRecurrence sample_subscription) (SubAnchor sample_subscription) (int n) = Some p \<and>
     Contains p (mk_date 2026 3 30) \<and>
     PeriodContaining sample_subscription (mk_date 2026 3 30) =
       (if \<bar>int n - SubPeriodIndex sample_subscription\<bar> \<le> 24 then Some p else CurrentPeriod sample_subscription))"
  by (rule period_containing_correct [OF sample_subscription_valid]) code_simp+

text \<open>C20: A subscription created \<open>INCOMPLETE\<close> grants service only after a move caused by a
  paid invoice, and a \<open>CANCELED\<close> one is never moved again.\<close>

theorem no_service_before_payment:
  "(SubStatus s = SubscriptionIncomplete \<and> IsEntitled (run_transitions SubscriptionTransition s moves) \<longrightarrow>
      CauseInvoicePaid \<in> snd ` set moves) \<and>
   (SubStatus s = SubscriptionCanceled \<longrightarrow> run_transitions SubscriptionTransition s moves = s)"
proof (intro conjI impI)
  assume a: "SubStatus s = SubscriptionIncomplete \<and> IsEntitled (run_transitions SubscriptionTransition s moves)"
  show "CauseInvoicePaid \<in> snd ` set moves"
  proof (rule ccontr)
    assume "CauseInvoicePaid \<notin> snd ` set moves"
    then have c: "c \<noteq> CauseInvoicePaid" if "(st, c) \<in> set moves" for st c using that by force
    have "SubStatus (run_transitions SubscriptionTransition s moves) \<in> {SubscriptionIncomplete, SubscriptionCanceled}"
    proof (rule run_invariant_moves [of "\<lambda>e. SubStatus e \<in> {SubscriptionIncomplete, SubscriptionCanceled}"])
      show "SubStatus s \<in> {SubscriptionIncomplete, SubscriptionCanceled}" using a by simp
    qed (rule incomplete_without_payment [OF _ c])
    with a show False by (auto simp: IsEntitled_def)
  qed
next
  assume "SubStatus s = SubscriptionCanceled"
  then show "run_transitions SubscriptionTransition s moves = s"
    by (simp add: subscription.run_terminal subscription_terminal)
qed

theorem no_service_before_payment_witness:
  "CauseInvoicePaid \<in> snd ` set [(SubscriptionActive, CauseManual), (SubscriptionActive, CauseInvoicePaid)]"
proof -
  have "SubStatus sample_subscription = SubscriptionIncomplete \<and>
    IsEntitled (run_transitions SubscriptionTransition sample_subscription
      [(SubscriptionActive, CauseManual), (SubscriptionActive, CauseInvoicePaid)])" by code_simp
  then show ?thesis using no_service_before_payment by blast
qed

text \<open>C29: A renewal moves the subscription to the next period and nothing else: the period the
  sweep bills after it starts on the day the period billed before it ended, so consecutive
  sweeps bill adjacent periods, each of at least one day, with no gap and no shared day. The
  subscription's recurrence validates with a count of at most ten thousand and it is at most at its
  hundred thousandth period, so that no product wraps; its anchor is 18 February 2019 or later,
  when the time zone no longer changes.\<close>

theorem renewal_bills_next_period:
  assumes "valid_subscription s" "SubscriptionTransition s dst CauseRenewal = Inr (s', evs)"
  shows "s' = s\<lparr>SubPeriodIndex := SubPeriodIndex s + 1\<rparr> \<and> evs = [EventSubscriptionRenewed] \<and>
    CurrentPeriod s' = NextPeriod s \<and>
    (\<exists>p q. PeriodToInvoice s = Some p \<and> PeriodToInvoice s' = Some q \<and> Start p < End p \<and> Start q = End p)"
proof -
  obtain ev where ev: "evs = [ev]" "apply_table subscriptionTransitions (SubStatus s) dst CauseRenewal = Inr ev"
    using subscription.transition_Inr [OF assms(2)] by blast
  have "ev = EventSubscriptionRenewed \<and> SubStatus s = SubscriptionActive \<and> dst = SubscriptionActive"
    using apply_table_edge [OF ev(2)] by (auto simp: subscriptionTransitions_def mk_rule_def rule_allows_def)
  moreover from this have s': "s' = s\<lparr>SubPeriodIndex := SubPeriodIndex s + 1\<rparr>"
    using SubscriptionTransition_frame [OF assms(2)] by simp
  moreover obtain n where n: "SubPeriodIndex s = int n" and b: "n \<le> 100000"
    using assms(1) by (auto simp: valid_subscription_def dest: nonneg_int_cases)
  moreover have v: "valid_cycle (SubRecurrence s, SubAnchor s)" using assms(1) by (simp add: valid_subscription_def)
  moreover have p: "PeriodAt (SubRecurrence s) (SubAnchor s) (int n + 1) =
      Some \<lparr>Start = cycle_boundary (SubRecurrence s, SubAnchor s) (Suc n), End = cycle_boundary (SubRecurrence s, SubAnchor s) (Suc (Suc n))\<rparr>"
    "PeriodAt (SubRecurrence s) (SubAnchor s) (int n + 1 + 1) =
      Some \<lparr>Start = cycle_boundary (SubRecurrence s, SubAnchor s) (Suc (Suc n)), End = cycle_boundary (SubRecurrence s, SubAnchor s) (Suc (Suc (Suc n)))\<rparr>"
    using PeriodAt_boundary [OF v, of "Suc n"] PeriodAt_boundary [OF v, of "Suc (Suc n)"] b by (simp_all add: add_ac)
  ultimately show ?thesis
    using ev(1) cycle.boundary_step [OF v] PeriodAt_boundary [OF v, of n] b
    by (auto simp: PeriodToInvoice_def CurrentPeriod_def NextPeriod_def)
qed

theorem renewal_bills_next_period_witness:
  "\<exists>p q. PeriodToInvoice (sample_subscription\<lparr>SubStatus := SubscriptionActive\<rparr>) = Some p \<and>
     PeriodToInvoice (sample_subscription\<lparr>SubStatus := SubscriptionActive, SubPeriodIndex := 1\<rparr>) = Some q \<and>
     Start p < End p \<and> Start q = End p"
proof -
  have v: "valid_subscription (sample_subscription\<lparr>SubStatus := SubscriptionActive\<rparr>)" by code_simp
  have t: "SubscriptionTransition (sample_subscription\<lparr>SubStatus := SubscriptionActive\<rparr>) SubscriptionActive CauseRenewal =
      Inr (sample_subscription\<lparr>SubStatus := SubscriptionActive, SubPeriodIndex := 1\<rparr>, [EventSubscriptionRenewed])"
    by code_simp
  show ?thesis using renewal_bills_next_period [OF v t] by blast
qed

end
