(* ===== verification/Identity.thy ===== *)
theory Identity
  imports Metadata "HOL-Library.List_Lexorder"
begin

text \<open>
  Who an invoice is for and who paid it: \<open>taxid.go\<close> (CPF and CNPJ numbers and their check
  digits), \<open>customer.go\<close> (the customer, masking and erasure) and \<open>payer.go\<close> (comparing the
  payer the bank names with the customer) of \<open>api/internal/domain/billing\<close>. The loops over
  runes are loops over bytes where every byte of a longer rune takes the same branch.
\<close>

subsection \<open>Tax ids\<close>

datatype TaxIDKind = TaxIDCNPJ | TaxIDCPF

definition cnpjLength :: nat where "cnpjLength = 14"
definition cpfLength :: nat where "cpfLength = 11"
definition cnpjBodyLength :: nat where "cnpjBodyLength = 12"

definition code :: "char \<Rightarrow> int" where
  "code c = int (of_char c)"

definition is_upper :: "char \<Rightarrow> bool" where
  "is_upper c \<longleftrightarrow> 65 \<le> code c \<and> code c \<le> 90"

definition is_lower :: "char \<Rightarrow> bool" where
  "is_lower c \<longleftrightarrow> 97 \<le> code c \<and> code c \<le> 122"

fun canonicalize :: "string \<Rightarrow> string option" where
  "canonicalize [] = Some []"
| "canonicalize (c # s) =
     (if is_digit c \<or> is_upper c then map_option (Cons c) (canonicalize s)
      else if is_lower c then map_option (Cons (char_of (nat (code c - 97 + 65)))) (canonicalize s)
      else if c \<in> set ''./- '' then canonicalize s
      else None)"

definition isAllDigits :: "string \<Rightarrow> bool" where
  "isAllDigits s \<longleftrightarrow> list_all is_digit s"

fun allSameChar :: "string \<Rightarrow> bool" where
  "allSameChar [] = True"
| "allSameChar (c # s) = list_all (\<lambda>d. d = c) s"

definition charValue :: "char \<Rightarrow> int" where
  "charValue c = code c - 48"

definition cnpjWeight :: "nat \<Rightarrow> int" where
  "cnpjWeight posFromRight = int (posFromRight mod 8 + 2)"

definition cpfWeight :: "nat \<Rightarrow> int" where
  "cpfWeight posFromRight = int (posFromRight + 2)"

definition checkDigit :: "string \<Rightarrow> (nat \<Rightarrow> int) \<Rightarrow> char" where
  "checkDigit body weight =
     (let s = sum_list (map (\<lambda>i. charValue (body ! i) * weight (length body - 1 - i)) (rev [0..<length body]));
          rem = s smod 11
      in if rem \<ge> 2 then char_of (nat (48 + 11 - rem)) else CHR ''0'')"

definition validCheckDigits :: "string \<Rightarrow> nat \<Rightarrow> (nat \<Rightarrow> int) \<Rightarrow> bool" where
  "validCheckDigits s bodyLen weight =
     (if s ! bodyLen \<noteq> checkDigit (take bodyLen s) weight then False
      else s ! (bodyLen + 1) = checkDigit (take (bodyLen + 1) s) weight)"

definition NormalizeTaxID :: "string \<Rightarrow> (string \<times> TaxIDKind) option" where
  "NormalizeTaxID raw =
     (case canonicalize raw of
        None \<Rightarrow> None
      | Some canonical \<Rightarrow>
          if allSameChar canonical then None
          else if length canonical = cpfLength then
            (if \<not> isAllDigits canonical \<or> \<not> validCheckDigits canonical (cpfLength - 2) cpfWeight
             then None else Some (canonical, TaxIDCPF))
          else if length canonical = cnpjLength then
            (if \<not> isAllDigits (drop cnpjBodyLength canonical)
                \<or> \<not> validCheckDigits canonical cnpjBodyLength cnpjWeight
             then None else Some (canonical, TaxIDCNPJ))
          else None)"

subsection \<open>Customers\<close>

record Customer =
  CusID :: string
  CusOrganizationID :: string
  CusLivemode :: bool
  CusExternalRef :: string
  CusUserID :: string
  CusName :: string
  CusEmail :: string
  CusTaxID :: string
  CusSince :: string
  CusLocale :: string
  CusTimezone :: string
  CusCurrency :: string
  CusAnonymized :: bool
  CusTermsVersion :: string
  CusMetadata :: Metadata

definition CurrentTermsVersion :: string where
  "CurrentTermsVersion = ''1.0''"

definition AcceptedCurrentTerms :: "Customer \<Rightarrow> bool" where
  "AcceptedCurrentTerms c \<longleftrightarrow> CusTermsVersion c = CurrentTermsVersion"

text \<open>The bullet \<open>U+2022\<close>, in UTF-8.\<close>

definition bullet :: string where
  "bullet = bytes [226, 128, 162]"

definition MaskedTaxID :: "string \<Rightarrow> string" where
  "MaskedTaxID taxID =
     (let digits = filter is_digit taxID; visible = 4
      in if length digits \<le> visible then concat (replicate (length digits) bullet)
         else concat (replicate (length digits - visible) bullet) @ drop (length digits - visible) digits)"

definition Anonymize :: "Customer \<Rightarrow> Customer" where
  "Anonymize c = c\<lparr>CusName := ''[anonimizado]'', CusEmail := [], CusTaxID := [],
     CusExternalRef := [], CusMetadata := [], CusAnonymized := True\<rparr>"

subsection \<open>Payers\<close>

record Payer =
  PayerName :: string
  PayerDocument :: string
  PayerInstitution :: string
  PayerProvisional :: bool

datatype PayerMatch = PayerMatchYes | PayerMatchNo | PayerMatchUnknown | PayerMatchPartial

definition minRevealedDigits :: int where
  "minRevealedDigits = 3"

definition digitsOnly :: "string \<Rightarrow> string" where
  "digitsOnly s = filter is_digit s"

text \<open>The loop over the runes of a masked document, beside the digits wanted at the same
  positions: \<open>None\<close> as soon as a digit shown differs, else how many digits show.\<close>

fun shown_digits :: "string list \<Rightarrow> string \<Rightarrow> int \<Rightarrow> int option" where
  "shown_digits [] want shown = Some shown"
| "shown_digits (r # rs) want shown =
     (if length r = 1 \<and> is_digit (hd r)
      then if hd r \<noteq> hd want then None else shown_digits rs (tl want) (shown + 1)
      else shown_digits rs (tl want) shown)"

definition MatchPayer :: "string \<Rightarrow> Payer \<Rightarrow> PayerMatch" where
  "MatchPayer customerTaxID p =
     (let want = digitsOnly customerTaxID; doc = TrimSpace (PayerDocument p)
      in if want = [] \<or> doc = [] then PayerMatchUnknown
         else if CHR ''*'' \<notin> set doc then
           let got = digitsOnly doc
           in if got = [] then PayerMatchUnknown
              else if got = want then PayerMatchYes else PayerMatchNo
         else if length (runes doc) \<noteq> length want then PayerMatchUnknown
         else case shown_digits (runes doc) want 0 of
                None \<Rightarrow> PayerMatchNo
              | Some shown \<Rightarrow>
                  if shown < minRevealedDigits then PayerMatchUnknown else PayerMatchPartial)"


subsection \<open>What normalisation guarantees\<close>

definition is_alnum_upper :: "char \<Rightarrow> bool" where
  "is_alnum_upper c \<longleftrightarrow> is_digit c \<or> is_upper c"

lemma code_char_of: "0 \<le> n \<Longrightarrow> n < 256 \<Longrightarrow> code (char_of (nat n)) = n"
  by (simp add: code_def of_char_of nat_mod_distrib [symmetric])

lemma is_upper_upcase: "is_lower c \<Longrightarrow> is_upper (char_of (nat (code c - 32)))"
  by (simp add: is_lower_def is_upper_def code_char_of del: of_char_of)

lemma canonicalize_alnum: "canonicalize s = Some t \<Longrightarrow> list_all is_alnum_upper t"
  by (induction s arbitrary: t) (auto simp: is_alnum_upper_def is_upper_upcase split: if_splits)

lemma canonicalize_fixed: "list_all is_alnum_upper t \<Longrightarrow> canonicalize t = Some t"
  by (induction t) (auto simp: is_alnum_upper_def)

lemma NormalizeTaxID_canonical:
  "NormalizeTaxID raw = Some (t, k) \<Longrightarrow> canonicalize raw = Some t"
  by (auto simp: NormalizeTaxID_def split: option.splits if_splits)

lemma NormalizeTaxID_cong: "canonicalize a = canonicalize b \<Longrightarrow> NormalizeTaxID a = NormalizeTaxID b"
  by (simp add: NormalizeTaxID_def)

lemma NormalizeTaxID_shape:
  assumes "NormalizeTaxID raw = Some (t, k)"
  shows "case k of
      TaxIDCPF \<Rightarrow> length t = 11 \<and> list_all is_digit t
    | TaxIDCNPJ \<Rightarrow> length t = 14 \<and> list_all is_alnum_upper t \<and> list_all is_digit (drop 12 t)"
  using assms canonicalize_alnum
  by (auto simp: NormalizeTaxID_def isAllDigits_def cpfLength_def cnpjLength_def cnpjBodyLength_def
      split: option.splits if_splits)

lemma mask_not_alnum: "c \<in> set ''./- '' \<Longrightarrow> \<not> is_digit c \<and> \<not> is_upper c \<and> \<not> is_lower c"
  by (auto simp: is_digit_def is_upper_def is_lower_def code_def)

lemma canonicalize_mask: "c \<in> set ''./- '' \<Longrightarrow> canonicalize (a @ c # b) = canonicalize (a @ b)"
  using mask_not_alnum [of c] by (induction a) (simp_all del: set_simps)

lemma bullet_no_digit: "filter is_digit bullet = []"
  by code_simp

lemma filter_concat_replicate_nil: "filter P xs = [] \<Longrightarrow> filter P (concat (replicate n xs)) = []"
  by (induction n) auto

text \<open>A masked id shows the last four digits and no others.\<close>

lemma MaskedTaxID_digits:
  "filter is_digit (MaskedTaxID t) =
     (if length (digitsOnly t) \<le> 4 then [] else drop (length (digitsOnly t) - 4) (digitsOnly t))"
  using filter_concat_replicate_nil [OF bullet_no_digit]
  by (auto simp: MaskedTaxID_def Let_def digitsOnly_def filter_id_conv dest!: in_set_dropD)

lemma shown_digits_Some:
  assumes "shown_digits rs want n = Some k" "length rs = length want"
  shows "(\<forall>i < length rs. \<forall>c. rs ! i = [c] \<and> is_digit c \<longrightarrow> want ! i = c) \<and>
    k = n + int (length (filter (\<lambda>r. length r = 1 \<and> is_digit (hd r)) rs))"
  using assms
proof (induction rs want n rule: shown_digits.induct)
  case (2 r rs want shown)
  then obtain w want' where w: "want = w # want'" by (cases want) auto
  with 2 show ?case by (auto simp: less_Suc_eq_0_disj split: if_splits)
qed simp


subsection \<open>Properties\<close>

text \<open>A tax id the code accepts is in canonical form: normalising it again changes
  nothing, a CPF is eleven digits and a CNPJ fourteen letters or digits ending in two
  digits, and a mask character anywhere in the input makes no difference.\<close>

theorem tax_id_canonical:
  assumes "NormalizeTaxID raw = Some (t, k)"
  shows "NormalizeTaxID t = Some (t, k) \<and>
    (case k of
        TaxIDCPF \<Rightarrow> length t = 11 \<and> list_all is_digit t
      | TaxIDCNPJ \<Rightarrow> length t = 14 \<and> list_all is_alnum_upper t \<and> list_all is_digit (drop 12 t)) \<and>
    (\<forall>a c b. raw = a @ c # b \<and> c \<in> set ''./- '' \<longrightarrow> NormalizeTaxID (a @ b) = Some (t, k))"
proof (intro conjI allI impI)
  have t: "canonicalize raw = Some t" using assms by (rule NormalizeTaxID_canonical)
  then have "canonicalize t = canonicalize raw" by (simp add: canonicalize_fixed canonicalize_alnum)
  then show "NormalizeTaxID t = Some (t, k)" using NormalizeTaxID_cong assms by metis
  show "case k of
        TaxIDCPF \<Rightarrow> length t = 11 \<and> list_all is_digit t
      | TaxIDCNPJ \<Rightarrow> length t = 14 \<and> list_all is_alnum_upper t \<and> list_all is_digit (drop 12 t)"
    using assms by (rule NormalizeTaxID_shape)
  fix a c b
  assume r: "raw = a @ c # b \<and> c \<in> set ''./- ''"
  then have "canonicalize raw = canonicalize (a @ b)" using canonicalize_mask by blast
  then show "NormalizeTaxID (a @ b) = Some (t, k)" using NormalizeTaxID_cong assms by metis
qed

theorem tax_id_canonical_witness:
  "NormalizeTaxID ''529.982.247-25'' = Some (''52998224725'', TaxIDCPF) \<and>
   NormalizeTaxID ''52998224725'' = Some (''52998224725'', TaxIDCPF) \<and>
   NormalizeTaxID (''529'' @ ''982.247-25'') = Some (''52998224725'', TaxIDCPF)"
proof -
  have h: "NormalizeTaxID ''529.982.247-25'' = Some (''52998224725'', TaxIDCPF)" by code_simp
  have s: "''529.982.247-25'' = ''529'' @ CHR ''.'' # ''982.247-25'' \<and> CHR ''.'' \<in> set ''./- ''" by simp
  show ?thesis using h tax_id_canonical [OF h] s by blast
qed

text \<open>A masked tax id shows only the last four digits of the id, and none when the id
  has four digits or fewer, whatever punctuation it was stored with.\<close>

theorem masked_tax_id_reveals_four:
  "filter is_digit (MaskedTaxID t) =
     (if length (digitsOnly t) \<le> 4 then [] else drop (length (digitsOnly t) - 4) (digitsOnly t)) \<and>
   MaskedTaxID t = MaskedTaxID (digitsOnly t)"
  by (simp add: MaskedTaxID_digits) (simp add: MaskedTaxID_def digitsOnly_def)

text \<open>A payer is reported as a full match only on an unmasked document with exactly the
  digits of the customer's tax id, and as a partial match only when at least three digits
  show and every digit that shows is the customer's digit at that position.\<close>

theorem payer_match_sound:
  "(MatchPayer taxID p = PayerMatchYes \<longrightarrow>
      CHR ''*'' \<notin> set (TrimSpace (PayerDocument p)) \<and>
      digitsOnly (TrimSpace (PayerDocument p)) = digitsOnly taxID \<and> digitsOnly taxID \<noteq> []) \<and>
   (MatchPayer taxID p = PayerMatchPartial \<longrightarrow>
      (let rs = runes (TrimSpace (PayerDocument p)) in
        length rs = length (digitsOnly taxID) \<and>
        3 \<le> length (filter (\<lambda>r. length r = 1 \<and> is_digit (hd r)) rs) \<and>
        (\<forall>i < length rs. \<forall>c. rs ! i = [c] \<and> is_digit c \<longrightarrow> digitsOnly taxID ! i = c)))"
proof (intro conjI impI)
  assume "MatchPayer taxID p = PayerMatchYes"
  then show "CHR ''*'' \<notin> set (TrimSpace (PayerDocument p))"
      "digitsOnly (TrimSpace (PayerDocument p)) = digitsOnly taxID" "digitsOnly taxID \<noteq> []"
    unfolding MatchPayer_def Let_def by (auto split: if_splits option.splits)
next
  assume "MatchPayer taxID p = PayerMatchPartial"
  then obtain k where k: "shown_digits (runes (TrimSpace (PayerDocument p))) (digitsOnly taxID) 0 = Some k" "3 \<le> k"
      "length (runes (TrimSpace (PayerDocument p))) = length (digitsOnly taxID)"
    unfolding MatchPayer_def Let_def minRevealedDigits_def
    by (auto split: if_splits option.splits)
  then show "let rs = runes (TrimSpace (PayerDocument p)) in
      length rs = length (digitsOnly taxID) \<and>
      3 \<le> length (filter (\<lambda>r. length r = 1 \<and> is_digit (hd r)) rs) \<and>
      (\<forall>i < length rs. \<forall>c. rs ! i = [c] \<and> is_digit c \<longrightarrow> digitsOnly taxID ! i = c)"
    using shown_digits_Some [OF k(1,3)] by (auto simp: Let_def)
qed

definition payer_named :: "string \<Rightarrow> Payer" where
  "payer_named doc = \<lparr>PayerName = [], PayerDocument = doc, PayerInstitution = [], PayerProvisional = False\<rparr>"

theorem payer_match_sound_witness:
  "digitsOnly ''52998224725'' \<noteq> [] \<and>
   3 \<le> length (filter (\<lambda>r. length r = 1 \<and> is_digit (hd r)) (runes (TrimSpace (PayerDocument (payer_named ''***982247**'')))))"
proof -
  have y: "MatchPayer ''52998224725'' (payer_named ''529.982.247-25'') = PayerMatchYes" by code_simp
  have p: "MatchPayer ''52998224725'' (payer_named ''***982247**'') = PayerMatchPartial" by code_simp
  show ?thesis using payer_match_sound [of "''52998224725''" "payer_named ''529.982.247-25''"]
      payer_match_sound [of "''52998224725''" "payer_named ''***982247**''"] y p by (simp add: Let_def)
qed

text \<open>Two different alphanumeric CNPJs, both of which the code accepts, are reported as a
  full match: the comparison drops the letters of both documents, although the comment says
  a match is never answered on less than a full comparison.\<close>

theorem payer_match_ignores_letters:
  "NormalizeTaxID ''12AA3456700104'' = Some (''12AA3456700104'', TaxIDCNPJ) \<and>
   NormalizeTaxID ''12AL3456700104'' = Some (''12AL3456700104'', TaxIDCNPJ) \<and>
   MatchPayer ''12AA3456700104'' (payer_named ''12AL3456700104'') = PayerMatchYes"
  by code_simp

end
