(* ===== verification/Payment.thy ===== *)
theory Payment
  imports StateMachine Identity Money Brcal
begin

text \<open>
  \<open>api/internal/domain/billing/payment.go\<close>: attempts at collecting an invoice and the hosted
  checkout sessions, with their lifecycle tables. Instants are nanoseconds since 1970.
\<close>

datatype PaymentAttemptStatus =
  AttemptPending | AttemptSucceeded | AttemptFailed | AttemptAbandoned | AttemptStatusOther string

datatype PaymentMethod = MethodPIX | MethodWalletBalance | MethodManual | MethodBYOK | MethodOther string

definition paymentAttemptTransitions :: "PaymentAttemptStatus table" where
  "paymentAttemptTransitions =
     [((AttemptPending, AttemptSucceeded), [mk_rule EventPaymentSucceeded paymentCauses]),
      ((AttemptPending, AttemptFailed),
         [mk_rule EventPaymentFailed
            [CausePaymentFailed, CauseWalletWebhook, CauseReconciliation, CauseByokDisconnected]]),
      ((AttemptPending, AttemptAbandoned), [mk_rule EventPaymentAbandoned [CauseReconciliation]])]"

record PaymentAttempt =
  PaID :: string
  PaOrganizationID :: string
  PaLivemode :: bool
  PaInvoiceID :: string
  PaAttemptNumber :: int
  PaStatus :: PaymentAttemptStatus
  PaMethod :: PaymentMethod
  PaAmount :: Cents
  PaWalletChargeID :: string
  PaFailureReason :: string
  PaRecordedBy :: string
  PaProvider :: string
  PaProduct :: string
  PaChargeRef :: string
  PaPayable :: string
  PaDueDate :: Date
  PaPayableUntil :: Date
  PaPixExpiresAt :: int
  PaCheckedAt :: int
  PaPaymentID :: string
  PaLateCharges :: Cents
  PaCreatedAt :: int
  PaCancelledAt :: int
  PaUsageReported :: bool
  PaPayer :: "Payer option"
  PaPayerMatch :: "PayerMatch option"

definition IdempotencyKey :: "PaymentAttempt \<Rightarrow> string" where
  "IdempotencyKey a = PaInvoiceID a @ '':'' @ itoa (PaAttemptNumber a)"

definition PaymentAttemptTransition ::
  "PaymentAttempt \<Rightarrow> PaymentAttemptStatus \<Rightarrow> Cause \<Rightarrow> (transition_error, PaymentAttempt \<times> EventType list) result" where
  "PaymentAttemptTransition a dst cause =
     (case apply_table paymentAttemptTransitions (PaStatus a) dst cause of
        Inl err \<Rightarrow> Inl err
      | Inr event \<Rightarrow> Inr (a\<lparr>PaStatus := dst\<rparr>, [event]))"

datatype CheckoutSessionStatus =
  CheckoutOpen | CheckoutCompleted | CheckoutExpired | CheckoutCanceled | CheckoutStatusOther string

definition checkoutTransitions :: "CheckoutSessionStatus table" where
  "checkoutTransitions =
     [((CheckoutOpen, CheckoutCompleted), [mk_rule EventCheckoutCompleted paymentCauses]),
      ((CheckoutOpen, CheckoutExpired), [mk_rule EventCheckoutExpired [CauseExpired, CauseScheduler]]),
      ((CheckoutOpen, CheckoutCanceled), [mk_rule EventCheckoutCanceled [CauseManual, CauseCustomer]])]"

record CheckoutSession =
  CsID :: string
  CsOrganizationID :: string
  CsLivemode :: bool
  CsInvoiceID :: string
  CsStatus :: CheckoutSessionStatus
  CsExpiresAt :: int
  CsSuccessURL :: string
  CsCancelURL :: string
  CsPaymentAttemptID :: string
  CsPixCode :: string
  CsPayableUntil :: Date
  CsMetadata :: Metadata

definition IsUsable :: "CheckoutSession \<Rightarrow> int \<Rightarrow> bool" where
  "IsUsable c now \<longleftrightarrow> CsStatus c = CheckoutOpen \<and> now < CsExpiresAt c \<and> CsPixCode c \<noteq> []"

definition CheckoutTransition ::
  "CheckoutSession \<Rightarrow> CheckoutSessionStatus \<Rightarrow> Cause \<Rightarrow> (transition_error, CheckoutSession \<times> EventType list) result" where
  "CheckoutTransition c dst cause =
     (case apply_table checkoutTransitions (CsStatus c) dst cause of
        Inl err \<Rightarrow> Inl err
      | Inr event \<Rightarrow> Inr (c\<lparr>CsStatus := dst\<rparr>, [event]))"

interpretation attempt: lifecycle paymentAttemptTransitions PaStatus "\<lambda>_ _. True" PaymentAttemptTransition
  by unfold_locales (simp_all add: PaymentAttemptTransition_def)

interpretation checkout: lifecycle checkoutTransitions CsStatus "\<lambda>_ _. True" CheckoutTransition
  by unfold_locales (simp_all add: CheckoutTransition_def)

subsection \<open>One-way lifecycles\<close>

lemma attempt_terminal: "terminal paymentAttemptTransitions st \<longleftrightarrow> st \<noteq> AttemptPending"
  by (cases st) (simp_all add: terminal_def paymentAttemptTransitions_def)

lemma checkout_terminal: "terminal checkoutTransitions st \<longleftrightarrow> st \<noteq> CheckoutOpen"
  by (cases st) (simp_all add: terminal_def checkoutTransitions_def)

lemma attempt_succeeds:
  "PaymentAttemptTransition a AttemptSucceeded c = Inr (a', evs) \<Longrightarrow> c \<in> set paymentCauses \<and> PaStatus a = AttemptPending"
  using attempt.transition_edge [of a AttemptSucceeded c a' evs]
  by (auto simp: paymentAttemptTransitions_def mk_rule_def rule_allows_def paymentCauses_def)

subsection \<open>Idempotency keys\<close>

lemma itoa_no_colon: "CHR '':'' \<notin> set (itoa n)"
proof
  assume "CHR '':'' \<in> set (itoa n)"
  then obtain k where "CHR '':'' \<in> set (digits_of_nat k)" by (auto simp: itoa_def split: if_splits)
  then have "is_digit (CHR '':'')" using digits_all_digits [of k] by (auto simp: list_all_iff)
  then show False by (simp add: is_digit_def)
qed

lemma itoa_inj: "itoa m = itoa n \<Longrightarrow> m = n"
proof -
  have dash: "digits_of_nat k \<noteq> CHR ''-'' # s" for k s
  proof
    assume "digits_of_nat k = CHR ''-'' # s"
    with digits_all_digits [of k] have "is_digit (CHR ''-'')" by simp
    then show False by (simp add: is_digit_def)
  qed
  have dash': "CHR ''-'' # s \<noteq> digits_of_nat k" for k s using dash [of k s] by metis
  have "digits_of_nat a = digits_of_nat b \<Longrightarrow> a = b" for a b by (metis nat_of_digits_digits)
  then show "itoa m = itoa n \<Longrightarrow> m = n"
    by (auto simp: itoa_def dash dash' nat_eq_iff2 split: if_splits) fastforce+
qed

subsection \<open>Properties\<close>

text \<open>An attempt becomes \<open>SUCCEEDED\<close> only through a move whose cause is a reconciled
  payment, and once it has left \<open>PENDING\<close> no move changes it again.\<close>

theorem attempt_succeeds_only_by_payment:
  "(PaStatus a \<noteq> AttemptPending \<longrightarrow> run_transitions PaymentAttemptTransition a moves = a) \<and>
   (PaStatus a = AttemptPending \<and>
    PaStatus (run_transitions PaymentAttemptTransition a moves) = AttemptSucceeded \<longrightarrow>
      (\<exists>c \<in> set paymentCauses. (AttemptSucceeded, c) \<in> set moves))"
proof (intro conjI impI)
  assume "PaStatus a \<noteq> AttemptPending"
  then show "run_transitions PaymentAttemptTransition a moves = a"
    by (simp add: attempt.run_terminal attempt_terminal)
next
  assume "PaStatus a = AttemptPending \<and> PaStatus (run_transitions PaymentAttemptTransition a moves) = AttemptSucceeded"
  then obtain pre c post a' evs where "moves = pre @ (AttemptSucceeded, c) # post"
    "PaymentAttemptTransition (run_transitions PaymentAttemptTransition a pre) AttemptSucceeded c = Inr (a', evs)"
    using attempt.run_enters [of a moves AttemptSucceeded] by auto
  then show "\<exists>c \<in> set paymentCauses. (AttemptSucceeded, c) \<in> set moves" using attempt_succeeds by fastforce
qed

definition sample_attempt :: PaymentAttempt where
  "sample_attempt = \<lparr>PaID = ''pa_1'', PaOrganizationID = ''org_1'', PaLivemode = True, PaInvoiceID = ''in_1'',
     PaAttemptNumber = 1, PaStatus = AttemptPending, PaMethod = MethodBYOK, PaAmount = 4990,
     PaWalletChargeID = [], PaFailureReason = [], PaRecordedBy = [], PaProvider = ''inter'',
     PaProduct = ''pix_due'', PaChargeRef = ''ctb1'', PaPayable = [], PaDueDate = mk_date 2026 1 5,
     PaPayableUntil = mk_date 2026 2 4, PaPixExpiresAt = 0, PaCheckedAt = 0, PaPaymentID = [],
     PaLateCharges = 0, PaCreatedAt = 0, PaCancelledAt = 0, PaUsageReported = False,
     PaPayer = None, PaPayerMatch = None\<rparr>"

theorem attempt_succeeds_only_by_payment_witness:
  "\<exists>c \<in> set paymentCauses. (AttemptSucceeded, c) \<in> set [(AttemptSucceeded, CauseManual), (AttemptSucceeded, CauseByokConfirmed)]"
proof -
  have "PaStatus sample_attempt = AttemptPending \<and>
    PaStatus (run_transitions PaymentAttemptTransition sample_attempt
      [(AttemptSucceeded, CauseManual), (AttemptSucceeded, CauseByokConfirmed)]) = AttemptSucceeded"
    by code_simp
  then show ?thesis using attempt_succeeds_only_by_payment by blast
qed

text \<open>Two attempts share an idempotency key exactly when they are for the same invoice
  and have the same attempt number, so a retried request is deduplicated and a new attempt
  never is.\<close>

theorem idempotency_key_identifies_attempt:
  "IdempotencyKey a = IdempotencyKey b \<longleftrightarrow>
     PaInvoiceID a = PaInvoiceID b \<and> PaAttemptNumber a = PaAttemptNumber b"
proof
  assume "IdempotencyKey a = IdempotencyKey b"
  from split_at_last_colon [OF itoa_no_colon itoa_no_colon this [unfolded IdempotencyKey_def]]
  show "PaInvoiceID a = PaInvoiceID b \<and> PaAttemptNumber a = PaAttemptNumber b" using itoa_inj by blast
qed (simp add: IdempotencyKey_def)

text \<open>A checkout session that has left \<open>OPEN\<close> never changes again and is never usable:
  in particular an expiry after a completed payment undoes nothing.\<close>

theorem checkout_closed_is_final:
  assumes "CsStatus c \<noteq> CheckoutOpen"
  shows "run_transitions CheckoutTransition c moves = c \<and> \<not> IsUsable c now"
  using assms by (simp add: checkout.run_terminal checkout_terminal IsUsable_def)

definition sample_session :: CheckoutSession where
  "sample_session = \<lparr>CsID = ''cs_1'', CsOrganizationID = ''org_1'', CsLivemode = True, CsInvoiceID = ''in_1'',
     CsStatus = CheckoutCompleted, CsExpiresAt = 1, CsSuccessURL = [], CsCancelURL = [],
     CsPaymentAttemptID = ''pa_1'', CsPixCode = ''0002'', CsPayableUntil = mk_date 2026 2 4, CsMetadata = []\<rparr>"

theorem checkout_closed_is_final_witness:
  "run_transitions CheckoutTransition sample_session [(CheckoutExpired, CauseExpired)] = sample_session \<and>
   \<not> IsUsable sample_session 0"
  by (rule checkout_closed_is_final) (simp add: sample_session_def)

end
