(* ===== verification/Dunning.thy ===== *)
theory Dunning
  imports Cycle "HOL-Library.Multiset"
begin

text \<open>
  \<open>api/internal/domain/billing/dunning.go\<close>: the schedules on which an unpaid invoice is
  chased, the rules that make one valid, and how an invoice's schedule is resolved from
  its products, its organization and the default. A \<open>nil\<close> schedule is \<open>[]\<close>.
\<close>

datatype DunningAction = DunningRemind | DunningEscalate | DunningAbandon | DunningOther string

record DunningStep =
  Offset :: int
  Action :: DunningAction

type_synonym DunningSchedule = "DunningStep list"

definition DefaultDunningPolicy :: DunningSchedule where
  "DefaultDunningPolicy =
     [\<lparr>Offset = - 3, Action = DunningRemind\<rparr>, \<lparr>Offset = 1, Action = DunningRemind\<rparr>,
      \<lparr>Offset = 3, Action = DunningRemind\<rparr>, \<lparr>Offset = 7, Action = DunningRemind\<rparr>,
      \<lparr>Offset = 10, Action = DunningEscalate\<rparr>, \<lparr>Offset = 30, Action = DunningAbandon\<rparr>]"

definition maxDunningSteps :: nat where
  "maxDunningSteps = 12"

datatype dunning_error =
    ErrTooManySteps | ErrUnknownAction | ErrOffsetNotAfter | ErrAbandonNotLast | ErrActsBeforeDue

definition known_action :: "DunningAction \<Rightarrow> bool" where
  "known_action a \<longleftrightarrow> a = DunningRemind \<or> a = DunningEscalate \<or> a = DunningAbandon"

text \<open>The loop of \<open>Validate\<close>: \<open>prev\<close> is the step before, \<open>None\<close> at the first one.\<close>

fun validate_steps :: "DunningStep option \<Rightarrow> DunningSchedule \<Rightarrow> dunning_error option" where
  "validate_steps prev [] = None"
| "validate_steps prev (s # rest) =
     (if \<not> known_action (Action s) then Some ErrUnknownAction
      else if (case prev of None \<Rightarrow> False | Some p \<Rightarrow> Offset s \<le> Offset p) then Some ErrOffsetNotAfter
      else if Action s = DunningAbandon \<and> rest \<noteq> [] then Some ErrAbandonNotLast
      else if Action s \<noteq> DunningRemind \<and> Offset s < 0 then Some ErrActsBeforeDue
      else validate_steps (Some s) rest)"

definition DunningValidate :: "DunningSchedule \<Rightarrow> dunning_error option" where
  "DunningValidate p =
     (if p = [] then None
      else if length p > maxDunningSteps then Some ErrTooManySteps
      else validate_steps None p)"

definition DunningClone :: "DunningSchedule \<Rightarrow> DunningSchedule" where
  "DunningClone p = p"

fun choose_policy :: "DunningSchedule \<Rightarrow> DunningSchedule list \<Rightarrow> DunningSchedule" where
  "choose_policy chosen [] = chosen"
| "choose_policy chosen (p # ps) =
     (if p = [] then choose_policy chosen ps
      else if chosen = [] then choose_policy p ps
      else if chosen \<noteq> p then []
      else choose_policy chosen ps)"

definition ResolveDunningPolicy :: "DunningSchedule \<Rightarrow> DunningSchedule list \<Rightarrow> DunningSchedule" where
  "ResolveDunningPolicy org products =
     (let chosen = choose_policy [] products
      in if chosen \<noteq> [] then DunningClone chosen
         else if org \<noteq> [] then DunningClone org
         else DunningClone DefaultDunningPolicy)"

definition DunningDate :: "DunningSchedule \<Rightarrow> Date \<Rightarrow> int \<Rightarrow> Date option" where
  "DunningDate p dueDate step =
     (if step < 0 \<or> step \<ge> int (length p) then None
      else Some (AddDays dueDate (Offset (p ! nat step))))"

definition ActionAt :: "DunningSchedule \<Rightarrow> int \<Rightarrow> DunningAction option" where
  "ActionAt p step = (if step < 0 \<or> step \<ge> int (length p) then None else Some (Action (p ! nat step)))"

definition IsOverdueStep :: "DunningSchedule \<Rightarrow> int \<Rightarrow> bool" where
  "IsOverdueStep p step \<longleftrightarrow> step \<ge> 0 \<and> step < int (length p) \<and> Offset (p ! nat step) > 0"

definition FirstDunningDate :: "DunningSchedule \<Rightarrow> Date \<Rightarrow> Date" where
  "FirstDunningDate p dueDate =
     (case DunningDate p dueDate 0 of None \<Rightarrow> mk_date 0 0 0 | Some d \<Rightarrow> d)"

subsection \<open>What a valid schedule is\<close>

text \<open>The three rules of the comment above \<open>Validate\<close>, stated over the whole schedule.\<close>

definition well_ordered :: "DunningSchedule \<Rightarrow> bool" where
  "well_ordered p \<longleftrightarrow>
     (\<forall>s \<in> set p. known_action (Action s)) \<and>
     sorted_wrt (<) (map Offset p) \<and>
     (\<forall>i < length p. Action (p ! i) = DunningAbandon \<longrightarrow> Suc i = length p) \<and>
     (\<forall>s \<in> set p. Action s \<noteq> DunningRemind \<longrightarrow> 0 \<le> Offset s)"

lemma abandon_last_Cons:
  "(\<forall>i < length (s # p). Action ((s # p) ! i) = DunningAbandon \<longrightarrow> Suc i = length (s # p)) \<longleftrightarrow>
   (Action s = DunningAbandon \<longrightarrow> p = []) \<and> (\<forall>i < length p. Action (p ! i) = DunningAbandon \<longrightarrow> Suc i = length p)"
  by (simp add: All_less_Suc2)

lemma validate_steps_None:
  "validate_steps prev p = None \<longleftrightarrow>
   well_ordered p \<and> (\<forall>q. prev = Some q \<longrightarrow> (\<forall>s \<in> set p. Offset q < Offset s))"
proof (induction prev p rule: validate_steps.induct)
  case (2 prev s rest)
  show ?case
    using 2 unfolding well_ordered_def abandon_last_Cons
    by (auto split: option.splits)
qed (simp add: well_ordered_def)

lemma DunningValidate_None:
  "DunningValidate p = None \<longleftrightarrow> length p \<le> maxDunningSteps \<and> well_ordered p"
  by (auto simp: DunningValidate_def validate_steps_None well_ordered_def)

lemma DefaultDunningPolicy_valid: "DunningValidate DefaultDunningPolicy = None"
  by code_simp

lemma valid_offsets_increase:
  assumes "DunningValidate p = None" "i < j" "j < length p"
  shows "Offset (p ! i) < Offset (p ! j)"
  using assms by (auto simp: DunningValidate_None well_ordered_def sorted_wrt_iff_nth_less)

subsection \<open>Resolution\<close>

lemma choose_policy_nonempty:
  "chosen \<noteq> [] \<Longrightarrow> choose_policy chosen ps = (if \<forall>p \<in> set ps. p = [] \<or> p = chosen then chosen else [])"
  by (induction ps) auto

lemma choose_policy_agreed: "set ps - {[]} = {p} \<Longrightarrow> choose_policy [] ps = p"
proof (induction ps)
  case (Cons q ps)
  show ?case
  proof (cases "q = []")
    case False
    with Cons.prems have "q = p" "\<forall>r \<in> set ps. r = [] \<or> r = p" by auto
    with False show ?thesis by (simp add: choose_policy_nonempty)
  next
    case True
    with Cons.prems have "set ps - {[]} = {p}" by auto
    with True Cons.IH show ?thesis by simp
  qed
qed simp

lemma choose_policy_disagreed: "(\<nexists>p. set ps - {[]} = {p}) \<Longrightarrow> choose_policy [] ps = []"
proof (induction ps)
  case (Cons q ps)
  show ?case
  proof (cases "q = []")
    case False
    have "set (q # ps) - {[]} \<noteq> {q}" using Cons.prems by blast
    with False have "\<not> (\<forall>r \<in> set ps. r = [] \<or> r = q)" by auto
    with False show ?thesis by (simp add: choose_policy_nonempty)
  next
    case True
    with Cons.prems have "\<nexists>p. set ps - {[]} = {p}" by simp
    with True Cons.IH show ?thesis by simp
  qed
qed simp

lemma choose_policy_set: "set ps = set qs \<Longrightarrow> choose_policy [] ps = choose_policy [] qs"
  by (metis choose_policy_agreed choose_policy_disagreed)

lemma choose_policy_mem: "choose_policy [] ps \<noteq> [] \<Longrightarrow> choose_policy [] ps \<in> set ps"
  by (metis Diff_iff choose_policy_agreed choose_policy_disagreed singletonI)

lemma ResolveDunningPolicy_valid:
  assumes "DunningValidate org = None" "\<forall>p \<in> set products. DunningValidate p = None"
  shows "DunningValidate (ResolveDunningPolicy org products) = None \<and> ResolveDunningPolicy org products \<noteq> []"
  using assms choose_policy_mem [of products] DefaultDunningPolicy_valid
  by (auto simp: ResolveDunningPolicy_def DunningClone_def Let_def) (simp add: DefaultDunningPolicy_def)


subsection \<open>Properties\<close>

text \<open>The schedule an invoice is issued under depends only on which schedules its products
  have, not on their order or number; it is the one they agree on, else the organization's,
  else the default, and is a valid non-empty schedule whenever those are valid.\<close>

theorem dunning_policy_resolution:
  assumes "DunningValidate org = None" "\<forall>p \<in> set products. DunningValidate p = None" "set products = set products'"
  shows "ResolveDunningPolicy org products = ResolveDunningPolicy org products' \<and>
    DunningValidate (ResolveDunningPolicy org products) = None \<and> ResolveDunningPolicy org products \<noteq> [] \<and>
    (\<forall>p. set products - {[]} = {p} \<longrightarrow> ResolveDunningPolicy org products = p) \<and>
    ((\<nexists>p. set products - {[]} = {p}) \<longrightarrow>
       ResolveDunningPolicy org products = (if org \<noteq> [] then org else DefaultDunningPolicy))"
proof (intro conjI allI impI)
  show "ResolveDunningPolicy org products = ResolveDunningPolicy org products'"
    using choose_policy_set [OF assms(3)] by (simp add: ResolveDunningPolicy_def)
  show "DunningValidate (ResolveDunningPolicy org products) = None" "ResolveDunningPolicy org products \<noteq> []"
    using ResolveDunningPolicy_valid [OF assms(1,2)] by simp_all
next
  fix p assume p: "set products - {[]} = {p}"
  then have "p \<noteq> []" by auto
  then show "ResolveDunningPolicy org products = p"
    using choose_policy_agreed [OF p] by (simp add: ResolveDunningPolicy_def DunningClone_def)
next
  assume "\<nexists>p. set products - {[]} = {p}"
  from choose_policy_disagreed [OF this]
  show "ResolveDunningPolicy org products = (if org \<noteq> [] then org else DefaultDunningPolicy)"
    by (simp add: ResolveDunningPolicy_def DunningClone_def)
qed

theorem dunning_policy_resolution_witness:
  "ResolveDunningPolicy [] [[], DefaultDunningPolicy, []] = ResolveDunningPolicy [] [DefaultDunningPolicy, []]"
proof -
  have "DunningValidate [] = None" "\<forall>p \<in> set [[], DefaultDunningPolicy, []]. DunningValidate p = None"
    "set [[], DefaultDunningPolicy, []] = set [DefaultDunningPolicy, []]" by code_simp+
  from dunning_policy_resolution [OF this] show ?thesis by blast
qed

end
