(* ===== verification/Invoice.thy ===== *)
theory Invoice
  imports Dunning StateMachine Metadata Money
begin

text \<open>
  \<open>api/internal/domain/billing/invoice.go\<close> and \<open>collection.go\<close>: the invoice, its lifecycle
  table, the guard that keeps \<open>CauseNothingDue\<close> for invoices of total zero, and what a charge
  for the invoice asks for and how long it stays payable. Instants are nanoseconds since
  1970, a timestamp stored as text is the instant it denotes (\<open>None\<close> when empty), amounts wrap
  at 64 bits.
\<close>

subsection \<open>Collection settings and excess payments\<close>

record CollectionSettings =
  FineBasisPoints :: int
  MonthlyInterestBasisPoints :: int

datatype collection_error = ErrFineRange | ErrInterestRange

definition CollectionSettingsValidate :: "CollectionSettings \<Rightarrow> collection_error option" where
  "CollectionSettingsValidate s =
     (if FineBasisPoints s < 0 \<or> FineBasisPoints s > 2000 then Some ErrFineRange
      else if MonthlyInterestBasisPoints s < 0 \<or> MonthlyInterestBasisPoints s > 1000
      then Some ErrInterestRange
      else None)"

definition CollectionSettingsIsZero :: "CollectionSettings \<Rightarrow> bool" where
  "CollectionSettingsIsZero s \<longleftrightarrow> s = \<lparr>FineBasisPoints = 0, MonthlyInterestBasisPoints = 0\<rparr>"

definition InterTxid :: "string \<Rightarrow> string" where
  "InterTxid attemptID = ''ctb'' @ TrimPrefix attemptID ''pa_''"

definition ImmediateInterTxid :: "string \<Rightarrow> string" where
  "ImmediateInterTxid attemptID = ''ctc'' @ TrimPrefix attemptID ''pa_''"

definition RefundWindow :: int where
  "RefundWindow = 90 * 24 * 3600 * 1000000000"

record ExcessPayment =
  ExID :: string
  ExOrganizationID :: string
  ExLivemode :: bool
  ExInvoiceID :: string
  ExAttemptID :: string
  ExAttemptNumber :: int
  ExProvider :: string
  ExPaymentID :: string
  ExSourcePaymentID :: string
  ExKind :: string
  ExCreditNoteID :: string
  ExAmount :: Cents
  ExStatus :: string
  ExRefundID :: string
  ExPaidAt :: int
  ExCreatedAt :: int

definition Refundable :: "ExcessPayment \<Rightarrow> int \<Rightarrow> bool" where
  "Refundable e now \<longleftrightarrow> \<not> now > ExPaidAt e + RefundWindow"

definition PayableUntil :: "Date \<Rightarrow> int \<Rightarrow> Date" where
  "PayableUntil due validityDays = AddDays due (max 1 validityDays)"

subsection \<open>The invoice\<close>

datatype InvoiceStatus =
    InvoiceDraft | InvoiceOpen | InvoicePaid | InvoiceVoid | InvoiceUncollectible
  | InvoiceStatusOther string

definition invoiceTransitions :: "InvoiceStatus table" where
  "invoiceTransitions =
     [((InvoiceDraft, InvoiceOpen), [mk_rule EventInvoiceFinalized [CauseScheduler, CauseManual]]),
      ((InvoiceDraft, InvoiceVoid), [mk_rule EventInvoiceVoided [CauseManual]]),
      ((InvoiceOpen, InvoicePaid),
         [mk_rule EventInvoicePaid paymentCauses, mk_rule EventInvoicePaid [CauseNothingDue]]),
      ((InvoiceOpen, InvoiceOpen), [mk_rule EventInvoicePaymentFailed [CausePaymentFailed]]),
      ((InvoiceOpen, InvoiceUncollectible), [mk_rule EventInvoiceUncollectible [CauseDunningExhausted]]),
      ((InvoiceOpen, InvoiceVoid), [mk_rule EventInvoiceVoided [CauseManual]]),
      ((InvoiceUncollectible, InvoicePaid), [mk_rule EventInvoicePaid paymentCauses])]"

record Invoice =
  InvID :: string
  InvOrganizationID :: string
  InvLivemode :: bool
  InvCustomerID :: string
  InvSubscriptionID :: string
  InvStatus :: InvoiceStatus
  InvOwnerKey :: string
  InvReference :: string
  InvPayerMessage :: string
  InvPixExpiresInSeconds :: int
  InvPDFKey :: string
  InvPolicy :: DunningSchedule
  InvCollection :: CollectionSettings
  InvDunningStep :: int
  InvLastRemindedAt :: "int option"
  InvNumber :: int
  InvPeriod :: Period
  InvDueDate :: Date
  InvCurrency :: string
  InvSubtotal :: Cents
  InvDiscount :: Cents
  InvTotal :: Cents
  InvAmountPaid :: Cents
  InvCreditedTotal :: Cents
  InvPaidAt :: "int option"
  InvAttemptCount :: int
  InvMetadata :: Metadata

definition Schedule :: "Invoice \<Rightarrow> DunningSchedule" where
  "Schedule i = (if length (InvPolicy i) > 0 then InvPolicy i else DefaultDunningPolicy)"

definition AmountDue :: "Invoice \<Rightarrow> Cents" where
  "AmountDue i = wrap64 (InvTotal i - InvAmountPaid i)"

definition NothingDue :: "Invoice \<Rightarrow> bool" where
  "NothingDue i \<longleftrightarrow> InvTotal i = 0"

definition Payable :: "Invoice \<Rightarrow> bool" where
  "Payable i \<longleftrightarrow> InvLivemode i \<and> InvStatus i = InvoiceOpen \<and> AmountDue i > 0"

definition IsOverdue :: "Invoice \<Rightarrow> Date \<Rightarrow> bool" where
  "IsOverdue i today \<longleftrightarrow> InvStatus i = InvoiceOpen \<and> Before (InvDueDate i) today"

definition InvoiceTransition ::
  "Invoice \<Rightarrow> InvoiceStatus \<Rightarrow> Cause \<Rightarrow> (transition_error, Invoice \<times> EventType list) result" where
  "InvoiceTransition i dst cause =
     (if cause = CauseNothingDue \<and> \<not> NothingDue i then Inl ErrCauseNotAllowed
      else case apply_table invoiceTransitions (InvStatus i) dst cause of
             Inl err \<Rightarrow> Inl err
           | Inr event \<Rightarrow>
               let i = i\<lparr>InvStatus := dst\<rparr>;
                   i = (if event = EventInvoicePaymentFailed
                        then i\<lparr>InvAttemptCount := wrap64 (InvAttemptCount i + 1)\<rparr> else i)
               in Inr (i, [event]))"

definition Collectable :: "Invoice \<Rightarrow> Cents" where
  "Collectable i = max 0 (wrap64 (AmountDue i - InvCreditedTotal i))"

definition ValidityDays :: "Invoice \<Rightarrow> int" where
  "ValidityDays i = max 1 (foldl (\<lambda>last step. max last (Offset step)) 0 (Schedule i))"

definition nothing_due_guard :: "Invoice \<Rightarrow> Cause \<Rightarrow> bool" where
  "nothing_due_guard i c \<longleftrightarrow> \<not> (c = CauseNothingDue \<and> \<not> NothingDue i)"

interpretation invoice: lifecycle invoiceTransitions InvStatus nothing_due_guard InvoiceTransition
  by unfold_locales (auto simp: InvoiceTransition_def nothing_due_guard_def Let_def)


subsection \<open>The lifecycle\<close>

lemma invoice_terminal:
  "terminal invoiceTransitions st \<longleftrightarrow> st = InvoicePaid \<or> st = InvoiceVoid \<or> (\<exists>x. st = InvoiceStatusOther x)"
  by (cases st) (simp_all add: terminal_def invoiceTransitions_def)

text \<open>A transition moves the status and counts failed attempts; amounts, lines, policy and
  period are as they were.\<close>

lemma InvoiceTransition_frame:
  assumes "InvoiceTransition i dst c = Inr (i', evs)"
  shows "i' = i\<lparr>InvStatus := dst,
    InvAttemptCount := (if c = CausePaymentFailed then wrap64 (InvAttemptCount i + 1) else InvAttemptCount i)\<rparr>"
proof -
  obtain ev where ev: "apply_table invoiceTransitions (InvStatus i) dst c = Inr ev"
    using invoice.transition_Inr [OF assms] by blast
  have "ev = EventInvoicePaymentFailed \<longleftrightarrow> c = CausePaymentFailed"
    using apply_table_edge [OF ev]
    by (auto simp: invoiceTransitions_def mk_rule_def rule_allows_def paymentCauses_def)
  then show ?thesis using assms ev
    by (auto simp: InvoiceTransition_def Let_def split: if_splits)
qed

lemma run_invoice_frame:
  "\<exists>st n. run_transitions InvoiceTransition i ms = i\<lparr>InvStatus := st, InvAttemptCount := n\<rparr>"
proof -
  define P where "P = (\<lambda>e. \<exists>st n. e = i\<lparr>InvStatus := st, InvAttemptCount := n\<rparr>)"
  have "P i" unfolding P_def by (intro exI [of _ "InvStatus i"] exI [of _ "InvAttemptCount i"]) simp
  then have "P (run_transitions InvoiceTransition i ms)"
  proof (rule run_invariant)
    fix e s c e' evs
    assume "P e" and t: "InvoiceTransition e s c = Inr (e', evs)"
    then obtain st n where e: "e = i\<lparr>InvStatus := st, InvAttemptCount := n\<rparr>" by (auto simp: P_def)
    obtain n' where "e' = e\<lparr>InvStatus := s, InvAttemptCount := n'\<rparr>"
      using InvoiceTransition_frame [OF t] by blast
    then have "e' = i\<lparr>InvStatus := s, InvAttemptCount := n'\<rparr>" by (simp add: e)
    then show "P e'" unfolding P_def by blast
  qed
  then show ?thesis by (simp add: P_def)
qed

lemma invoice_pays:
  assumes "InvoiceTransition i InvoicePaid c = Inr (i', evs)"
  shows "c \<in> set paymentCauses \<or> c = CauseNothingDue \<and> InvTotal i = 0"
proof -
  have "paymentCauses \<noteq> []" by (simp add: paymentCauses_def)
  moreover have "nothing_due_guard i c" using invoice.transition_Inr [OF assms] by blast
  ultimately show ?thesis
    using invoice.transition_edge [OF assms]
    by (auto simp: invoiceTransitions_def mk_rule_def rule_allows_def nothing_due_guard_def NothingDue_def)
qed

subsection \<open>How long a charge stays payable\<close>


lemma foldl_max_sorted:
  assumes "sorted_wrt (<) (map Offset p)" "p \<noteq> []" "a \<le> Offset (last p)"
  shows "foldl (\<lambda>last step. max last (Offset step)) a p = Offset (last p)"
  using assms
proof (induction p arbitrary: a)
  case (Cons s p)
  show ?case
  proof (cases "p = []")
    case False
    then have "Offset s < Offset (last p)" using Cons.prems by simp
    then have "max a (Offset s) \<le> Offset (last p)" using Cons.prems(3) False by simp
    with Cons.IH Cons.prems(1) False show ?thesis by simp
  qed (use Cons in simp)
qed simp


subsection \<open>Properties\<close>

text \<open>C1: Over any history of attempted moves, an invoice that was not \<open>PAID\<close> becomes \<open>PAID\<close>
  only through a move whose cause is a reconciled payment, or, for an invoice whose total is
  zero, the cause that nothing is due. An operator's manual status change never does it.\<close>

theorem invoice_paid_only_by_payment:
  assumes "InvStatus i \<noteq> InvoicePaid"
    and "InvStatus (run_transitions InvoiceTransition i moves) = InvoicePaid"
  shows "\<exists>c. (InvoicePaid, c) \<in> set moves \<and>
    (c \<in> set paymentCauses \<or> c = CauseNothingDue \<and> InvTotal i = 0)"
proof -
  obtain pre c post i' evs where m: "moves = pre @ (InvoicePaid, c) # post"
    and t: "InvoiceTransition (run_transitions InvoiceTransition i pre) InvoicePaid c = Inr (i', evs)"
    using invoice.run_enters [OF assms(2,1)] by blast
  have "InvTotal (run_transitions InvoiceTransition i pre) = InvTotal i"
    using run_invoice_frame [of i pre] by auto
  with invoice_pays [OF t] m show ?thesis by auto
qed

definition sample_invoice :: Invoice where
  "sample_invoice = \<lparr>InvID = ''in_1'', InvOrganizationID = ''org_1'', InvLivemode = True,
     InvCustomerID = ''cus_1'', InvSubscriptionID = ''sub_1'', InvStatus = InvoiceDraft,
     InvOwnerKey = [], InvReference = [], InvPayerMessage = [], InvPixExpiresInSeconds = 0,
     InvPDFKey = [], InvPolicy = [], InvCollection = \<lparr>FineBasisPoints = 0, MonthlyInterestBasisPoints = 0\<rparr>,
     InvDunningStep = 0, InvLastRemindedAt = None, InvNumber = 1,
     InvPeriod = \<lparr>Start = mk_date 2026 1 1, End = mk_date 2026 2 1\<rparr>, InvDueDate = mk_date 2026 1 5,
     InvCurrency = CurrencyBRL, InvSubtotal = 4990, InvDiscount = 0, InvTotal = 4990,
     InvAmountPaid = 0, InvCreditedTotal = 0, InvPaidAt = None, InvAttemptCount = 0, InvMetadata = []\<rparr>"

theorem invoice_paid_only_by_payment_witness:
  "\<exists>c. (InvoicePaid, c) \<in> set [(InvoiceOpen, CauseScheduler), (InvoicePaid, CauseManual), (InvoicePaid, CauseByokConfirmed)] \<and>
     (c \<in> set paymentCauses \<or> c = CauseNothingDue \<and> InvTotal sample_invoice = 0)"
  by (rule invoice_paid_only_by_payment) code_simp+

text \<open>\<open>PAID\<close> and \<open>VOID\<close> are final: no sequence of moves with any causes changes such an
  invoice. Whatever the moves, an invoice keeps its amounts, due date, period, number and
  dunning policy: only its status and its count of failed attempts change.\<close>

theorem invoice_settled_is_final:
  "(InvStatus i = InvoicePaid \<or> InvStatus i = InvoiceVoid \<longrightarrow>
      run_transitions InvoiceTransition i moves = i) \<and>
   (\<exists>st n. run_transitions InvoiceTransition i moves = i\<lparr>InvStatus := st, InvAttemptCount := n\<rparr>)"
  using run_invoice_frame [of i moves] invoice.run_terminal [of i moves]
  by (auto simp: invoice_terminal)

theorem invoice_settled_is_final_witness:
  "run_transitions InvoiceTransition (sample_invoice\<lparr>InvStatus := InvoicePaid\<rparr>)
     [(InvoiceVoid, CauseManual), (InvoiceOpen, CausePaymentFailed)] = sample_invoice\<lparr>InvStatus := InvoicePaid\<rparr>"
  using invoice_settled_is_final [of "sample_invoice\<lparr>InvStatus := InvoicePaid\<rparr>" "[(InvoiceVoid, CauseManual), (InvoiceOpen, CausePaymentFailed)]"]
  by simp

text \<open>Under a valid schedule whose last step is after the due date, a due-date charge is
  payable exactly until the day of that last step: billing chases the invoice as long as the
  charge can be paid.\<close>

theorem payable_as_long_as_chased:
  assumes "DunningValidate (Schedule i) = None" "1 \<le> Offset (last (Schedule i))"
  shows "DunningDate (Schedule i) (InvDueDate i) (int (length (Schedule i)) - 1) =
    Some (PayableUntil (InvDueDate i) (ValidityDays i))"
proof -
  have n: "Schedule i \<noteq> []" by (simp add: Schedule_def DefaultDunningPolicy_def)
  have "sorted_wrt (<) (map Offset (Schedule i))"
    using assms(1) by (simp add: DunningValidate_None well_ordered_def)
  then have "ValidityDays i = Offset (last (Schedule i))"
    using foldl_max_sorted [of "Schedule i" 0] n assms(2) by (simp add: ValidityDays_def)
  moreover have "nat (int (length (Schedule i)) - 1) = length (Schedule i) - Suc 0" by simp
  ultimately show ?thesis
    using n assms(2) by (simp add: DunningDate_def PayableUntil_def last_conv_nth)
qed

theorem payable_as_long_as_chased_witness:
  "DunningDate (Schedule sample_invoice) (InvDueDate sample_invoice) 5 =
     Some (PayableUntil (InvDueDate sample_invoice) (ValidityDays sample_invoice))"
proof -
  have "DunningValidate (Schedule sample_invoice) = None" "1 \<le> Offset (last (Schedule sample_invoice))"
    "int (length (Schedule sample_invoice)) - 1 = 5" by code_simp+
  then show ?thesis using payable_as_long_as_chased [of sample_invoice] by metis
qed

end
