(* ===== verification/Catalog.thy ===== *)
theory Catalog
  imports Dunning Metadata Money
begin

text \<open>
  What is sold and what is consumed, of \<open>api/internal/domain/billing\<close>: \<open>catalog.go\<close> (products,
  prices), \<open>subscription_item.go\<close>, \<open>usage.go\<close> (usage records of a metered item) and \<open>levels.go\<close>
  (levels reported under a meter). Instants are nanoseconds since 1970; the zero
  \<open>time.Time\<close> is the first of January of the year 1.
\<close>

subsection \<open>Prices\<close>

datatype PriceType = PriceFixed | PriceMetered | PriceTypeOther string

datatype Aggregation = AggregationNone | AggregationSum | AggregationMax | AggregationOther string

definition lower_case :: "char \<Rightarrow> bool" where
  "lower_case c \<longleftrightarrow> byte_in 97 122 c"

definition ValidMeter :: "string \<Rightarrow> bool" where
  "ValidMeter s =
     (if length s = 0 \<or> length s > 40 \<or> \<not> lower_case (hd s) then False
      else list_all (\<lambda>c. lower_case c \<or> is_digit c \<or> c = CHR ''_'') s)"

record Product =
  ProdID :: string
  ProdOrganizationID :: string
  ProdLivemode :: bool
  ProdName :: string
  ProdActive :: bool
  ProdOwnerKey :: string
  ProdDescription :: string
  ProdURL :: string
  ProdDunningPolicy :: DunningSchedule
  ProdDefaultPriceID :: string
  ProdMetadata :: Metadata

record Price =
  PriceID :: string
  PriceOrganizationID :: string
  PriceLivemode :: bool
  PriceProductID :: string
  PriceType' :: PriceType
  PriceCurrency :: string
  PriceName :: string
  PriceUnitAmount :: Cents
  PriceRecurrence :: Recurrence
  PriceTiming :: BillingTiming
  PriceAggregation :: Aggregation
  PriceMeter :: string
  PriceIncludedQuantity :: int
  PriceArchived :: bool
  PriceMetadata :: Metadata

definition Label :: "Price \<Rightarrow> string \<Rightarrow> string" where
  "Label p productName = (if PriceName p \<noteq> [] then PriceName p else productName)"

datatype price_error =
    ErrPriceType | ErrPriceCurrency | ErrPriceNegative | ErrPriceRecurrence recurrence_error
  | ErrMeteredInAdvance | ErrPriceTiming | ErrPriceAggregation | ErrNotMetered | ErrMaxWithoutMeter
  | ErrPriceMeter | ErrIncludedNegative | ErrPriceMetadata metadata_error

definition PriceValidate :: "Price \<Rightarrow> price_error option" where
  "PriceValidate p =
     (if PriceType' p \<noteq> PriceFixed \<and> PriceType' p \<noteq> PriceMetered then Some ErrPriceType
      else if PriceCurrency p \<noteq> CurrencyBRL then Some ErrPriceCurrency
      else if PriceUnitAmount p < 0 then Some ErrPriceNegative
      else case RecurrenceValidate (PriceRecurrence p) of Some err \<Rightarrow> Some (ErrPriceRecurrence err)
      | None \<Rightarrow>
        if PriceType' p = PriceMetered \<and> PriceTiming p \<noteq> BillArrears then Some ErrMeteredInAdvance
        else if PriceTiming p \<noteq> BillAdvance \<and> PriceTiming p \<noteq> BillArrears then Some ErrPriceTiming
        else if (case PriceAggregation p of AggregationOther _ \<Rightarrow> True | _ \<Rightarrow> False) then Some ErrPriceAggregation
        else if PriceType' p \<noteq> PriceMetered \<and>
          (PriceAggregation p \<noteq> AggregationNone \<or> PriceMeter p \<noteq> [] \<or> PriceIncludedQuantity p \<noteq> 0)
        then Some ErrNotMetered
        else if PriceAggregation p = AggregationMax \<and> PriceMeter p = [] then Some ErrMaxWithoutMeter
        else if PriceMeter p \<noteq> [] \<and> \<not> ValidMeter (PriceMeter p) then Some ErrPriceMeter
        else if PriceIncludedQuantity p < 0 then Some ErrIncludedNegative
        else map_option ErrPriceMetadata (MetadataValidate (PriceMetadata p)))"

definition ExceedsChargeCeiling :: "Price \<Rightarrow> bool" where
  "ExceedsChargeCeiling p \<longleftrightarrow> PriceType' p = PriceFixed \<and> PriceUnitAmount p > MaxChargeCents"

subsection \<open>Subscription items\<close>

record SubscriptionItem =
  SiID :: string
  SiOrganizationID :: string
  SiLivemode :: bool
  SiSubscriptionID :: string
  SiPriceID :: string
  SiQuantity :: int

datatype item_error = ErrItemPrice | ErrItemQuantity

definition SubscriptionItemValidate :: "SubscriptionItem \<Rightarrow> item_error option" where
  "SubscriptionItemValidate i =
     (if SiPriceID i = [] then Some ErrItemPrice
      else if SiQuantity i < 1 then Some ErrItemQuantity else None)"

subsection \<open>Usage and levels\<close>

definition zero_time :: int where
  "zero_time = - 62135596800 * 1000000000"

datatype usage_error =
    ErrUsageItem | ErrUsageKey | ErrUsageNegative | ErrUsageOccurredAt | ErrUsageCustomerRef | ErrUsageMeter

record UsageRecord =
  UrID :: string
  UrOrganizationID :: string
  UrLivemode :: bool
  UrSubscriptionItemID :: string
  UrQuantity :: int
  UrOccurredAt :: int
  UrIdempotencyKey :: string

definition UsageValidate :: "UsageRecord \<Rightarrow> usage_error option" where
  "UsageValidate u =
     (if UrSubscriptionItemID u = [] then Some ErrUsageItem
      else if UrIdempotencyKey u = [] then Some ErrUsageKey
      else if UrQuantity u < 0 then Some ErrUsageNegative
      else if UrOccurredAt u = zero_time then Some ErrUsageOccurredAt
      else None)"

definition UsageDate :: "UsageRecord \<Rightarrow> Date" where
  "UsageDate u = FromTime (UrOccurredAt u)"

definition SumUsage :: "UsageRecord list \<Rightarrow> Period \<Rightarrow> int" where
  "SumUsage records period =
     foldl (\<lambda>total r. if Contains period (UsageDate r) then wrap64 (total + UrQuantity r) else total) 0 records"

fun dedup_usage :: "string set \<Rightarrow> UsageRecord list \<Rightarrow> UsageRecord list" where
  "dedup_usage seen [] = []"
| "dedup_usage seen (r # rs) =
     (if UrIdempotencyKey r \<in> seen then dedup_usage seen rs
      else r # dedup_usage (insert (UrIdempotencyKey r) seen) rs)"

definition DeduplicateUsage :: "UsageRecord list \<Rightarrow> UsageRecord list" where
  "DeduplicateUsage records = dedup_usage {} records"

record LevelRecord =
  LvOrganizationID :: string
  LvLivemode :: bool
  LvCustomerRef :: string
  LvMeter :: string
  LvValue :: int
  LvOccurredAt :: int
  LvIdempotencyKey :: string
  LvPrevious :: int

definition LevelValidate :: "LevelRecord \<Rightarrow> usage_error option" where
  "LevelValidate l =
     (if LvCustomerRef l = [] \<or> CHR ''#'' \<in> set (LvCustomerRef l) then Some ErrUsageCustomerRef
      else if \<not> ValidMeter (LvMeter l) then Some ErrUsageMeter
      else if LvValue l < 0 then Some ErrUsageNegative
      else if LvOccurredAt l = zero_time then Some ErrUsageOccurredAt
      else if LvIdempotencyKey l = [] then Some ErrUsageKey
      else None)"

definition LevelDate :: "LevelRecord \<Rightarrow> Date" where
  "LevelDate l = FromTime (LvOccurredAt l)"

definition MaxLevel :: "LevelRecord list \<Rightarrow> int \<Rightarrow> Period \<Rightarrow> int" where
  "MaxLevel records carriedIn period =
     foldl (\<lambda>level r. if Contains period (LevelDate r) \<and> LvValue r > level then LvValue r else level)
       carriedIn records"

subsection \<open>What is counted\<close>

lemma SumUsage_wrap:
  "SumUsage records p = wrap64 (sum_list (map UrQuantity (filter (\<lambda>r. Contains p (UsageDate r)) records)))"
proof -
  have "foldl (\<lambda>total r. if Contains p (UsageDate r) then wrap64 (total + UrQuantity r) else total) (wrap64 a) records =
    wrap64 (a + sum_list (map UrQuantity (filter (\<lambda>r. Contains p (UsageDate r)) records)))" for a
    by (induction records arbitrary: a) (simp_all add: add.assoc)
  from this [of 0] show ?thesis by (simp add: SumUsage_def wrap64_id)
qed

lemma dedup_usage_keys: "set (map UrIdempotencyKey (dedup_usage seen rs)) = UrIdempotencyKey ` set rs - seen"
  by (induction rs arbitrary: seen) auto

lemma dedup_usage_distinct: "distinct (map UrIdempotencyKey (dedup_usage seen rs))"
  using dedup_usage_keys by (induction rs arbitrary: seen) fastforce+

lemma dedup_usage_duplicate:
  "UrIdempotencyKey r \<in> seen \<or> UrIdempotencyKey r \<in> UrIdempotencyKey ` set pre \<Longrightarrow>
   dedup_usage seen (pre @ r # post) = dedup_usage seen (pre @ post)"
proof (induction pre arbitrary: seen)
  case (Cons x pre)
  show ?case
  proof (cases "UrIdempotencyKey x \<in> seen")
    case True
    with Cons.prems have "UrIdempotencyKey r \<in> seen \<or> UrIdempotencyKey r \<in> UrIdempotencyKey ` set pre" by auto
    with True Cons.IH show ?thesis by simp
  next
    case False
    have "UrIdempotencyKey r \<in> insert (UrIdempotencyKey x) seen \<or> UrIdempotencyKey r \<in> UrIdempotencyKey ` set pre"
      using Cons.prems by auto
    from Cons.IH [OF this] False show ?thesis by simp
  qed
qed simp

lemma dedup_usage_id: "distinct (map UrIdempotencyKey rs) \<Longrightarrow> UrIdempotencyKey ` set rs \<inter> seen = {} \<Longrightarrow> dedup_usage seen rs = rs"
  by (induction rs arbitrary: seen) auto

lemma MaxLevel_fold:
  "MaxLevel records carriedIn p = fold max (map LvValue (filter (\<lambda>r. Contains p (LevelDate r)) records)) carriedIn"
  unfolding MaxLevel_def by (induction records arbitrary: carriedIn) (auto simp: max_def)

lemma MaxLevel_Max:
  "MaxLevel records carriedIn p = Max (insert carriedIn (LvValue ` {r \<in> set records. Contains p (LevelDate r)}))"
proof -
  let ?xs = "map LvValue (filter (\<lambda>r. Contains p (LevelDate r)) records)"
  have "MaxLevel records carriedIn p = Max (set (carriedIn # ?xs))"
    unfolding MaxLevel_fold by (rule Max.set_eq_fold [symmetric])
  then show ?thesis by simp
qed


lemma sum_list_filter_split:
  "(\<And>x. R x \<longleftrightarrow> P x \<or> Q x) \<Longrightarrow> (\<And>x. \<not> (P x \<and> Q x)) \<Longrightarrow>
   sum_list (map f (filter R xs)) = sum_list (map f (filter P xs)) + (sum_list (map f (filter Q xs)) :: int)"
proof (induction xs)
  case (Cons x xs)
  then show ?case by (cases "P x"; cases "Q x") auto
qed simp

subsection \<open>Properties\<close>

text \<open>Over the first \<open>n\<close> periods of a cycle, up to a million of them, what the periods bill adds up to the usage
  dated from the anchor up to the end of the last one: no record falls between two periods
  and none is counted in two.\<close>

theorem usage_counted_in_one_period:
  assumes "valid_cycle (r, a)" "n \<le> 1000000"
  shows "wrap64 (\<Sum>k<n. SumUsage records (the (PeriodAt r a (int k)))) =
    wrap64 (sum_list (map UrQuantity (filter (\<lambda>u. a \<le> UsageDate u \<and> UsageDate u < cycle_boundary (r, a) n) records)))"
  using assms(2)
proof (induction n)
  case 0
  have "filter (\<lambda>u. a \<le> UsageDate u \<and> UsageDate u < a) records = []" by (auto simp: filter_empty_conv)
  then show ?case using cycle_boundary_0 [OF assms(1)] by simp
next
  case (Suc n)
  let ?b = "cycle_boundary (r, a)"
  let ?sum = "\<lambda>P. sum_list (map UrQuantity (filter (\<lambda>u. P (UsageDate u)) records))"
  have "a \<le> ?b n" using cycle.boundary_mono [OF assms(1), of 0 n] cycle_boundary_0 [OF assms(1)] by simp
  then have "?sum (\<lambda>d. a \<le> d \<and> d < ?b (Suc n)) = ?sum (\<lambda>d. a \<le> d \<and> d < ?b n) + ?sum (\<lambda>d. ?b n \<le> d \<and> d < ?b (Suc n))"
    using cycle.boundary_step [OF assms(1), of n] by (intro sum_list_filter_split) auto
  moreover have "SumUsage records (the (PeriodAt r a (int n))) = wrap64 (?sum (\<lambda>d. ?b n \<le> d \<and> d < ?b (Suc n)))"
    using Suc.prems by (simp add: SumUsage_wrap PeriodAt_boundary [OF assms(1)] Contains_iff)
  moreover note Suc.IH [OF Suc_leD [OF Suc.prems]]
  ultimately show ?case
    using wrap64_add_left by (metis (no_types, lifting) sum.lessThan_Suc wrap64_add_right)
qed

definition monthly :: Recurrence where
  "monthly = \<lparr>RInterval = IntervalMonth, RCount = 1\<rparr>"

lemma monthly_cycle: "valid_cycle (monthly, mk_date 2026 1 31)"
  by code_simp

definition sample_usage :: "int \<Rightarrow> int \<Rightarrow> string \<Rightarrow> UsageRecord" where
  "sample_usage q day key = \<lparr>UrID = ''ur_1'', UrOrganizationID = ''org_1'', UrLivemode = True,
     UrSubscriptionItemID = ''si_1'', UrQuantity = q, UrOccurredAt = (86400 * day + 43200) * 1000000000,
     UrIdempotencyKey = key\<rparr>"

theorem usage_counted_in_one_period_witness:
  "wrap64 (\<Sum>k<2. SumUsage [sample_usage 3 20500 ''a'', sample_usage 4 20530 ''b''] (the (PeriodAt monthly (mk_date 2026 1 31) (int k)))) =
   wrap64 (sum_list (map UrQuantity (filter (\<lambda>u. mk_date 2026 1 31 \<le> UsageDate u \<and>
     UsageDate u < cycle_boundary (monthly, mk_date 2026 1 31) 2) [sample_usage 3 20500 ''a'', sample_usage 4 20530 ''b''])))"
  by (rule usage_counted_in_one_period [OF monthly_cycle]) simp

text \<open>Sending a usage report again, anywhere after the first time, changes nothing that is
  billed: what is kept has each idempotency key once, loses no key, and sums to the same.\<close>

theorem usage_retry_is_harmless:
  assumes "UrIdempotencyKey r \<in> UrIdempotencyKey ` set pre"
  shows "SumUsage (DeduplicateUsage (pre @ r # post)) p = SumUsage (DeduplicateUsage (pre @ post)) p \<and>
    distinct (map UrIdempotencyKey (DeduplicateUsage (pre @ r # post))) \<and>
    UrIdempotencyKey ` set (DeduplicateUsage (pre @ r # post)) = UrIdempotencyKey ` set (pre @ post)"
proof -
  have d: "DeduplicateUsage (pre @ r # post) = DeduplicateUsage (pre @ post)"
    using assms by (simp add: DeduplicateUsage_def dedup_usage_duplicate)
  have "UrIdempotencyKey ` set (DeduplicateUsage (pre @ post)) = UrIdempotencyKey ` set (pre @ post)"
    unfolding DeduplicateUsage_def using dedup_usage_keys [of "{}" "pre @ post"] by simp
  then show ?thesis unfolding d by (simp add: DeduplicateUsage_def dedup_usage_distinct)
qed

theorem usage_retry_is_harmless_witness:
  "SumUsage (DeduplicateUsage ([sample_usage 3 20500 ''a''] @ sample_usage 3 20500 ''a'' # [])) \<lparr>Start = mk_date 2026 1 31, End = mk_date 2026 2 28\<rparr> =
   SumUsage (DeduplicateUsage ([sample_usage 3 20500 ''a''] @ [])) \<lparr>Start = mk_date 2026 1 31, End = mk_date 2026 2 28\<rparr>"
proof -
  have "UrIdempotencyKey (sample_usage 3 20500 ''a'') \<in> UrIdempotencyKey ` set [sample_usage 3 20500 ''a'']" by simp
  from usage_retry_is_harmless [OF this] show ?thesis by blast
qed

text \<open>A max price bills the highest level held in the period: the largest of the level
  carried in and the levels reported inside it.\<close>

theorem max_level_is_the_peak:
  "MaxLevel records carriedIn p = Max (insert carriedIn (LvValue ` {r \<in> set records. Contains p (LevelDate r)}))"
  by (rule MaxLevel_Max)

end
