(* ===== verification/Lines.thy ===== *)
theory Lines
  imports Invoice Catalog Proration
begin

text \<open>
  \<open>api/internal/domain/billing/invoice_lines.go\<close> and \<open>creditnote.go\<close>: the lines of an invoice
  (fixed, metered, and the pair a change of price in mid period produces), the totals they
  give, the key that makes generating a period's invoice idempotent, and the credit notes
  that correct an issued invoice. Amounts wrap at 64 bits.
\<close>

subsection \<open>Lines\<close>

record InvoiceItem =
  LineDescription :: string
  LinePriceID :: string
  LinePeriod :: Period
  LineQuantity :: int
  LineUnitAmount :: Cents
  LineAmount :: Cents
  LineProration :: bool

definition FixedLine :: "Price \<Rightarrow> string \<Rightarrow> Period \<Rightarrow> int \<Rightarrow> InvoiceItem" where
  "FixedLine p productName period quantity =
     \<lparr>LineDescription = productName, LinePriceID = PriceID p, LinePeriod = period,
      LineQuantity = quantity, LineUnitAmount = PriceUnitAmount p,
      LineAmount = wrap64 (PriceUnitAmount p * quantity), LineProration = False\<rparr>"

definition BillableUnits :: "int \<Rightarrow> int \<Rightarrow> int" where
  "BillableUnits units included = (if units \<le> included then 0 else wrap64 (units - included))"

definition MeteredLine :: "Price \<Rightarrow> string \<Rightarrow> Period \<Rightarrow> int \<Rightarrow> InvoiceItem" where
  "MeteredLine p productName period units =
     (let billed = BillableUnits units (PriceIncludedQuantity p)
      in \<lparr>LineDescription = productName, LinePriceID = PriceID p, LinePeriod = period,
          LineQuantity = billed, LineUnitAmount = PriceUnitAmount p,
          LineAmount = wrap64 (PriceUnitAmount p * billed), LineProration = False\<rparr>)"

record SwapSide =
  SideTotal :: Cents
  SideName :: string
  SidePriceID :: string

text \<open>\<open>Credito\<close> with its accent and the em dash, in UTF-8.\<close>

definition credit_label :: string where
  "credit_label = ''Cr'' @ bytes [195, 169] @ ''dito proporcional '' @ bytes [226, 128, 148] @ '' ''"

definition days_of :: "Swap \<Rightarrow> string" where
  "days_of s = '' ('' @ itoa (RemainingDays s) @ '' de '' @ itoa (PeriodDays s) @ '' dias)''"

definition SwapSideLines :: "SwapSide \<Rightarrow> SwapSide \<Rightarrow> Period \<Rightarrow> Date \<Rightarrow> InvoiceItem \<times> InvoiceItem" where
  "SwapSideLines old updated period at =
     (let s = ProrateSwap (SideTotal old) (SideTotal updated) period at;
          remainder = \<lparr>Start = at, End = End period\<rparr>
      in (\<lparr>LineDescription = credit_label @ SideName old @ days_of s, LinePriceID = SidePriceID old,
           LinePeriod = remainder, LineQuantity = 1, LineUnitAmount = SideTotal old,
           LineAmount = wrap64 (- Credit s), LineProration = True\<rparr>,
          \<lparr>LineDescription = SideName updated @ days_of s, LinePriceID = SidePriceID updated,
           LinePeriod = remainder, LineQuantity = 1, LineUnitAmount = SideTotal updated,
           LineAmount = Charge s, LineProration = True\<rparr>))"

definition SwapLines :: "Price \<Rightarrow> Price \<Rightarrow> string \<Rightarrow> string \<Rightarrow> Period \<Rightarrow> Date \<Rightarrow> InvoiceItem \<times> InvoiceItem" where
  "SwapLines oldPrice newPrice oldName newName period at =
     SwapSideLines
       \<lparr>SideTotal = PriceUnitAmount oldPrice, SideName = oldName, SidePriceID = PriceID oldPrice\<rparr>
       \<lparr>SideTotal = PriceUnitAmount newPrice, SideName = newName, SidePriceID = PriceID newPrice\<rparr>
       period at"

definition Subtotal :: "InvoiceItem list \<Rightarrow> Cents" where
  "Subtotal items = foldl (\<lambda>total it. wrap64 (total + LineAmount it)) 0 items"

datatype items_error = ErrNoLines | ErrDiscountNegative | ErrTotalNegative

definition ApplyToInvoice :: "Invoice \<Rightarrow> InvoiceItem list \<Rightarrow> Cents \<Rightarrow> (items_error, Invoice) result" where
  "ApplyToInvoice invo items discount =
     (if length items = 0 then Inl ErrNoLines
      else if discount < 0 then Inl ErrDiscountNegative
      else let subtotal = Subtotal items;
               total = wrap64 (subtotal - discount)
           in if total < 0 then Inl ErrTotalNegative
              else Inr (invo\<lparr>InvSubtotal := subtotal, InvDiscount := discount, InvTotal := total\<rparr>))"

definition GenerationKey :: "string \<Rightarrow> Date \<Rightarrow> string" where
  "GenerationKey subscriptionID periodStart = subscriptionID @ '':'' @ String periodStart"

subsection \<open>Credit notes\<close>

record CreditNote =
  CnID :: string
  CnOrganizationID :: string
  CnLivemode :: bool
  CnInvoiceID :: string
  CnCustomerID :: string
  CnAmount :: Cents
  CnCurrency :: string
  CnReason :: string
  CnRefundedExternally :: bool
  CnExternalRefundRef :: string
  CnCreatedBy :: string
  CnCreatedAt :: int
  CnMetadata :: Metadata

datatype credit_note_error =
    ErrCreditAmount | ErrCreditInvoice | ErrCreditStatus InvoiceStatus | ErrCreditedNegative
  | ErrOverCredit | ErrCreditMetadata metadata_error

definition ValidateAgainst :: "CreditNote \<Rightarrow> Invoice \<Rightarrow> Cents \<Rightarrow> credit_note_error option" where
  "ValidateAgainst cn invo alreadyCredited =
     (if CnAmount cn \<le> 0 then Some ErrCreditAmount
      else if CnInvoiceID cn \<noteq> InvID invo then Some ErrCreditInvoice
      else if \<not> (InvStatus invo = InvoiceOpen \<or> InvStatus invo = InvoicePaid \<or> InvStatus invo = InvoiceUncollectible)
      then Some (ErrCreditStatus (InvStatus invo))
      else if alreadyCredited < 0 then Some ErrCreditedNegative
      else if wrap64 (alreadyCredited + CnAmount cn) > InvTotal invo then Some ErrOverCredit
      else map_option ErrCreditMetadata (MetadataValidate (CnMetadata cn)))"

definition FullyCredited :: "Invoice \<Rightarrow> Cents \<Rightarrow> bool" where
  "FullyCredited invo totalCredited \<longleftrightarrow> InvTotal invo > 0 \<and> totalCredited \<ge> InvTotal invo"


subsection \<open>Totals\<close>

lemma Subtotal_wrap: "Subtotal items = wrap64 (sum_list (map LineAmount items))"
proof -
  have "foldl (\<lambda>total it. wrap64 (total + LineAmount it)) (wrap64 a) items = wrap64 (a + sum_list (map LineAmount items))" for a
    by (induction items arbitrary: a) (simp_all add: add.assoc)
  from this [of 0] show ?thesis by (simp add: Subtotal_def wrap64_id)
qed

lemma ApplyToInvoice_spec:
  assumes "in64 (sum_list (map LineAmount items) - discount)"
  shows "ApplyToInvoice i items discount =
    (if items = [] then Inl ErrNoLines
     else if discount < 0 then Inl ErrDiscountNegative
     else if sum_list (map LineAmount items) < discount then Inl ErrTotalNegative
     else Inr (i\<lparr>InvSubtotal := Subtotal items, InvDiscount := discount,
                 InvTotal := sum_list (map LineAmount items) - discount\<rparr>))"
proof -
  have "wrap64 (Subtotal items - discount) = wrap64 (sum_list (map LineAmount items) - discount)"
    using wrap64_add_left [of "sum_list (map LineAmount items)" "- discount"] by (simp add: Subtotal_wrap)
  also have "\<dots> = sum_list (map LineAmount items) - discount" using assms by (rule wrap64_id)
  finally show ?thesis by (simp add: ApplyToInvoice_def Let_def)
qed

subsection \<open>A change of price in mid period\<close>

lemma swap_line_amounts:
  assumes "money_range (SideTotal old)" "0 \<le> SideTotal old" "money_range (SideTotal upd)" "0 \<le> SideTotal upd"
    and "SwapSideLines old upd period at = (credit, charge)"
  shows "- SideTotal old \<le> LineAmount credit" "LineAmount credit \<le> 0"
    "0 \<le> LineAmount charge" "LineAmount charge \<le> SideTotal upd"
    "SideTotal old = SideTotal upd \<Longrightarrow> LineAmount credit + LineAmount charge = 0"
proof -
  define d where "d = (let at = (if Before at (Start period) then Start period else at)
                       in if After at (End period) then End period else at)"
  have c: "LineAmount credit = wrap64 (- ProrateRemaining (SideTotal old) period d)"
    "LineAmount charge = ProrateRemaining (SideTotal upd) period d"
    using assms(5) by (auto simp: SwapSideLines_def ProrateSwap_def d_def Let_def)
  note o = used_remaining_range(2,3) [OF assms(1,2), of period d]
    and u = used_remaining_range(2,3) [OF assms(3,4), of period d]
  have "in64 (- ProrateRemaining (SideTotal old) period d)"
    using o assms(1,2) by (auto simp: money_range_def intro!: in64_bound)
  then have "LineAmount credit = - ProrateRemaining (SideTotal old) period d" using c by (simp add: wrap64_id)
  with c o u show "- SideTotal old \<le> LineAmount credit" "LineAmount credit \<le> 0"
    "0 \<le> LineAmount charge" "LineAmount charge \<le> SideTotal upd"
    "SideTotal old = SideTotal upd \<Longrightarrow> LineAmount credit + LineAmount charge = 0" by simp_all
qed

subsection \<open>Properties\<close>

text \<open>C31: An invoice is given exactly the sum of its lines less the discount as its total, or is
  left as it was: with no lines, a negative discount or a negative total the operation is
  refused, so no invoice ever asks for a negative amount.\<close>

theorem invoice_totals_add_up:
  assumes "in64 (sum_list (map LineAmount items) - discount)"
  shows "(case ApplyToInvoice i items discount of
      Inr i' \<Rightarrow> items \<noteq> [] \<and> 0 \<le> discount \<and> InvTotal i' = sum_list (map LineAmount items) - discount \<and>
        0 \<le> InvTotal i' \<and> InvDiscount i' = discount \<and> InvStatus i' = InvStatus i \<and>
        InvTotal i' = wrap64 (InvSubtotal i' - InvDiscount i')
    | Inl err \<Rightarrow> items = [] \<or> discount < 0 \<or> sum_list (map LineAmount items) < discount)"
proof -
  have "wrap64 (Subtotal items - discount) = sum_list (map LineAmount items) - discount"
    using wrap64_add_left [of "sum_list (map LineAmount items)" "- discount"] assms
    by (simp add: Subtotal_wrap wrap64_id)
  then show ?thesis by (simp add: ApplyToInvoice_spec [OF assms])
qed

definition sample_line :: InvoiceItem where
  "sample_line = \<lparr>LineDescription = ''Plano'', LinePriceID = ''price_1'',
     LinePeriod = \<lparr>Start = mk_date 2026 1 1, End = mk_date 2026 2 1\<rparr>, LineQuantity = 2,
     LineUnitAmount = 4990, LineAmount = 9980, LineProration = False\<rparr>"

theorem invoice_totals_add_up_witness:
  "case ApplyToInvoice sample_invoice [sample_line, sample_line\<lparr>LineAmount := - 480\<rparr>] 500 of
      Inr i' \<Rightarrow> InvTotal i' = 9000 | Inl err \<Rightarrow> False"
proof -
  have "in64 (sum_list (map LineAmount [sample_line, sample_line\<lparr>LineAmount := - 480\<rparr>]) - 500)" by code_simp
  from invoice_totals_add_up [OF this, of sample_invoice] show ?thesis
    by (simp add: sample_line_def split: sum.splits)
qed

text \<open>A change of price in mid period produces a credit line that gives back at most the old
  price and never charges, a charge line between zero and the new price, and for equal
  prices two lines that cancel exactly.\<close>

theorem swap_lines_bounded:
  assumes "money_range (SideTotal old)" "0 \<le> SideTotal old" "money_range (SideTotal upd)" "0 \<le> SideTotal upd"
  shows "case SwapSideLines old upd period at of (credit, charge) \<Rightarrow>
    - SideTotal old \<le> LineAmount credit \<and> LineAmount credit \<le> 0 \<and>
    0 \<le> LineAmount charge \<and> LineAmount charge \<le> SideTotal upd \<and>
    (SideTotal old = SideTotal upd \<longrightarrow> LineAmount credit + LineAmount charge = 0)"
  using swap_line_amounts [OF assms] by (auto split: prod.splits)

theorem swap_lines_bounded_witness:
  "case SwapSideLines \<lparr>SideTotal = 4990, SideName = ''A'', SidePriceID = ''p1''\<rparr> \<lparr>SideTotal = 9990, SideName = ''B'', SidePriceID = ''p2''\<rparr>
      \<lparr>Start = mk_date 2026 1 1, End = mk_date 2026 2 1\<rparr> (mk_date 2026 1 11) of
     (credit, charge) \<Rightarrow> - 4990 \<le> LineAmount credit \<and> LineAmount charge \<le> 9990"
proof -
  have "money_range (SideTotal \<lparr>SideTotal = 4990, SideName = ''A'', SidePriceID = ''p1''\<rparr>)"
    "0 \<le> SideTotal \<lparr>SideTotal = 4990, SideName = ''A'', SidePriceID = ''p1''\<rparr>"
    "money_range (SideTotal \<lparr>SideTotal = 9990, SideName = ''B'', SidePriceID = ''p2''\<rparr>)"
    "0 \<le> SideTotal \<lparr>SideTotal = 9990, SideName = ''B'', SidePriceID = ''p2''\<rparr>" by code_simp+
  from swap_lines_bounded [OF this, of "\<lparr>Start = mk_date 2026 1 1, End = mk_date 2026 2 1\<rparr>" "mk_date 2026 1 11"]
  show ?thesis by (auto split: prod.splits)
qed

text \<open>Two invoices of subscriptions have the same generation key exactly when they are for
  the same subscription and the same first day of the period, so a sweep that runs again
  writes nothing new and two periods never share a key.\<close>

theorem generation_key_identifies_period:
  assumes "valid_date d" "0 \<le> Year d" "Year d \<le> 9999" "valid_date e" "0 \<le> Year e" "Year e \<le> 9999"
  shows "GenerationKey s d = GenerationKey t e \<longleftrightarrow> s = t \<and> d = e"
proof
  assume "GenerationKey s d = GenerationKey t e"
  then have "s = t \<and> String d = String e"
    unfolding GenerationKey_def
    by (intro split_at_last_colon String_no_colon assms) simp
  then show "s = t \<and> d = e" using String_inj assms by blast
qed simp

theorem generation_key_identifies_period_witness:
  "GenerationKey ''sub_1'' (mk_date 2026 1 31) = GenerationKey ''sub_1'' (mk_date 2026 2 28) \<longleftrightarrow>
   ''sub_1'' = ''sub_1'' \<and> mk_date 2026 1 31 = mk_date 2026 2 28"
  by (rule generation_key_identifies_period) code_simp+

end
