(* ===== verification/Tenant.thy ===== *)
theory Tenant
  imports Invoice
begin

text \<open>
  The tenant and what it may do, of \<open>api/internal/domain/billing\<close>: \<open>organization.go\<close>,
  \<open>charge_gate.go\<close> (the one gate that decides whether a charge may be opened), \<open>merchant.go\<close>,
  \<open>application.go\<close>, \<open>credential.go\<close> and \<open>payout.go\<close>.
\<close>

subsection \<open>Organizations and the charge gate\<close>

datatype PayoutStatus = PayoutNotConfigured | PayoutPendingCustody | PayoutEnabled | PayoutStatusOther string

text \<open>\<open>RailUnset\<close> is the empty string a tenant from before BYOK has.\<close>

datatype PayoutRail = RailUnset | RailWallet | RailBYOK | RailOther string

record Organization =
  OrgID :: string
  OrgDisplayName :: string
  OrgLivemode :: bool
  OrgPayoutStatus :: PayoutStatus
  OrgOwnerUserID :: string
  OrgAccountOrganizationID :: string
  OrgLegalName :: string
  OrgIssuerTaxID :: string
  OrgIssuerAddress :: string
  OrgIssuerEmail :: string
  OrgDunningPolicy :: DunningSchedule
  OrgSuspendedAt :: string
  OrgPayoutRail :: PayoutRail
  OrgPayoutProvider :: string
  OrgCollection :: CollectionSettings

definition Suspended :: "Organization \<Rightarrow> bool" where
  "Suspended o' \<longleftrightarrow> OrgLivemode o' \<and> OrgSuspendedAt o' \<noteq> []"

datatype charge_error =
    ErrPayoutNotEnabled | ErrByokNotConnected | ErrByokCertificateExpired | ErrByokScopesMissing
  | ErrTenantSuspended | ErrByokQuotaExceeded

record ConnectionFacts =
  Found :: bool
  Active :: bool
  Expired :: bool
  Collection :: bool

record ChargeGate =
  Connection :: ConnectionFacts
  Entitled :: bool
  QuotaExceeded :: bool

definition Rail :: "Organization \<Rightarrow> PayoutRail" where
  "Rail o' = (if OrgPayoutRail o' = RailUnset then RailWallet else OrgPayoutRail o')"

definition AuthorizeCharge :: "Organization \<Rightarrow> ChargeGate \<Rightarrow> charge_error option" where
  "AuthorizeCharge o' g =
     (if OrgPayoutStatus o' \<noteq> PayoutEnabled then Some ErrPayoutNotEnabled
      else if Rail o' = RailWallet then None
      else if \<not> Found (Connection g) then Some ErrByokNotConnected
      else if Expired (Connection g) then Some ErrByokCertificateExpired
      else if \<not> Active (Connection g) then Some ErrByokNotConnected
      else if \<not> Collection (Connection g) then Some ErrByokScopesMissing
      else if \<not> OrgLivemode o' then None
      else if Suspended o' then Some ErrTenantSuspended
      else if \<not> Entitled g then Some ErrPayoutNotEnabled
      else if QuotaExceeded g then Some ErrByokQuotaExceeded
      else None)"

subsection \<open>Applications and the merchant status\<close>

datatype ApplicationStatus =
  ApplicationNone | ApplicationPending | ApplicationApproved | ApplicationRejected | ApplicationStatusOther string

definition ApplicationStatusValid :: "ApplicationStatus \<Rightarrow> bool" where
  "ApplicationStatusValid s =
     (case s of ApplicationPending \<Rightarrow> True | ApplicationApproved \<Rightarrow> True | ApplicationRejected \<Rightarrow> True | _ \<Rightarrow> False)"

datatype MonthlyVolume =
  VolumeNone | VolumeUpTo10k | Volume10kTo50k | Volume50kTo200k | VolumeOver200k | VolumeOther string

definition MonthlyVolumeValid :: "MonthlyVolume \<Rightarrow> bool" where
  "MonthlyVolumeValid v = (case v of VolumeOther _ \<Rightarrow> False | _ \<Rightarrow> True)"

record Application =
  AplID :: string
  AplAccountOrganizationID :: string
  AplOrganizationName :: string
  AplTenantID :: string
  AplCompanyID :: string
  AplCompanyLegalName :: string
  AplCompanyTaxID :: string
  AplDescription :: string
  AplWebsite :: string
  AplExpectedMonthlyVolume :: MonthlyVolume
  AplContactEmail :: string
  AplAppliedBy :: string
  AplAppliedAt :: string
  AplStatus :: ApplicationStatus
  AplDecidedBy :: string
  AplDecidedAt :: string
  AplRejectionReason :: string
  AplSubscriptionID :: string

datatype MerchantStatus =
  MerchantNone | MerchantTest | MerchantLive | MerchantRejected | MerchantSuspended | MerchantStatusOther string

definition MerchantStatusValid :: "MerchantStatus \<Rightarrow> bool" where
  "MerchantStatusValid s = (case s of MerchantStatusOther _ \<Rightarrow> False | _ \<Rightarrow> True)"

definition MerchantStatusOf :: "Organization option \<Rightarrow> Organization option \<Rightarrow> ApplicationStatus \<Rightarrow> MerchantStatus" where
  "MerchantStatusOf test live latest =
     (if (case live of Some l \<Rightarrow> Suspended l | None \<Rightarrow> False) then MerchantSuspended
      else if live \<noteq> None then MerchantLive
      else if latest = ApplicationRejected then MerchantRejected
      else if test \<noteq> None then MerchantTest
      else MerchantNone)"

subsection \<open>Credentials\<close>

record APICredential =
  CredClientID :: string
  CredOrganizationID :: string
  CredLivemode :: bool
  CredDescription :: string
  CredOwnerKey :: string
  CredActive :: bool
  CredConnectedBy :: string
  CredConnectedAt :: string

datatype credential_error = ErrCredentialIncomplete | ErrCredentialInactive

definition CredentialValidate :: "APICredential \<Rightarrow> credential_error option" where
  "CredentialValidate c =
     (if CredClientID c = [] \<or> CredOrganizationID c = [] then Some ErrCredentialIncomplete
      else if \<not> CredActive c then Some ErrCredentialInactive
      else None)"

definition Allows :: "APICredential \<Rightarrow> string \<Rightarrow> bool" where
  "Allows c ownerKey \<longleftrightarrow> CredOwnerKey c = [] \<or> CredOwnerKey c = ownerKey"

definition CredentialProvisioned :: "APICredential \<Rightarrow> bool" where
  "CredentialProvisioned c \<longleftrightarrow> CredConnectedBy c = []"

subsection \<open>Payouts\<close>

datatype PayoutState = PayoutProcessing | PayoutDone | PayoutFailed | PayoutStateOther string

record Payout =
  PoID :: string
  PoOrganizationID :: string
  PoLivemode :: bool
  PoOwnerKey :: string
  PoReference :: string
  PoRequestHash :: string
  PoRef :: string
  PoProviderRef :: string
  PoPaymentID :: string
  PoAmount :: Cents
  PoCPF :: string
  PoMessage :: string
  PoStatus :: PayoutState
  PoFailureReason :: string
  PoCreatedAt :: int
  PoUpdatedAt :: int

definition Final :: "Payout \<Rightarrow> bool" where
  "Final p \<longleftrightarrow> PoStatus p = PayoutDone \<or> PoStatus p = PayoutFailed"

subsection \<open>Properties\<close>

text \<open>A charge is authorised exactly for an enabled tenant that either collects on the
  wallet rail, or has a live bank connection with the collection scopes and, in live mode,
  is not suspended, is entitled and within its quota; test mode never meets the last three.\<close>

theorem charge_authorised_iff:
  "AuthorizeCharge o' g = None \<longleftrightarrow>
     OrgPayoutStatus o' = PayoutEnabled \<and>
     (Rail o' = RailWallet \<or>
      Found (Connection g) \<and> Active (Connection g) \<and> \<not> Expired (Connection g) \<and> Collection (Connection g) \<and>
      (OrgLivemode o' \<longrightarrow> OrgSuspendedAt o' = [] \<and> Entitled g \<and> \<not> QuotaExceeded g))"
  by (auto simp: AuthorizeCharge_def Suspended_def)

definition sample_organization :: Organization where
  "sample_organization = \<lparr>OrgID = ''org_1'', OrgDisplayName = ''Loja'', OrgLivemode = True,
     OrgPayoutStatus = PayoutEnabled, OrgOwnerUserID = ''u1'', OrgAccountOrganizationID = ''a1'',
     OrgLegalName = [], OrgIssuerTaxID = [], OrgIssuerAddress = [], OrgIssuerEmail = [],
     OrgDunningPolicy = [], OrgSuspendedAt = [], OrgPayoutRail = RailBYOK, OrgPayoutProvider = ''inter'',
     OrgCollection = \<lparr>FineBasisPoints = 200, MonthlyInterestBasisPoints = 100\<rparr>\<rparr>"

theorem charge_authorised_iff_witness:
  "AuthorizeCharge sample_organization
     \<lparr>Connection = \<lparr>Found = True, Active = True, Expired = False, Collection = True\<rparr>, Entitled = True, QuotaExceeded = False\<rparr> = None"
  using charge_authorised_iff [of sample_organization
      "\<lparr>Connection = \<lparr>Found = True, Active = True, Expired = False, Collection = True\<rparr>, Entitled = True, QuotaExceeded = False\<rparr>"]
  by (simp add: sample_organization_def)

end
