(* ===== verification/Webhook.thy ===== *)
theory Webhook
  imports StateMachine Text "HOL-Library.Word" "HOL-Library.Char_ord" "HOL-Library.List_Lexorder"
begin

text \<open>
  Outbound webhooks, of \<open>api/internal/domain/billing\<close>: \<open>webhook.go\<close> (endpoints, events,
  deliveries, the backoff), \<open>webhook_events.go\<close> (the events a merchant may subscribe to) and
  \<open>webhook_url.go\<close> (which addresses an endpoint may have). An event type is the string it
  is on the wire, because endpoint filters are free strings. A timestamp stored as RFC 3339
  text is the instant it denotes (nanoseconds since 1970), \<open>None\<close> when the text is empty. \<open>net/url.Parse\<close> and
  \<open>netip.ParseAddr\<close> are arguments of the operations that call them; what \<open>net/netip\<close> answers
  about an address is modelled.
\<close>

subsection \<open>Event types\<close>

fun event_name :: "EventType \<Rightarrow> string" where
  "event_name EventInvoiceCreated = ''invoice.created''"
| "event_name EventInvoiceFinalized = ''invoice.finalized''"
| "event_name EventInvoicePaid = ''invoice.paid''"
| "event_name EventInvoicePaymentFailed = ''invoice.payment_failed''"
| "event_name EventInvoiceUncollectible = ''invoice.uncollectible''"
| "event_name EventInvoiceVoided = ''invoice.voided''"
| "event_name EventSubscriptionCreated = ''subscription.created''"
| "event_name EventSubscriptionActivated = ''subscription.activated''"
| "event_name EventSubscriptionPastDue = ''subscription.past_due''"
| "event_name EventSubscriptionRecovered = ''subscription.recovered''"
| "event_name EventSubscriptionRenewed = ''subscription.renewed''"
| "event_name EventSubscriptionPaused = ''subscription.paused''"
| "event_name EventSubscriptionResumed = ''subscription.resumed''"
| "event_name EventSubscriptionCanceled = ''subscription.canceled''"
| "event_name EventSubscriptionUpdated = ''subscription.updated''"
| "event_name EventPaymentAttempted = ''payment.attempted''"
| "event_name EventPaymentSucceeded = ''payment.succeeded''"
| "event_name EventPaymentFailed = ''payment.failed''"
| "event_name EventPaymentAbandoned = ''payment.abandoned''"
| "event_name EventCheckoutCreated = ''checkout.session.created''"
| "event_name EventCheckoutCompleted = ''checkout.session.completed''"
| "event_name EventCheckoutExpired = ''checkout.session.expired''"
| "event_name EventCheckoutCanceled = ''checkout.session.canceled''"
| "event_name EventCreditNoteCreated = ''credit_note.created''"
| "event_name EventPayoutDone = ''payout.done''"
| "event_name EventPayoutFailed = ''payout.failed''"
| "event_name EventPing = ''ping''"

definition webhookEventTypes :: "string list" where
  "webhookEventTypes = sort (map event_name
     [EventInvoiceCreated, EventInvoiceFinalized, EventInvoicePaid, EventInvoicePaymentFailed,
      EventInvoiceUncollectible, EventInvoiceVoided,
      EventSubscriptionCreated, EventSubscriptionActivated, EventSubscriptionPastDue,
      EventSubscriptionRecovered, EventSubscriptionRenewed, EventSubscriptionPaused,
      EventSubscriptionResumed, EventSubscriptionCanceled, EventSubscriptionUpdated,
      EventPaymentAttempted, EventPaymentSucceeded, EventPaymentFailed, EventPaymentAbandoned,
      EventCheckoutCreated, EventCheckoutCompleted, EventCheckoutExpired, EventCheckoutCanceled,
      EventCreditNoteCreated, EventPayoutDone, EventPayoutFailed])"

definition WebhookEventTypes :: "string list" where
  "WebhookEventTypes = webhookEventTypes"

text \<open>\<open>slices.BinarySearch\<close>: the first index whose element is not below the target.\<close>

function bsearch :: "'a::linorder list \<Rightarrow> 'a \<Rightarrow> nat \<Rightarrow> nat \<Rightarrow> nat" where
  "bsearch xs target i j =
     (if i < j then let h = (i + j) div 2
        in if xs ! h < target then bsearch xs target (h + 1) j else bsearch xs target i h
      else i)"
  by pat_completeness auto
termination
  by (relation "measure (\<lambda>(xs, target, i, j). j - i)") auto

declare bsearch.simps [simp del]

definition IsWebhookEventType :: "string \<Rightarrow> bool" where
  "IsWebhookEventType t =
     (let i = bsearch webhookEventTypes t 0 (length webhookEventTypes)
      in i < length webhookEventTypes \<and> webhookEventTypes ! i = t)"

subsection \<open>Endpoints and events\<close>

datatype EndpointStatus = EndpointUnset | EndpointActive | EndpointDisabled | EndpointStatusOther string

definition MaxFailureRun :: int where
  "MaxFailureRun = 12"

record WebhookEndpoint =
  EpID :: string
  EpOrganizationID :: string
  EpLivemode :: bool
  EpURL :: string
  EpSecret :: string
  EpEvents :: "string list"
  EpOwnerKey :: string
  EpStatus :: EndpointStatus
  EpFailureRun :: int
  EpDisabledAt :: "int option"
  EpLastDeliveryOK :: bool
  EpLastDeliveryAt :: "int option"
  EpLastDeliveryDetail :: string
  EpAddedBy :: string
  EpAddedAt :: string

text \<open>The parts of a parsed URL the code reads.\<close>

record URL =
  UrlScheme :: string
  UrlHost :: string
  UrlHostname :: string
  UrlHasUser :: bool

datatype endpoint_error =
    ErrEndpointIncomplete | ErrNotURL | ErrNotHTTPS | ErrShortSecret | ErrNotEventType
  | ErrUnknownEndpointStatus | ErrCredentialsInURL | ErrWebhookHostNotAllowed

definition EndpointValidate :: "(string \<Rightarrow> URL option) \<Rightarrow> WebhookEndpoint \<Rightarrow> endpoint_error option" where
  "EndpointValidate url_parse e =
     (if EpID e = [] \<or> EpOrganizationID e = [] then Some ErrEndpointIncomplete
      else case url_parse (EpURL e) of
        None \<Rightarrow> Some ErrNotURL
      | Some parsed \<Rightarrow>
          if UrlHost parsed = [] then Some ErrNotURL
          else if UrlScheme parsed \<noteq> ''https'' then Some ErrNotHTTPS
          else if length (EpSecret e) < 32 then Some ErrShortSecret
          else if \<not> list_all (\<lambda>t. CHR ''.'' \<in> set t) (EpEvents e) then Some ErrNotEventType
          else (case EpStatus e of EndpointStatusOther _ \<Rightarrow> Some ErrUnknownEndpointStatus | _ \<Rightarrow> None))"

definition EndpointProvisioned :: "WebhookEndpoint \<Rightarrow> bool" where
  "EndpointProvisioned e \<longleftrightarrow> EpAddedBy e = []"

record Event =
  EvID :: string
  EvOrganizationID :: string
  EvLivemode :: bool
  EvType :: string
  EvEntity :: string
  EvEntityID :: string
  EvSubscriptionID :: string
  EvOwnerKey :: string
  EvEndpointID :: string
  EvOccurredAt :: int

definition Wants :: "WebhookEndpoint \<Rightarrow> Event \<Rightarrow> bool" where
  "Wants e ev =
     (if EpStatus e \<noteq> EndpointActive then False
      else if EvType ev = event_name EventPing then EvEndpointID ev = EpID e
      else if EpOwnerKey e \<noteq> [] \<and> EpOwnerKey e \<noteq> EvOwnerKey ev then False
      else if length (EpEvents e) > 0 \<and> EvType ev \<notin> set (EpEvents e) then False
      else True)"

record Payload =
  PayloadID :: string
  PayloadType :: string
  PayloadLivemode :: bool
  PayloadOccurredAt :: int
  DataObject :: string
  DataID :: string
  DataSubscriptionID :: string

definition EventPayload :: "Event \<Rightarrow> Payload" where
  "EventPayload e =
     \<lparr>PayloadID = EvID e, PayloadType = EvType e, PayloadLivemode = EvLivemode e,
      PayloadOccurredAt = EvOccurredAt e, DataObject = EvEntity e, DataID = EvEntityID e,
      DataSubscriptionID = EvSubscriptionID e\<rparr>"

subsection \<open>Deliveries\<close>

datatype DeliveryStatus = DeliveryPending | DeliveryDelivered | DeliveryFailed | DeliveryStatusOther string

definition MaxDeliveryAttempts :: int where
  "MaxDeliveryAttempts = 8"

record Delivery =
  DlEventID :: string
  DlEndpointID :: string
  DlOrganizationID :: string
  DlLivemode :: bool
  DlStatus :: DeliveryStatus
  DlAttempts :: int
  DlNextAttemptAt :: "int option"
  DlLastStatusCode :: int
  DlLastError :: string
  DlDeliveredAt :: "int option"

record DeliveryAttempt =
  DaEventID :: string
  DaEndpointID :: string
  DaNumber :: int
  DaAt :: int
  DaStatusCode :: int
  DaDurationMs :: int
  DaError :: string
  DaResponse :: string

text \<open>Durations are nanoseconds.\<close>

definition second :: int where
  "second = 1000000000"

definition Backoff :: "int \<Rightarrow> int" where
  "Backoff attempt =
     (let base = 30 * second; cap = 12 * 3600 * second;
          attempt = (if attempt < 1 then 1 else attempt);
          d = push_bit (nat (min (attempt - 1) 12)) base
      in min d cap)"


subsection \<open>Public addresses\<close>

text \<open>\<open>netip.Addr\<close>: the zero \<open>Addr\<close>, an IPv4 address, or an IPv6 address with its zone, the
  empty string when it has none.\<close>

datatype Addr = ZeroAddr | Addr4 "32 word" | Addr6 "128 word" string

definition is4in6 :: "128 word \<Rightarrow> bool" where
  "is4in6 a \<longleftrightarrow> drop_bit 32 a = 0xFFFF"

definition Unmap :: "Addr \<Rightarrow> Addr" where
  "Unmap ip = (case ip of Addr6 a z \<Rightarrow> if is4in6 a then Addr4 (ucast a) else ip | _ \<Rightarrow> ip)"

definition IsLoopback :: "Addr \<Rightarrow> bool" where
  "IsLoopback ip =
     (case Unmap ip of ZeroAddr \<Rightarrow> False | Addr4 a \<Rightarrow> drop_bit 24 a = 127 | Addr6 a z \<Rightarrow> a = 1)"

definition IsMulticast :: "Addr \<Rightarrow> bool" where
  "IsMulticast ip =
     (case Unmap ip of ZeroAddr \<Rightarrow> False | Addr4 a \<Rightarrow> drop_bit 28 a = 0xE | Addr6 a z \<Rightarrow> drop_bit 120 a = 0xFF)"

definition IsLinkLocalUnicast :: "Addr \<Rightarrow> bool" where
  "IsLinkLocalUnicast ip =
     (case Unmap ip of ZeroAddr \<Rightarrow> False | Addr4 a \<Rightarrow> drop_bit 16 a = 0xA9FE | Addr6 a z \<Rightarrow> drop_bit 118 a = 0x3FA)"

definition IsPrivate :: "Addr \<Rightarrow> bool" where
  "IsPrivate ip =
     (case Unmap ip of ZeroAddr \<Rightarrow> False
      | Addr4 a \<Rightarrow> drop_bit 24 a = 10 \<or> drop_bit 20 a = 0xAC1 \<or> drop_bit 16 a = 0xC0A8
      | Addr6 a z \<Rightarrow> drop_bit 121 a = 0x7E)"

text \<open>The comparison with the unspecified address includes the zone.\<close>

definition IsGlobalUnicast :: "Addr \<Rightarrow> bool" where
  "IsGlobalUnicast ip =
     (if ip = ZeroAddr then False
      else let ip = Unmap ip
           in if ip = Addr4 0 \<or> ip = Addr4 0xFFFFFFFF then False
              else ip \<noteq> Addr6 0 [] \<and> \<not> IsLoopback ip \<and> \<not> IsMulticast ip \<and> \<not> IsLinkLocalUnicast ip)"

text \<open>\<open>netip.Prefix\<close>. \<open>Contains\<close> answers false for an address with a zone.\<close>

datatype Prefix = Prefix4 "32 word" nat | Prefix6 "128 word" nat

definition PrefixContains :: "Prefix \<Rightarrow> Addr \<Rightarrow> bool" where
  "PrefixContains p ip =
     (case (p, ip) of
        (Prefix4 a n, Addr4 b) \<Rightarrow> drop_bit (32 - n) b = drop_bit (32 - n) a
      | (Prefix6 a n, Addr6 b z) \<Rightarrow> z = [] \<and> drop_bit (128 - n) b = drop_bit (128 - n) a
      | _ \<Rightarrow> False)"

definition nonPublic :: "Prefix list" where
  "nonPublic =
     [Prefix4 0x64400000 10, Prefix4 0 8, Prefix4 0xC0000000 24, Prefix4 0xC6120000 15, Prefix4 0xF0000000 4,
      Prefix6 0x0064FF9B000000000000000000000000 96, Prefix6 0x0064FF9B000100000000000000000000 48,
      Prefix6 0x20020000000000000000000000000000 16, Prefix6 0x20010000000000000000000000000000 32]"

definition PublicAddr :: "Addr \<Rightarrow> bool" where
  "PublicAddr ip =
     (let ip = Unmap ip
      in if ip = ZeroAddr \<or> \<not> IsGlobalUnicast ip \<or> IsPrivate ip \<or> IsLoopback ip \<or> IsLinkLocalUnicast ip
         then False
         else list_all (\<lambda>p. \<not> PrefixContains p ip) nonPublic)"

text \<open>\<open>strings.ToLower\<close> on the ASCII letters of a host name, and \<open>strings.TrimSuffix\<close>.\<close>

definition to_lower :: "char \<Rightarrow> char" where
  "to_lower c = (if byte_in 65 90 c then char_of ((of_char c :: nat) + 32) else c)"

definition has_suffix :: "string \<Rightarrow> string \<Rightarrow> bool" where
  "has_suffix s suf \<longleftrightarrow> length suf \<le> length s \<and> drop (length s - length suf) s = suf"

definition trim_suffix :: "string \<Rightarrow> string \<Rightarrow> string" where
  "trim_suffix s suf = (if has_suffix s suf then take (length s - length suf) s else s)"

definition CheckWebhookURL ::
  "(string \<Rightarrow> URL option) \<Rightarrow> (string \<Rightarrow> Addr option) \<Rightarrow> string \<Rightarrow> endpoint_error option" where
  "CheckWebhookURL url_parse parse_addr raw =
     (case url_parse raw of
        None \<Rightarrow> Some ErrNotURL
      | Some u \<Rightarrow>
          if UrlHost u = [] \<or> UrlHostname u = [] then Some ErrNotURL
          else if UrlScheme u \<noteq> ''https'' then Some ErrNotHTTPS
          else if UrlHasUser u then Some ErrCredentialsInURL
          else let host = trim_suffix (map to_lower (UrlHostname u)) ''.''
               in case parse_addr host of
                    Some ip \<Rightarrow> if \<not> PublicAddr ip then Some ErrWebhookHostNotAllowed else None
                  | None \<Rightarrow>
                      if CHR ''.'' \<notin> set host \<or> host = ''localhost'' then Some ErrWebhookHostNotAllowed
                      else if list_ex (has_suffix host) [''.localhost'', ''.local'', ''.internal'']
                      then Some ErrWebhookHostNotAllowed
                      else None)"

subsection \<open>Binary search\<close>

lemma bsearch_step:
  "i < j \<Longrightarrow> bsearch xs target i j =
     (if xs ! ((i + j) div 2) < target then bsearch xs target ((i + j) div 2 + 1) j
      else bsearch xs target i ((i + j) div 2))"
  using bsearch.simps [of xs target i j] by (simp only: Let_def if_True)

lemma bsearch_stop: "\<not> i < j \<Longrightarrow> bsearch xs target i j = i"
  using bsearch.simps [of xs target i j] by (simp only: if_False)

definition bsearch_ok :: "'a::linorder list \<Rightarrow> 'a \<Rightarrow> nat \<Rightarrow> nat \<Rightarrow> bool" where
  "bsearch_ok xs target i j \<longleftrightarrow> j \<le> length xs \<and>
     (\<forall>k < i. xs ! k < target) \<and> (\<forall>k. j \<le> k \<and> k < length xs \<longrightarrow> \<not> xs ! k < target)"

lemma bsearch_spec:
  assumes "sorted xs" "i \<le> j" "bsearch_ok xs target i j"
  shows "bsearch_ok xs target (bsearch xs target i j) (bsearch xs target i j)"
  using assms
proof (induction "j - i" arbitrary: i j rule: less_induct)
  case less
  let ?h = "(i + j) div 2"
  show ?case
  proof (cases "i < j")
    case True
    have len: "j \<le> length xs" using less.prems(3) by (simp add: bsearch_ok_def)
    have h: "i \<le> ?h" "?h < j" using True by auto
    show ?thesis
    proof (cases "xs ! ?h < target")
      case below: True
      have "xs ! k < target" if "k < ?h + 1" for k
        using sorted_nth_mono [OF less.prems(1), of k ?h] that h len below by fastforce
      then have "bsearch_ok xs target (?h + 1) j" using less.prems(3) by (simp add: bsearch_ok_def)
      moreover have "j - (?h + 1) < j - i" "?h + 1 \<le> j" using h by auto
      ultimately show ?thesis
        using less.hyps [of j "?h + 1"] less.prems(1) bsearch_step [OF True, of xs target] below by simp
    next
      case above: False
      have "\<not> xs ! k < target" if "?h \<le> k" "k < length xs" for k
        using sorted_nth_mono [OF less.prems(1) that] above by fastforce
      then have "bsearch_ok xs target i ?h" using less.prems(3) h len by (simp add: bsearch_ok_def)
      moreover have "?h - i < j - i" using h by auto
      ultimately show ?thesis
        using less.hyps [of ?h i] less.prems(1) bsearch_step [OF True, of xs target] above h(1) by simp
    qed
  next
    case False
    then have "i = j" using less.prems(2) by simp
    then show ?thesis using less.prems(3) bsearch_stop [OF False, of xs target] by simp
  qed
qed

lemma bsearch_mem:
  assumes "sorted xs"
  shows "bsearch xs t 0 (length xs) < length xs \<and> xs ! bsearch xs t 0 (length xs) = t \<longleftrightarrow> t \<in> set xs"
proof
  assume "t \<in> set xs"
  then obtain k where k: "k < length xs" "xs ! k = t" by (auto simp: in_set_conv_nth)
  let ?i = "bsearch xs t 0 (length xs)"
  have "bsearch_ok xs t 0 (length xs)" by (auto simp: bsearch_ok_def)
  then have s: "bsearch_ok xs t ?i ?i" using bsearch_spec [OF assms] by blast
  have "\<not> k < ?i"
  proof
    assume "k < ?i"
    with s have "xs ! k < t" unfolding bsearch_ok_def by blast
    with k(2) show False by simp
  qed
  then have "?i \<le> k" by simp
  then have "?i < length xs" "xs ! ?i \<le> t" using k sorted_nth_mono [OF assms, of ?i k] by simp_all
  moreover have "\<not> xs ! ?i < t" using s calculation(1) unfolding bsearch_ok_def by blast
  ultimately show "?i < length xs \<and> xs ! ?i = t" by simp
next
  assume "bsearch xs t 0 (length xs) < length xs \<and> xs ! bsearch xs t 0 (length xs) = t"
  then show "t \<in> set xs" using nth_mem [of "bsearch xs t 0 (length xs)" xs] by argo
qed


subsection \<open>What a public address is\<close>

text \<open>The special-purpose ranges the rule keeps out, as address ranges: \<open>private4\<close> over IPv4,
  \<open>private6\<close> over IPv6.\<close>

definition private4 :: "32 word \<Rightarrow> bool" where
  "private4 a \<longleftrightarrow> drop_bit 24 a \<in> {0, 10, 127} \<or> drop_bit 20 a = 0xAC1 \<or> drop_bit 16 a \<in> {0xC0A8, 0xA9FE} \<or>
     drop_bit 22 a = 0x191 \<or> drop_bit 8 a = 0xC00000 \<or> drop_bit 17 a = 0x6309 \<or> drop_bit 28 a \<in> {0xE, 0xF}"

definition private6 :: "128 word \<Rightarrow> bool" where
  "private6 a \<longleftrightarrow> a = 0 \<or> a = 1 \<or> drop_bit 121 a = 0x7E \<or> drop_bit 118 a = 0x3FA \<or> drop_bit 120 a = 0xFF \<or>
     drop_bit 32 a = 0x0064FF9B0000000000000000 \<or> drop_bit 80 a = 0x0064FF9B0001 \<or>
     drop_bit 112 a = 0x2002 \<or> drop_bit 96 a = 0x20010000"


lemma prefix4_values:
  "drop_bit 22 (0x64400000::32 word) = 0x191" "drop_bit 24 (0::32 word) = 0"
  "drop_bit 8 (0xC0000000::32 word) = 0xC00000" "drop_bit 17 (0xC6120000::32 word) = 0x6309"
  "drop_bit 28 (0xF0000000::32 word) = 0xF"
  by code_simp+

lemma prefix6_values:
  "drop_bit 32 (0x0064FF9B000000000000000000000000::128 word) = 0x0064FF9B0000000000000000"
  "drop_bit 80 (0x0064FF9B000100000000000000000000::128 word) = 0x0064FF9B0001"
  "drop_bit 112 (0x20020000000000000000000000000000::128 word) = 0x2002"
  "drop_bit 96 (0x20010000000000000000000000000000::128 word) = 0x20010000"
  by code_simp+

lemma Unmap_Unmap: "Unmap (Unmap ip) = Unmap ip"
  by (simp add: Unmap_def split: Addr.splits)

lemma PrefixContains_cases:
  "PrefixContains (Prefix4 a n) (Addr4 b) \<longleftrightarrow> drop_bit (32 - n) b = drop_bit (32 - n) a"
  "PrefixContains (Prefix6 c n) (Addr6 d z) \<longleftrightarrow> z = [] \<and> drop_bit (128 - n) d = drop_bit (128 - n) c"
  "PrefixContains (Prefix4 a n) (Addr6 d z) \<longleftrightarrow> False"
  "PrefixContains (Prefix6 c n) (Addr4 b) \<longleftrightarrow> False"
  by (simp_all add: PrefixContains_def)

lemma prefix_lengths:
  "32 - 10 = (22::nat)" "32 - 8 = (24::nat)" "32 - 24 = (8::nat)" "32 - 15 = (17::nat)" "32 - 4 = (28::nat)"
  "128 - 96 = (32::nat)" "128 - 48 = (80::nat)" "128 - 16 = (112::nat)" "128 - 32 = (96::nat)"
  by simp_all

lemmas prefix_simps = nonPublic_def list.pred_inject PrefixContains_cases prefix_lengths prefix4_values prefix6_values

lemma list_all_nonPublic4:
  "list_all (\<lambda>p. \<not> PrefixContains p (Addr4 a)) nonPublic \<longleftrightarrow>
     drop_bit 22 a \<noteq> 0x191 \<and> drop_bit 24 a \<noteq> 0 \<and> drop_bit 8 a \<noteq> 0xC00000 \<and>
     drop_bit 17 a \<noteq> 0x6309 \<and> drop_bit 28 a \<noteq> 0xF"
  by (simp only: prefix_simps simp_thms)

lemma list_all_nonPublic6:
  "list_all (\<lambda>p. \<not> PrefixContains p (Addr6 a z)) nonPublic \<longleftrightarrow>
     (z = [] \<longrightarrow> drop_bit 32 a \<noteq> 0x0064FF9B0000000000000000 \<and> drop_bit 80 a \<noteq> 0x0064FF9B0001 \<and>
        drop_bit 112 a \<noteq> 0x2002 \<and> drop_bit 96 a \<noteq> 0x20010000)"
  by (simp only: prefix_simps simp_thms) blast

lemma PublicAddr_Addr4: "PublicAddr (Addr4 a) \<Longrightarrow> \<not> private4 a"
  unfolding PublicAddr_def Let_def Unmap_def Addr.case list_all_nonPublic4 private4_def
    IsGlobalUnicast_def IsPrivate_def IsLoopback_def IsLinkLocalUnicast_def IsMulticast_def
  by (simp only: Addr.case Addr.distinct Addr.inject simp_thms if_False if_True insert_iff empty_iff split: if_splits) blast

lemma PublicAddr_Addr6: "PublicAddr (Addr6 a []) \<Longrightarrow> \<not> is4in6 a \<Longrightarrow> \<not> private6 a"
  unfolding PublicAddr_def Let_def Unmap_def Addr.case list_all_nonPublic6 private6_def
    IsGlobalUnicast_def IsPrivate_def IsLoopback_def IsLinkLocalUnicast_def IsMulticast_def
  by (simp only: Addr.case Addr.distinct Addr.inject simp_thms if_False if_True list_all_nonPublic6 split: if_splits) blast


subsection \<open>Properties\<close>

text \<open>A webhook address without an IPv6 zone that passes the check is on the public
  internet: it is in none of the private, loopback, link-local, multicast, carrier, reserved
  and IPv6 translation ranges, and an IPv4-mapped IPv6 address is judged as its IPv4 address.\<close>

theorem public_address_is_public:
  assumes "PublicAddr ip"
  shows "case Unmap ip of
      ZeroAddr \<Rightarrow> False
    | Addr4 a \<Rightarrow> \<not> private4 a
    | Addr6 a z \<Rightarrow> z = [] \<longrightarrow> \<not> private6 a"
proof -
  have p: "PublicAddr (Unmap ip)" using assms by (simp add: PublicAddr_def Unmap_Unmap Let_def)
  show ?thesis
  proof (cases "Unmap ip")
    case ZeroAddr
    with p show ?thesis by (simp add: PublicAddr_def Unmap_def)
  next
    case (Addr4 a)
    with p show ?thesis using PublicAddr_Addr4 by simp
  next
    case (Addr6 a z)
    then have "\<not> is4in6 a" by (auto simp: Unmap_def split: Addr.splits if_splits)
    with p Addr6 show ?thesis using PublicAddr_Addr6 by auto
  qed
qed

theorem public_address_is_public_witness: "\<not> private4 0x08080808"
proof -
  have "PublicAddr (Addr6 0xFFFF08080808 [])" "Unmap (Addr6 0xFFFF08080808 []) = Addr4 0x08080808" by code_simp+
  then show ?thesis using public_address_is_public [of "Addr6 0xFFFF08080808 []"] by simp
qed

text \<open>With a zone the same check lets through addresses it refuses without one: the
  unspecified address \<open>::%eth0\<close>, which a host connects to itself, and \<open>2002:a00:1::%eth0\<close>, which
  carries the private address 10.0.0.1. \<open>netip.Prefix.Contains\<close> answers false for any zoned
  address and the comparison with the unspecified address includes the zone.\<close>

theorem zoned_address_passes:
  "PublicAddr (Addr6 0 ''eth0'') \<and> PublicAddr (Addr6 0x20020A00000100000000000000000000 ''eth0'') \<and>
   \<not> PublicAddr (Addr6 0 []) \<and> \<not> PublicAddr (Addr6 0x20020A00000100000000000000000000 [])"
  by code_simp

text \<open>The binary search behind the subscribable events answers exactly membership in the
  list, and a ping, which is routed by endpoint and not by filter, is not in it.\<close>

theorem webhook_event_lookup:
  "(IsWebhookEventType t \<longleftrightarrow> t \<in> event_name ` (UNIV - {EventPing})) \<and> \<not> IsWebhookEventType (event_name EventPing)"
proof -
  have "sorted webhookEventTypes" unfolding webhookEventTypes_def by (rule sorted_sort)
  then have m: "IsWebhookEventType t \<longleftrightarrow> t \<in> set webhookEventTypes" for t
    unfolding IsWebhookEventType_def Let_def by (rule bsearch_mem)
  have "x \<in> {EventInvoiceCreated, EventInvoiceFinalized, EventInvoicePaid, EventInvoicePaymentFailed,
      EventInvoiceUncollectible, EventInvoiceVoided,
      EventSubscriptionCreated, EventSubscriptionActivated, EventSubscriptionPastDue,
      EventSubscriptionRecovered, EventSubscriptionRenewed, EventSubscriptionPaused,
      EventSubscriptionResumed, EventSubscriptionCanceled, EventSubscriptionUpdated,
      EventPaymentAttempted, EventPaymentSucceeded, EventPaymentFailed, EventPaymentAbandoned,
      EventCheckoutCreated, EventCheckoutCompleted, EventCheckoutExpired, EventCheckoutCanceled,
      EventCreditNoteCreated, EventPayoutDone, EventPayoutFailed}" if "x \<noteq> EventPing" for x
    using that by (cases x) simp_all
  then have "set webhookEventTypes = event_name ` (UNIV - {EventPing})"
    unfolding webhookEventTypes_def set_sort set_map by (intro image_cong) auto
  moreover have "event_name x \<noteq> ''ping''" if "x \<noteq> EventPing" for x
    using that by (cases x) simp_all
  then have "event_name EventPing \<notin> event_name ` (UNIV - {EventPing})" by fastforce
  ultimately show ?thesis using m by simp
qed

text \<open>The wait before the next attempt grows from thirty seconds, never shrinks and never
  exceeds twelve hours; but the seven waits of a delivery that fails every time add up to
  3810 seconds, about an hour, where the comments on the schedule say roughly two days.\<close>

theorem backoff_schedule:
  "(\<forall>n. 30 * second \<le> Backoff n \<and> Backoff n \<le> 12 * 3600 * second \<and> Backoff n \<le> Backoff (n + 1)) \<and>
   sum_list (map Backoff [1..MaxDeliveryAttempts - 1]) = 3810 * second"
proof (intro conjI allI)
  fix n
  have b: "30 * second \<le> push_bit k (30 * second)" for k
    by (simp add: push_bit_eq_mult second_def)
  have m: "push_bit k (30 * second) \<le> push_bit l (30 * second)" if "k \<le> l" for k l
    using that by (simp add: push_bit_eq_mult second_def)
  show "30 * second \<le> Backoff n"
    using b by (simp add: Backoff_def Let_def) (simp add: second_def)
  show "Backoff n \<le> 12 * 3600 * second" by (simp add: Backoff_def Let_def)
  show "Backoff n \<le> Backoff (n + 1)"
    unfolding Backoff_def Let_def by (intro min.mono m nat_mono) auto
  show "sum_list (map Backoff [1..MaxDeliveryAttempts - 1]) = 3810 * second" by code_simp
qed

end
