(* ===== verification/Closure.thy ===== *)
theory Closure
  imports Prelude
begin

text \<open>
  \<open>api/internal/domain/closure/closure.go\<close>: closing a merchant tenant, from the request through
  the e-mail confirmation and the read-only grace period to the purge. Instants are
  nanoseconds since 1970. The methods mutate the request in place and may return an error
  after having done so (\<open>Confirm\<close> past its window expires the request), so an operation
  answers the new request beside its error. Tokens and their hashes are not modelled.
\<close>

definition GracePeriod :: int where
  "GracePeriod = 7 * 24 * 3600 * 1000000000"

definition ConfirmWindow :: int where
  "ConfirmWindow = 24 * 3600 * 1000000000"

datatype State =
    AwaitingConfirmation | Closing | Blocked | ReadyToPurge | Purging | Closed | Cancelled | ClosureExpired
  | StateOther string

datatype closure_error = ErrWrongState | ErrExpired | ErrNotCancellable

definition StateOpen :: "State \<Rightarrow> bool" where
  "StateOpen s = (case s of Cancelled \<Rightarrow> False | ClosureExpired \<Rightarrow> False | Closed \<Rightarrow> False | _ \<Rightarrow> True)"

text \<open>A zero \<open>time.Time\<close> is \<open>None\<close>.\<close>

record Closure =
  ClID :: string
  ClAccountOrganizationID :: string
  ClRequestedBy :: string
  ClState :: State
  ClConfirmTokenHash :: string
  ClCancelTokenHashes :: "string list"
  ClBlockers :: "string list"
  ClRequestedAt :: int
  ClConfirmBy :: int
  ClConfirmedAt :: "int option"
  ClGraceUntil :: "int option"
  ClCancelledAt :: "int option"
  ClClosedAt :: "int option"
  ClUpdatedAt :: int

definition ClosureNew :: "string \<Rightarrow> string \<Rightarrow> string \<Rightarrow> int \<Rightarrow> Closure" where
  "ClosureNew i accountOrgID requestedBy now =
     \<lparr>ClID = i, ClAccountOrganizationID = accountOrgID, ClRequestedBy = requestedBy,
      ClState = AwaitingConfirmation, ClConfirmTokenHash = [], ClCancelTokenHashes = [],
      ClBlockers = [], ClRequestedAt = now, ClConfirmBy = now + ConfirmWindow,
      ClConfirmedAt = None, ClGraceUntil = None, ClCancelledAt = None, ClClosedAt = None,
      ClUpdatedAt = now\<rparr>"

definition ReadOnly :: "Closure \<Rightarrow> bool" where
  "ReadOnly c =
     (case ClState c of Closing \<Rightarrow> True | Blocked \<Rightarrow> True | ReadyToPurge \<Rightarrow> True | Purging \<Rightarrow> True | _ \<Rightarrow> False)"

definition Confirm :: "Closure \<Rightarrow> int \<Rightarrow> Closure \<times> closure_error option" where
  "Confirm c now =
     (if ClState c \<noteq> AwaitingConfirmation then (c, Some ErrWrongState)
      else if now > ClConfirmBy c
      then (c\<lparr>ClState := ClosureExpired, ClUpdatedAt := now\<rparr>, Some ErrExpired)
      else (c\<lparr>ClState := Closing, ClConfirmedAt := Some now, ClGraceUntil := Some (now + GracePeriod),
             ClUpdatedAt := now\<rparr>, None))"

definition Cancel :: "Closure \<Rightarrow> int \<Rightarrow> Closure \<times> closure_error option" where
  "Cancel c now =
     (if ClState c = Closing \<or> ClState c = Blocked \<or> ClState c = ReadyToPurge
      then (c\<lparr>ClState := Cancelled, ClCancelledAt := Some now, ClUpdatedAt := now\<rparr>, None)
      else (c, Some ErrNotCancellable))"

definition GraceOver :: "Closure \<Rightarrow> int \<Rightarrow> bool" where
  "GraceOver c now \<longleftrightarrow> ClState c = Closing \<and> (case ClGraceUntil c of Some g \<Rightarrow> \<not> now < g | None \<Rightarrow> True)"

definition EndGrace :: "Closure \<Rightarrow> int \<Rightarrow> string list \<Rightarrow> Closure" where
  "EndGrace c now blockers =
     (let c = c\<lparr>ClUpdatedAt := now\<rparr>
      in if length blockers > 0 then c\<lparr>ClState := Blocked, ClBlockers := blockers\<rparr>
         else c\<lparr>ClState := ReadyToPurge, ClBlockers := []\<rparr>)"

definition StartPurge :: "Closure \<Rightarrow> int \<Rightarrow> Closure \<times> closure_error option" where
  "StartPurge c now =
     (if ClState c \<noteq> ReadyToPurge then (c, Some ErrWrongState)
      else (c\<lparr>ClState := Purging, ClUpdatedAt := now\<rparr>, None))"

definition Finish :: "Closure \<Rightarrow> int \<Rightarrow> Closure" where
  "Finish c now = c\<lparr>ClState := Closed, ClClosedAt := Some now, ClUpdatedAt := now\<rparr>"


subsection \<open>The closing service\<close>

text \<open>
  \<open>api/internal/services/closing.go\<close>: what a confirmation link, a cancellation link and the
  periodic job do to the stored request. A save is conditional on the state that was read,
  so each of these is one step on the stored row. What other services answer is given:
  whether the requester still owns the workspace (\<open>live\<close>), the blockers counted now, whether
  the purger succeeded, and the hash of a new cancellation token. A link whose token does
  not match does nothing and is not a step. The job only takes requests whose next action is
  due; the steps below allow it at any time, which includes that.
\<close>

definition TenantConfirm :: "bool \<Rightarrow> string \<Rightarrow> int \<Rightarrow> Closure \<Rightarrow> Closure" where
  "TenantConfirm live hash now c =
     (if ClState c = Closing then c
      else if \<not> live then c
      else case Confirm c now of
             (c', None) \<Rightarrow> c'\<lparr>ClCancelTokenHashes := ClCancelTokenHashes c' @ [hash]\<rparr>
           | (c', Some ErrExpired) \<Rightarrow> c'
           | (c', Some _) \<Rightarrow> c)"

definition TenantCancel :: "int \<Rightarrow> Closure \<Rightarrow> Closure" where
  "TenantCancel now c = (case Cancel c now of (c', None) \<Rightarrow> c' | (c', Some _) \<Rightarrow> c)"

definition TenantPurgeStep :: "bool \<Rightarrow> bool \<Rightarrow> int \<Rightarrow> Closure \<Rightarrow> Closure" where
  "TenantPurgeStep live purged now c =
     (let started = (if ClState c = ReadyToPurge
                     then if \<not> live then fst (Cancel c now) else fst (StartPurge c now)
                     else c)
      in if ClState started = Purging \<and> purged then Finish started now else started)"

definition TenantStep :: "bool \<Rightarrow> string list \<Rightarrow> bool \<Rightarrow> bool \<Rightarrow> string \<Rightarrow> int \<Rightarrow> Closure \<Rightarrow> Closure" where
  "TenantStep live blockers purger purged hash now c =
     (case ClState c of
        AwaitingConfirmation \<Rightarrow> c\<lparr>ClState := ClosureExpired, ClUpdatedAt := now\<rparr>
      | Closing \<Rightarrow>
          if \<not> GraceOver c now then c
          else let c = EndGrace c now blockers
               in if ClState c = Blocked
                  then c\<lparr>ClCancelTokenHashes := ClCancelTokenHashes c @ [hash]\<rparr> else c
      | ReadyToPurge \<Rightarrow> if \<not> purger then c else TenantPurgeStep live purged now c
      | Purging \<Rightarrow> if \<not> purger then c else TenantPurgeStep live purged now c
      | _ \<Rightarrow> c)"

inductive closure_reachable :: "Closure \<Rightarrow> bool" where
  requested: "closure_reachable ((ClosureNew i acct by now)\<lparr>ClConfirmTokenHash := hash\<rparr>)"
| confirmed: "closure_reachable c \<Longrightarrow> ClUpdatedAt c \<le> now \<Longrightarrow> closure_reachable (TenantConfirm live hash now c)"
| cancelled: "closure_reachable c \<Longrightarrow> ClUpdatedAt c \<le> now \<Longrightarrow> closure_reachable (TenantCancel now c)"
| ticked: "closure_reachable c \<Longrightarrow> ClUpdatedAt c \<le> now \<Longrightarrow> closure_reachable (TenantStep live blockers purger purged hash now c)"

text \<open>What is true of every stored request: the states past confirmation carry the
  confirmation and its grace, and the states past the grace were written after it.\<close>

definition confirmed_in_time :: "Closure \<Rightarrow> bool" where
  "confirmed_in_time c \<longleftrightarrow>
     (case ClConfirmedAt c of None \<Rightarrow> False
      | Some t \<Rightarrow> t \<le> ClConfirmBy c \<and> ClGraceUntil c = Some (t + GracePeriod))"

definition grace_served :: "Closure \<Rightarrow> bool" where
  "grace_served c \<longleftrightarrow>
     confirmed_in_time c \<and> (case ClConfirmedAt c of None \<Rightarrow> False | Some t \<Rightarrow> t + GracePeriod \<le> ClUpdatedAt c)"

definition closure_inv :: "Closure \<Rightarrow> bool" where
  "closure_inv c \<longleftrightarrow>
     ClConfirmBy c = ClRequestedAt c + ConfirmWindow \<and>
     (case ClState c of
        AwaitingConfirmation \<Rightarrow> ClCancelledAt c = None
      | Closing \<Rightarrow> confirmed_in_time c \<and> ClCancelledAt c = None
      | Blocked \<Rightarrow> grace_served c \<and> ClCancelledAt c = None
      | ReadyToPurge \<Rightarrow> grace_served c \<and> ClBlockers c = [] \<and> ClCancelledAt c = None
      | Purging \<Rightarrow> grace_served c \<and> ClBlockers c = [] \<and> ClCancelledAt c = None
      | Closed \<Rightarrow> grace_served c \<and> ClBlockers c = [] \<and> ClCancelledAt c = None
      | _ \<Rightarrow> True)"

lemmas closure_inv_simps = closure_inv_def confirmed_in_time_def grace_served_def

lemma closure_inv_Confirm: "closure_inv c \<Longrightarrow> closure_inv (TenantConfirm live hash now c)"
  by (cases "ClState c") (simp_all add: TenantConfirm_def Confirm_def closure_inv_simps)

lemma closure_inv_Cancel: "closure_inv c \<Longrightarrow> closure_inv (TenantCancel now c)"
  by (cases "ClState c") (simp_all add: TenantCancel_def Cancel_def closure_inv_simps)

lemma grace_served_later:
  "grace_served c \<Longrightarrow> ClUpdatedAt c \<le> now \<Longrightarrow> grace_served (c\<lparr>ClState := st, ClUpdatedAt := now\<rparr>)"
  by (simp add: grace_served_def confirmed_in_time_def split: option.splits)

lemma grace_served_Finish: "grace_served c \<Longrightarrow> ClUpdatedAt c \<le> now \<Longrightarrow> grace_served (Finish c now)"
  by (simp add: Finish_def grace_served_def confirmed_in_time_def split: option.splits)

lemma closure_inv_Purge:
  "closure_inv c \<Longrightarrow> ClUpdatedAt c \<le> now \<Longrightarrow> closure_inv (TenantPurgeStep live purged now c)"
  using grace_served_later [of c now Purging] grace_served_Finish [of c now]
    grace_served_Finish [of "c\<lparr>ClState := Purging, ClUpdatedAt := now\<rparr>" now]
  by (cases "ClState c")
    (simp_all add: TenantPurgeStep_def Cancel_def StartPurge_def Finish_def closure_inv_def Let_def)

lemma closure_inv_EndGrace:
  "closure_inv c \<Longrightarrow> GraceOver c now \<Longrightarrow> closure_inv (EndGrace c now blockers)"
  by (simp add: EndGrace_def GraceOver_def closure_inv_simps Let_def split: option.splits)

lemma closure_inv_Step:
  assumes "closure_inv c" "ClUpdatedAt c \<le> now"
  shows "closure_inv (TenantStep live blockers purger purged hash now c)"
proof (cases "ClState c")
  case Closing
  have "closure_inv (c'\<lparr>ClCancelTokenHashes := hs\<rparr>) = closure_inv c'" for c' hs
    by (cases "ClState c'") (simp_all add: closure_inv_simps split: option.splits)
  then show ?thesis using Closing assms closure_inv_EndGrace [OF assms(1)] by (simp add: TenantStep_def Let_def)
next
  case AwaitingConfirmation
  with assms show ?thesis by (simp add: TenantStep_def closure_inv_def)
qed (use assms closure_inv_Purge in \<open>simp_all add: TenantStep_def\<close>)

lemma closure_inv_New: "closure_inv ((ClosureNew i acct by' now)\<lparr>ClConfirmTokenHash := hash\<rparr>)"
  by (simp add: closure_inv_simps ClosureNew_def)

lemma closure_reachable_inv: "closure_reachable c \<Longrightarrow> closure_inv c"
  by (induction rule: closure_reachable.induct)
    (auto intro: closure_inv_Confirm closure_inv_Cancel closure_inv_Step closure_inv_New)

subsection \<open>Properties\<close>

text \<open>C19: Whatever links and job runs do, in any order, a tenant's data is being purged or gone
  only if the request was confirmed within a day of being made, the job found the seven-day
  grace over and no blocker left, and the request was never cancelled.\<close>

theorem purge_only_after_grace:
  assumes "closure_reachable c" "ClState c = Purging \<or> ClState c = Closed"
  shows "\<exists>t. ClConfirmedAt c = Some t \<and> t \<le> ClRequestedAt c + ConfirmWindow \<and>
    t + GracePeriod \<le> ClUpdatedAt c \<and> ClBlockers c = [] \<and> ClCancelledAt c = None"
  using closure_reachable_inv [OF assms(1)] assms(2) by (auto simp: closure_inv_simps split: option.splits)

definition sample_closure :: Closure where
  "sample_closure =
     TenantStep True [] True True [] (2 * GracePeriod)
       (TenantStep True [] True True [] (2 * GracePeriod)
         (TenantConfirm True ''h'' 5 ((ClosureNew ''c1'' ''a1'' ''u1'' 0)\<lparr>ClConfirmTokenHash := ''t''\<rparr>)))"

theorem purge_only_after_grace_witness:
  "\<exists>t. ClConfirmedAt sample_closure = Some t \<and> t \<le> ClRequestedAt sample_closure + ConfirmWindow \<and>
    t + GracePeriod \<le> ClUpdatedAt sample_closure \<and> ClBlockers sample_closure = [] \<and> ClCancelledAt sample_closure = None"
proof -
  have "closure_reachable sample_closure" unfolding sample_closure_def
    by (intro closure_reachable.ticked closure_reachable.confirmed closure_reachable.requested) code_simp+
  moreover have "ClState sample_closure = Purging \<or> ClState sample_closure = Closed" by code_simp
  ultimately show ?thesis by (rule purge_only_after_grace)
qed

end
