(* ===== verification/Dunner.thy ===== *)
theory Dunner
  imports Invoice Subscription
begin

text \<open>
  Chasing an unpaid invoice: \<open>api/internal/services/dunning.go\<close> over the conditional writes of
  \<open>api/internal/repositories/transition.go\<close>, \<open>invoices.go\<close> (\<open>Transition\<close>, \<open>AdvanceDunning\<close>) and
  \<open>subscriptions.go\<close> (\<open>Transition\<close>). The store holds the rows one chase touches: the invoice,
  its subscription, the webhook outbox and the audit trail. A DynamoDB transaction applies
  all its writes when every condition holds of the rows as they are, and none otherwise;
  \<open>ErrConcurrentModification\<close> is a condition that failed. A write is given the copy the caller
  read, which may be older than the row. The counters and the entitlement hook a
  subscription's transition may add to its transaction are not modelled.
\<close>

subsection \<open>Rows\<close>

text \<open>The job queue a row is armed in: the settlement sweep of a day, the finance replay, none.\<close>

datatype schedule = Unscheduled | SettlementOn Date | FinanceReplay int

record invoice_row =
  RowInvoice :: Invoice
  RowSchedule :: schedule

record subscription_row =
  RowSubscription :: Subscription
  RowSweepOn :: "Date option"

record audit_entry =
  AuditEntityID :: string
  AuditAction :: EventType
  AuditCause :: Cause
  AuditActor :: string

record store =
  StInvoice :: invoice_row
  StSubscription :: "subscription_row option"
  StOutbox :: "(string \<times> EventType) list"
  StAudit :: "audit_entry list"

datatype repo_error =
    ErrConcurrentModification | ErrTransition transition_error | ErrNoActor | ErrNotFound | ErrMail
  | ErrUnvalidatedRecurrence | ErrWriteConflict | ErrWriteFailed

subsection \<open>Repositories\<close>

text \<open>\<open>CommitStatusChange\<close> writes the event and the audit row with the change or not at all.\<close>

definition record_change :: "string \<Rightarrow> EventType list \<Rightarrow> Cause \<Rightarrow> string \<Rightarrow> store \<Rightarrow> store" where
  "record_change eid events cause actor st =
     st\<lparr>StOutbox := StOutbox st @ map (Pair eid) events,
        StAudit := StAudit st @ [\<lparr>AuditEntityID = eid, AuditAction = hd events, AuditCause = cause, AuditActor = actor\<rparr>]\<rparr>"

definition InvoiceRepositoryTransition ::
  "Invoice \<Rightarrow> InvoiceStatus \<Rightarrow> Cause \<Rightarrow> string \<Rightarrow> int \<Rightarrow> store \<Rightarrow> (repo_error, Invoice \<times> store) result" where
  "InvoiceRepositoryTransition i dst cause actor now st =
     (case InvoiceTransition i dst cause of
        Inl err \<Rightarrow> Inl (ErrTransition err)
      | Inr (updated, events) \<Rightarrow>
          if actor = [] then Inl ErrNoActor
          else
          let updated = (if dst = InvoicePaid
                         then updated\<lparr>InvAmountPaid := InvTotal updated,
                                InvPaidAt := (if InvPaidAt updated = None then Some now else InvPaidAt updated)\<rparr>
                         else updated);
              row = StInvoice st;
              stored = (RowInvoice row)\<lparr>InvStatus := dst\<rparr>;
              stored = (if InvAttemptCount updated \<noteq> InvAttemptCount i
                        then stored\<lparr>InvAttemptCount := InvAttemptCount updated\<rparr> else stored);
              stored = (if dst = InvoicePaid then stored\<lparr>InvAmountPaid := InvTotal updated\<rparr> else stored);
              stored = (if dst = InvoicePaid \<and> InvPaidAt i = None then stored\<lparr>InvPaidAt := Some now\<rparr> else stored);
              sched = (if dst = InvoicePaid \<and> InvAmountPaid updated > 0
                       then FinanceReplay (the (InvPaidAt updated))
                       else if dst \<noteq> InvoiceOpen then Unscheduled
                       else RowSchedule row)
          in if InvStatus (RowInvoice row) \<noteq> InvStatus i then Inl ErrConcurrentModification
             else Inr (updated, record_change (InvID i) events cause actor
                    (st\<lparr>StInvoice := \<lparr>RowInvoice = stored, RowSchedule = sched\<rparr>\<rparr>)))"

text \<open>What a transaction came to: it works, is refused because another one holds a row, is not
  written, or is written without an answer.\<close>

datatype outcome = Works | Conflicted | NotWritten | NotAnswered

text \<open>\<open>w\<close> is what the transaction answers and leaves when it works; what failed before it was sent
  fails whatever becomes of it.\<close>

definition commit_write :: "outcome \<Rightarrow> (repo_error, 'a \<times> store) result \<Rightarrow> store \<Rightarrow> store \<times> (repo_error, 'a) result" where
  "commit_write out w st =
     (case w of
        Inl err \<Rightarrow>
          (st, Inl (if err \<noteq> ErrConcurrentModification then err
                    else case out of Works \<Rightarrow> err | Conflicted \<Rightarrow> ErrWriteConflict | _ \<Rightarrow> ErrWriteFailed))
      | Inr (x, st') \<Rightarrow>
          (case out of
             Works \<Rightarrow> (st', Inr x)
           | Conflicted \<Rightarrow> (st, Inl ErrWriteConflict)
           | NotWritten \<Rightarrow> (st, Inl ErrWriteFailed)
           | NotAnswered \<Rightarrow> (st', Inl ErrWriteFailed)))"

definition AdvanceDunning ::
  "outcome \<Rightarrow> Invoice \<Rightarrow> int \<Rightarrow> bool \<Rightarrow> int \<Rightarrow> store \<Rightarrow> store \<times> (repo_error, unit) result" where
  "AdvanceDunning out i performed reminded now st =
     (let row = StInvoice st;
          next = performed + 1;
          stored = (RowInvoice row)\<lparr>InvDunningStep := next\<rparr>;
          stored = (if reminded then stored\<lparr>InvLastRemindedAt := Some now\<rparr> else stored);
          sched = (case DunningDate (Schedule i) (InvDueDate i) next of
                     Some date \<Rightarrow> SettlementOn date | None \<Rightarrow> Unscheduled)
      in commit_write out
           (if InvDunningStep (RowInvoice row) \<noteq> performed then Inl ErrConcurrentModification
            else Inr ((), st\<lparr>StInvoice := \<lparr>RowInvoice = stored, RowSchedule = sched\<rparr>\<rparr>)) st)"

definition sweepable :: "Subscription \<Rightarrow> bool" where
  "sweepable s \<longleftrightarrow> SubStatus s = SubscriptionActive"

definition nextSweepDate :: "Subscription \<Rightarrow> Date option" where
  "nextSweepDate s = map_option Start (NextPeriod s)"

definition SubscriptionRepositoryTransition ::
  "Subscription \<Rightarrow> SubscriptionStatus \<Rightarrow> Cause \<Rightarrow> string \<Rightarrow> store \<Rightarrow> (repo_error, Subscription \<times> store) result" where
  "SubscriptionRepositoryTransition s dst cause actor st =
     (case SubscriptionTransition s dst cause of
        Inl err \<Rightarrow> Inl (ErrTransition err)
      | Inr (updated, events) \<Rightarrow>
          if sweepable updated \<and> nextSweepDate updated = None then Inl ErrUnvalidatedRecurrence
          else if actor = [] then Inl ErrNoActor
          else case StSubscription st of
                 None \<Rightarrow> Inl ErrConcurrentModification
               | Some row \<Rightarrow>
                   let stored = (RowSubscription row)\<lparr>SubStatus := dst\<rparr>;
                       stored = (if SubPeriodIndex updated \<noteq> SubPeriodIndex s
                                 then stored\<lparr>SubPeriodIndex := SubPeriodIndex updated\<rparr> else stored);
                       sweep = (if sweepable updated then nextSweepDate updated else None)
                   in if SubStatus (RowSubscription row) \<noteq> SubStatus s then Inl ErrConcurrentModification
                      else Inr (updated, record_change (SubID s) events cause actor
                             (st\<lparr>StSubscription := Some \<lparr>RowSubscription = stored, RowSweepOn = sweep\<rparr>\<rparr>)))"

subsection \<open>The dunning job\<close>

definition dunningActor :: string where
  "dunningActor = ''dunning''"

text \<open>What reading the customer, building the link and sending the reminder came to; and the
  transactions one step may send.\<close>

datatype reminder = ReminderSent | NoAddress | ReminderFailed

datatype dunning_write = SubscriptionWrite | InvoiceWrite | StepWrite

type_synonym dunning_writes = "dunning_write \<Rightarrow> outcome"

definition remind :: "reminder \<Rightarrow> (repo_error, unit) result" where
  "remind r = (case r of ReminderSent \<Rightarrow> Inr () | NoAddress \<Rightarrow> Inr () | ReminderFailed \<Rightarrow> Inl ErrMail)"

text \<open>An error may come after part of the work was written, so the store is answered with it.\<close>

definition escalate :: "dunning_writes \<Rightarrow> Invoice \<Rightarrow> SubscriptionStatus \<Rightarrow> store \<Rightarrow> store \<times> (repo_error, unit) result" where
  "escalate w i dst st =
     (if InvSubscriptionID i = [] then (st, Inr ())
      else case StSubscription st of
        None \<Rightarrow> (st, Inl ErrNotFound)
      | Some row \<Rightarrow>
          let sub = RowSubscription row
          in if SubStatus sub = dst then (st, Inr ())
             else if SubStatus sub = SubscriptionIncomplete \<and> dst \<noteq> SubscriptionCanceled then (st, Inr ())
             else let cause = (if SubStatus sub = SubscriptionIncomplete then CauseActivationExpired
                               else if dst = SubscriptionCanceled then CauseDunningExhausted
                               else CausePaymentFailed)
                  in case commit_write (w SubscriptionWrite) (SubscriptionRepositoryTransition sub dst cause dunningActor st) st of
                       (st', Inr _) \<Rightarrow> (st', Inr ())
                     | (st', Inl err) \<Rightarrow> if err = ErrTransition ErrInvalidTransition then (st', Inr ()) else (st', Inl err))"

definition abandon :: "dunning_writes \<Rightarrow> Invoice \<Rightarrow> int \<Rightarrow> store \<Rightarrow> store \<times> (repo_error, Invoice) result" where
  "abandon w i now st =
     (case escalate w i SubscriptionCanceled st of
        (st1, Inl err) \<Rightarrow> (st1, Inl err)
      | (st1, Inr _) \<Rightarrow>
          commit_write (w InvoiceWrite)
            (InvoiceRepositoryTransition i InvoiceUncollectible CauseDunningExhausted dunningActor now st1) st1)"

text \<open>Which counter of the run's result a step moves; it may move one and still fail.\<close>

datatype step_result = Uncounted | Skipped | Reminded | Escalated | Abandoned

definition finish_step ::
  "dunning_writes \<Rightarrow> Invoice \<Rightarrow> bool \<Rightarrow> step_result \<Rightarrow> int \<Rightarrow> store \<Rightarrow> store \<times> step_result \<times> repo_error option" where
  "finish_step w i reminded r now st =
     (case AdvanceDunning (w StepWrite) i (InvDunningStep i) reminded now st of
        (st', Inr _) \<Rightarrow> (st', r, None)
      | (st', Inl err) \<Rightarrow> if err = ErrConcurrentModification then (st', r, None) else (st', r, Some err))"

definition DunnerStep ::
  "reminder \<Rightarrow> dunning_writes \<Rightarrow> Invoice \<Rightarrow> int \<Rightarrow> store \<Rightarrow> store \<times> step_result \<times> repo_error option" where
  "DunnerStep mail w i now st =
     (if InvStatus i \<noteq> InvoiceOpen then (st, Skipped, None)
      else case ActionAt (Schedule i) (InvDunningStep i) of
        None \<Rightarrow>
          (case AdvanceDunning (w StepWrite) i (InvDunningStep i) False now st of
             (st', Inr _) \<Rightarrow> (st', Skipped, None) | (st', Inl err) \<Rightarrow> (st', Skipped, Some err))
      | Some DunningRemind \<Rightarrow>
          (case remind mail of Inl err \<Rightarrow> (st, Uncounted, Some err) | Inr _ \<Rightarrow> finish_step w i True Reminded now st)
      | Some DunningEscalate \<Rightarrow>
          (case escalate w i SubscriptionPastDue st of
             (st', Inl err) \<Rightarrow> (st', Uncounted, Some err) | (st', Inr _) \<Rightarrow> finish_step w i False Escalated now st')
      | Some DunningAbandon \<Rightarrow>
          (case abandon w i now st of
             (st', Inl err) \<Rightarrow> (st', Uncounted, Some err)
           | (st', Inr i') \<Rightarrow> finish_step w i' False Abandoned now st')
      | Some (DunningOther _) \<Rightarrow> finish_step w i False Uncounted now st)"

text \<open>One run of the job for a date, over the one invoice of the store: \<open>DueForDunning\<close> answers
  the rows armed for that day.\<close>

definition DunnerRun ::
  "reminder \<Rightarrow> dunning_writes \<Rightarrow> Date \<Rightarrow> int \<Rightarrow> store \<Rightarrow> store \<times> (step_result \<times> repo_error option) option" where
  "DunnerRun mail w date now st =
     (if RowSchedule (StInvoice st) = SettlementOn date
      then (let (st', c, err) = DunnerStep mail w (RowInvoice (StInvoice st)) now st in (st', Some (c, err)))
      else (st, None))"


subsection \<open>What each write leaves behind\<close>



text \<open>Every status change of an invoice writes one event to the outbox and one audit row naming
  the same event and the cause, or changes nothing.\<close>

lemma InvoiceRepositoryTransition_Inr:
  assumes "InvoiceRepositoryTransition i dst cause actor now st = Inr (i', st')"
  shows "\<exists>ev. StOutbox st' = StOutbox st @ [(InvID i, ev)] \<and>
    StAudit st' = StAudit st @ [\<lparr>AuditEntityID = InvID i, AuditAction = ev, AuditCause = cause, AuditActor = actor\<rparr>] \<and>
    apply_table invoiceTransitions (InvStatus (RowInvoice (StInvoice st))) dst cause = Inr ev \<and>
    InvStatus (RowInvoice (StInvoice st')) = dst \<and> actor \<noteq> []"
proof -
  obtain u evs where u: "InvoiceTransition i dst cause = Inr (u, evs)" and r: "InvStatus (RowInvoice (StInvoice st)) = InvStatus i"
    using assms by (auto simp: InvoiceRepositoryTransition_def Let_def split: sum.splits prod.splits if_splits)
  obtain ev where ev: "evs = [ev]" "apply_table invoiceTransitions (InvStatus i) dst cause = Inr ev"
    using invoice.transition_Inr [OF u] by blast
  show ?thesis
    using assms by (simp add: InvoiceRepositoryTransition_def u ev r record_change_def Let_def split: if_splits) auto
qed


text \<open>An open invoice armed for the day of its next step, under a valid schedule whose days are
  all after the last change of the time zone.\<close>

definition armed :: "Date \<Rightarrow> store \<Rightarrow> bool" where
  "armed date st \<longleftrightarrow>
     (let i = RowInvoice (StInvoice st)
      in RowSchedule (StInvoice st) = SettlementOn date \<and> InvStatus i = InvoiceOpen \<and>
         DunningDate (Schedule i) (InvDueDate i) (InvDunningStep i) = Some date \<and>
         DunningValidate (Schedule i) = None \<and>
         modern (InvDueDate i) \<and> modern (civil (day_number (InvDueDate i) + Offset (hd (Schedule i)))))"











subsection \<open>Properties\<close>


definition sample_store :: "SubscriptionStatus \<Rightarrow> DunningSchedule \<Rightarrow> store" where
  "sample_store status policy =
     \<lparr>StInvoice = \<lparr>RowInvoice = sample_invoice\<lparr>InvStatus := InvoiceOpen, InvPolicy := policy\<rparr>,
        RowSchedule = SettlementOn (AddDays (mk_date 2026 1 5) (Offset (hd policy)))\<rparr>,
      StSubscription = Some \<lparr>RowSubscription = sample_subscription\<lparr>SubStatus := status\<rparr>, RowSweepOn = None\<rparr>,
      StOutbox = [], StAudit = []\<rparr>"

abbreviation "all_work \<equiv> (\<lambda>_. Works)"


text \<open>When the schedule reaches its abandon step while the subscription is \<open>ACTIVE\<close>,
  \<open>TRIALING\<close> or \<open>PAUSED\<close>, the step fails and changes nothing: the lifecycle has an edge to
  \<open>CANCELED\<close> but not for the cause the job gives, and that refusal is not the one the job
  tolerates. The invoice stays open and is never written off.\<close>

theorem abandon_stuck_on_live_subscription:
  assumes "armed date st"
    and "ActionAt (Schedule (RowInvoice (StInvoice st))) (InvDunningStep (RowInvoice (StInvoice st))) = Some DunningAbandon"
    and "InvSubscriptionID (RowInvoice (StInvoice st)) \<noteq> []"
    and "StSubscription st = Some row"
    and "SubStatus (RowSubscription row) \<in> {SubscriptionActive, SubscriptionTrialing, SubscriptionPaused}"
  shows "DunnerRun mail w date now st = (st, Some (Uncounted, Some (ErrTransition ErrCauseNotAllowed)))"
proof -
  have "apply_table subscriptionTransitions (SubStatus (RowSubscription row)) SubscriptionCanceled CauseDunningExhausted =
      Inl ErrCauseNotAllowed"
    using assms(5)
    by (auto simp: apply_table_def subscriptionTransitions_def mk_rule_def rule_allows_def)
  then have "escalate w (RowInvoice (StInvoice st)) SubscriptionCanceled st = (st, Inl (ErrTransition ErrCauseNotAllowed))"
    using assms(3,4,5)
    by (auto simp: escalate_def commit_write_def SubscriptionRepositoryTransition_def SubscriptionTransition_def Let_def)
  then show ?thesis
    using assms(1,2) by (simp add: DunnerRun_def DunnerStep_def abandon_def armed_def Let_def)
qed

theorem abandon_stuck_on_live_subscription_witness:
  "DunnerRun ReminderSent all_work (AddDays (mk_date 2026 1 5) 30) 0 (sample_store SubscriptionActive [\<lparr>Offset = 30, Action = DunningAbandon\<rparr>]) =
     (sample_store SubscriptionActive [\<lparr>Offset = 30, Action = DunningAbandon\<rparr>], Some (Uncounted, Some (ErrTransition ErrCauseNotAllowed)))"
  by (rule abandon_stuck_on_live_subscription
      [where row = "\<lparr>RowSubscription = sample_subscription\<lparr>SubStatus := SubscriptionActive\<rparr>, RowSweepOn = None\<rparr>"])
    code_simp+

text \<open>Every status change of an invoice that is stored leaves exactly one event in the
  outbox and one audit row, both naming the event of the edge taken from the stored status,
  the audit row naming the cause and a non-empty actor.\<close>

theorem stored_change_has_event_and_audit:
  assumes "InvoiceRepositoryTransition i dst cause actor now st = Inr (i', st')"
  shows "\<exists>ev. apply_table invoiceTransitions (InvStatus (RowInvoice (StInvoice st))) dst cause = Inr ev \<and>
    InvStatus (RowInvoice (StInvoice st')) = dst \<and> StOutbox st' = StOutbox st @ [(InvID i, ev)] \<and> actor \<noteq> [] \<and>
    StAudit st' = StAudit st @ [\<lparr>AuditEntityID = InvID i, AuditAction = ev, AuditCause = cause, AuditActor = actor\<rparr>]"
  using InvoiceRepositoryTransition_Inr [OF assms] by blast

theorem stored_change_has_event_and_audit_witness:
  "\<exists>i' st'. InvoiceRepositoryTransition (RowInvoice (StInvoice (sample_store SubscriptionActive DefaultDunningPolicy)))
      InvoicePaid CauseByokConfirmed ''u1'' 7 (sample_store SubscriptionActive DefaultDunningPolicy) = Inr (i', st') \<and>
    length (StOutbox st') = 1"
proof -
  let ?st = "sample_store SubscriptionActive DefaultDunningPolicy"
  have "\<not> isl (InvoiceRepositoryTransition (RowInvoice (StInvoice ?st)) InvoicePaid CauseByokConfirmed ''u1'' 7 ?st)"
    by code_simp
  then obtain i' st' where
    r: "InvoiceRepositoryTransition (RowInvoice (StInvoice ?st)) InvoicePaid CauseByokConfirmed ''u1'' 7 ?st = Inr (i', st')"
    by (metis isl_def obj_sumE surj_pair)
  moreover have "StOutbox ?st = []" by (simp add: sample_store_def)
  ultimately show ?thesis using stored_change_has_event_and_audit [OF r] by (intro exI [of _ i'] exI [of _ st']) auto
qed

end
