(* ===== verification/CreditNotes.thy ===== *)
theory CreditNotes
  imports Lines "HOL-Library.Char_ord" "HOL-Library.List_Lexorder"
begin

text \<open>
  \<open>api/internal/repositories/creditnotes.go\<close>: issuing credit notes against one invoice while
  other operators do the same and while the invoice changes status. A request reads the
  invoice, then the notes, validates, and commits one transaction whose conditions are
  checked against the rows as they are then; requests interleave at those three points. The
  notes are kept in the order of their sort key, the note id, and one read returns the first
  hundred. \<open>MaxAmountCents\<close> is the bound \<open>api/internal/limits/limits.go\<close> puts on a typed amount.
\<close>

definition MaxAmountCents :: Cents where
  "MaxAmountCents = 999999999999"

text \<open>\<open>CrCredited\<close> is the attribute \<open>credited_total\<close>, \<open>None\<close> on a row that has none.\<close>

record credit_rows =
  CrInvoice :: Invoice
  CrCredited :: "Cents option"
  CrNotes :: "CreditNote list"

definition ListByInvoice :: "credit_rows \<Rightarrow> CreditNote list" where
  "ListByInvoice rows = take 100 (CrNotes rows)"

definition TotalCredited :: "credit_rows \<Rightarrow> Cents" where
  "TotalCredited rows = foldl (\<lambda>total cn. wrap64 (total + CnAmount cn)) 0 (ListByInvoice rows)"

definition guardInvoice :: "Invoice \<Rightarrow> Cents \<Rightarrow> credit_rows \<Rightarrow> bool" where
  "guardInvoice i before rows \<longleftrightarrow>
     InvStatus (CrInvoice rows) = InvStatus i \<and>
     (case CrCredited rows of None \<Rightarrow> True | Some ct \<Rightarrow> ct = before)"

datatype issue_error = ErrIssueNoActor | ErrInvalidCreditNote credit_note_error | ErrIssueConcurrent

text \<open>The first half of \<open>Issue\<close>: read what is credited and validate against the invoice the
  caller read.\<close>

definition IssuePrepare :: "CreditNote \<Rightarrow> Invoice \<Rightarrow> string \<Rightarrow> credit_rows \<Rightarrow> (issue_error, Cents) result" where
  "IssuePrepare cn i actor rows =
     (if actor = [] then Inl ErrIssueNoActor
      else let credited = TotalCredited rows
           in case ValidateAgainst cn i credited of
                Some err \<Rightarrow> Inl (ErrInvalidCreditNote err)
              | None \<Rightarrow> Inr credited)"

text \<open>The second half: the note as it is stored, and the transaction that stores it.\<close>

definition stamped :: "CreditNote \<Rightarrow> Invoice \<Rightarrow> string \<Rightarrow> int \<Rightarrow> CreditNote" where
  "stamped cn i actor now =
     cn\<lparr>CnOrganizationID := InvOrganizationID i, CnLivemode := InvLivemode i, CnCustomerID := InvCustomerID i,
        CnCurrency := InvCurrency i, CnCreatedBy := actor, CnCreatedAt := now\<rparr>"

definition IssueCommit ::
  "CreditNote \<Rightarrow> Invoice \<Rightarrow> Cents \<Rightarrow> string \<Rightarrow> int \<Rightarrow> credit_rows \<Rightarrow> (issue_error, credit_rows) result" where
  "IssueCommit cn i credited actor now rows =
     (if CnID cn \<notin> CnID ` set (CrNotes rows) \<and> guardInvoice i credited rows
      then Inr (rows\<lparr>CrCredited := Some (wrap64 (credited + CnAmount cn)),
                     CrNotes := insort_key CnID (stamped cn i actor now) (CrNotes rows)\<rparr>)
      else Inl ErrIssueConcurrent)"

definition Issue :: "CreditNote \<Rightarrow> Invoice \<Rightarrow> string \<Rightarrow> int \<Rightarrow> credit_rows \<Rightarrow> (issue_error, credit_rows) result" where
  "Issue cn i actor now rows =
     (case IssuePrepare cn i actor rows of
        Inl err \<Rightarrow> Inl err
      | Inr credited \<Rightarrow> IssueCommit cn i credited actor now rows)"

subsection \<open>Concurrent requests\<close>

text \<open>A request in flight: it has read the invoice, and then also the notes.\<close>

datatype request = Loaded CreditNote Invoice string | Prepared CreditNote Invoice string Cents

definition sum_notes :: "CreditNote list \<Rightarrow> int" where
  "sum_notes ns = sum_list (map CnAmount ns)"

text \<open>Where the system starts: an issued invoice whose notes, if any, fit in one page and in
  its total, with the attribute either absent or their sum.\<close>

definition credit_start :: "credit_rows \<Rightarrow> bool" where
  "credit_start rows \<longleftrightarrow> length (CrNotes rows) \<le> 100 \<and> (\<forall>cn \<in> set (CrNotes rows). 0 < CnAmount cn) \<and>
     sum_notes (CrNotes rows) \<le> InvTotal (CrInvoice rows) \<and> InvTotal (CrInvoice rows) \<le> 10 ^ 18 \<and>
     (CrCredited rows = None \<or> CrCredited rows = Some (sum_notes (CrNotes rows)))"

inductive credit_reachable :: "credit_rows \<Rightarrow> request set \<Rightarrow> bool" where
  init: "credit_start rows \<Longrightarrow> credit_reachable rows {}"
| load: "credit_reachable rows rs \<Longrightarrow> 0 < CnAmount cn \<Longrightarrow> CnAmount cn \<le> MaxAmountCents \<Longrightarrow>
    credit_reachable rows (insert (Loaded cn (CrInvoice rows) actor) rs)"
| prepare: "credit_reachable rows rs \<Longrightarrow> Loaded cn i actor \<in> rs \<Longrightarrow> IssuePrepare cn i actor rows = Inr credited \<Longrightarrow>
    credit_reachable rows (insert (Prepared cn i actor credited) rs)"
| commit: "credit_reachable rows rs \<Longrightarrow> Prepared cn i actor credited \<in> rs \<Longrightarrow>
    IssueCommit cn i credited actor now rows = Inr rows' \<Longrightarrow> credit_reachable rows' rs"
| move: "credit_reachable rows rs \<Longrightarrow> InvoiceTransition (CrInvoice rows) dst cause = Inr (i', evs) \<Longrightarrow>
    credit_reachable (rows\<lparr>CrInvoice := i'\<rparr>) rs"

lemma sum_notes_insort: "sum_notes (insort_key f x ns) = CnAmount x + sum_notes ns"
  by (induction ns) (auto simp: sum_notes_def)

lemma TotalCredited_wrap: "TotalCredited rows = wrap64 (sum_notes (take 100 (CrNotes rows)))"
proof -
  have "foldl (\<lambda>total cn. wrap64 (total + CnAmount cn)) (wrap64 a) ns = wrap64 (a + sum_notes ns)" for a ns
    by (induction ns arbitrary: a) (simp_all add: sum_notes_def add.assoc)
  from this [of 0] show ?thesis by (simp add: TotalCredited_def ListByInvoice_def wrap64_id)
qed

lemma sum_notes_take:
  assumes "\<forall>cn \<in> set ns. 0 < CnAmount cn"
  shows "0 \<le> sum_notes (take n ns)" "sum_notes (take n ns) \<le> sum_notes ns"
    "n < length ns \<Longrightarrow> sum_notes (take n ns) < sum_notes ns"
proof -
  have pos: "0 \<le> sum_notes xs" if "set xs \<subseteq> set ns" for xs
    using that assms unfolding sum_notes_def by (intro sum_list_nonneg) (auto simp: order.strict_implies_order)
  have split: "sum_notes ns = sum_notes (take n ns) + sum_notes (drop n ns)"
    unfolding sum_notes_def by (metis append_take_drop_id map_append sum_list_append)
  show "0 \<le> sum_notes (take n ns)" by (rule pos) (rule set_take_subset)
  show "sum_notes (take n ns) \<le> sum_notes ns" using split pos [OF set_drop_subset] by simp
  assume l: "n < length ns"
  then have d: "drop n ns = ns ! n # drop (Suc n) ns" by (rule Cons_nth_drop_Suc [symmetric])
  have "0 < CnAmount (ns ! n)" using assms l by simp
  then have "0 < sum_notes (drop n ns)" using pos [OF set_drop_subset [of "Suc n"]] by (simp add: d sum_notes_def)
  with split show "sum_notes (take n ns) < sum_notes ns" by simp
qed


subsection \<open>The invariant\<close>

definition request_ok :: "credit_rows \<Rightarrow> request \<Rightarrow> bool" where
  "request_ok rows r \<longleftrightarrow>
     (case r of
        Loaded cn i actor \<Rightarrow> 0 < CnAmount cn \<and> CnAmount cn \<le> MaxAmountCents \<and> InvTotal i = InvTotal (CrInvoice rows)
      | Prepared cn i actor c \<Rightarrow>
          0 < CnAmount cn \<and> c + CnAmount cn \<le> InvTotal (CrInvoice rows) \<and>
          InvStatus i \<in> {InvoiceOpen, InvoicePaid, InvoiceUncollectible} \<and>
          (CrCredited rows = None \<longrightarrow> c = sum_notes (CrNotes rows)))"

definition credit_inv :: "credit_rows \<Rightarrow> request set \<Rightarrow> bool" where
  "credit_inv rows rs \<longleftrightarrow>
     (\<forall>cn \<in> set (CrNotes rows). 0 < CnAmount cn) \<and>
     sum_notes (CrNotes rows) \<le> InvTotal (CrInvoice rows) \<and> InvTotal (CrInvoice rows) \<le> 10 ^ 18 \<and>
     (CrCredited rows = None \<and> length (CrNotes rows) \<le> 100 \<or> CrCredited rows = Some (sum_notes (CrNotes rows))) \<and>
     (\<forall>r \<in> rs. request_ok rows r)"

lemma credit_inv_TotalCredited:
  assumes "credit_inv rows rs"
  shows "TotalCredited rows = sum_notes (take 100 (CrNotes rows))" "0 \<le> TotalCredited rows"
    "TotalCredited rows \<le> 10 ^ 18" "CrCredited rows = None \<Longrightarrow> TotalCredited rows = sum_notes (CrNotes rows)"
proof -
  note t = sum_notes_take [of "CrNotes rows" 100]
  have b: "0 \<le> sum_notes (take 100 (CrNotes rows))" "sum_notes (take 100 (CrNotes rows)) \<le> 10 ^ 18"
    using t(1,2) assms by (auto simp: credit_inv_def)
  then have "in64 (sum_notes (take 100 (CrNotes rows)))" by (intro in64_bound) simp
  then show e: "TotalCredited rows = sum_notes (take 100 (CrNotes rows))" by (simp add: TotalCredited_wrap wrap64_id)
  show "0 \<le> TotalCredited rows" "TotalCredited rows \<le> 10 ^ 18" using b by (simp_all add: e)
  show "TotalCredited rows = sum_notes (CrNotes rows)" if "CrCredited rows = None"
    using assms that by (simp add: e credit_inv_def)
qed

lemma ValidateAgainst_None:
  assumes "ValidateAgainst cn i c = None" "0 \<le> c" "c \<le> 10 ^ 18" "CnAmount cn \<le> MaxAmountCents"
  shows "c + CnAmount cn \<le> InvTotal i" "InvStatus i \<in> {InvoiceOpen, InvoicePaid, InvoiceUncollectible}"
proof -
  have v: "0 < CnAmount cn" "wrap64 (c + CnAmount cn) \<le> InvTotal i"
    and "InvStatus i \<in> {InvoiceOpen, InvoicePaid, InvoiceUncollectible}"
    using assms(1) by (auto simp: ValidateAgainst_def split: if_splits)
  then show "InvStatus i \<in> {InvoiceOpen, InvoicePaid, InvoiceUncollectible}" by simp
  have "in64 (c + CnAmount cn)" using assms v by (intro in64_bound) (simp add: MaxAmountCents_def)
  with v show "c + CnAmount cn \<le> InvTotal i" by (simp add: wrap64_id)
qed

lemma credit_inv_prepare:
  assumes "credit_inv rows rs" "Loaded cn i actor \<in> rs" "IssuePrepare cn i actor rows = Inr c"
  shows "credit_inv rows (insert (Prepared cn i actor c) rs)"
proof -
  have l: "0 < CnAmount cn" "CnAmount cn \<le> MaxAmountCents" "InvTotal i = InvTotal (CrInvoice rows)"
    using assms(1,2) by (auto simp: credit_inv_def request_ok_def)
  have c: "c = TotalCredited rows" "ValidateAgainst cn i c = None"
    using assms(3) by (auto simp: IssuePrepare_def Let_def split: if_splits option.splits)
  note t = credit_inv_TotalCredited [OF assms(1)]
  have "request_ok rows (Prepared cn i actor c)"
    using ValidateAgainst_None [OF c(2)] t(2,3,4) l by (auto simp: request_ok_def c(1))
  with assms(1) show ?thesis by (simp add: credit_inv_def)
qed

lemma credit_inv_commit:
  assumes "credit_inv rows rs" "Prepared cn i actor c \<in> rs" "IssueCommit cn i c actor now rows = Inr rows'"
  shows "credit_inv rows' rs"
proof -
  have p: "0 < CnAmount cn" "c + CnAmount cn \<le> InvTotal (CrInvoice rows)"
    "CrCredited rows = None \<longrightarrow> c = sum_notes (CrNotes rows)"
    using assms(1,2) by (auto simp: credit_inv_def request_ok_def)
  have r: "rows' = rows\<lparr>CrCredited := Some (wrap64 (c + CnAmount cn)),
      CrNotes := insort_key CnID (stamped cn i actor now) (CrNotes rows)\<rparr>"
    and g: "guardInvoice i c rows"
    using assms(3) by (auto simp: IssueCommit_def split: if_splits)
  have c: "c = sum_notes (CrNotes rows)"
    using g p(3) assms(1) by (auto simp: guardInvoice_def credit_inv_def split: option.splits)
  have pos: "\<forall>cn \<in> set (CrNotes rows). 0 < CnAmount cn" using assms(1) by (simp add: credit_inv_def)
  have "0 \<le> c" using sum_notes_take(1) [OF pos, of "length (CrNotes rows)"] by (simp add: c)
  moreover have "InvTotal (CrInvoice rows) \<le> 10 ^ 18" using assms(1) by (simp add: credit_inv_def)
  ultimately have "in64 (c + CnAmount cn)" using p(1,2) by (intro in64_bound) simp
  then have w: "wrap64 (c + CnAmount cn) = c + CnAmount cn" by (rule wrap64_id)
  have s: "CnAmount (stamped cn i actor now) = CnAmount cn" by (simp add: stamped_def)
  have rq: "request_ok rows' x" if "request_ok rows x" for x
    using that by (auto simp: request_ok_def r split: request.splits)
  show ?thesis
    using assms(1) p(1,2) pos rq
    by (auto simp: credit_inv_def r w [unfolded c] s c sum_notes_insort set_insort_key)
qed

lemma credit_inv_move:
  assumes "credit_inv rows rs" "InvoiceTransition (CrInvoice rows) dst cause = Inr (i', evs)"
  shows "credit_inv (rows\<lparr>CrInvoice := i'\<rparr>) rs"
proof -
  have "InvTotal i' = InvTotal (CrInvoice rows)" using InvoiceTransition_frame [OF assms(2)] by simp
  with assms(1) show ?thesis by (auto simp: credit_inv_def request_ok_def split: request.splits)
qed

lemma credit_reachable_inv: "credit_reachable rows rs \<Longrightarrow> credit_inv rows rs"
proof (induction rule: credit_reachable.induct)
  case (init rows)
  then show ?case by (auto simp: credit_start_def credit_inv_def)
next
  case (load rows rs cn actor)
  then show ?case by (simp add: credit_inv_def request_ok_def)
qed (auto intro: credit_inv_prepare credit_inv_commit credit_inv_move)

subsection \<open>Properties\<close>

text \<open>C2: However many operators issue credit notes against an invoice at the same time, and
  however their reads and writes interleave with each other and with changes of the
  invoice's status, the notes never add up to more than the invoice total, and the stored
  \<open>credited_total\<close>, once written, is their sum.\<close>

theorem credit_never_exceeds_total:
  assumes "credit_reachable rows rs"
  shows "sum_notes (CrNotes rows) \<le> InvTotal (CrInvoice rows) \<and>
    (CrCredited rows = None \<or> CrCredited rows = Some (sum_notes (CrNotes rows)))"
  using credit_reachable_inv [OF assms] by (auto simp: credit_inv_def)

definition sample_note :: "string \<Rightarrow> Cents \<Rightarrow> CreditNote" where
  "sample_note i amount = \<lparr>CnID = i, CnOrganizationID = [], CnLivemode = True, CnInvoiceID = ''in_1'',
     CnCustomerID = [], CnAmount = amount, CnCurrency = [], CnReason = ''erro'', CnRefundedExternally = False,
     CnExternalRefundRef = [], CnCreatedBy = [], CnCreatedAt = 0, CnMetadata = []\<rparr>"

definition sample_rows :: credit_rows where
  "sample_rows = \<lparr>CrInvoice = sample_invoice\<lparr>InvStatus := InvoicePaid\<rparr>, CrCredited = None, CrNotes = []\<rparr>"

definition sample_credited :: credit_rows where
  "sample_credited = sample_rows\<lparr>CrCredited := Some 3000,
     CrNotes := [stamped (sample_note ''cn_1'' 3000) (CrInvoice sample_rows) ''op1'' 9]\<rparr>"

text \<open>Two operators read the same invoice and no notes; one has committed.\<close>

lemma sample_race:
  "credit_reachable sample_credited
     {Prepared (sample_note ''cn_2'' 3000) (CrInvoice sample_rows) ''op2'' 0,
      Prepared (sample_note ''cn_1'' 3000) (CrInvoice sample_rows) ''op1'' 0,
      Loaded (sample_note ''cn_2'' 3000) (CrInvoice sample_rows) ''op2'',
      Loaded (sample_note ''cn_1'' 3000) (CrInvoice sample_rows) ''op1''}"
proof -
  have "credit_reachable sample_rows {}" by (rule credit_reachable.init) code_simp
  then have "credit_reachable sample_rows {Loaded (sample_note ''cn_1'' 3000) (CrInvoice sample_rows) ''op1''}"
    by (rule credit_reachable.load) code_simp+
  then have "credit_reachable sample_rows
      {Loaded (sample_note ''cn_2'' 3000) (CrInvoice sample_rows) ''op2'', Loaded (sample_note ''cn_1'' 3000) (CrInvoice sample_rows) ''op1''}"
    by (rule credit_reachable.load) code_simp+
  then have "credit_reachable sample_rows
      {Prepared (sample_note ''cn_1'' 3000) (CrInvoice sample_rows) ''op1'' 0,
       Loaded (sample_note ''cn_2'' 3000) (CrInvoice sample_rows) ''op2'', Loaded (sample_note ''cn_1'' 3000) (CrInvoice sample_rows) ''op1''}"
    by (rule credit_reachable.prepare) (simp, code_simp)
  then have "credit_reachable sample_rows
     {Prepared (sample_note ''cn_2'' 3000) (CrInvoice sample_rows) ''op2'' 0,
      Prepared (sample_note ''cn_1'' 3000) (CrInvoice sample_rows) ''op1'' 0,
      Loaded (sample_note ''cn_2'' 3000) (CrInvoice sample_rows) ''op2'', Loaded (sample_note ''cn_1'' 3000) (CrInvoice sample_rows) ''op1''}"
    by (rule credit_reachable.prepare) (simp, code_simp)
  then show ?thesis
    by (rule credit_reachable.commit [where cn = "sample_note ''cn_1'' 3000" and i = "CrInvoice sample_rows" and actor = "''op1''" and now = 9])
      (simp, code_simp)
qed

theorem credit_never_exceeds_total_witness:
  "sum_notes (CrNotes sample_credited) \<le> InvTotal (CrInvoice sample_credited) \<and>
    (CrCredited sample_credited = None \<or> CrCredited sample_credited = Some (sum_notes (CrNotes sample_credited)))"
  using credit_never_exceeds_total [OF sample_race] .

text \<open>Once an invoice has more than a hundred credit notes no further one can be issued: the
  total is summed over the first hundred notes only, which is below the stored
  \<open>credited_total\<close>, so every attempt is refused as a concurrent modification.\<close>

theorem no_note_past_one_page:
  assumes "credit_reachable rows rs" "100 < length (CrNotes rows)"
  shows "\<exists>err. Issue cn i actor now rows = Inl err"
proof -
  have inv: "credit_inv rows rs" using assms(1) by (rule credit_reachable_inv)
  then have pos: "\<forall>cn \<in> set (CrNotes rows). 0 < CnAmount cn" and ct: "CrCredited rows = Some (sum_notes (CrNotes rows))"
    using assms(2) by (auto simp: credit_inv_def)
  have "TotalCredited rows < sum_notes (CrNotes rows)"
    using sum_notes_take(3) [OF pos assms(2)] by (simp add: credit_inv_TotalCredited(1) [OF inv])
  then show ?thesis
    using ct by (auto simp: Issue_def IssuePrepare_def IssueCommit_def guardInvoice_def Let_def split: option.splits)
qed


definition full_page :: credit_rows where
  "full_page = sample_rows\<lparr>CrCredited := Some 100,
     CrNotes := map (\<lambda>n. sample_note (''cn_'' @ replicate n (CHR ''a'')) 1) [0..<100]\<rparr>"

definition past_page :: credit_rows where
  "past_page = full_page\<lparr>CrCredited := Some 101,
     CrNotes := insort_key CnID (stamped (sample_note ''cn_z'' 1) (CrInvoice full_page) ''op1'' 9) (CrNotes full_page)\<rparr>"

lemma past_page_reachable: "\<exists>rs. credit_reachable past_page rs"
proof -
  have "credit_reachable full_page {}" by (rule credit_reachable.init) code_simp
  then have "credit_reachable full_page {Loaded (sample_note ''cn_z'' 1) (CrInvoice full_page) ''op1''}"
    by (rule credit_reachable.load) code_simp+
  then have "credit_reachable full_page {Prepared (sample_note ''cn_z'' 1) (CrInvoice full_page) ''op1'' 100,
      Loaded (sample_note ''cn_z'' 1) (CrInvoice full_page) ''op1''}"
    by (rule credit_reachable.prepare) (simp, code_simp)
  then have "credit_reachable past_page {Prepared (sample_note ''cn_z'' 1) (CrInvoice full_page) ''op1'' 100,
      Loaded (sample_note ''cn_z'' 1) (CrInvoice full_page) ''op1''}"
    by (rule credit_reachable.commit [where cn = "sample_note ''cn_z'' 1" and i = "CrInvoice full_page" and actor = "''op1''" and now = 9])
      (simp, code_simp)
  then show ?thesis by blast
qed

theorem no_note_past_one_page_witness:
  "\<exists>err. Issue (sample_note ''cn_y'' 1) (CrInvoice past_page) ''op1'' 10 past_page = Inl err"
proof -
  obtain rs where "credit_reachable past_page rs" using past_page_reachable by blast
  moreover have "100 < length (CrNotes past_page)" by code_simp
  ultimately show ?thesis by (rule no_note_past_one_page)
qed

end
