(* ===== verification/Months.thy ===== *)
theory Months
  imports Brcal
begin

text \<open>
  \<open>api/internal/domain/finance/month.go\<close>: calendar months, which name card statements and
  summary rows. A month is ordered by year and month, as \<open>Month.Compare\<close> orders it through
  the first days; \<open>month_index\<close> counts months, and every operation is described by it.
\<close>

datatype FMonth = mk_month (MYear: int) (MMonth: int)

definition MonthOf :: "Date \<Rightarrow> FMonth" where
  "MonthOf d = mk_month (Year d) (Month d)"

definition First :: "FMonth \<Rightarrow> Date" where
  "First m = New (MYear m) (MMonth m) 1"

definition MonthAdd :: "FMonth \<Rightarrow> int \<Rightarrow> FMonth" where
  "MonthAdd m n = MonthOf (AddMonths (First m) n)"

definition Last :: "FMonth \<Rightarrow> Date" where
  "Last m = New (MYear m) (MMonth m) (DaysInMonth (MYear m) (MMonth m))"

definition MonthCompare :: "FMonth \<Rightarrow> FMonth \<Rightarrow> int" where
  "MonthCompare m k = Compare (First m) (First k)"

definition MonthString :: "FMonth \<Rightarrow> string" where
  "MonthString m = itoa_pad 4 (MYear m) @ ''-'' @ itoa_pad 2 (MMonth m)"

datatype month_error = ErrMonthForm | ErrMonthDate

definition ParseMonth :: "string \<Rightarrow> (month_error, FMonth) result" where
  "ParseMonth s =
     (if length s \<noteq> 7 \<or> s ! 4 \<noteq> CHR ''-'' then Inl ErrMonthForm
      else case Parse (s @ ''-01'') of Inl _ \<Rightarrow> Inl ErrMonthDate | Inr d \<Rightarrow> Inr (MonthOf d))"

definition MonthsSince :: "FMonth \<Rightarrow> FMonth \<Rightarrow> int" where
  "MonthsSince m k = (MYear m - MYear k) * 12 + MMonth m - MMonth k"

subsection \<open>Months counted\<close>

definition month_index :: "FMonth \<Rightarrow> int" where
  "month_index m = 12 * MYear m + MMonth m"

text \<open>A month of the calendar whose first day is after the last change of the time zone.\<close>

definition modern_month :: "FMonth \<Rightarrow> bool" where
  "modern_month m \<longleftrightarrow> modern (mk_date (MYear m) (MMonth m) 1)"

lemma modern_month_bounds: "modern_month m \<Longrightarrow> 1 \<le> MMonth m \<and> MMonth m \<le> 12"
  by (auto simp: modern_month_def modern_def valid_date_def)

lemma MonthsSince_index: "MonthsSince m k = month_index m - month_index k"
  by (simp add: MonthsSince_def month_index_def)

lemma index_unique:
  fixes a b c d :: int
  assumes "12 * a + b = 12 * c + d" "1 \<le> b" "b \<le> 12" "1 \<le> d" "d \<le> 12"
  shows "a = c \<and> b = d"
proof (cases a c rule: linorder_cases)
  case less
  then show ?thesis using assms by linarith
next
  case equal
  with assms(1) have "b = d" by linarith
  with equal show ?thesis by blast
next
  case greater
  then show ?thesis using assms by linarith
qed

lemma month_index_unique:
  "month_index m = month_index k \<Longrightarrow> 1 \<le> MMonth m \<Longrightarrow> MMonth m \<le> 12 \<Longrightarrow> 1 \<le> MMonth k \<Longrightarrow> MMonth k \<le> 12 \<Longrightarrow> m = k"
  unfolding month_index_def by (drule (4) index_unique) (simp add: FMonth.expand)

lemma month_index_inj:
  "modern_month m \<Longrightarrow> modern_month k \<Longrightarrow> month_index m = month_index k \<longleftrightarrow> m = k"
  using modern_month_bounds month_index_unique by blast

lemma First_modern: "modern_month m \<Longrightarrow> First m = mk_date (MYear m) (MMonth m) 1"
  by (simp add: First_def modern_month_def New_modern)

lemma modern_First: "modern_month m \<Longrightarrow> modern (First m)"
  using First_modern by (simp add: modern_month_def)

lemma MonthOf_First [simp]: "modern_month m \<Longrightarrow> MonthOf (First m) = m"
  by (simp add: First_modern MonthOf_def)

lemma MonthCompare_less:
  "modern_month m \<Longrightarrow> modern_month k \<Longrightarrow> MonthCompare m k < 0 \<longleftrightarrow> month_index m < month_index k"
  using modern_month_bounds [of m] modern_month_bounds [of k]
  by (auto simp: MonthCompare_def Compare_less First_modern less_Date_def month_index_def)

lemma MonthCompare_greater:
  "modern_month m \<Longrightarrow> modern_month k \<Longrightarrow> MonthCompare m k > 0 \<longleftrightarrow> month_index k < month_index m"
  using modern_month_bounds [of m] modern_month_bounds [of k]
  by (auto simp: MonthCompare_def Compare_greater First_modern less_Date_def month_index_def)

lemma modern_month_mono:
  assumes "modern_month m" "1 \<le> MMonth k" "MMonth k \<le> 12" "month_index m \<le> month_index k"
  shows "modern_month k"
proof -
  have "valid_date (mk_date (MYear k) (MMonth k) 1)"
    using assms month_length_pos [of "MYear k" "MMonth k"] by (simp add: valid_date_def)
  moreover have "mk_date (MYear m) (MMonth m) 1 \<le> mk_date (MYear k) (MMonth k) 1"
    using assms modern_month_bounds [of m]
    by (auto simp: less_eq_Date_def less_Date_def month_index_def)
  ultimately show ?thesis using assms(1) modern_mono unfolding modern_month_def by blast
qed

text \<open>Adding months moves the index, backwards too as long as the result is modern.\<close>

lemma MonthAdd_shift:
  assumes "modern_month m" "modern_month (mk_month (shift_year (First m) n) (shift_month (First m) n))"
  shows "MonthAdd m n = mk_month (shift_year (First m) n) (shift_month (First m) n)"
proof -
  let ?y = "shift_year (First m) n" and ?k = "shift_month (First m) n"
  have "modern (mk_date ?y ?k (month_length ?y ?k))"
  proof (rule modern_mono)
    show "modern (mk_date ?y ?k 1)" using assms(2) by (simp add: modern_month_def)
    show "valid_date (mk_date ?y ?k (month_length ?y ?k))" by (simp add: valid_month_end)
    show "mk_date ?y ?k 1 \<le> mk_date ?y ?k (month_length ?y ?k)"
      using month_length_pos [of ?y ?k] by (auto simp: less_eq_Date_def less_Date_def)
  qed
  from AddMonths_modern [OF this] show ?thesis by (simp add: MonthAdd_def MonthOf_def)
qed

lemma shift_index:
  "modern_month m \<Longrightarrow> month_index (mk_month (shift_year (First m) n) (shift_month (First m) n)) = month_index m + n"
  using shift_months_eq [of "First m" n] by (simp add: month_index_def First_modern)

lemma MonthAdd_nonneg:
  assumes "modern_month m" "0 \<le> n"
  shows "modern_month (MonthAdd m n) \<and> month_index (MonthAdd m n) = month_index m + n"
proof -
  let ?k = "mk_month (shift_year (First m) n) (shift_month (First m) n)"
  have "modern_month ?k"
    by (rule modern_month_mono [OF assms(1)]) (use assms shift_index [OF assms(1), of n] in auto)
  then show ?thesis using assms MonthAdd_shift shift_index by metis
qed

lemma modern_MonthAdd [simp]: "modern_month m \<Longrightarrow> 0 \<le> n \<Longrightarrow> modern_month (MonthAdd m n)"
  by (simp add: MonthAdd_nonneg)

lemma month_index_MonthAdd [simp]: "modern_month m \<Longrightarrow> 0 \<le> n \<Longrightarrow> month_index (MonthAdd m n) = month_index m + n"
  by (simp add: MonthAdd_nonneg)

lemma MonthAdd_of_index:
  assumes "modern_month m" "modern_month k" "month_index k = month_index m + n"
  shows "MonthAdd m n = k"
proof -
  have "1 \<le> MMonth k" "MMonth k \<le> 12" using assms(2) modern_month_bounds by blast+
  then have "k = mk_month (shift_year (First m) n) (shift_month (First m) n)"
    by (intro month_index_unique) (simp_all add: shift_index [OF assms(1)] assms(3))
  then show ?thesis using MonthAdd_shift [OF assms(1)] assms(2) by simp
qed

lemma MonthAdd_0: "modern_month m \<Longrightarrow> MonthAdd m 0 = m"
  by (rule MonthAdd_of_index) auto

lemma Last_modern:
  assumes "modern_month m"
  shows "Last m = mk_date (MYear m) (MMonth m) (month_length (MYear m) (MMonth m))" "modern (Last m)"
proof -
  have b: "1 \<le> MMonth m" "MMonth m \<le> 12" using assms modern_month_bounds by blast+
  have e: "modern (mk_date (MYear m) (MMonth m) (month_length (MYear m) (MMonth m)))"
  proof (rule modern_mono)
    show "modern (mk_date (MYear m) (MMonth m) 1)" using assms by (simp add: modern_month_def)
    show "mk_date (MYear m) (MMonth m) 1 \<le> mk_date (MYear m) (MMonth m) (month_length (MYear m) (MMonth m))"
      using month_length_pos [of "MYear m" "MMonth m"] by (auto simp: less_eq_Date_def less_Date_def)
  qed (simp add: valid_month_end b)
  show "Last m = mk_date (MYear m) (MMonth m) (month_length (MYear m) (MMonth m))" "modern (Last m)"
    using DaysInMonth_modern [OF b e] New_modern [OF e] e by (simp_all add: Last_def)
qed

end
