(* ===== verification/Ledger.thy ===== *)
theory Ledger
  imports Months Money "HOL-Library.AList"
begin

text \<open>
  The double-entry core of the finance section: \<open>ledger.go\<close>, \<open>posting.go\<close> and \<open>derive.go\<close> of
  \<open>api/internal/domain/finance\<close>. A transaction is a list of legs that sum to zero; the posting
  rules are the only code that chooses the legs of a fact; \<open>Derive\<close> folds transactions into
  account balances and monthly summaries.

  Amounts are \<open>int64\<close> cents with their wrap-around. \<open>effect\<close> is what a transaction moves on one
  account, and the rules are specified by their effects. Kinds and directions are strings in
  the source: the constructors \<open>KindOther\<close> and \<open>DirectionOther\<close> stand for every other string.
\<close>

subsection \<open>ledger.go\<close>

datatype TxKind = KindRecognition | KindSettlement | KindTransfer | KindCardPurchase | KindStatementPayment
  | KindOpeningBalance | KindReversal | KindAdjustment | KindBankLine | KindOther string

record Leg =
  LegAccountID :: string
  LegAmount :: Cents
  LegFlow :: string

definition FlowNone :: string where
  "FlowNone = ''-''"

record Transaction =
  TxKindOf :: TxKind
  TxDate :: Date
  TxLegs :: "Leg list"
  TxAdjusts :: string

definition MaxLegs :: nat where
  "MaxLegs = 8"

definition MaxLegAmount :: Cents where
  "MaxLegAmount = 1000000000000"

datatype tx_error = ErrUnknownKind | ErrDateRequired | ErrLegCount | ErrLegAccount | ErrLegZero | ErrLegTooLarge
  | ErrLegTwice | ErrUnbalanced | ErrReversalName | ErrReversalReversed | ErrFacts | ErrNotPositive
  | ErrDifferenceCategory | ErrCreditAmount | ErrSameAccount | ErrZeroOpening | ErrNoChange

definition kind_valid :: "TxKind \<Rightarrow> bool" where
  "kind_valid k = (case k of KindOther _ \<Rightarrow> False | _ \<Rightarrow> True)"

text \<open>The loop over the legs: \<open>seen\<close> and \<open>acc\<close> are its two variables.\<close>

fun check_legs :: "string set \<Rightarrow> Cents \<Rightarrow> Leg list \<Rightarrow> (tx_error, Cents) result" where
  "check_legs seen acc [] = Inr acc"
| "check_legs seen acc (l # ls) =
     (if LegAccountID l = '''' then Inl ErrLegAccount
      else if LegAmount l = 0 then Inl ErrLegZero
      else if LegAmount l > MaxLegAmount \<or> LegAmount l < - MaxLegAmount then Inl ErrLegTooLarge
      else if LegAccountID l \<in> seen then Inl ErrLegTwice
      else check_legs (insert (LegAccountID l) seen) (wrap64 (acc + LegAmount l)) ls)"

definition NewTransaction :: "TxKind \<Rightarrow> Date \<Rightarrow> Leg list \<Rightarrow> (tx_error, Transaction) result" where
  "NewTransaction kind date legs =
     (if \<not> kind_valid kind then Inl ErrUnknownKind
      else if IsZero date then Inl ErrDateRequired
      else if length legs < 2 \<or> length legs > MaxLegs then Inl ErrLegCount
      else case check_legs {} 0 legs of
        Inl err \<Rightarrow> Inl err
      | Inr acc \<Rightarrow>
          if acc \<noteq> 0 then Inl ErrUnbalanced
          else Inr \<lparr>TxKindOf = kind, TxDate = date, TxLegs = legs, TxAdjusts = ''''\<rparr>)"

definition negated :: "Leg \<Rightarrow> Leg" where
  "negated l = \<lparr>LegAccountID = LegAccountID l, LegAmount = wrap64 (- LegAmount l), LegFlow = LegFlow l\<rparr>"

definition Reverse :: "Transaction \<Rightarrow> string \<Rightarrow> Date \<Rightarrow> (tx_error, Transaction) result" where
  "Reverse original originalID date =
     (if originalID = '''' then Inl ErrReversalName
      else if TxKindOf original = KindReversal then Inl ErrReversalReversed
      else case NewTransaction KindReversal date (map negated (TxLegs original)) of
        Inl err \<Rightarrow> Inl err
      | Inr tx \<Rightarrow> Inr (tx\<lparr>TxAdjusts := originalID\<rparr>))"

subsection \<open>posting.go\<close>

record SystemAccounts =
  Payables :: string
  Receivables :: string
  OpeningBalanceID :: string

datatype Direction = Payable | Receivable | DirectionOther string

record BillFacts =
  BfDirection :: Direction
  BfAmount :: Cents
  BfCategoryID :: string
  BfAccountID :: string
  BfClears :: string

definition facts_valid :: "BillFacts \<Rightarrow> bool" where
  "facts_valid b \<longleftrightarrow>
     (BfDirection b = Payable \<or> BfDirection b = Receivable) \<and> 0 < BfAmount b \<and>
     BfCategoryID b \<noteq> '''' \<and> BfAccountID b \<noteq> ''''"

definition leg :: "string \<Rightarrow> Cents \<Rightarrow> Leg" where
  "leg a n = \<lparr>LegAccountID = a, LegAmount = n, LegFlow = ''''\<rparr>"

definition flow_leg :: "string \<Rightarrow> Cents \<Rightarrow> string \<Rightarrow> Leg" where
  "flow_leg a n f = \<lparr>LegAccountID = a, LegAmount = n, LegFlow = f\<rparr>"

definition RecognizeBill :: "SystemAccounts \<Rightarrow> BillFacts \<Rightarrow> Date \<Rightarrow> (tx_error, Transaction) result" where
  "RecognizeBill sys b competence =
     (if \<not> facts_valid b then Inl ErrFacts
      else if BfDirection b = Payable
      then NewTransaction KindRecognition competence
             [leg (BfCategoryID b) (BfAmount b), leg (Payables sys) (wrap64 (- BfAmount b))]
      else NewTransaction KindRecognition competence
             [leg (Receivables sys) (BfAmount b), leg (BfCategoryID b) (wrap64 (- BfAmount b))])"

text \<open>\<open>CardFlow\<close> is declared in \<open>card.go\<close>.\<close>

definition CardFlow :: "string \<Rightarrow> string" where
  "CardFlow cardID = ''card:'' @ cardID"

definition SettleBill ::
  "SystemAccounts \<Rightarrow> BillFacts \<Rightarrow> Cents \<Rightarrow> string \<Rightarrow> Date \<Rightarrow> (tx_error, Transaction) result" where
  "SettleBill sys b paid differenceCategoryID date =
     (if \<not> facts_valid b then Inl ErrFacts
      else if paid \<le> 0 then Inl ErrNotPositive
      else let diff = wrap64 (paid - BfAmount b)
        in if diff \<noteq> 0 \<and> differenceCategoryID = '''' then Inl ErrDifferenceCategory
           else if BfDirection b = Payable
           then let (cleared, flow) = (if BfClears b \<noteq> '''' then (BfClears b, CardFlow (BfClears b))
                                       else (Payables sys, BfCategoryID b));
                    legs = [leg cleared (BfAmount b), flow_leg (BfAccountID b) (wrap64 (- paid)) flow]
             in NewTransaction KindSettlement date
                  (if diff \<noteq> 0 then legs @ [leg differenceCategoryID diff] else legs)
           else let legs = [flow_leg (BfAccountID b) paid (BfCategoryID b), leg (Receivables sys) (wrap64 (- BfAmount b))]
             in NewTransaction KindSettlement date
                  (if diff \<noteq> 0 then legs @ [leg differenceCategoryID (wrap64 (- diff))] else legs))"

definition CreditBill :: "BillFacts \<Rightarrow> Cents \<Rightarrow> Date \<Rightarrow> (tx_error, Transaction) result" where
  "CreditBill b amount date =
     (if \<not> facts_valid b then Inl ErrFacts
      else if amount \<le> 0 \<or> amount > BfAmount b then Inl ErrCreditAmount
      else if BfDirection b = Receivable
      then NewTransaction KindAdjustment date
             [leg (BfCategoryID b) amount, flow_leg (BfAccountID b) (wrap64 (- amount)) (BfCategoryID b)]
      else NewTransaction KindAdjustment date
             [flow_leg (BfAccountID b) amount (BfCategoryID b), leg (BfCategoryID b) (wrap64 (- amount))])"

definition Transfer :: "string \<Rightarrow> string \<Rightarrow> Cents \<Rightarrow> Date \<Rightarrow> (tx_error, Transaction) result" where
  "Transfer fromID toID amount date =
     (if amount \<le> 0 then Inl ErrNotPositive
      else if fromID = toID then Inl ErrSameAccount
      else NewTransaction KindTransfer date
             [flow_leg toID amount FlowNone, flow_leg fromID (wrap64 (- amount)) FlowNone])"

definition CardPurchase :: "string \<Rightarrow> string \<Rightarrow> Cents \<Rightarrow> Date \<Rightarrow> (tx_error, Transaction) result" where
  "CardPurchase cardID categoryID amount date =
     (if amount \<le> 0 then Inl ErrNotPositive
      else NewTransaction KindCardPurchase date [leg categoryID amount, leg cardID (wrap64 (- amount))])"

definition CardCredit :: "string \<Rightarrow> string \<Rightarrow> Cents \<Rightarrow> Date \<Rightarrow> (tx_error, Transaction) result" where
  "CardCredit cardID categoryID amount date =
     (if amount \<le> 0 then Inl ErrNotPositive
      else NewTransaction KindAdjustment date [leg categoryID (wrap64 (- amount)), leg cardID amount])"

definition PayStatement :: "string \<Rightarrow> string \<Rightarrow> Cents \<Rightarrow> Date \<Rightarrow> (tx_error, Transaction) result" where
  "PayStatement cardID payingID amount date =
     (if amount \<le> 0 then Inl ErrNotPositive
      else NewTransaction KindStatementPayment date [leg cardID amount, leg payingID (wrap64 (- amount))])"

definition OpeningBalance :: "SystemAccounts \<Rightarrow> string \<Rightarrow> Cents \<Rightarrow> Date \<Rightarrow> (tx_error, Transaction) result" where
  "OpeningBalance sys accountID amount date =
     (if amount = 0 then Inl ErrZeroOpening
      else NewTransaction KindOpeningBalance date
             [flow_leg accountID amount FlowNone, leg (OpeningBalanceID sys) (wrap64 (- amount))])"

text \<open>
  \<open>AdjustBill\<close> nets two recognitions per account, in the order the accounts first appear: the
  map \<open>net\<close> with its \<open>order\<close> slice is an association list, which \<open>AList.update\<close> extends at the end.
\<close>

definition add_net :: "(string \<times> Cents) list \<Rightarrow> Leg \<Rightarrow> int \<Rightarrow> (string \<times> Cents) list" where
  "add_net net l sg =
     AList.update (LegAccountID l)
       (wrap64 ((case map_of net (LegAccountID l) of None \<Rightarrow> 0 | Some n \<Rightarrow> n) + wrap64 (sg * LegAmount l))) net"

definition net_legs :: "Transaction \<Rightarrow> Transaction \<Rightarrow> (string \<times> Cents) list" where
  "net_legs was next =
     fold (\<lambda>l net. add_net net l 1) (TxLegs next) (fold (\<lambda>l net. add_net net l (- 1)) (TxLegs was) [])"

definition AdjustBill ::
  "SystemAccounts \<Rightarrow> BillFacts \<Rightarrow> BillFacts \<Rightarrow> Date \<Rightarrow> (tx_error, Transaction) result" where
  "AdjustBill sys was next competence =
     (case RecognizeBill sys was competence of Inl err \<Rightarrow> Inl err
      | Inr wasTx \<Rightarrow>
        (case RecognizeBill sys next competence of Inl err \<Rightarrow> Inl err
         | Inr nextTx \<Rightarrow>
           let legs = map (\<lambda>(a, n). leg a n) (filter (\<lambda>(a, n). n \<noteq> 0) (net_legs wasTx nextTx))
           in if length legs < 2 then Inl ErrNoChange else NewTransaction KindAdjustment competence legs))"

definition CancelBill :: "SystemAccounts \<Rightarrow> BillFacts \<Rightarrow> Date \<Rightarrow> (tx_error, Transaction) result" where
  "CancelBill sys facts competence =
     (case RecognizeBill sys facts competence of Inl err \<Rightarrow> Inl err
      | Inr r \<Rightarrow> NewTransaction KindAdjustment competence (map negated (TxLegs r)))"

definition BankLine :: "string \<Rightarrow> string \<Rightarrow> bool \<Rightarrow> Cents \<Rightarrow> Date \<Rightarrow> (tx_error, Transaction) result" where
  "BankLine accountID categoryID credit amount date =
     (if amount \<le> 0 then Inl ErrNotPositive
      else if credit
      then NewTransaction KindBankLine date
             [flow_leg accountID amount categoryID, leg categoryID (wrap64 (- amount))]
      else NewTransaction KindBankLine date
             [leg categoryID amount, flow_leg accountID (wrap64 (- amount)) categoryID])"

subsection \<open>derive.go\<close>

record Totals =
  Debits :: Cents
  Credits :: Cents

type_synonym SummaryKey = "FMonth \<times> string"

record Derived =
  Balances :: "string \<rightharpoonup> Cents"
  Summary :: "SummaryKey \<rightharpoonup> Totals"

definition balance_of :: "('k \<rightharpoonup> Cents) \<Rightarrow> 'k \<Rightarrow> Cents" where
  "balance_of m k = (case m k of None \<Rightarrow> 0 | Some n \<Rightarrow> n)"

definition totals_of :: "(SummaryKey \<rightharpoonup> Totals) \<Rightarrow> SummaryKey \<Rightarrow> Totals" where
  "totals_of m k = (case m k of None \<Rightarrow> \<lparr>Debits = 0, Credits = 0\<rparr> | Some t \<Rightarrow> t)"

definition derive_leg :: "FMonth \<Rightarrow> Leg \<Rightarrow> Derived \<Rightarrow> Derived" where
  "derive_leg m l d =
     (let k = (m, LegAccountID l);
          t = totals_of (Summary d) k;
          t = (if LegAmount l > 0 then t\<lparr>Debits := wrap64 (Debits t + LegAmount l)\<rparr>
               else t\<lparr>Credits := wrap64 (Credits t + wrap64 (- LegAmount l))\<rparr>)
      in d\<lparr>Balances := (Balances d)(LegAccountID l \<mapsto> wrap64 (balance_of (Balances d) (LegAccountID l) + LegAmount l)),
           Summary := (Summary d)(k \<mapsto> t)\<rparr>)"

definition Derive :: "Transaction list \<Rightarrow> Derived" where
  "Derive txs =
     fold (\<lambda>tx d. fold (derive_leg (MonthOf (TxDate tx))) (TxLegs tx) d) txs
       \<lparr>Balances = Map.empty, Summary = Map.empty\<rparr>"


subsection \<open>What NewTransaction accepts\<close>

definition leg_ok :: "Leg \<Rightarrow> bool" where
  "leg_ok l \<longleftrightarrow> LegAccountID l \<noteq> '''' \<and> LegAmount l \<noteq> 0 \<and> \<bar>LegAmount l\<bar> \<le> MaxLegAmount"

definition tx_valid :: "Transaction \<Rightarrow> bool" where
  "tx_valid tx \<longleftrightarrow>
     kind_valid (TxKindOf tx) \<and> \<not> IsZero (TxDate tx) \<and> 2 \<le> length (TxLegs tx) \<and> length (TxLegs tx) \<le> MaxLegs \<and>
     list_all leg_ok (TxLegs tx) \<and> distinct (map LegAccountID (TxLegs tx)) \<and>
     sum_list (map LegAmount (TxLegs tx)) = 0"

lemma check_legs_iff:
  "in64 acc \<Longrightarrow> check_legs seen acc ls = Inr s \<longleftrightarrow>
     list_all leg_ok ls \<and> distinct (map LegAccountID ls) \<and> LegAccountID ` set ls \<inter> seen = {} \<and>
     s = wrap64 (acc + sum_list (map LegAmount ls))"
proof (induction ls arbitrary: seen acc)
  case Nil
  then show ?case by (auto simp: wrap64_id)
next
  case (Cons l ls)
  have "leg_ok l \<longleftrightarrow> LegAccountID l \<noteq> '''' \<and> LegAmount l \<noteq> 0 \<and> \<not> (LegAmount l > MaxLegAmount \<or> LegAmount l < - MaxLegAmount)"
    by (auto simp: leg_ok_def MaxLegAmount_def)
  moreover note Cons.IH [OF wrap64_in64, of "insert (LegAccountID l) seen" "acc + LegAmount l"]
  ultimately show ?case by (auto simp: add.assoc)
qed

lemma sum_legs_bound:
  "list_all leg_ok ls \<Longrightarrow> \<bar>sum_list (map LegAmount ls)\<bar> \<le> int (length ls) * MaxLegAmount"
  by (induction ls) (auto simp: leg_ok_def algebra_simps intro: order_trans [OF abs_triangle_ineq])

lemma NewTransaction_iff:
  "NewTransaction k d ls = Inr tx \<longleftrightarrow>
     tx = \<lparr>TxKindOf = k, TxDate = d, TxLegs = ls, TxAdjusts = ''''\<rparr> \<and> tx_valid tx"
proof -
  have "wrap64 (sum_list (map LegAmount ls)) = sum_list (map LegAmount ls)"
    if "list_all leg_ok ls" "length ls \<le> MaxLegs"
  proof -
    have "int (length ls) * MaxLegAmount \<le> 8 * MaxLegAmount"
      using that(2) by (simp add: MaxLegs_def MaxLegAmount_def)
    then show ?thesis
      using sum_legs_bound [OF that(1)] by (intro wrap64_id in64_bound) (simp add: MaxLegAmount_def)
  qed
  moreover have "check_legs {} 0 ls = Inr s \<longleftrightarrow>
     list_all leg_ok ls \<and> distinct (map LegAccountID ls) \<and> s = wrap64 (sum_list (map LegAmount ls))" for s
    using check_legs_iff [OF in64_0, of "{}" ls s] by simp
  ultimately show ?thesis
    by (cases "check_legs {} 0 ls") (auto simp: NewTransaction_def tx_valid_def not_less)
qed

lemma NewTransaction_valid: "NewTransaction k d ls = Inr tx \<Longrightarrow> tx_valid tx"
  unfolding NewTransaction_iff by blast

lemma tx_valid_adjusts [simp]: "tx_valid (tx\<lparr>TxAdjusts := x\<rparr>) = tx_valid tx"
  by (simp add: tx_valid_def)

lemma wrap64_uminus: "\<bar>n\<bar> \<le> MaxLegAmount \<Longrightarrow> wrap64 (- n) = - n"
  by (intro wrap64_id in64_bound) (simp add: MaxLegAmount_def)

lemma negated_simps [simp]:
  "LegAccountID (negated l) = LegAccountID l" "leg_ok l \<Longrightarrow> LegAmount (negated l) = - LegAmount l"
  by (simp_all add: negated_def leg_ok_def wrap64_uminus)

lemma leg_simps [simp]:
  "LegAccountID (leg a n) = a" "LegAmount (leg a n) = n" "LegFlow (leg a n) = ''''"
  "LegAccountID (flow_leg a n f) = a" "LegAmount (flow_leg a n f) = n" "LegFlow (flow_leg a n f) = f"
  by (simp_all add: leg_def flow_leg_def)

lemma negated_ok: "leg_ok l \<Longrightarrow> leg_ok (negated l)"
  by (simp add: leg_ok_def [of "negated l"]) (simp add: leg_ok_def)

lemma tx_valid_negated:
  assumes "tx_valid tx" "kind_valid k" "\<not> IsZero d"
  shows "NewTransaction k d (map negated (TxLegs tx)) =
    Inr \<lparr>TxKindOf = k, TxDate = d, TxLegs = map negated (TxLegs tx), TxAdjusts = ''''\<rparr>"
proof -
  have ok: "list_all leg_ok (TxLegs tx)" using assms(1) by (simp add: tx_valid_def)
  have "list_all leg_ok ls \<Longrightarrow> sum_list (map LegAmount (map negated ls)) = - sum_list (map LegAmount ls)" for ls
    by (induction ls) auto
  note this [OF ok]
  moreover have "map LegAccountID (map negated (TxLegs tx)) = map LegAccountID (TxLegs tx)" by simp
  ultimately show ?thesis
    using assms ok negated_ok unfolding NewTransaction_iff tx_valid_def
    by (auto simp: list_all_iff o_def)
qed

subsection \<open>Effects on accounts\<close>

definition leg_effect :: "string \<Rightarrow> Leg \<Rightarrow> int" where
  "leg_effect a l = (if LegAccountID l = a then LegAmount l else 0)"

definition effect :: "Transaction \<Rightarrow> string \<Rightarrow> int" where
  "effect tx a = sum_list (map (leg_effect a) (TxLegs tx))"

lemma leg_effect_simps [simp]:
  "leg_effect a (leg b n) = (if b = a then n else 0)"
  "leg_effect a (flow_leg b n f) = (if b = a then n else 0)"
  "leg_ok l \<Longrightarrow> leg_effect a (negated l) = - leg_effect a l"
  by (simp_all add: leg_effect_def)

lemma effect_adjusts [simp]: "effect (tx\<lparr>TxAdjusts := x\<rparr>) = effect tx"
  by (simp add: effect_def fun_eq_iff)

lemma sum_negated:
  "list_all leg_ok ls \<Longrightarrow> sum_list (map (leg_effect a) (map negated ls)) = - sum_list (map (leg_effect a) ls)"
  by (induction ls) auto


subsection \<open>The effect of each posting rule\<close>

definition on :: "string \<Rightarrow> int \<Rightarrow> string \<Rightarrow> int" where
  "on b n a = (if b = a then n else 0)"

text \<open>The side of the books a bill is on, and the system account that holds it until it is settled.\<close>

definition side :: "BillFacts \<Rightarrow> int" where
  "side b = (if BfDirection b = Payable then 1 else - 1)"

definition control :: "SystemAccounts \<Rightarrow> BillFacts \<Rightarrow> string" where
  "control sys b = (if BfDirection b = Payable then Payables sys else Receivables sys)"

lemma NewTransaction_legs:
  "NewTransaction k d ls = Inr tx \<Longrightarrow> TxLegs tx = ls \<and> list_all leg_ok ls \<and> TxKindOf tx = k \<and> TxDate tx = d \<and> tx_valid tx"
  by (auto simp: NewTransaction_iff tx_valid_def)

lemma wrap64_uminus_ok: "leg_ok (leg a n) \<Longrightarrow> wrap64 (- n) = - n"
  "leg_ok (flow_leg a n f) \<Longrightarrow> wrap64 (- n) = - n"
  by (simp_all add: leg_ok_def wrap64_uminus)

lemma RecognizeBill_effect:
  assumes "RecognizeBill sys b d = Inr tx"
  shows "effect tx a = side b * (on (BfCategoryID b) (BfAmount b) a - on (control sys b) (BfAmount b) a)"
    "tx_valid tx" "TxKindOf tx = KindRecognition" "facts_valid b"
  using assms
  by (auto simp: RecognizeBill_def effect_def side_def control_def on_def wrap64_uminus_ok
      split: if_splits dest!: NewTransaction_legs)

lemma SettleBill_effect:
  assumes "SettleBill sys b paid dc d = Inr tx" "in64 paid" "in64 (BfAmount b)"
  shows "effect tx a = side b * (on (if BfDirection b = Payable \<and> BfClears b \<noteq> '''' then BfClears b else control sys b) (BfAmount b) a
      - on (BfAccountID b) paid a + on dc (paid - BfAmount b) a)"
    "tx_valid tx" "TxKindOf tx = KindSettlement" "facts_valid b"
proof -
  have v: "facts_valid b" "0 < paid" using assms by (auto simp: SettleBill_def split: if_splits)
  then have p: "wrap64 (- paid) = - paid" using assms(2) by (intro wrap64_id) (simp add: in64_def)
  have n: "wrap64 (- BfAmount b) = - BfAmount b"
    using v assms(3) by (intro wrap64_id) (simp add: in64_def facts_valid_def)
  have d: "wrap64 (paid - BfAmount b) = paid - BfAmount b" "wrap64 (BfAmount b - paid) = BfAmount b - paid"
    using v assms(2,3) by (simp_all add: facts_valid_def wrap64_id in64_def)
  show "effect tx a = side b * (on (if BfDirection b = Payable \<and> BfClears b \<noteq> '''' then BfClears b else control sys b) (BfAmount b) a
      - on (BfAccountID b) paid a + on dc (paid - BfAmount b) a)"
    "tx_valid tx" "TxKindOf tx = KindSettlement" "facts_valid b"
    using assms(1) v
    by (auto simp: SettleBill_def effect_def side_def control_def on_def Let_def p d n
      split: if_splits dest!: NewTransaction_legs)
qed

lemma CreditBill_effect:
  assumes "CreditBill b n d = Inr tx"
  shows "effect tx a = - side b * (on (BfCategoryID b) n a - on (BfAccountID b) n a)"
    "tx_valid tx" "0 < n" "n \<le> BfAmount b" "facts_valid b"
  using assms
  by (auto simp: CreditBill_def effect_def side_def on_def wrap64_uminus_ok facts_valid_def
      split: if_splits dest!: NewTransaction_legs)

lemma Reverse_effect:
  assumes "Reverse tx i d = Inr r" "tx_valid tx"
  shows "effect r a = - effect tx a" "tx_valid r" "TxKindOf r = KindReversal" "TxAdjusts r = i" "TxDate r = d"
  using assms sum_negated [of "TxLegs tx" a]
  by (auto simp: Reverse_def effect_def tx_valid_def [of tx] split: if_splits sum.splits
      dest!: NewTransaction_legs)

lemma CancelBill_effect:
  assumes "RecognizeBill sys b d = Inr r" "CancelBill sys b d' = Inr tx"
  shows "effect tx a = - effect r a" "tx_valid tx"
proof -
  obtain r' where r': "RecognizeBill sys b d' = Inr r'" "NewTransaction KindAdjustment d' (map negated (TxLegs r')) = Inr tx"
    using assms(2) by (auto simp: CancelBill_def split: sum.splits)
  have "effect tx a = - effect r' a"
    using r'(2) sum_negated [of "TxLegs r'" a] RecognizeBill_effect(2) [OF r'(1)]
    by (auto simp: effect_def tx_valid_def dest!: NewTransaction_legs)
  then show "effect tx a = - effect r a" "tx_valid tx"
    using RecognizeBill_effect(1) [OF r'(1), of a] RecognizeBill_effect(1) [OF assms(1), of a] r'(2) NewTransaction_valid
    by auto
qed


subsection \<open>Netting two recognitions\<close>

definition net_of :: "(string \<times> Cents) list \<Rightarrow> string \<Rightarrow> Cents" where
  "net_of net a = (case map_of net a of None \<Rightarrow> 0 | Some n \<Rightarrow> n)"

lemma net_of_add_net:
  "net_of (add_net net l sg) a =
     (if LegAccountID l = a then wrap64 (net_of net a + wrap64 (sg * LegAmount l)) else net_of net a)"
  by (auto simp: net_of_def add_net_def update_conv')

lemma distinct_add_net: "distinct (map fst net) \<Longrightarrow> distinct (map fst (add_net net l sg))"
  by (simp add: add_net_def distinct_update)

lemma net_of_fold:
  "net_of net a = wrap64 x \<Longrightarrow>
   net_of (fold (\<lambda>l net. add_net net l sg) ls net) a = wrap64 (x + sg * sum_list (map (leg_effect a) ls))"
proof (induction ls arbitrary: net x)
  case (Cons l ls)
  have "net_of (add_net net l sg) a = wrap64 (x + sg * leg_effect a l)"
    using Cons.prems by (simp add: net_of_add_net leg_effect_def)
  from Cons.IH [OF this] show ?case by (simp add: algebra_simps)
qed simp

lemma distinct_fold_net:
  "distinct (map fst net) \<Longrightarrow> distinct (map fst (fold (\<lambda>l net. add_net net l sg) ls net))"
  by (induction ls arbitrary: net) (simp_all add: distinct_add_net)

lemma keys_fold_net:
  "fst ` set (fold (\<lambda>l net. add_net net l sg) ls net) = LegAccountID ` set ls \<union> fst ` set net"
  by (induction ls arbitrary: net) (auto simp: add_net_def dom_update)

lemma effect_bound: "tx_valid tx \<Longrightarrow> \<bar>effect tx a\<bar> \<le> 8 * MaxLegAmount"
proof -
  assume v: "tx_valid tx"
  have "list_all leg_ok ls \<Longrightarrow> \<bar>sum_list (map (leg_effect a) ls)\<bar> \<le> int (length ls) * MaxLegAmount" for ls
    by (induction ls) (auto simp: leg_effect_def leg_ok_def MaxLegAmount_def)
  moreover have "int (length (TxLegs tx)) * MaxLegAmount \<le> 8 * MaxLegAmount"
    using v by (simp add: tx_valid_def MaxLegs_def MaxLegAmount_def)
  ultimately show ?thesis using v by (force simp: tx_valid_def effect_def)
qed

lemma net_legs_net:
  assumes "tx_valid was" "tx_valid nxt"
  shows "net_of (net_legs was nxt) a = effect nxt a - effect was a" "distinct (map fst (net_legs was nxt))"
    "fst ` set (net_legs was nxt) = LegAccountID ` set (TxLegs was) \<union> LegAccountID ` set (TxLegs nxt)"
proof -
  have "net_of [] a = wrap64 0" by (simp add: net_of_def wrap64_id)
  from net_of_fold [OF net_of_fold [OF this]]
  have "net_of (net_legs was nxt) a = wrap64 (effect nxt a - effect was a)"
    by (simp add: net_legs_def effect_def)
  moreover have "in64 (effect nxt a - effect was a)"
    using effect_bound [OF assms(1), of a] effect_bound [OF assms(2), of a]
    by (intro in64_bound) (simp add: MaxLegAmount_def)
  ultimately show "net_of (net_legs was nxt) a = effect nxt a - effect was a" by (simp add: wrap64_id)
  show "distinct (map fst (net_legs was nxt))" by (simp add: net_legs_def distinct_fold_net)
  show "fst ` set (net_legs was nxt) = LegAccountID ` set (TxLegs was) \<union> LegAccountID ` set (TxLegs nxt)"
    by (auto simp: net_legs_def keys_fold_net)
qed

lemma sum_net:
  assumes "distinct (map fst net)"
  shows "sum_list (map (leg_effect a) (map (\<lambda>(a, n). leg a n) (filter (\<lambda>(a, n). n \<noteq> 0) net))) = net_of net a"
  using assms
proof (induction net)
  case (Cons p net)
  have "fst p \<notin> fst ` set net \<Longrightarrow> net_of net (fst p) = 0"
    by (simp add: net_of_def map_of_eq_None_iff [THEN iffD2])
  with Cons show ?case by (cases p) (auto simp: net_of_def)
qed (simp add: net_of_def)

text \<open>A transaction's legs sum to the sum of its effects over any set of accounts that covers them.\<close>

lemma sum_effects:
  assumes "finite A" "LegAccountID ` set ls \<subseteq> A"
  shows "(\<Sum>a\<in>A. sum_list (map (leg_effect a) ls)) = sum_list (map LegAmount ls)"
  using assms(2)
  by (induction ls) (use assms(1) in \<open>simp_all add: sum.distrib leg_effect_def\<close>)

lemma AdjustBill_effect:
  assumes "RecognizeBill sys was d = Inr w" "RecognizeBill sys nxt d = Inr n" "AdjustBill sys was nxt d = Inr tx"
  shows "effect tx a = effect n a - effect w a" "tx_valid tx"
proof -
  have v: "tx_valid w" "tx_valid n" using assms RecognizeBill_effect(2) by blast+
  have tx: "NewTransaction KindAdjustment d (map (\<lambda>(a, n). leg a n) (filter (\<lambda>(a, n). n \<noteq> 0) (net_legs w n))) = Inr tx"
    using assms by (auto simp: AdjustBill_def Let_def split: if_splits)
  then show "effect tx a = effect n a - effect w a"
    using sum_net [OF net_legs_net(2) [OF v], of a] net_legs_net(1) [OF v, of a]
    by (auto simp: effect_def dest!: NewTransaction_legs)
  show "tx_valid tx" using tx by (rule NewTransaction_valid)
qed


text \<open>Legs that only their size can disqualify.\<close>

lemma check_legs_only_size:
  assumes "list_all (\<lambda>l. LegAccountID l \<noteq> '''' \<and> LegAmount l \<noteq> 0) ls"
    and "distinct (map LegAccountID ls)" "LegAccountID ` set ls \<inter> seen = {}" "check_legs seen acc ls = Inl err"
  shows "err = ErrLegTooLarge \<and> (\<exists>l \<in> set ls. \<bar>LegAmount l\<bar> > MaxLegAmount)"
  using assms
proof (induction ls arbitrary: seen acc)
  case (Cons l ls)
  show ?case
  proof (cases "LegAmount l > MaxLegAmount \<or> LegAmount l < - MaxLegAmount")
    case True
    with Cons.prems show ?thesis by (auto simp: MaxLegAmount_def)
  next
    case False
    with Cons.prems Cons.IH [of "insert (LegAccountID l) seen" "wrap64 (acc + LegAmount l)"] show ?thesis by auto
  qed
qed simp

lemma net_entry: "distinct (map fst net) \<Longrightarrow> (a, n) \<in> set net \<Longrightarrow> net_of net a = n"
  by (simp add: net_of_def)

lemma RecognizeBill_shape: "RecognizeBill sys b d = Inr tx \<Longrightarrow> length (TxLegs tx) = 2 \<and> TxDate tx = d \<and> \<not> IsZero d"
  by (auto simp: RecognizeBill_def tx_valid_def split: if_splits dest!: NewTransaction_legs)

lemma AdjustBill_error:
  assumes r: "RecognizeBill sys was d = Inr w" "RecognizeBill sys nxt d = Inr n" and e: "AdjustBill sys was nxt d = Inl err"
  shows "err = ErrNoChange \<and> (\<forall>a. effect n a = effect w a) \<or>
    err = ErrLegTooLarge \<and> (\<exists>a. \<bar>effect n a - effect w a\<bar> > MaxLegAmount)"
proof -
  define net where "net = net_legs w n"
  define ls where "ls = map (\<lambda>(a, n). leg a n) (filter (\<lambda>(a, n). n \<noteq> 0) net)"
  have v: "tx_valid w" "tx_valid n" using r RecognizeBill_effect(2) by blast+
  note net = net_legs_net [OF v, folded net_def]
  have len: "length (TxLegs w) = 2" "length (TxLegs n) = 2" "\<not> IsZero d"
    using RecognizeBill_shape [OF r(1)] RecognizeBill_shape [OF r(2)] by auto
  have a: "sum_list (map (leg_effect a) ls) = effect n a - effect w a" for a
    using sum_net [OF net(2), of a] net(1) by (simp add: ls_def)
  have nz: "list_all (\<lambda>l. LegAccountID l \<noteq> '''' \<and> LegAmount l \<noteq> 0) ls"
  proof -
    have "x \<noteq> ''''" if "x \<in> fst ` set net" for x
      using that v unfolding net(3) by (auto simp: tx_valid_def list_all_iff leg_ok_def)
    then have "x \<noteq> ''''" if "(x, y) \<in> set net" for x y using that by force
    then show ?thesis by (auto simp: ls_def list_all_iff)
  qed
  have "map LegAccountID ls = map fst (filter (\<lambda>(a, n). n \<noteq> 0) net)" by (auto simp: ls_def)
  then have dist: "distinct (map LegAccountID ls)" using net(2) by (simp add: distinct_map_filter)
  have cover: "LegAccountID ` set ls \<subseteq> fst ` set net" by (force simp: ls_def)
  have "sum_list (map LegAmount ls) = (\<Sum>a\<in>fst ` set net. effect n a) - (\<Sum>a\<in>fst ` set net. effect w a)"
    using sum_effects [OF _ cover] by (simp add: a sum_subtractf)
  also have "\<dots> = 0"
    using sum_effects [of "fst ` set net" "TxLegs n"] sum_effects [of "fst ` set net" "TxLegs w"] net(3) v
    by (simp add: effect_def tx_valid_def)
  finally have z: "sum_list (map LegAmount ls) = 0" .
  show ?thesis
  proof (cases "length ls < 2")
    case True
    then have "ls = []" using z nz by (cases ls) (auto simp: length_Suc_conv)
    have "err = ErrNoChange" using e r True by (simp add: AdjustBill_def Let_def flip: net_def ls_def)
    moreover have "effect n x = effect w x" for x using a [of x] \<open>ls = []\<close> by simp
    ultimately show ?thesis by blast
  next
    case False
    have "length ls \<le> length net" by (simp add: ls_def)
    also have "length net = card (fst ` set net)" using net(2) distinct_card [of "map fst net"] by simp
    also have "\<dots> \<le> card (LegAccountID ` set (TxLegs w)) + card (LegAccountID ` set (TxLegs n))"
      unfolding net(3) by (rule card_Un_le)
    also have "\<dots> \<le> length (TxLegs w) + length (TxLegs n)"
      by (intro add_mono) (metis card_length length_map set_map)+
    finally have "length ls \<le> MaxLegs" using len by (simp add: MaxLegs_def)
    moreover have "NewTransaction KindAdjustment d ls = Inl err"
      using e r False by (simp add: AdjustBill_def Let_def flip: net_def ls_def)
    ultimately have c: "check_legs {} 0 ls = Inl err"
      using False len(3) z check_legs_iff [OF in64_0, of "{}" ls]
      by (auto simp: NewTransaction_def kind_valid_def wrap64_id split: sum.splits if_splits)
    have "\<exists>l \<in> set ls. \<bar>LegAmount l\<bar> > MaxLegAmount" and err: "err = ErrLegTooLarge"
      using check_legs_only_size [OF nz dist _ c] by auto
    then obtain x y where "(x, y) \<in> set net" "\<bar>y\<bar> > MaxLegAmount" by (auto simp: ls_def)
    then have "\<bar>effect n x - effect w x\<bar> > MaxLegAmount" using net_entry [OF net(2)] net(1) by simp
    then show ?thesis using err by blast
  qed
qed


subsection \<open>Balances and summaries\<close>

text \<open>
  What a list of transactions moves: on an account altogether, and on an account in a month,
  debits and credits apart.
\<close>

definition net :: "Transaction list \<Rightarrow> string \<Rightarrow> int" where
  "net txs a = sum_list (map (\<lambda>tx. effect tx a) txs)"

definition touched :: "Transaction list \<Rightarrow> string set" where
  "touched txs = (\<Union>tx\<in>set txs. LegAccountID ` set (TxLegs tx))"

definition month_debits :: "Transaction list \<Rightarrow> SummaryKey \<Rightarrow> int" where
  "month_debits txs k =
     sum_list (map (\<lambda>tx. if MonthOf (TxDate tx) = fst k
       then sum_list (map (\<lambda>l. max 0 (leg_effect (snd k) l)) (TxLegs tx)) else 0) txs)"

definition month_credits :: "Transaction list \<Rightarrow> SummaryKey \<Rightarrow> int" where
  "month_credits txs k =
     sum_list (map (\<lambda>tx. if MonthOf (TxDate tx) = fst k
       then sum_list (map (\<lambda>l. max 0 (- leg_effect (snd k) l)) (TxLegs tx)) else 0) txs)"

lemma wrap64_diff_left [simp]: "wrap64 (wrap64 x - y) = wrap64 (x - y)"
  using wrap64_add_left [of x "- y"] by simp

lemma balance_derive_legs:
  "balance_of (Balances d) a = wrap64 x \<Longrightarrow>
   balance_of (Balances (fold (derive_leg m) ls d)) a = wrap64 (x + sum_list (map (leg_effect a) ls))"
proof (induction ls arbitrary: d x)
  case (Cons l ls)
  have "balance_of (Balances (derive_leg m l d)) a = wrap64 (x + leg_effect a l)"
    using Cons.prems by (auto simp: derive_leg_def Let_def balance_of_def leg_effect_def)
  from Cons.IH [OF this] show ?case by (simp add: add.assoc)
qed simp

lemma dom_derive_legs: "dom (Balances (fold (derive_leg m) ls d)) = LegAccountID ` set ls \<union> dom (Balances d)"
  by (induction ls arbitrary: d) (auto simp: derive_leg_def Let_def)

lemma summary_derive_legs:
  "list_all leg_ok ls \<Longrightarrow> totals_of (Summary d) k = \<lparr>Debits = wrap64 x, Credits = wrap64 y\<rparr> \<Longrightarrow>
   totals_of (Summary (fold (derive_leg m) ls d)) k =
     (if m = fst k
      then \<lparr>Debits = wrap64 (x + sum_list (map (\<lambda>l. max 0 (leg_effect (snd k) l)) ls)),
            Credits = wrap64 (y + sum_list (map (\<lambda>l. max 0 (- leg_effect (snd k) l)) ls))\<rparr>
      else \<lparr>Debits = wrap64 x, Credits = wrap64 y\<rparr>)"
proof (induction ls arbitrary: d x y)
  case (Cons l ls)
  let ?x = "if m = fst k then x + max 0 (leg_effect (snd k) l) else x"
  let ?y = "if m = fst k then y + max 0 (- leg_effect (snd k) l) else y"
  have "totals_of (Summary (derive_leg m l d)) k = \<lparr>Debits = wrap64 ?x, Credits = wrap64 ?y\<rparr>"
    using Cons.prems
    by (cases k) (auto simp: derive_leg_def Let_def totals_of_def leg_effect_def)
  from Cons.IH [OF _ this] Cons.prems(1) show ?case by (simp add: add.assoc)
qed simp

definition derive_tx :: "Transaction \<Rightarrow> Derived \<Rightarrow> Derived" where
  "derive_tx tx d = fold (derive_leg (MonthOf (TxDate tx))) (TxLegs tx) d"

lemma Derive_snoc: "Derive (txs @ [tx]) = derive_tx tx (Derive txs)"
  by (simp add: Derive_def derive_tx_def)

lemma Derive_Nil: "Balances (Derive []) = Map.empty" "Summary (Derive []) = Map.empty"
  by (simp_all add: Derive_def)

lemma net_snoc [simp]: "net (txs @ [tx]) a = net txs a + effect tx a"
  by (simp add: net_def)

lemma net_Nil [simp]: "net [] a = 0"
  by (simp add: net_def)

lemma Derive_balance: "balance_of (Balances (Derive txs)) a = wrap64 (net txs a)"
proof (induction txs rule: rev_induct)
  case Nil
  then show ?case by (simp add: Derive_Nil balance_of_def wrap64_id)
next
  case (snoc tx txs)
  from balance_derive_legs [OF this] show ?case by (simp add: Derive_snoc derive_tx_def effect_def)
qed

lemma Derive_dom: "dom (Balances (Derive txs)) = touched txs"
  by (induction txs rule: rev_induct)
    (auto simp: Derive_Nil touched_def Derive_snoc derive_tx_def dom_derive_legs)

lemma Derive_summary:
  "list_all tx_valid txs \<Longrightarrow>
   totals_of (Summary (Derive txs)) k = \<lparr>Debits = wrap64 (month_debits txs k), Credits = wrap64 (month_credits txs k)\<rparr>"
proof (induction txs rule: rev_induct)
  case Nil
  then show ?case by (simp add: Derive_Nil totals_of_def month_debits_def month_credits_def wrap64_id)
next
  case (snoc tx txs)
  then have "list_all leg_ok (TxLegs tx)" by (simp add: tx_valid_def)
  from summary_derive_legs [OF this snoc.IH, of "MonthOf (TxDate tx)"] snoc.prems show ?case
    by (simp add: Derive_snoc derive_tx_def month_debits_def month_credits_def)
qed

lemma net_bound:
  "list_all tx_valid txs \<Longrightarrow> \<bar>net txs a\<bar> \<le> int (length txs) * (8 * MaxLegAmount)"
proof (induction txs rule: rev_induct)
  case (snoc tx txs)
  then show ?case using effect_bound [of tx a] by (simp add: algebra_simps)
qed simp

lemma net_exact:
  assumes "list_all tx_valid txs" "length txs \<le> 1000000"
  shows "wrap64 (net txs a) = net txs a"
proof -
  have "int (length txs) * (8 * MaxLegAmount) \<le> 1000000 * (8 * MaxLegAmount)"
    using assms(2) by (simp add: MaxLegAmount_def)
  then show ?thesis
    using net_bound [OF assms(1), of a] by (intro wrap64_id in64_bound) (simp add: MaxLegAmount_def)
qed

lemma net_balanced: "list_all tx_valid txs \<Longrightarrow> finite A \<Longrightarrow> touched txs \<subseteq> A \<Longrightarrow> (\<Sum>a\<in>A. net txs a) = 0"
proof (induction txs rule: rev_induct)
  case (snoc tx txs)
  have "(\<Sum>a\<in>A. effect tx a) = 0"
    using sum_effects [OF snoc.prems(2), of "TxLegs tx"] snoc.prems
    by (simp add: effect_def tx_valid_def touched_def)
  then show ?case using snoc by (simp add: sum.distrib touched_def)
qed simp


subsection \<open>Properties\<close>

text \<open>The transactions the posting rules and \<open>Reverse\<close> make.\<close>

inductive posted :: "Transaction \<Rightarrow> bool" where
  recognize: "RecognizeBill sys b d = Inr tx \<Longrightarrow> posted tx"
| settle: "SettleBill sys b paid dc d = Inr tx \<Longrightarrow> posted tx"
| credit: "CreditBill b n d = Inr tx \<Longrightarrow> posted tx"
| transfer: "Transfer a b n d = Inr tx \<Longrightarrow> posted tx"
| purchase: "CardPurchase c cat n d = Inr tx \<Longrightarrow> posted tx"
| card_credit: "CardCredit c cat n d = Inr tx \<Longrightarrow> posted tx"
| statement: "PayStatement c a n d = Inr tx \<Longrightarrow> posted tx"
| opening_balance: "OpeningBalance sys a n d = Inr tx \<Longrightarrow> posted tx"
| adjust: "AdjustBill sys was nxt d = Inr tx \<Longrightarrow> posted tx"
| cancel: "CancelBill sys b d = Inr tx \<Longrightarrow> posted tx"
| bank_line: "BankLine a cat cr n d = Inr tx \<Longrightarrow> posted tx"
| reverse: "posted tx \<Longrightarrow> Reverse tx i d = Inr r \<Longrightarrow> posted r"

lemma posted_valid: "posted tx \<Longrightarrow> tx_valid tx"
proof (induction rule: posted.induct)
  case (reverse tx i d r)
  then show ?case using Reverse_effect(2) by blast
qed (auto simp: RecognizeBill_def SettleBill_def CreditBill_def Transfer_def CardPurchase_def CardCredit_def
    PayStatement_def OpeningBalance_def AdjustBill_def CancelBill_def BankLine_def Let_def
    split: if_splits sum.splits prod.splits dest: NewTransaction_valid)

text \<open>C25: Whatever facts are posted and reversed, the books balance: every transaction has at
  least two legs on different accounts that sum to zero, and over the first million
  transactions the derived balances of all accounts add up to exactly zero, each being the
  plain sum of what was posted to it, with no 64-bit overflow.\<close>

theorem books_always_balance:
  assumes "\<forall>tx \<in> set txs. posted tx" "length txs \<le> 1000000"
  shows "(\<Sum>a \<in> dom (Balances (Derive txs)). the (Balances (Derive txs) a)) = 0 \<and>
    (\<forall>a. balance_of (Balances (Derive txs)) a = sum_list (map (\<lambda>tx. effect tx a) txs)) \<and>
    (\<forall>tx \<in> set txs. 2 \<le> length (TxLegs tx) \<and> distinct (map LegAccountID (TxLegs tx)) \<and>
       sum_list (map LegAmount (TxLegs tx)) = 0)"
proof -
  have v: "list_all tx_valid txs" using assms(1) posted_valid by (simp add: list_all_iff)
  have b: "balance_of (Balances (Derive txs)) a = net txs a" for a
    by (simp add: Derive_balance net_exact [OF v assms(2)])
  have "the (Balances (Derive txs) a) = net txs a" if "a \<in> dom (Balances (Derive txs))" for a
    using b [of a] that by (auto simp: balance_of_def)
  then have "(\<Sum>a \<in> dom (Balances (Derive txs)). the (Balances (Derive txs) a)) = (\<Sum>a \<in> touched txs. net txs a)"
    by (simp add: Derive_dom)
  also have "\<dots> = 0" using net_balanced [OF v, of "touched txs"] by (simp add: touched_def)
  finally show ?thesis using b v by (auto simp: net_def list_all_iff tx_valid_def)
qed

text \<open>A bill that is recognised and then settled leaves nothing in payables or receivables:
  over the two transactions the category holds the bill's amount, the paying account what was
  really paid, and the difference category the gap between the two. A credit of a paid bill is
  the exact opposite of recognising and settling that amount. For a payable the amounts have
  these signs, for a receivable the opposite ones.\<close>

theorem settled_bill_clears:
  assumes "RecognizeBill sys b d = Inr r" "SettleBill sys b paid dc e = Inr s" "CreditBill b n f = Inr c"
    and "BfClears b = ''''" "in64 paid" "in64 (BfAmount b)"
  shows "effect r a + effect s a =
      side b * (on (BfCategoryID b) (BfAmount b) a - on (BfAccountID b) paid a + on dc (paid - BfAmount b) a) \<and>
    effect c a = - (side b * (on (BfCategoryID b) n a - on (BfAccountID b) n a))"
  using RecognizeBill_effect(1) [OF assms(1), of a] SettleBill_effect(1) [OF assms(2,5,6), of a]
    CreditBill_effect(1) [OF assms(3), of a] assms(4)
  by (simp add: side_def)

text \<open>Editing a bill posts exactly the difference between what the edited bill and the bill
  before would recognise, account by account; the edit is refused only when nothing the ledger
  recognised changes or when a netted leg would exceed the largest amount.\<close>

theorem adjustment_posts_difference:
  assumes "RecognizeBill sys was d = Inr w" "RecognizeBill sys nxt d = Inr n"
  shows "case AdjustBill sys was nxt d of
      Inr tx \<Rightarrow> \<forall>a. effect tx a = effect n a - effect w a
    | Inl err \<Rightarrow> err = ErrNoChange \<and> effect n = effect w \<or>
        err = ErrLegTooLarge \<and> (\<exists>a. \<bar>effect n a - effect w a\<bar> > MaxLegAmount)"
  using AdjustBill_effect [OF assms] AdjustBill_error [OF assms]
  by (auto split: sum.splits)

text \<open>A transaction other than a reversal can always be reversed once it has an id, and the
  reversal undoes it on every account; a reversal itself is never reversed.\<close>

theorem reversal_undoes:
  assumes "posted tx" "i \<noteq> ''''" "\<not> IsZero d"
  shows "case Reverse tx i d of
      Inr r \<Rightarrow> TxKindOf tx \<noteq> KindReversal \<and> TxKindOf r = KindReversal \<and> TxAdjusts r = i \<and> TxDate r = d \<and>
        (\<forall>a. effect tx a + effect r a = 0)
    | Inl err \<Rightarrow> TxKindOf tx = KindReversal \<and> err = ErrReversalReversed"
proof (cases "TxKindOf tx = KindReversal")
  case True
  then show ?thesis using assms by (simp add: Reverse_def)
next
  case False
  obtain r where r: "Reverse tx i d = Inr r"
    using tx_valid_negated [OF posted_valid [OF assms(1)] _ assms(3), of KindReversal] assms(2) False
    by (auto simp: Reverse_def kind_valid_def)
  then show ?thesis using Reverse_effect [OF r posted_valid [OF assms(1)]] False by simp
qed


subsection \<open>A bill of R$ 100,00 paid with R$ 2,00 of interest\<close>

definition sample_sys :: SystemAccounts where
  "sample_sys = \<lparr>Payables = ''sys-payables'', Receivables = ''sys-receivables'', OpeningBalanceID = ''sys-opening''\<rparr>"

definition sample_facts :: BillFacts where
  "sample_facts = \<lparr>BfDirection = Payable, BfAmount = 10000, BfCategoryID = ''cat-rent'', BfAccountID = ''bank'', BfClears = ''''\<rparr>"

definition sample_recognized :: Transaction where
  "sample_recognized = projr (RecognizeBill sample_sys sample_facts (mk_date 2026 1 10))"

definition sample_settled :: Transaction where
  "sample_settled = projr (SettleBill sample_sys sample_facts 10200 ''cat-interest'' (mk_date 2026 1 12))"

lemma sample_recognized: "RecognizeBill sample_sys sample_facts (mk_date 2026 1 10) = Inr sample_recognized"
  by code_simp

lemma sample_settled: "SettleBill sample_sys sample_facts 10200 ''cat-interest'' (mk_date 2026 1 12) = Inr sample_settled"
  by code_simp

theorem books_always_balance_witness:
  "(\<Sum>a \<in> dom (Balances (Derive [sample_recognized, sample_settled])).
     the (Balances (Derive [sample_recognized, sample_settled]) a)) = 0"
proof -
  have "\<forall>tx \<in> set [sample_recognized, sample_settled]. posted tx"
    using posted.recognize [OF sample_recognized] posted.settle [OF sample_settled] by simp
  then show ?thesis using books_always_balance [of "[sample_recognized, sample_settled]"] by simp
qed

theorem settled_bill_clears_witness:
  "effect sample_recognized ''sys-payables'' + effect sample_settled ''sys-payables'' = 0 \<and>
   effect sample_recognized ''bank'' + effect sample_settled ''bank'' = - 10200"
proof -
  have "CreditBill sample_facts 500 (mk_date 2026 2 1) = Inr (projr (CreditBill sample_facts 500 (mk_date 2026 2 1)))"
    by code_simp
  from settled_bill_clears [OF sample_recognized sample_settled this] show ?thesis
    by (simp add: sample_facts_def side_def on_def in64_def)
qed

theorem adjustment_posts_difference_witness:
  "effect (projr (AdjustBill sample_sys sample_facts (sample_facts\<lparr>BfAmount := 12500\<rparr>) (mk_date 2026 1 10))) ''cat-rent'' = 2500"
proof -
  let ?n = "sample_facts\<lparr>BfAmount := 12500\<rparr>"
  have n: "RecognizeBill sample_sys ?n (mk_date 2026 1 10) = Inr (projr (RecognizeBill sample_sys ?n (mk_date 2026 1 10)))"
    by code_simp
  have a: "AdjustBill sample_sys sample_facts ?n (mk_date 2026 1 10) =
      Inr (projr (AdjustBill sample_sys sample_facts ?n (mk_date 2026 1 10)))"
    by code_simp
  have "effect (projr (RecognizeBill sample_sys ?n (mk_date 2026 1 10))) ''cat-rent'' - effect sample_recognized ''cat-rent'' = 2500"
    by code_simp
  then show ?thesis using adjustment_posts_difference [OF sample_recognized n] a by (simp split: sum.splits)
qed

theorem reversal_undoes_witness:
  "effect sample_settled ''bank'' + effect (projr (Reverse sample_settled ''tx_2'' (mk_date 2026 1 13))) ''bank'' = 0"
proof -
  have r: "Reverse sample_settled ''tx_2'' (mk_date 2026 1 13) = Inr (projr (Reverse sample_settled ''tx_2'' (mk_date 2026 1 13)))"
    by code_simp
  show ?thesis
    using reversal_undoes [OF posted.settle [OF sample_settled], of "''tx_2''" "mk_date 2026 1 13"] r
    by (simp add: IsZero_def split: sum.splits)
qed

end
