(* ===== verification/Card.thy ===== *)
theory Card
  imports Ledger Text
begin

text \<open>
  \<open>api/internal/domain/finance/card.go\<close> and \<open>installments.go\<close>: a card's settings, the calendar of
  its statements, and how a purchase is split into installments and placed on statements.
  \<open>CardFlow\<close> of \<open>card.go\<close> is in theory \<open>Ledger\<close>. Shown: installments add up to the purchase, a
  purchase belongs to the one statement whose closing dates enclose it, a statement is due on the
  first due day after it closes, a placed purchase never touches a closed statement, and a refund
  splits a purchase without losing a centavo.
\<close>

subsection \<open>card.go\<close>

datatype CardBrand = BrandNone | BrandVisa | BrandMastercard | BrandElo | BrandAmex | BrandHipercard | BrandDiners
  | BrandOther | BrandUnknown string

definition CardBrands :: "CardBrand list" where
  "CardBrands = [BrandVisa, BrandMastercard, BrandElo, BrandAmex, BrandHipercard, BrandDiners, BrandOther]"

definition ValidCardBrand :: "CardBrand \<Rightarrow> bool" where
  "ValidCardBrand b \<longleftrightarrow> list_ex (\<lambda>x. b = x) CardBrands"

definition ValidLast4 :: "string \<Rightarrow> bool" where
  "ValidLast4 s \<longleftrightarrow> length s = 4 \<and> list_all is_digit s"

record Card =
  CdID :: string
  CdClosingDay :: int
  CdDueDay :: int
  CdPayingAccountID :: string
  CdOpenMonth :: FMonth
  CdBrand :: CardBrand
  CdLast4 :: string

datatype invalid_card = CardClosingDay | CardDueDay | CardPayingAccount | CardOpenMonth | CardBrandUnknown | CardLast4

definition CardValidate :: "Card \<Rightarrow> invalid_card option" where
  "CardValidate c =
     (if CdClosingDay c < 1 \<or> CdClosingDay c > 31 then Some CardClosingDay
      else if CdDueDay c < 1 \<or> CdDueDay c > 31 then Some CardDueDay
      else if CdPayingAccountID c = '''' then Some CardPayingAccount
      else if CdOpenMonth c = mk_month 0 0 then Some CardOpenMonth
      else if CdBrand c \<noteq> BrandNone \<and> \<not> ValidCardBrand (CdBrand c) then Some CardBrandUnknown
      else if CdLast4 c \<noteq> '''' \<and> \<not> ValidLast4 (CdLast4 c) then Some CardLast4
      else None)"

definition clampDay :: "FMonth \<Rightarrow> int \<Rightarrow> Date" where
  "clampDay m day = New (MYear m) (MMonth m) (min day (DaysInMonth (MYear m) (MMonth m)))"

definition ClosingDate :: "FMonth \<Rightarrow> int \<Rightarrow> Date" where
  "ClosingDate m closingDay = clampDay m closingDay"

definition CardDueDate :: "FMonth \<Rightarrow> int \<Rightarrow> int \<Rightarrow> Date" where
  "CardDueDate m closingDay dueDay =
     (let d = clampDay m dueDay
      in if After d (ClosingDate m closingDay) then d else clampDay (MonthAdd m 1) dueDay)"

definition StatementRef :: "string \<Rightarrow> FMonth \<Rightarrow> string" where
  "StatementRef cardID m = cardID @ ''#'' @ MonthString m"

subsection \<open>installments.go\<close>

definition MaxInstallments :: int where "MaxInstallments = 48"

datatype installment_error = ErrInstallmentCount | ErrInstallmentAmount | ErrClosingDay

record Installment =
  InNumber :: int
  InAmount :: Cents
  InStatement :: FMonth

definition SplitInstallments :: "Cents \<Rightarrow> int \<Rightarrow> (installment_error, Cents list) result" where
  "SplitInstallments tot n =
     (if n < 1 \<or> n > MaxInstallments then Inl ErrInstallmentCount
      else if tot < n then Inl ErrInstallmentAmount
      else let base = tot sdiv n;
               parts = replicate (nat n) base
           in Inr (parts[0 := wrap64 (parts ! 0 + wrap64 (tot - wrap64 (base * n)))]))"

definition StatementFor :: "Date \<Rightarrow> int \<Rightarrow> FMonth" where
  "StatementFor purchase closingDay =
     (let m = MonthOf purchase
      in if Day purchase \<le> min closingDay (DaysInMonth (MYear m) (MMonth m)) then m else MonthAdd m 1)"

definition AllocateInstallments :: "Cents \<Rightarrow> int \<Rightarrow> Date \<Rightarrow> int \<Rightarrow> (installment_error, Installment list) result" where
  "AllocateInstallments tot n purchase closingDay =
     (if closingDay < 1 \<or> closingDay > 31 then Inl ErrClosingDay
      else case SplitInstallments tot n of
        Inl err \<Rightarrow> Inl err
      | Inr parts \<Rightarrow>
          let first = StatementFor purchase closingDay
          in Inr (map (\<lambda>(i, amount). \<lparr>InNumber = int i + 1, InAmount = amount, InStatement = MonthAdd first (int i)\<rparr>)
                      (enumerate 0 parts)))"

definition PlaceInstallments ::
  "Cents \<Rightarrow> int \<Rightarrow> Date \<Rightarrow> int \<Rightarrow> FMonth \<Rightarrow> (installment_error, Installment list) result" where
  "PlaceInstallments tot n purchase closingDay open =
     (case AllocateInstallments tot n purchase closingDay of
        Inl err \<Rightarrow> Inl err
      | Inr plan \<Rightarrow>
          if MonthCompare (InStatement (plan ! 0)) open < 0
          then let shift = MonthsSince open (InStatement (plan ! 0))
               in Inr (map (\<lambda>i. i\<lparr>InStatement := MonthAdd (InStatement i) shift\<rparr>) plan)
          else Inr plan)"

definition Advance :: "Installment list \<Rightarrow> FMonth \<Rightarrow> Installment list" where
  "Advance plan open =
     map (\<lambda>i. if MonthCompare (InStatement i) open > 0 then i\<lparr>InStatement := open\<rparr> else i) plan"

fun refund_from :: "FMonth \<Rightarrow> Cents \<times> Installment list \<Rightarrow> Installment list \<Rightarrow> Cents \<times> Installment list" where
  "refund_from open acc [] = acc"
| "refund_from open (credit, removed) (i # is) =
     refund_from open (if MonthCompare (InStatement i) open < 0 then (wrap64 (credit + InAmount i), removed)
                       else (credit, removed @ [i])) is"

definition RefundPlan :: "Installment list \<Rightarrow> FMonth \<Rightarrow> Cents \<times> Installment list" where
  "RefundPlan plan open = refund_from open (0, []) plan"

subsection \<open>Days of a month\<close>

text \<open>A day of a month clamped to its end, for the months the time zone does not disturb.\<close>

definition day_in :: "FMonth \<Rightarrow> int \<Rightarrow> int" where
  "day_in m day = min day (month_length (MYear m) (MMonth m))"

lemma modern_month_end:
  "modern_month m \<Longrightarrow> modern (mk_date (MYear m) (MMonth m) (month_length (MYear m) (MMonth m)))"
  using Last_modern by metis

lemma DaysInMonth_month:
  "modern_month m \<Longrightarrow> DaysInMonth (MYear m) (MMonth m) = month_length (MYear m) (MMonth m)"
  using DaysInMonth_modern modern_month_bounds modern_month_end by blast

lemma day_in_range: "1 \<le> day \<Longrightarrow> 1 \<le> day_in m day \<and> day_in m day \<le> month_length (MYear m) (MMonth m)"
  using month_length_pos [of "MYear m" "MMonth m"] by (simp add: day_in_def)

lemma modern_day_of_month:
  assumes "modern_month m" "1 \<le> d" "d \<le> month_length (MYear m) (MMonth m)"
  shows "modern (mk_date (MYear m) (MMonth m) d)"
proof (rule modern_mono)
  show "modern (mk_date (MYear m) (MMonth m) 1)" using assms(1) by (simp add: modern_month_def)
  show "valid_date (mk_date (MYear m) (MMonth m) d)"
    using assms modern_month_bounds [OF assms(1)] by (simp add: valid_date_def)
  show "mk_date (MYear m) (MMonth m) 1 \<le> mk_date (MYear m) (MMonth m) d"
    using assms(2) by (auto simp: less_eq_Date_def less_Date_def)
qed

lemma clampDay_modern:
  assumes "modern_month m" "1 \<le> day"
  shows "clampDay m day = mk_date (MYear m) (MMonth m) (day_in m day)" "modern (clampDay m day)"
    "MonthOf (clampDay m day) = m"
proof -
  have "modern (mk_date (MYear m) (MMonth m) (day_in m day))"
    using assms modern_day_of_month day_in_range by blast
  then show "clampDay m day = mk_date (MYear m) (MMonth m) (day_in m day)" "modern (clampDay m day)"
    by (simp_all add: clampDay_def DaysInMonth_month [OF assms(1)] New_modern day_in_def)
  then show "MonthOf (clampDay m day) = m" by (simp add: MonthOf_def)
qed

text \<open>A modern day whose month starts after the zone's last change.\<close>

lemma modern_month_of:
  "modern d \<Longrightarrow> 2019 < Year d \<Longrightarrow> modern_month (MonthOf d)"
  unfolding modern_month_def MonthOf_def
  by (rule modern_2020) (auto simp: modern_def valid_date_def month_length_def)

lemma date_less_month:
  "modern_month (MonthOf d) \<Longrightarrow> modern_month (MonthOf e) \<Longrightarrow> month_index (MonthOf d) < month_index (MonthOf e) \<Longrightarrow> d < e"
  using modern_month_bounds [of "MonthOf d"] modern_month_bounds [of "MonthOf e"]
  by (auto simp: less_Date_def month_index_def MonthOf_def)

lemma date_month_mono:
  "modern_month (MonthOf d) \<Longrightarrow> modern_month (MonthOf e) \<Longrightarrow> d \<le> e \<Longrightarrow> month_index (MonthOf d) \<le> month_index (MonthOf e)"
  using date_less_month [of e d] by (meson not_less)

lemma same_month_less: "MonthOf d = MonthOf e \<Longrightarrow> d < e \<longleftrightarrow> Day d < Day e"
  by (auto simp: less_Date_def MonthOf_def)


lemma ClosingDate_month:
  "modern_month m \<Longrightarrow> 1 \<le> c \<Longrightarrow> MonthOf (ClosingDate m c) = m \<and> Day (ClosingDate m c) = day_in m c"
  using clampDay_modern [of m c] by (simp add: ClosingDate_def)

subsection \<open>Statements\<close>

lemma StatementFor_modern:
  "modern_month (MonthOf d) \<Longrightarrow>
     StatementFor d c = (if Day d \<le> day_in (MonthOf d) c then MonthOf d else MonthAdd (MonthOf d) 1)"
  using DaysInMonth_month [of "MonthOf d"] by (simp add: StatementFor_def Let_def day_in_def)

lemma modern_StatementFor: "modern_month (MonthOf d) \<Longrightarrow> modern_month (StatementFor d c)"
  by (simp add: StatementFor_modern)

lemma next_month_eq: "modern_month m \<Longrightarrow> modern_month k \<Longrightarrow> MonthAdd m 1 = MonthAdd k 1 \<longleftrightarrow> m = k"
  by (metis add_right_cancel month_index_MonthAdd month_index_inj zero_le_one)

text \<open>A purchase is billed on exactly one statement: the one whose closing date is the first on or
  after the purchase. In other words a day belongs to a month's statement if and only if it is after
  the previous statement's closing date and not after this one's.\<close>

theorem purchase_belongs_to_one_statement:
  assumes "modern_month m" "modern_month (MonthOf d)" "1 \<le> c"
  shows "StatementFor d c = MonthAdd m 1 \<longleftrightarrow> ClosingDate m c < d \<and> d \<le> ClosingDate (MonthAdd m 1) c"
proof -
  let ?k = "MonthOf d" and ?n = "MonthAdd m 1"
  have n: "modern_month ?n" "month_index ?n = month_index m + 1" using assms(1) by simp_all
  note cm = ClosingDate_month [OF assms(1,3)] and cn = ClosingDate_month [OF n(1) assms(3)]
  have after: "ClosingDate m c < d \<longleftrightarrow> month_index m < month_index ?k \<or> ?k = m \<and> day_in m c < Day d"
    using date_less_month [of "ClosingDate m c" d] date_month_mono [of "ClosingDate m c" d] assms(1,2) cm
      same_month_less [of "ClosingDate m c" d] month_index_inj [of m ?k] by (metis order_le_less)
  have upto: "d \<le> ClosingDate ?n c \<longleftrightarrow> month_index ?k < month_index ?n \<or> ?k = ?n \<and> Day d \<le> day_in ?n c"
    using date_less_month [of d "ClosingDate ?n c"] date_month_mono [of d "ClosingDate ?n c"] n(1) assms(2) cn
      same_month_less [of "ClosingDate ?n c" d] month_index_inj [of ?k ?n] by (metis not_less order_le_less)
  show ?thesis
  proof (cases "Day d \<le> day_in ?k c")
    case True
    then have "StatementFor d c = ?k" by (simp add: StatementFor_modern assms(2))
    then show ?thesis using True after upto n(2) by auto
  next
    case False
    then have "StatementFor d c = ?n \<longleftrightarrow> ?k = m"
      using next_month_eq [OF assms(2,1)] by (simp add: StatementFor_modern assms(2))
    moreover have "month_index m < month_index ?k \<and> month_index ?k < month_index ?n \<longleftrightarrow> False" using n(2) by simp
    ultimately show ?thesis using False after upto n(2) by auto
  qed
qed

text \<open>A statement is due after it closes, on the first date that falls on the card's due day after
  the closing date, and the statements of successive months are due in order.\<close>

theorem statement_due_after_closing:
  assumes "modern_month m" "1 \<le> c" "1 \<le> e"
  shows "ClosingDate m c < CardDueDate m c e \<and>
    (\<forall>k. modern_month k \<longrightarrow> \<not> (ClosingDate m c < clampDay k e \<and> clampDay k e < CardDueDate m c e)) \<and>
    (CardDueDate m c e = clampDay m e \<or> CardDueDate m c e = clampDay (MonthAdd m 1) e)"
proof (cases "ClosingDate m c < clampDay m e")
  case True
  then have due: "CardDueDate m c e = clampDay m e" by (simp add: CardDueDate_def Let_def)
  have "\<not> (ClosingDate m c < clampDay k e \<and> clampDay k e < clampDay m e)" if k: "modern_month k" for k
    using date_month_mono [of "ClosingDate m c" "clampDay k e"] date_month_mono [of "clampDay k e" "clampDay m e"]
      clampDay_modern(3) [OF k assms(3)] clampDay_modern(3) [OF assms(1,3)] ClosingDate_month [OF assms(1,2)]
      month_index_inj [OF k assms(1)] k assms(1)
    by (metis order_antisym order_less_imp_le order_less_irrefl)
  with True show ?thesis by (simp add: due)
next
  case False
  let ?n = "MonthAdd m 1"
  have n: "modern_month ?n" "month_index ?n = month_index m + 1" using assms(1) by simp_all
  have due: "CardDueDate m c e = clampDay ?n e" using False by (simp add: CardDueDate_def Let_def)
  have lt: "ClosingDate m c < clampDay ?n e"
    by (rule date_less_month) (use n assms ClosingDate_month clampDay_modern in simp_all)
  have "\<not> (ClosingDate m c < clampDay k e \<and> clampDay k e < clampDay ?n e)" if k: "modern_month k" for k
  proof
    assume b: "ClosingDate m c < clampDay k e \<and> clampDay k e < clampDay ?n e"
    have "month_index m \<le> month_index k"
      using date_month_mono [of "ClosingDate m c" "clampDay k e"] b k assms clampDay_modern(3) [OF k assms(3)]
        ClosingDate_month [OF assms(1,2)] by (simp add: order_less_imp_le)
    moreover have "month_index k \<le> month_index ?n"
      using date_month_mono [of "clampDay k e" "clampDay ?n e"] b k n assms clampDay_modern(3) [OF k assms(3)]
        clampDay_modern(3) [OF n(1) assms(3)] by (simp add: order_less_imp_le)
    ultimately have "month_index k = month_index m \<or> month_index k = month_index ?n" using n(2) by linarith
    then have "k = m \<or> k = ?n" using month_index_inj k assms(1) n(1) by blast
    then show False using b False by auto
  qed
  with lt show ?thesis by (simp add: due)
qed


subsection \<open>Splitting a purchase\<close>

lemma replicate_update_head: "0 < n \<Longrightarrow> (replicate n x)[0 := y] = y # replicate (n - 1) x"
  by (cases n) simp_all

lemma SplitInstallments_cases:
  assumes "in64 tot" "SplitInstallments tot n = Inr parts"
  shows "1 \<le> n" "n \<le> 48" "n \<le> tot"
    "parts = (tot div n + tot mod n) # replicate (nat n - 1) (tot div n)"
proof -
  show n: "1 \<le> n" "n \<le> 48" "n \<le> tot"
    using assms(2) by (auto simp: SplitInstallments_def MaxInstallments_def Let_def split: if_splits)
  have rest: "tot - tot div n * n = tot mod n" by (simp add: minus_div_mult_eq_mod)
  have bounds: "0 \<le> tot div n" "tot div n * n \<le> tot" "0 \<le> tot mod n" "tot div n + tot mod n \<le> tot"
  proof -
    show "0 \<le> tot div n" using n by (simp add: pos_imp_zdiv_nonneg_iff)
    then have "tot div n * 1 \<le> tot div n * n" using n by (intro mult_left_mono) simp_all
    moreover have m: "0 \<le> tot mod n" using n by simp
    moreover have e: "tot div n * n + tot mod n = tot" by simp
    ultimately show "tot div n * n \<le> tot" "0 \<le> tot mod n" "tot div n + tot mod n \<le> tot" by linarith+
  qed
  then have w: "wrap64 (tot div n * n) = tot div n * n" "wrap64 (tot mod n) = tot mod n"
    "wrap64 (tot div n + tot mod n) = tot div n + tot mod n"
  proof -
    have "0 \<le> tot div n * n" using bounds(1) n by simp
    moreover have "tot < 2 ^ 63" using assms(1) by (simp add: in64_def)
    moreover have "tot mod n \<le> tot" using bounds(1,4) by linarith
    ultimately have "in64 (tot div n * n)" "in64 (tot mod n)" "in64 (tot div n + tot mod n)"
      using bounds unfolding in64_def by (intro conjI; linarith)+
    then show "wrap64 (tot div n * n) = tot div n * n" "wrap64 (tot mod n) = tot mod n"
      "wrap64 (tot div n + tot mod n) = tot div n + tot mod n" by (simp_all add: wrap64_id)
  qed
  show "parts = (tot div n + tot mod n) # replicate (nat n - 1) (tot div n)"
    using assms(2) n by (auto simp: SplitInstallments_def Let_def sdiv_nonneg rest w replicate_update_head
        split: if_splits)
qed

lemma installments_total:
  assumes "in64 tot" "SplitInstallments tot n = Inr parts"
  shows "int (length parts) = n \<and> sum_list parts = tot \<and> (\<forall>p \<in> set parts. 1 \<le> p) \<and>
    (\<forall>p \<in> set (tl parts). p = tot div n) \<and> hd parts - tot div n < n"
proof -
  note c = SplitInstallments_cases [OF assms]
  have one: "1 \<le> tot div n" using c(1,3) by (simp add: int_one_le_iff_zero_less pos_imp_zdiv_pos_iff)
  have m: "0 \<le> tot mod n" "tot mod n < n" using c(1) by simp_all
  have "1 \<le> tot div n + tot mod n" using one m(1) by linarith
  then have "length parts = nat n" "\<forall>p \<in> set parts. 1 \<le> p" "\<forall>p \<in> set (tl parts). p = tot div n"
    "hd parts - tot div n < n"
    using c(1,4) one m by auto
  moreover have "sum_list parts = tot"
  proof -
    have "sum_list parts = tot div n + tot mod n + (n - 1) * (tot div n)"
      using c(1,4) by (simp add: sum_list_replicate of_nat_diff)
    also have "\<dots> = tot div n * n + tot mod n" by (simp add: algebra_simps)
    finally show ?thesis by simp
  qed
  ultimately show ?thesis using c(1) by simp
qed

lemma sum_list_partition:
  "sum_list (map f (filter P xs)) + sum_list (map f (filter (\<lambda>x. \<not> P x) xs)) = (sum_list (map f xs) :: int)"
  by (induction xs) simp_all

text \<open>C24: The installments of a purchase add up to it: an accepted plan has as many parts as asked for,
  each at least one centavo, all equal but the first, which carries the remainder of the division.\<close>

theorem installments_add_up:
  assumes "in64 tot" "SplitInstallments tot n = Inr parts"
  shows "int (length parts) = n \<and> sum_list parts = tot \<and> (\<forall>p \<in> set parts. 1 \<le> p) \<and>
    (\<forall>p \<in> set (tl parts). p = tot div n) \<and> hd parts - tot div n < n"
  using installments_total [OF assms] .

theorem installments_add_up_witness: "sum_list [3334, 3333, 3333 :: int] = 10000"
proof -
  have "SplitInstallments 10000 3 = Inr [3334, 3333, 3333]" by code_simp
  with installments_add_up [of 10000 3 "[3334, 3333, 3333]"] show ?thesis by (simp add: in64_def)
qed

text \<open>A month of the years after the change.\<close>

lemma modern_month_2020: "2020 \<le> y \<Longrightarrow> 1 \<le> m \<Longrightarrow> m \<le> 12 \<Longrightarrow> modern_month (mk_month y m)"
  unfolding modern_month_def using month_length_pos [of y m] by (intro modern_2020) (simp_all add: valid_date_def)

theorem purchase_belongs_to_one_statement_witness:
  "StatementFor (mk_date 2026 2 28) 30 = MonthAdd (mk_month 2026 1) 1"
proof -
  have m: "modern_month (mk_month 2026 1)" "modern_month (MonthOf (mk_date 2026 2 28))"
    by (simp_all add: modern_month_2020 MonthOf_def)
  have "ClosingDate (mk_month 2026 1) 30 = mk_date 2026 1 30" "ClosingDate (mk_month 2026 2) 30 = mk_date 2026 2 28"
    by (simp_all add: ClosingDate_def clampDay_modern modern_month_2020 day_in_def month_length_def leap_day_def leap_def)
  moreover have "MonthAdd (mk_month 2026 1) 1 = mk_month 2026 2"
    by (rule MonthAdd_of_index) (simp_all add: modern_month_2020 month_index_def)
  ultimately show ?thesis
    using purchase_belongs_to_one_statement [OF m, of 30] by (simp add: less_Date_def)
qed

theorem statement_due_after_closing_witness: "ClosingDate (mk_month 2026 1) 31 < CardDueDate (mk_month 2026 1) 31 31"
  using statement_due_after_closing [OF modern_month_2020, of 2026 1 31 31] by simp


subsection \<open>Placing and refunding\<close>

lemma AllocateInstallments_cases:
  assumes "AllocateInstallments tot n d c = Inr plan"
  obtains parts where "SplitInstallments tot n = Inr parts" "1 \<le> c" "c \<le> 31"
    "plan = map (\<lambda>(i, amount). \<lparr>InNumber = int i + 1, InAmount = amount, InStatement = MonthAdd (StatementFor d c) (int i)\<rparr>)
              (enumerate 0 parts)"
  using assms by (auto simp: AllocateInstallments_def Let_def split: if_splits sum.splits)

text \<open>What placing does, in terms of the allocation.\<close>

lemma PlaceInstallments_cases:
  assumes "in64 tot" "PlaceInstallments tot n d c open = Inr plan" "modern_month (MonthOf d)" "modern_month open"
  obtains parts where "SplitInstallments tot n = Inr parts" "length plan = length parts" "map InAmount plan = parts"
    "\<And>i. i < length plan \<Longrightarrow> InNumber (plan ! i) = int i + 1 \<and> modern_month (InStatement (plan ! i)) \<and>
       month_index (InStatement (plan ! i)) = max (month_index (StatementFor d c)) (month_index open) + int i"
proof -
  obtain al where al: "AllocateInstallments tot n d c = Inr al"
    using assms(2) by (auto simp: PlaceInstallments_def split: sum.splits)
  obtain parts where p: "SplitInstallments tot n = Inr parts"
    and al_eq: "al = map (\<lambda>(i, amount). \<lparr>InNumber = int i + 1, InAmount = amount,
      InStatement = MonthAdd (StatementFor d c) (int i)\<rparr>) (enumerate 0 parts)"
    by (rule AllocateInstallments_cases [OF al])
  let ?f = "StatementFor d c"
  have f: "modern_month ?f" using assms(3) by (rule modern_StatementFor)
  have ne: "parts \<noteq> []" using SplitInstallments_cases(4) [OF assms(1) p] by simp
  have len: "length al = length parts" by (simp add: al_eq)
  have at: "al ! i = \<lparr>InNumber = int i + 1, InAmount = parts ! i, InStatement = MonthAdd ?f (int i)\<rparr>"
    if "i < length parts" for i
    using that by (simp add: al_eq nth_enumerate_eq)
  have amounts: "map InAmount al = parts" by (rule nth_equalityI) (simp_all add: len at)
  have first: "InStatement (al ! 0) = ?f" using at [of 0] ne MonthAdd_0 [OF f] by simp
  show thesis
  proof (cases "MonthCompare ?f open < 0")
    case True
    then have lt: "month_index ?f < month_index open" using MonthCompare_less [OF f assms(4)] by simp
    let ?s = "MonthsSince open ?f"
    have plan: "plan = map (\<lambda>i. i\<lparr>InStatement := MonthAdd (InStatement i) ?s\<rparr>) al"
      using assms(2) al True first by (simp add: PlaceInstallments_def Let_def)
    show thesis
    proof (rule that [OF p])
      show "length plan = length parts" by (simp add: plan len)
      show "map InAmount plan = parts" using amounts by (simp add: plan comp_def)
      fix i assume "i < length plan"
      then have i: "i < length parts" by (simp add: plan len)
      then have "plan ! i = \<lparr>InNumber = int i + 1, InAmount = parts ! i,
          InStatement = MonthAdd (MonthAdd ?f (int i)) ?s\<rparr>"
        by (simp add: plan len at)
      then show "InNumber (plan ! i) = int i + 1 \<and> modern_month (InStatement (plan ! i)) \<and>
          month_index (InStatement (plan ! i)) = max (month_index ?f) (month_index open) + int i"
        using lt f by (simp add: MonthsSince_index)
    qed
  next
    case False
    then have plan: "plan = al" using assms(2) al first by (simp add: PlaceInstallments_def)
    have ge: "month_index open \<le> month_index ?f" using False MonthCompare_less [OF f assms(4)] by simp
    show thesis
    proof (rule that [OF p])
      fix i assume "i < length plan"
      then have "plan ! i = \<lparr>InNumber = int i + 1, InAmount = parts ! i, InStatement = MonthAdd ?f (int i)\<rparr>"
        by (simp add: plan len at)
      then show "InNumber (plan ! i) = int i + 1 \<and> modern_month (InStatement (plan ! i)) \<and>
          month_index (InStatement (plan ! i)) = max (month_index ?f) (month_index open) + int i"
        using ge f by simp
    qed (simp_all add: plan len amounts)
  qed
qed

text \<open>C23: A placed purchase never touches a closed statement: its installments are numbered in order, add
  up to the purchase and fall one month apart on successive statements, from the later of the
  purchase's own statement and the card's open one.\<close>

theorem placed_from_the_open_statement:
  assumes "in64 tot" "PlaceInstallments tot n d c open = Inr plan" "modern_month (MonthOf d)" "modern_month open"
  shows "sum_list (map InAmount plan) = tot \<and> int (length plan) = n \<and>
    (\<forall>i < length plan. InNumber (plan ! i) = int i + 1 \<and>
       month_index (InStatement (plan ! i)) = max (month_index (StatementFor d c)) (month_index open) + int i)"
proof -
  obtain parts where p: "SplitInstallments tot n = Inr parts" "length plan = length parts" "map InAmount plan = parts"
    "\<And>i. i < length plan \<Longrightarrow> InNumber (plan ! i) = int i + 1 \<and> modern_month (InStatement (plan ! i)) \<and>
       month_index (InStatement (plan ! i)) = max (month_index (StatementFor d c)) (month_index open) + int i"
    using PlaceInstallments_cases [OF assms] by metis
  show ?thesis using p installments_total [OF assms(1) p(1)] by simp
qed

lemma refund_from_filter:
  "refund_from open (credit, removed) plan =
     (fold (\<lambda>i acc. wrap64 (acc + InAmount i)) (filter (\<lambda>i. MonthCompare (InStatement i) open < 0) plan) credit,
      removed @ filter (\<lambda>i. \<not> MonthCompare (InStatement i) open < 0) plan)"
  by (induction plan arbitrary: credit removed) simp_all

lemma fold_wrap_sum:
  "wrap64 (fold (\<lambda>i acc. wrap64 (acc + InAmount i)) xs c) = wrap64 (c + sum_list (map InAmount xs))"
proof (induction xs arbitrary: c)
  case (Cons x xs)
  then show ?case
    by simp (metis add.assoc wrap64_add_left)
qed simp

lemma fold_wrap_in64: "in64 c \<Longrightarrow> in64 (fold (\<lambda>i acc. wrap64 (acc + InAmount i)) xs c)"
  by (induction xs arbitrary: c) simp_all

text \<open>C22: A refund divides a purchase without losing a centavo: what was billed on statements before the
  open one comes back as a credit, and exactly the installments on the open statement or later
  are removed; the two add up to the purchase.\<close>

theorem refund_splits_the_purchase:
  assumes "in64 tot" "PlaceInstallments tot n d c open = Inr plan" "modern_month (MonthOf d)" "modern_month open"
    and "RefundPlan plan open' = (credit, removed)" "modern_month open'"
  shows "credit + sum_list (map InAmount removed) = tot \<and> 0 \<le> credit \<and>
    removed = filter (\<lambda>i. month_index open' \<le> month_index (InStatement i)) plan"
proof -
  obtain parts where p: "SplitInstallments tot n = Inr parts" "length plan = length parts" "map InAmount plan = parts"
    "\<And>i. i < length plan \<Longrightarrow> InNumber (plan ! i) = int i + 1 \<and> modern_month (InStatement (plan ! i)) \<and>
       month_index (InStatement (plan ! i)) = max (month_index (StatementFor d c)) (month_index open) + int i"
    using PlaceInstallments_cases [OF assms(1-4)] by metis
  let ?past = "\<lambda>i. MonthCompare (InStatement i) open' < 0"
  have past: "?past i \<longleftrightarrow> month_index (InStatement i) < month_index open'" if "i \<in> set plan" for i
    using that p(4) MonthCompare_less [OF _ assms(6)] by (metis in_set_conv_nth)
  let ?closed = "filter ?past plan"
  have split: "credit = fold (\<lambda>i acc. wrap64 (acc + InAmount i)) ?closed 0" "removed = filter (\<lambda>i. \<not> ?past i) plan"
    using assms(5) by (simp_all add: RefundPlan_def refund_from_filter)
  have parts: "sum_list parts = tot" "\<forall>x \<in> set parts. 1 \<le> x"
    using installments_total [OF assms(1) p(1)] by simp_all
  have pos: "0 \<le> sum_list (map InAmount (filter P plan))" for P
    using parts(2) p(3) by (intro sum_list_nonneg) force
  have tot: "sum_list (map InAmount ?closed) + sum_list (map InAmount removed) = tot"
    using sum_list_partition [of InAmount ?past plan] by (simp add: split(2) p(3) parts(1))
  then have "in64 (sum_list (map InAmount ?closed))"
    using assms(1) pos [of ?past] pos [of "\<lambda>i. \<not> ?past i"] by (simp add: in64_def split(2))
  then have "credit = sum_list (map InAmount ?closed)"
    using fold_wrap_sum [of ?closed 0] fold_wrap_in64 [of 0 ?closed] by (simp add: split(1) wrap64_id)
  moreover have "removed = filter (\<lambda>i. month_index open' \<le> month_index (InStatement i)) plan"
    unfolding split(2) by (rule filter_cong) (auto simp: past)
  ultimately show ?thesis using tot pos [of ?past] by simp
qed


lemma a_placed_purchase:
  obtains plan where "PlaceInstallments 10000 3 (mk_date 2026 2 5) 10 (mk_month 2026 4) = Inr plan"
    "modern_month (MonthOf (mk_date 2026 2 5))" "modern_month (mk_month 2026 4)" "in64 10000"
proof -
  have s: "SplitInstallments 10000 3 = Inr [3334, 3333, 3333]" by code_simp
  have "\<exists>plan. PlaceInstallments 10000 3 (mk_date 2026 2 5) 10 (mk_month 2026 4) = Inr plan"
    by (simp add: PlaceInstallments_def AllocateInstallments_def s Let_def)
  then show ?thesis using that by (auto simp: modern_month_2020 MonthOf_def in64_def)
qed

theorem placed_from_the_open_statement_witness:
  "\<exists>plan. PlaceInstallments 10000 3 (mk_date 2026 2 5) 10 (mk_month 2026 4) = Inr plan \<and>
     sum_list (map InAmount plan) = 10000 \<and> int (length plan) = 3"
proof -
  obtain plan where p: "PlaceInstallments 10000 3 (mk_date 2026 2 5) 10 (mk_month 2026 4) = Inr plan"
    "modern_month (MonthOf (mk_date 2026 2 5))" "modern_month (mk_month 2026 4)" "in64 10000"
    by (rule a_placed_purchase)
  show ?thesis using placed_from_the_open_statement [OF p(4,1,2,3)] p(1) by blast
qed

theorem refund_splits_the_purchase_witness:
  "\<exists>plan credit removed. RefundPlan plan (mk_month 2026 5) = (credit, removed) \<and>
     PlaceInstallments 10000 3 (mk_date 2026 2 5) 10 (mk_month 2026 4) = Inr plan \<and>
     credit + sum_list (map InAmount removed) = 10000"
proof -
  obtain plan where p: "PlaceInstallments 10000 3 (mk_date 2026 2 5) 10 (mk_month 2026 4) = Inr plan"
    "modern_month (MonthOf (mk_date 2026 2 5))" "modern_month (mk_month 2026 4)" "in64 10000"
    by (rule a_placed_purchase)
  obtain credit removed where r: "RefundPlan plan (mk_month 2026 5) = (credit, removed)" by fastforce
  show ?thesis
    using refund_splits_the_purchase [OF p(4,1,2,3) r] modern_month_2020 [of 2026 5] p(1) r by auto
qed

end
