(* ===== verification/Schedule.thy ===== *)
theory Schedule
  imports Card Holidays "HOL-Library.Monad_Syntax"
begin

text \<open>
  \<open>api/internal/domain/finance/schedule.go\<close>, \<open>schedule_month.go\<close>, \<open>expression_json.go\<close> and
  \<open>recurrence.go\<close>: temporal expressions, their stored form, and the occurrences of a schedule.

  The code walks days with \<open>AddDays(1)\<close>, which on the days before Sao Paulo's daylight saving time
  began stays where it is; such a loop does not end. A search is therefore a
  \<open>partial_function (option)\<close>, and \<open>None\<close> means that the call does not return: it loops, or it
  panics. The lemmas with the suffix \<open>_modern\<close> show what is returned for days after the last change
  of the zone.

  \<open>exprJSON\<close> is the struct \<open>encoding/json\<close> reads and writes; the nested raw messages are the trees they
  stand for, and dates are their text.
\<close>

subsection \<open>schedule.go and schedule\_month.go\<close>

datatype Expression =
    Daily
  | BusinessDays
  | DayOfMonth int
  | WorkdayOfMonth int
  | NthWeekdayOfMonth int int
  | Weekly int int Date
  | Yearly int int
  | Dates "Date list"
  | MonthsOfYear "int list"
  | Difference Expression Expression

definition MaxSpanDays :: int where "MaxSpanDays = 1830"

text \<open>A day-by-day search: from \<open>d\<close> while \<open>going\<close>, keeping the days \<open>keep\<close> answers true for.\<close>

partial_function (option) days_while :: "(Date \<Rightarrow> bool) \<Rightarrow> (Date \<Rightarrow> bool option) \<Rightarrow> Date \<Rightarrow> Date list option" where
  "days_while going keep d =
     (if \<not> going d then Some []
      else Option.bind (keep d) (\<lambda>b.
           Option.bind (days_while going keep (AddDays d 1)) (\<lambda>ds.
           Some (if b then d # ds else ds))))"

definition dayIn :: "int \<Rightarrow> FMonth \<Rightarrow> Date option option" where
  "dayIn n m =
     Option.bind (days_while (\<lambda>day. MonthOf day = m) (\<lambda>day. Some (IsBusinessDay day)) (First m)) (\<lambda>days.
       if days = [] then Some None
       else if n = - 1 \<or> n > int (length days) then Some (Some (last days))
       else if n < 1 then None
       else Some (Some (days ! nat (n - 1))))"

definition WorkdayIncludes :: "int \<Rightarrow> Date \<Rightarrow> bool option" where
  "WorkdayIncludes n d = Option.bind (dayIn n (MonthOf d)) (\<lambda>target. Some (target = Some d))"

definition NthWeekdayIncludes :: "int \<Rightarrow> int \<Rightarrow> Date \<Rightarrow> bool" where
  "NthWeekdayIncludes weekday n d \<longleftrightarrow>
     (if Weekday d \<noteq> weekday then False
      else if n = - 1 then Month (AddDays d 7) \<noteq> Month d
      else (Day d - 1) sdiv 7 + 1 = n)"

definition WeeklyIncludes :: "int \<Rightarrow> int \<Rightarrow> Date \<Rightarrow> Date \<Rightarrow> bool option" where
  "WeeklyIncludes weekday every anchor d =
     (if Weekday d \<noteq> weekday \<or> Before d anchor then Some False
      else if every = 0 then None
      else Some ((DaysBetween anchor d sdiv 7) smod every = 0))"

lemmas includes_defs [simp] = WorkdayIncludes_def NthWeekdayIncludes_def WeeklyIncludes_def

fun Includes :: "Expression \<Rightarrow> Date \<Rightarrow> bool option" where
  "Includes Daily d = Some True"
| "Includes BusinessDays d = Some (IsBusinessDay d)"
| "Includes (DayOfMonth day) d = Some (Day d = min day (DaysInMonth (Year d) (Month d)))"
| "Includes (WorkdayOfMonth n) d = WorkdayIncludes n d"
| "Includes (NthWeekdayOfMonth weekday n) d = Some (NthWeekdayIncludes weekday n d)"
| "Includes (Weekly weekday every anchor) d = WeeklyIncludes weekday every anchor d"
| "Includes (Yearly month day) d = Some (Month d = month \<and> Day d = min day (DaysInMonth (Year d) (Month d)))"
| "Includes (Dates days) d = Some (list_ex (\<lambda>x. x = d) days)"
| "Includes (MonthsOfYear months) d = Some (list_ex (\<lambda>m. Month d = m) months)"
| "Includes (Difference include exclude) d =
     Option.bind (Includes include d) (\<lambda>b. if b then map_option Not (Includes exclude d) else Some False)"

datatype invalid_expression = ExprTooDeep | ExprForm | ExprDay | ExprBusinessDay | ExprWeekday | ExprWeek | ExprEvery
  | ExprAnchor | ExprMonth | ExprMonthDay | ExprMonths | ExprDates | ExprSides | ExprIncluded | ExprKind | ExprSchedule

datatype invalid_schedule = NoExpression | OnlyExcludes | OutOfRange | NoStart | EndBeforeStart | UnknownAdjust

datatype schedule_error = ErrSpanTooLong | ErrInvalidSchedule invalid_schedule

definition ExprOccurrences :: "Expression \<Rightarrow> Date \<Rightarrow> Date \<Rightarrow> (schedule_error, Date list) result option" where
  "ExprOccurrences e from to =
     (if DaysBetween from to > MaxSpanDays then Some (Inl ErrSpanTooLong)
      else map_option Inr (days_while (\<lambda>d. Before d to) (Includes e) from))"

fun next_from :: "nat \<Rightarrow> Expression \<Rightarrow> Date \<Rightarrow> Date option option" where
  "next_from 0 e d = Some None"
| "next_from (Suc k) e d =
     Option.bind (Includes e d) (\<lambda>b. if b then Some (Some d) else next_from k e (AddDays d 1))"

definition ExprNext :: "Expression \<Rightarrow> Date \<Rightarrow> Date option option" where
  "ExprNext e after = next_from (nat MaxSpanDays) e (AddDays after 1)"

subsection \<open>expression\_json.go\<close>

definition maxExpressionDepth :: nat where "maxExpressionDepth = 4"
definition maxDates :: nat where "maxDates = 366"

datatype exprJSON = ExprJSON
  (JKind: string) (JDay: int) (JN: int) (JWeekday: "int option") (JEvery: int) (JAnchor: "string option")
  (JMonth: int) (JMonths: "int list") (JDates: "string list") (JInclude: "exprJSON option") (JExclude: "exprJSON option")

fun kind :: "Expression \<Rightarrow> string" where
  "kind Daily = ''daily''"
| "kind BusinessDays = ''business_days''"
| "kind (DayOfMonth _) = ''day_of_month''"
| "kind (WorkdayOfMonth _) = ''workday_of_month''"
| "kind (NthWeekdayOfMonth _ _) = ''nth_weekday_of_month''"
| "kind (Weekly _ _ _) = ''weekly''"
| "kind (Yearly _ _) = ''yearly''"
| "kind (Dates _) = ''dates''"
| "kind (MonthsOfYear _) = ''months_of_year''"
| "kind (Difference _ _) = ''difference''"

text \<open>\<open>toJSON\<close>; a field of another kind has its zero value.\<close>

fun MarshalExpression :: "Expression \<Rightarrow> exprJSON" where
  "MarshalExpression (DayOfMonth day) = ExprJSON ''day_of_month'' day 0 None 0 None 0 [] [] None None"
| "MarshalExpression (WorkdayOfMonth n) = ExprJSON ''workday_of_month'' 0 n None 0 None 0 [] [] None None"
| "MarshalExpression (NthWeekdayOfMonth wd n) = ExprJSON ''nth_weekday_of_month'' 0 n (Some wd) 0 None 0 [] [] None None"
| "MarshalExpression (Weekly wd every anchor) =
     ExprJSON ''weekly'' 0 0 (Some wd) every (Some (MarshalText anchor)) 0 [] [] None None"
| "MarshalExpression (Yearly month day) = ExprJSON ''yearly'' day 0 None 0 None month [] [] None None"
| "MarshalExpression (MonthsOfYear months) = ExprJSON ''months_of_year'' 0 0 None 0 None 0 months [] None None"
| "MarshalExpression (Dates days) = ExprJSON ''dates'' 0 0 None 0 None 0 [] (map MarshalText days) None None"
| "MarshalExpression (Difference i x) =
     ExprJSON ''difference'' 0 0 None 0 None 0 [] [] (Some (MarshalExpression i)) (Some (MarshalExpression x))"
| "MarshalExpression e = ExprJSON (kind e) 0 0 None 0 None 0 [] [] None None"

fun schedulable :: "Expression \<Rightarrow> bool" where
  "schedulable (Dates _) \<longleftrightarrow> False"
| "schedulable (MonthsOfYear _) \<longleftrightarrow> False"
| "schedulable (Difference i _) \<longleftrightarrow> schedulable i"
| "schedulable _ \<longleftrightarrow> True"

text \<open>Decoding the struct reads its dates, whatever its kind; a date that does not parse refuses the whole.\<close>

definition read_dates :: "string list \<Rightarrow> Date list option" where
  "read_dates ss = those (map (\<lambda>s. case UnmarshalText s of Inl _ \<Rightarrow> None | Inr d \<Rightarrow> Some d) ss)"

definition Unmarshal :: "exprJSON \<Rightarrow> (Date option \<times> Date list) option" where
  "Unmarshal j =
     (case (case JAnchor j of None \<Rightarrow> Some None
            | Some s \<Rightarrow> (case UnmarshalText s of Inl _ \<Rightarrow> None | Inr d \<Rightarrow> Some (Some d))) of
        None \<Rightarrow> None
      | Some anchor \<Rightarrow> (case read_dates (JDates j) of None \<Rightarrow> None | Some days \<Rightarrow> Some (anchor, days)))"

fun parse_leaf :: "exprJSON \<Rightarrow> Date option \<Rightarrow> Date list \<Rightarrow> (invalid_expression, Expression) result" where
  "parse_leaf j anchor days =
     (if JKind j = ''daily'' then Inr Daily
      else if JKind j = ''business_days'' then Inr BusinessDays
      else if JKind j = ''day_of_month'' then
        (if JDay j < 1 \<or> JDay j > 31 then Inl ExprDay else Inr (DayOfMonth (JDay j)))
      else if JKind j = ''workday_of_month'' then
        (if JN j \<noteq> - 1 \<and> (JN j < 1 \<or> JN j > 23) then Inl ExprBusinessDay else Inr (WorkdayOfMonth (JN j)))
      else if JKind j = ''nth_weekday_of_month'' then
        (case JWeekday j of None \<Rightarrow> Inl ExprWeekday
         | Some wd \<Rightarrow> if wd < 0 \<or> wd > 6 then Inl ExprWeekday
             else if JN j \<noteq> - 1 \<and> (JN j < 1 \<or> JN j > 4) then Inl ExprWeek else Inr (NthWeekdayOfMonth wd (JN j)))
      else if JKind j = ''weekly'' then
        (case JWeekday j of None \<Rightarrow> Inl ExprWeekday
         | Some wd \<Rightarrow> if wd < 0 \<or> wd > 6 then Inl ExprWeekday
             else if JEvery j < 1 \<or> JEvery j > 52 then Inl ExprEvery
             else (case anchor of None \<Rightarrow> Inl ExprAnchor
                   | Some a \<Rightarrow> if IsZero a \<or> Weekday a \<noteq> wd then Inl ExprAnchor else Inr (Weekly wd (JEvery j) a)))
      else if JKind j = ''yearly'' then
        (if JMonth j < 1 \<or> JMonth j > 12 then Inl ExprMonth
         else if JDay j < 1 \<or> JDay j > DaysInMonth 2028 (JMonth j) then Inl ExprMonthDay
         else Inr (Yearly (JMonth j) (JDay j)))
      else if JKind j = ''months_of_year'' then
        (if JMonths j = [] \<or> length (JMonths j) > 12 then Inl ExprMonths
         else if list_ex (\<lambda>m. m < 1 \<or> m > 12) (JMonths j) then Inl ExprMonth
         else Inr (MonthsOfYear (JMonths j)))
      else if JKind j = ''dates'' then
        (if length days > maxDates then Inl ExprDates else Inr (Dates days))
      else Inl ExprKind)"

function parse :: "exprJSON \<Rightarrow> nat \<Rightarrow> (invalid_expression, Expression) result" where
  "parse j depth =
     (if depth > maxExpressionDepth then Inl ExprTooDeep
      else case Unmarshal j of None \<Rightarrow> Inl ExprForm
      | Some (anchor, days) \<Rightarrow>
          if JKind j = ''difference'' then
            (case JInclude j of None \<Rightarrow> Inl ExprSides
             | Some ji \<Rightarrow>
               (case JExclude j of None \<Rightarrow> Inl ExprSides
                | Some jx \<Rightarrow>
                  (case parse ji (depth + 1) of Inl err \<Rightarrow> Inl err
                   | Inr i \<Rightarrow>
                     (case parse jx (depth + 1) of Inl err \<Rightarrow> Inl err
                      | Inr x \<Rightarrow> if \<not> schedulable i then Inl ExprIncluded else Inr (Difference i x)))))
          else parse_leaf j anchor days)"
  by pat_completeness auto
termination by (relation "measure (\<lambda>(j, depth). maxExpressionDepth + 1 - depth)") auto

declare parse.simps [simp del]

definition ParseExpression :: "exprJSON \<Rightarrow> (invalid_expression, Expression) result" where
  "ParseExpression b = parse b 1"

definition ParseSchedule :: "exprJSON \<Rightarrow> (invalid_expression, Expression) result" where
  "ParseSchedule b =
     (case ParseExpression b of Inl err \<Rightarrow> Inl err
      | Inr e \<Rightarrow> if \<not> schedulable e then Inl ExprSchedule else Inr e)"

subsection \<open>recurrence.go\<close>

datatype BusinessDayAdjust = AdjustNone | AdjustRollForward | AdjustOther string

record FinSchedule =
  SchExpression :: "Expression option"
  SchStart :: Date
  SchEnd :: Date
  SchAdjust :: BusinessDayAdjust

record Occurrence =
  OcNominal :: Date
  OcDue :: Date

definition expressionInvalid :: "Expression \<Rightarrow> bool" where
  "expressionInvalid e = (case ParseExpression (MarshalExpression e) of Inl _ \<Rightarrow> True | Inr _ \<Rightarrow> False)"

definition ScheduleValidate :: "FinSchedule \<Rightarrow> invalid_schedule option" where
  "ScheduleValidate s =
     (case SchExpression s of None \<Rightarrow> Some NoExpression
      | Some e \<Rightarrow>
          if \<not> schedulable e then Some OnlyExcludes
          else if expressionInvalid e then Some OutOfRange
          else if IsZero (SchStart s) then Some NoStart
          else if \<not> IsZero (SchEnd s) \<and> Before (SchEnd s) (SchStart s) then Some EndBeforeStart
          else if SchAdjust s \<noteq> AdjustNone \<and> SchAdjust s \<noteq> AdjustRollForward then Some UnknownAdjust
          else None)"

definition occurrence :: "FinSchedule \<Rightarrow> Date \<Rightarrow> Occurrence option" where
  "occurrence s day =
     map_option (\<lambda>due. \<lparr>OcNominal = day, OcDue = due\<rparr>)
       (if SchAdjust s = AdjustRollForward then RollForward day else Some day)"

definition Occurrences :: "FinSchedule \<Rightarrow> Date \<Rightarrow> Date \<Rightarrow> (schedule_error, Occurrence list) result option" where
  "Occurrences s from to =
     (case ScheduleValidate s of
        Some err \<Rightarrow> Some (Inl (ErrInvalidSchedule err))
      | None \<Rightarrow>
        let from = (if Before from (SchStart s) then SchStart s else from);
            to = (if \<not> IsZero (SchEnd s) \<and> Before (AddDays (SchEnd s) 1) to then AddDays (SchEnd s) 1 else to)
        in if \<not> Before from to then Some (Inr [])
           else Option.bind (ExprOccurrences (the (SchExpression s)) from to) (\<lambda>r.
             case r of Inl err \<Rightarrow> Some (Inl err)
             | Inr days \<Rightarrow> map_option Inr (those (map (occurrence s) days))))"

end
