(* ===== verification/ScheduleProps.thy ===== *)
theory ScheduleProps
  imports Schedule
begin

text \<open>
  What a schedule promises: its occurrences are exactly the days of the window its expression
  includes, in order; a monthly rule fires once in every month; the stored form of an expression
  reads back as it was; and the days on which the search does not end.
\<close>

subsection \<open>Searches\<close>

lemma days_while_modern:
  assumes "first_modern_day \<le> n" "n \<le> m" "\<not> going (civil m)"
    and "\<And>k. n \<le> k \<Longrightarrow> k < m \<Longrightarrow> going (civil k) \<and> keep (civil k) = Some (p (civil k))"
  shows "days_while going keep (civil n) = Some (filter p (map civil [n..m - 1]))"
  using assms
proof (induction "nat (m - n)" arbitrary: n)
  case 0
  then show ?case by (simp add: days_while.simps)
next
  case (Suc x)
  then have lt: "n < m" by simp
  have step: "AddDays (civil n) 1 = civil (n + 1)" using Suc.prems(1) by (simp add: AddDays_nonneg)
  have "days_while going keep (civil (n + 1)) = Some (filter p (map civil [n + 1..m - 1]))"
    by (rule Suc.hyps(1)) (use Suc.hyps(2) Suc.prems lt in simp_all)
  moreover have "[n..m - 1] = n # [n + 1..m - 1]" using lt by (simp add: upto_rec1)
  ultimately show ?case using Suc.prems(4) [of n] lt by (subst days_while.simps) (simp add: step)
qed

text \<open>A loop that stands still does not return.\<close>

lemma days_while_stuck:
  assumes "going d" "AddDays d 1 = d"
  shows "days_while going keep d = None"
proof -
  have "\<not> (g d \<and> AddDays d 1 = d)" if "days_while g keep d = Some ds" for g keep d ds
    by (rule days_while.raw_induct [where P = "\<lambda>g keep d ds. \<not> (g d \<and> AddDays d 1 = d)", OF _ that])
      (auto split: if_splits simp: Option.bind_eq_Some_conv)
  then show ?thesis using assms by (metis not_None_eq)
qed

lemma days_while_step: "going d \<Longrightarrow> days_while going keep (AddDays d 1) = None \<Longrightarrow> days_while going keep d = None"
  by (subst days_while.simps) (auto simp: Option.bind_eq_None_conv)

subsection \<open>Days whose month the time zone does not disturb\<close>

definition first_plain_day :: int where
  "first_plain_day = 17956"

lemma plain_modern: "first_plain_day \<le> n \<Longrightarrow> first_modern_day \<le> n"
  by (simp add: first_plain_day_def first_modern_day_def)

lemma day_number_first_plain: "day_number (mk_date 2019 3 1) = first_plain_day"
  by code_simp

lemma plain_month: "first_plain_day \<le> n \<Longrightarrow> modern_month (MonthOf (civil n))"
proof -
  assume n: "first_plain_day \<le> n"
  have v: "valid_date (mk_date 2019 3 1)" by (simp add: valid_date_def month_length_def)
  have "mk_date 2019 3 1 \<le> civil n"
    using day_number_le_iff [OF v valid_civil] n by (simp add: day_number_first_plain)
  moreover have b: "1 \<le> Month (civil n)" "Month (civil n) \<le> 12" "1 \<le> Day (civil n)"
    using valid_civil [of n] by (simp_all only: valid_date_def)
  moreover have "valid_date (mk_date (Year (civil n)) (Month (civil n)) 1)"
    using b month_length_pos [of "Year (civil n)" "Month (civil n)"] by (simp add: valid_date_def)
  moreover have "modern (mk_date 2019 3 1)"
    using v by (simp add: modern_def day_number_first_plain first_plain_day_def first_modern_day_def)
  moreover have "mk_date 2019 3 1 \<le> mk_date (Year (civil n)) (Month (civil n)) 1"
    using calculation(1,4) by (cases "civil n") (auto simp: less_eq_Date_def less_Date_def)
  ultimately show ?thesis
    unfolding modern_month_def MonthOf_def using modern_mono by simp
qed

text \<open>The days of a month are consecutive day numbers.\<close>

definition month_start :: "FMonth \<Rightarrow> int" where
  "month_start m = day_number (mk_date (MYear m) (MMonth m) 1)"

definition month_days :: "FMonth \<Rightarrow> int" where
  "month_days m = month_length (MYear m) (MMonth m)"

lemma month_days_bounds: "28 \<le> month_days m" "month_days m \<le> 31"
  by (simp_all add: month_days_def month_length_pos month_length_le)

lemma civil_in_month:
  assumes "modern_month m" "0 \<le> i" "i < month_days m"
  shows "civil (month_start m + i) = mk_date (MYear m) (MMonth m) (i + 1)"
proof -
  have "valid_date (mk_date (MYear m) (MMonth m) 1)" using assms(1) by (simp add: modern_month_def modern_def)
  then show ?thesis
    using civil_same_month [of "mk_date (MYear m) (MMonth m) 1" i] assms by (simp add: month_start_def month_days_def)
qed

lemma MonthOf_start: "modern_month m \<Longrightarrow> civil (month_start m) = First m"
  using civil_in_month [of m 0] month_days_bounds [of m] by (simp add: First_modern)

lemma month_start_modern: "modern_month m \<Longrightarrow> first_modern_day \<le> month_start m"
  by (simp add: month_start_def modern_month_def modern_day)

text \<open>Where a day lies in its month.\<close>

lemma day_of_month_number:
  assumes "valid_date d" "MonthOf d = m"
  shows "day_number d = month_start m + Day d - 1" "1 \<le> Day d" "Day d \<le> month_days m"
  using assms month_length_pos [of "Year d" "Month d"]
  by (auto simp: MonthOf_def month_start_def month_days_def valid_date_def day_number_valid)

lemma MonthOf_civil_iff:
  assumes "modern_month m"
  shows "MonthOf (civil n) = m \<longleftrightarrow> month_start m \<le> n \<and> n < month_start m + month_days m"
proof
  assume "MonthOf (civil n) = m"
  then show "month_start m \<le> n \<and> n < month_start m + month_days m"
    using day_of_month_number [of "civil n" m] by simp
next
  assume "month_start m \<le> n \<and> n < month_start m + month_days m"
  then show "MonthOf (civil n) = m"
    using civil_in_month [OF assms, of "n - month_start m"] by (simp add: MonthOf_def)
qed

subsection \<open>What an expression includes\<close>

text \<open>An expression whose parameters the parser accepts never divides by zero and never reads past a list.\<close>

fun wf_expr :: "Expression \<Rightarrow> bool" where
  "wf_expr (WorkdayOfMonth n) \<longleftrightarrow> n = - 1 \<or> 1 \<le> n"
| "wf_expr (Weekly wd every anchor) \<longleftrightarrow> every \<noteq> 0"
| "wf_expr (Difference i x) \<longleftrightarrow> wf_expr i \<and> wf_expr x"
| "wf_expr _ \<longleftrightarrow> True"

definition business_days :: "FMonth \<Rightarrow> Date list" where
  "business_days m = filter IsBusinessDay (map civil [month_start m..month_start m + month_days m - 1])"

lemma business_days_nonempty: "modern_month m \<Longrightarrow> business_days m \<noteq> []"
proof -
  assume m: "modern_month m"
  obtain i where "0 \<le> i" "i \<le> 10" "IsBusinessDay (civil (month_start m + i))"
    using week_has_business_day [OF month_start_modern [OF m]] by blast
  then have "civil (month_start m + i) \<in> set (business_days m)"
    using month_days_bounds [of m] by (auto simp: business_days_def)
  then show ?thesis by auto
qed

definition nth_workday :: "int \<Rightarrow> FMonth \<Rightarrow> Date" where
  "nth_workday n m =
     (if n = - 1 \<or> n > int (length (business_days m)) then last (business_days m) else business_days m ! nat (n - 1))"

lemma dayIn_modern:
  assumes "modern_month m" "n = - 1 \<or> 1 \<le> n"
  shows "dayIn n m = Some (Some (nth_workday n m))"
proof -
  have "days_while (\<lambda>day. MonthOf day = m) (\<lambda>day. Some (IsBusinessDay day)) (civil (month_start m)) =
      Some (filter IsBusinessDay (map civil [month_start m..month_start m + month_days m - 1]))"
    by (rule days_while_modern)
      (use assms(1) month_start_modern month_days_bounds [of m] in \<open>simp_all add: MonthOf_civil_iff\<close>)
  then show ?thesis
    using assms business_days_nonempty [OF assms(1)]
    by (auto simp: dayIn_def MonthOf_start business_days_def nth_workday_def)
qed

definition included :: "Expression \<Rightarrow> Date \<Rightarrow> bool" where
  "included e d \<longleftrightarrow> Includes e d = Some True"

lemma Includes_returns: "wf_expr e \<Longrightarrow> modern_month (MonthOf d) \<Longrightarrow> Includes e d \<noteq> None"
  by (induction e) (auto simp: dayIn_modern)

lemma Includes_modern: "wf_expr e \<Longrightarrow> modern_month (MonthOf d) \<Longrightarrow> Includes e d = Some (included e d)"
  using Includes_returns [of e d] by (auto simp: included_def)

text \<open>The days from number \<open>a\<close> up to but not including \<open>b\<close> that an expression includes.\<close>

definition days_in :: "Expression \<Rightarrow> int \<Rightarrow> int \<Rightarrow> Date list" where
  "days_in e a b = filter (included e) (map civil [a..b - 1])"

lemma days_in_empty [simp]: "b \<le> a \<Longrightarrow> days_in e a b = []"
  by (simp add: days_in_def)

lemma days_in_append: "a \<le> b \<Longrightarrow> b \<le> c \<Longrightarrow> days_in e a b @ days_in e b c = days_in e a c"
  using upto_split1 [of a b "c - 1"] upto_split2 [of a b "c - 1"] 
  by (cases "b = c") (simp_all add: days_in_def flip: filter_append map_append)

lemma set_days_in: "d \<in> set (days_in e a b) \<longleftrightarrow> included e d \<and> (\<exists>n. d = civil n \<and> a \<le> n \<and> n < b)"
  by (auto simp: days_in_def)

lemma sorted_days_in: "sorted_wrt (<) (days_in e a b)"
  unfolding days_in_def
  by (rule sorted_wrt_filter) (simp add: sorted_wrt_map sorted_wrt_upto)

lemma days_while_includes:
  assumes "wf_expr e" "first_plain_day \<le> a" "valid_date to"
  shows "days_while (\<lambda>d. Before d to) (Includes e) (civil a) = Some (days_in e a (day_number to))"
proof (cases "a \<le> day_number to")
  case True
  have to: "to = civil (day_number to)" using assms(3) by (simp add: civil_day_number)
  show ?thesis unfolding days_in_def
  proof (rule days_while_modern)
    show "\<not> Before (civil (day_number to)) to" using to by simp
    fix k assume k: "a \<le> k" "k < day_number to"
    have "Before (civil k) to" using k(2) by (subst to) simp
    then show "Before (civil k) to \<and> Includes e (civil k) = Some (included e (civil k))"
      using Includes_modern [OF assms(1) plain_month] k(1) assms(2) by simp
  qed (use True assms(2) plain_modern in auto)
next
  case False
  have to: "to = civil (day_number to)" using assms(3) by (simp add: civil_day_number)
  have "\<not> Before (civil a) to" using False by (subst to) simp
  then show ?thesis using False by (subst days_while.simps) simp
qed

subsection \<open>Occurrences\<close>

definition plain :: "Date \<Rightarrow> bool" where
  "plain d \<longleftrightarrow> valid_date d \<and> first_plain_day \<le> day_number d"

lemma plain_civil: "plain d \<Longrightarrow> civil (day_number d) = d"
  by (simp add: plain_def civil_day_number)

lemma plain_is_modern: "plain d \<Longrightarrow> modern d"
  using plain_modern by (simp add: plain_def modern_def)

lemma plain_mono: "plain d \<Longrightarrow> valid_date e \<Longrightarrow> d \<le> e \<Longrightarrow> plain e"
  using day_number_le_iff [of d e] by (simp add: plain_def)

lemma plain_of_civil [simp]: "plain (civil n) \<longleftrightarrow> first_plain_day \<le> n"
  by (simp add: plain_def)

lemma plain_2020: "valid_date d \<Longrightarrow> 2020 \<le> Year d \<Longrightarrow> plain d"
proof -
  assume v: "valid_date d" and y: "2020 \<le> Year d"
  have "valid_date (mk_date 2019 3 1)" by (simp add: valid_date_def month_length_def)
  moreover have "mk_date 2019 3 1 \<le> d" using y by (simp add: less_eq_Date_def less_Date_def)
  ultimately show ?thesis using v plain_mono [of "mk_date 2019 3 1" d]
    by (simp add: plain_def day_number_first_plain)
qed

text \<open>A schedule the code validates, whose dates the time zone does not disturb.\<close>

definition schedule_ok :: "FinSchedule \<Rightarrow> bool" where
  "schedule_ok s \<longleftrightarrow> ScheduleValidate s = None \<and> plain (SchStart s) \<and> (IsZero (SchEnd s) \<or> valid_date (SchEnd s))"

definition sched_expr :: "FinSchedule \<Rightarrow> Expression" where
  "sched_expr s = the (SchExpression s)"

lemma accepted_wf: "expressionInvalid e \<or> wf_expr e"
proof -
  have "wf_expr e" if "parse (MarshalExpression e) depth = Inr e'" for depth e'
    using that
  proof (induction e arbitrary: depth e')
    case (Difference i x)
    from Difference.prems obtain i' x' where
      "parse (MarshalExpression i) (depth + 1) = Inr i'" "parse (MarshalExpression x) (depth + 1) = Inr x'"
      by (subst (asm) parse.simps) (auto simp: Unmarshal_def read_dates_def split: if_splits sum.splits)
    then show ?case using Difference.IH by simp
  qed (auto simp: parse.simps Unmarshal_def read_dates_def split: if_splits sum.splits option.splits)
  then show ?thesis by (auto simp: expressionInvalid_def ParseExpression_def split: sum.splits)
qed

lemma schedule_ok_expr: "schedule_ok s \<Longrightarrow> SchExpression s = Some (sched_expr s) \<and> wf_expr (sched_expr s)"
  using accepted_wf by (auto simp: schedule_ok_def ScheduleValidate_def sched_expr_def split: option.splits if_splits)

lemma schedule_ok_end:
  "schedule_ok s \<Longrightarrow> \<not> IsZero (SchEnd s) \<Longrightarrow> SchStart s \<le> SchEnd s \<and> plain (SchEnd s)"
  using plain_mono by (auto simp: schedule_ok_def ScheduleValidate_def split: option.splits if_splits)


definition occ :: "FinSchedule \<Rightarrow> Date \<Rightarrow> Occurrence" where
  "occ s day = \<lparr>OcNominal = day, OcDue = (if SchAdjust s = AdjustRollForward then the (RollForward day) else day)\<rparr>"

lemma occurrence_modern: "modern day \<Longrightarrow> occurrence s day = Some (occ s day)"
  by (rule RollForward_spec [of day]) (auto simp: occurrence_def occ_def)

lemma those_total: "(\<And>x. x \<in> set xs \<Longrightarrow> f x = Some (g x)) \<Longrightarrow> those (map f xs) = Some (map g xs)"
  by (induction xs) simp_all

text \<open>The window of a schedule, clipped to its start and end.\<close>

definition window :: "FinSchedule \<Rightarrow> int \<Rightarrow> int \<Rightarrow> Date list" where
  "window s a b =
     days_in (sched_expr s) (max a (day_number (SchStart s)))
       (if IsZero (SchEnd s) then b else min b (day_number (SchEnd s) + 1))"

lemma window_empty [simp]: "b \<le> a \<Longrightarrow> window s a b = []"
  by (simp add: window_def)

lemma set_window:
  "d \<in> set (window s a b) \<longleftrightarrow> included (sched_expr s) d \<and> (\<exists>n. d = civil n \<and> a \<le> n \<and> n < b \<and>
     day_number (SchStart s) \<le> n \<and> (IsZero (SchEnd s) \<or> n \<le> day_number (SchEnd s)))"
  by (auto simp: window_def set_days_in)

lemma sorted_window: "sorted_wrt (<) (window s a b)"
  by (simp add: window_def sorted_days_in)

lemma window_append:
  assumes "a \<le> b" "b \<le> c"
  shows "window s a b @ window s b c = window s a c"
proof (rule strict_sorted_equal)
  show "sorted_wrt (<) (window s a b @ window s b c)"
    by (auto simp: sorted_wrt_append sorted_window set_window)
  have "a \<le> n \<and> n < c \<longleftrightarrow> a \<le> n \<and> n < b \<or> b \<le> n \<and> n < c" for n using assms by linarith
  then show "set (window s a b @ window s b c) = set (window s a c)"
    by (fastforce simp: set_window)
qed (rule sorted_window)

lemma window_modern: "schedule_ok s \<Longrightarrow> d \<in> set (window s a b) \<Longrightarrow> plain d"
  by (auto simp: set_window schedule_ok_def plain_def)

lemma Occurrences_window:
  assumes ok: "schedule_ok s" and v: "valid_date from" "valid_date to"
    and span: "day_number to - day_number from \<le> MaxSpanDays"
  shows "Occurrences s from to = Some (Inr (map (occ s) (window s (day_number from) (day_number to))))"
proof -
  let ?e = "sched_expr s"
  define lo where "lo = (if Before from (SchStart s) then SchStart s else from)"
  define hi where "hi = (if \<not> IsZero (SchEnd s) \<and> Before (AddDays (SchEnd s) 1) to then AddDays (SchEnd s) 1 else to)"
  note e = schedule_ok_expr [OF ok]
  have start: "plain (SchStart s)" using ok by (simp add: schedule_ok_def)
  then have vs: "valid_date (SchStart s)" by (simp add: plain_def)
  have lo: "plain lo" "day_number lo = max (day_number from) (day_number (SchStart s))"
    using start v(1) vs plain_mono day_number_less_iff [OF v(1) vs] by (auto simp: lo_def max_def)
  have hi: "valid_date hi \<and> day_number hi =
      (if IsZero (SchEnd s) then day_number to else min (day_number to) (day_number (SchEnd s) + 1))"
  proof (cases "IsZero (SchEnd s)")
    case False
    then have "modern (SchEnd s)" using schedule_ok_end [OF ok] plain_is_modern by blast
    then have add: "AddDays (SchEnd s) 1 = civil (day_number (SchEnd s) + 1)" by (simp add: AddDays_nonneg)
    have less: "civil (day_number (SchEnd s) + 1) < to \<longleftrightarrow> day_number (SchEnd s) + 1 < day_number to"
      using day_number_less_iff [OF valid_civil v(2)] by simp
    show ?thesis using False v(2) by (simp add: hi_def add less)
  qed (simp add: hi_def v(2))
  have valid: "ScheduleValidate s = None" using ok by (simp add: schedule_ok_def)
  have win: "window s (day_number from) (day_number to) = days_in ?e (day_number lo) (day_number hi)"
    by (simp add: window_def lo(2) hi)
  have occ: "Occurrences s from to = (if \<not> Before lo hi then Some (Inr [])
      else Option.bind (ExprOccurrences ?e lo hi) (\<lambda>r. case r of Inl err \<Rightarrow> Some (Inl err)
        | Inr days \<Rightarrow> map_option Inr (those (map (occurrence s) days))))"
    by (simp add: Occurrences_def valid lo_def hi_def sched_expr_def)
  have less: "lo < hi \<longleftrightarrow> day_number lo < day_number hi"
    using day_number_less_iff [of lo hi] lo(1) hi by (auto simp: plain_def)
  show ?thesis
  proof (cases "lo < hi")
    case False
    then show ?thesis by (simp add: occ win less)
  next
    case True
    have "day_number hi \<le> day_number to" "day_number from \<le> day_number lo" using hi lo by auto
    then have "\<not> DaysBetween lo hi > MaxSpanDays" using span by (auto simp: DaysBetween_def MaxSpanDays_def)
    then have "ExprOccurrences ?e lo hi = Some (Inr (days_in ?e (day_number lo) (day_number hi)))"
      using days_while_includes [of ?e "day_number lo" hi] e lo(1) hi
      by (simp add: ExprOccurrences_def plain_civil) (simp add: plain_def)
    moreover have "those (map (occurrence s) (days_in ?e (day_number lo) (day_number hi))) =
        Some (map (occ s) (days_in ?e (day_number lo) (day_number hi)))"
      using lo(1) by (intro those_total occurrence_modern) (auto simp: set_days_in plain_def plain_modern)
    ultimately show ?thesis using True by (simp add: occ win)
  qed
qed


lemma set_window_dates:
  assumes "schedule_ok s" "valid_date from" "valid_date to"
  shows "d \<in> set (window s (day_number from) (day_number to)) \<longleftrightarrow>
    valid_date d \<and> from \<le> d \<and> d < to \<and> SchStart s \<le> d \<and> (IsZero (SchEnd s) \<or> d \<le> SchEnd s) \<and>
    Includes (the (SchExpression s)) d = Some True"
proof -
  have vs: "valid_date (SchStart s)" using assms(1) by (simp add: schedule_ok_def plain_def)
  have ve: "IsZero (SchEnd s) \<or> valid_date (SchEnd s)" using assms(1) by (simp add: schedule_ok_def)
  have num: "(\<exists>n. d = civil n \<and> P n) \<longleftrightarrow> valid_date d \<and> P (day_number d)" for P
    by (metis civil_day_number day_number_civil valid_civil)
  have "d \<in> set (window s (day_number from) (day_number to)) \<longleftrightarrow> included (sched_expr s) d \<and> valid_date d \<and>
      day_number from \<le> day_number d \<and> day_number d < day_number to \<and> day_number (SchStart s) \<le> day_number d \<and>
      (IsZero (SchEnd s) \<or> day_number d \<le> day_number (SchEnd s))"
    unfolding set_window num by blast
  also have "\<dots> \<longleftrightarrow> valid_date d \<and> from \<le> d \<and> d < to \<and> SchStart s \<le> d \<and> (IsZero (SchEnd s) \<or> d \<le> SchEnd s) \<and>
      included (sched_expr s) d"
    using assms(2,3) vs ve day_number_le_iff day_number_less_iff by metis
  finally show ?thesis by (simp add: included_def sched_expr_def)
qed

text \<open>C16: The occurrences between two days, at most five years apart, of an accepted schedule that starts on 1
  March 2019 or later are exactly the days from the first up to the second, within the schedule's
  own start and end, that its expression includes; they come in order, once each, and each is due on
  its day, or on the first business day from it when the schedule rolls forward. (From a start
  before the last days on which the time zone skips a midnight the walk may never come back.)\<close>

theorem occurrences_exact:
  assumes "schedule_ok s" "valid_date from" "valid_date to" "day_number to - day_number from \<le> MaxSpanDays"
  shows "\<exists>os. Occurrences s from to = Some (Inr os) \<and> sorted_wrt (<) (map OcNominal os) \<and>
    set (map OcNominal os) = {d. valid_date d \<and> from \<le> d \<and> d < to \<and> SchStart s \<le> d \<and>
      (IsZero (SchEnd s) \<or> d \<le> SchEnd s) \<and> Includes (the (SchExpression s)) d = Some True} \<and>
    (\<forall>oc \<in> set os. if SchAdjust s = AdjustRollForward then RollForward (OcNominal oc) = Some (OcDue oc)
       else OcDue oc = OcNominal oc)"
proof (intro exI conjI)
  let ?w = "window s (day_number from) (day_number to)"
  show "Occurrences s from to = Some (Inr (map (occ s) ?w))" using assms by (rule Occurrences_window)
  have nominal: "map OcNominal (map (occ s) ?w) = ?w" by (simp add: comp_def occ_def)
  then show "sorted_wrt (<) (map OcNominal (map (occ s) ?w))" by (simp only: sorted_window)
  have vs: "valid_date (SchStart s)" using assms(1) by (simp add: schedule_ok_def plain_def)
  have ve: "IsZero (SchEnd s) \<or> valid_date (SchEnd s)" using assms(1) by (simp add: schedule_ok_def)
  show "set (map OcNominal (map (occ s) ?w)) = {d. valid_date d \<and> from \<le> d \<and> d < to \<and> SchStart s \<le> d \<and>
      (IsZero (SchEnd s) \<or> d \<le> SchEnd s) \<and> Includes (the (SchExpression s)) d = Some True}"
    unfolding nominal by (auto simp: set_window_dates [OF assms(1-3)])
  show "\<forall>oc \<in> set (map (occ s) ?w). if SchAdjust s = AdjustRollForward then RollForward (OcNominal oc) = Some (OcDue oc)
       else OcDue oc = OcNominal oc"
  proof
    fix oc assume "oc \<in> set (map (occ s) ?w)"
    then obtain d where d: "d \<in> set ?w" "oc = occ s d" by auto
    have "occurrence s d = Some (occ s d)"
      using window_modern [OF assms(1) d(1)] by (intro occurrence_modern plain_is_modern)
    then show "if SchAdjust s = AdjustRollForward then RollForward (OcNominal oc) = Some (OcDue oc)
       else OcDue oc = OcNominal oc"
      by (auto simp: d(2) occ_def occurrence_def split: if_splits)
  qed
qed


subsection \<open>Monthly rules\<close>

lemma month_starts_apart:
  assumes "modern_month m" "modern_month k" "month_index m < month_index k"
  shows "month_start m + month_days m \<le> month_start k"
proof -
  have "First m < First k" by (rule date_less_month) (use assms in simp_all)
  then have "month_start m < month_start k" using assms MonthOf_start civil_less_iff by metis
  moreover have "MonthOf (civil (month_start k)) \<noteq> m"
    using assms(2,3) by (auto simp: MonthOf_start)
  ultimately show ?thesis using MonthOf_civil_iff [OF assms(1)] by force
qed

text \<open>A week after a day of the last week of a month is in the next month.\<close>

lemma week_later_month:
  assumes "modern_month m" "MonthOf (civil n) = m"
  shows "Month (civil (n + 7)) = Month (civil n) \<longleftrightarrow> n + 7 < month_start m + month_days m"
proof -
  have n: "month_start m \<le> n" "n < month_start m + month_days m" using assms MonthOf_civil_iff by blast+
  show ?thesis
  proof (cases "n + 7 < month_start m + month_days m")
    case True
    then have "MonthOf (civil (n + 7)) = m" using MonthOf_civil_iff [OF assms(1)] n by simp
    then show ?thesis using True assms(2) by (auto simp: MonthOf_def)
  next
    case False
    define k where "k = MonthOf (civil (n + 7))"
    have out: "k \<noteq> m" using False MonthOf_civil_iff [OF assms(1)] by (simp add: k_def)
    have "modern_month k"
    proof (rule modern_month_mono [OF assms(1)])
      show "1 \<le> MMonth k" "MMonth k \<le> 12"
        using valid_civil [of "n + 7"] unfolding valid_date_def by (simp_all add: k_def MonthOf_def)
      have "civil n < civil (n + 7)" by simp
      then show "month_index m \<le> month_index k"
        using assms(2) valid_civil [of n] valid_civil [of "n + 7"] unfolding valid_date_def
        by (auto simp: k_def MonthOf_def month_index_def less_Date_def)
    qed
    note k = this
    have "month_index m \<le> month_index k"
    proof (rule ccontr)
      assume "\<not> month_index m \<le> month_index k"
      then have "month_start k + month_days k \<le> month_start m" using month_starts_apart [OF k assms(1)] by simp
      moreover have "n + 7 < month_start k + month_days k" using MonthOf_civil_iff [OF k] k_def by blast
      ultimately show False using n by simp
    qed
    moreover have "month_index k \<noteq> month_index m" using out k assms(1) month_index_inj by blast
    moreover have "\<not> month_index m + 1 < month_index k"
    proof
      assume lt: "month_index m + 1 < month_index k"
      let ?n = "MonthAdd m 1"
      have nx: "modern_month ?n" "month_index ?n = month_index m + 1" using assms(1) by simp_all
      have "month_start m + month_days m \<le> month_start ?n" by (rule month_starts_apart) (use assms(1) nx in simp_all)
      moreover have "month_start ?n + month_days ?n \<le> month_start k"
        by (rule month_starts_apart) (use k nx lt in simp_all)
      moreover have "month_start k \<le> n + 7" using MonthOf_civil_iff [OF k] k_def by blast
      ultimately show False using n month_days_bounds [of ?n] by simp
    qed
    ultimately have "month_index k = month_index m + 1" by linarith
    then have "12 * Year (civil (n + 7)) + Month (civil (n + 7)) = 12 * Year (civil n) + Month (civil n) + 1"
      using assms(2) by (auto simp: k_def MonthOf_def month_index_def)
    then have "Month (civil (n + 7)) \<noteq> Month (civil n)" by presburger
    then show ?thesis using False by simp
  qed
qed

text \<open>The rules meant for a schedule that fires once a month.\<close>

fun fires_monthly :: "Expression \<Rightarrow> bool" where
  "fires_monthly (DayOfMonth day) \<longleftrightarrow> 1 \<le> day"
| "fires_monthly (WorkdayOfMonth n) \<longleftrightarrow> n = - 1 \<or> 1 \<le> n"
| "fires_monthly (NthWeekdayOfMonth wd n) \<longleftrightarrow> 0 \<le> wd \<and> wd \<le> 6 \<and> (n = - 1 \<or> 1 \<le> n \<and> n \<le> 4)"
| "fires_monthly _ \<longleftrightarrow> False"

text \<open>Of seven consecutive days one has the weekday.\<close>

lemma one_weekday: "0 \<le> wd \<Longrightarrow> wd \<le> 6 \<Longrightarrow> \<exists>!i. a \<le> i \<and> i < a + 7 \<and> (i + 4) mod 7 = (wd :: int)"
proof -
  assume wd: "0 \<le> wd" "wd \<le> 6"
  define r where "r = (wd - a - 4) mod 7"
  have r: "0 \<le> r" "r < 7" by (simp_all add: r_def)
  have "(a + 4 + r) mod 7 = (a + 4 + (wd - a - 4)) mod 7" unfolding r_def by (rule mod_add_right_eq)
  then have "(a + r + 4) mod 7 = wd" using wd by (simp add: ac_simps)
  moreover have "i = j" if "a \<le> i" "i < a + 7" "a \<le> j" "j < a + 7" "(i + 4) mod 7 = (j + 4) mod 7" for i j
  proof -
    have "(i - j) mod 7 = 0" using that(5) by (metis add_diff_cancel_right mod_eq_dvd_iff dvd_imp_mod_0)
    moreover have "- 7 < i - j" "i - j < 7" using that by linarith+
    ultimately have "i - j = 0" by presburger
    then show ?thesis by simp
  qed
  ultimately show ?thesis using r by (intro ex1I [of _ "a + r"]) auto
qed

lemma nth_workday_in: "modern_month m \<Longrightarrow> n = - 1 \<or> 1 \<le> n \<Longrightarrow> nth_workday n m \<in> set (business_days m)"
  using business_days_nonempty [of m] by (auto simp: nth_workday_def intro!: last_in_set nth_mem)

lemma business_days_month:
  "modern_month m \<Longrightarrow> d \<in> set (business_days m) \<Longrightarrow> valid_date d \<and> MonthOf d = m \<and> IsBusinessDay d"
  by (auto simp: business_days_def MonthOf_civil_iff)

text \<open>A rule meant to fire monthly fires exactly once in every month: the N-th day clamped to the month's
  end, the N-th business day (or the last), and the N-th weekday (or the last), each on one day.\<close>

theorem monthly_rule_fires_once:
  assumes "modern_month m" "fires_monthly e"
  shows "\<exists>!d. valid_date d \<and> MonthOf d = m \<and> Includes e d = Some True"
proof (cases e)
  case (DayOfMonth day)
  let ?d = "mk_date (MYear m) (MMonth m) (day_in m day)"
  have "1 \<le> day" using assms(2) DayOfMonth by simp
  then have "valid_date ?d" using clampDay_modern [OF assms(1)] modern_valid by metis
  moreover have "Includes e d = Some True \<longleftrightarrow> d = ?d" if "MonthOf d = m" for d
    using that DaysInMonth_month [OF assms(1)] by (cases d) (auto simp: DayOfMonth MonthOf_def day_in_def)
  ultimately show ?thesis by (intro ex1I [of _ ?d]) (auto simp: MonthOf_def)
next
  case (WorkdayOfMonth n)
  let ?d = "nth_workday n m"
  have n: "n = - 1 \<or> 1 \<le> n" using assms(2) WorkdayOfMonth by simp
  have "Includes e d = Some True \<longleftrightarrow> d = ?d" if "MonthOf d = m" for d
    using that dayIn_modern [OF assms(1) n] by (auto simp: WorkdayOfMonth)
  then show ?thesis
    using business_days_month [OF assms(1) nth_workday_in [OF assms(1) n]] by (intro ex1I [of _ ?d]) auto
next
  case (NthWeekdayOfMonth wd n)
  define a where "a = (if n = - 1 then month_start m + month_days m - 7 else month_start m + 7 * (n - 1))"
  have p: "0 \<le> wd" "wd \<le> 6" "n = - 1 \<or> 1 \<le> n \<and> n \<le> 4" using assms(2) NthWeekdayOfMonth by simp_all
  have inc: "Includes e (civil k) = Some True \<longleftrightarrow> a \<le> k \<and> k < a + 7 \<and> (k + 4) mod 7 = wd"
    if k: "MonthOf (civil k) = m" for k
  proof -
    have b: "month_start m \<le> k" "k < month_start m + month_days m" using k MonthOf_civil_iff [OF assms(1)] by blast+
    then have mk: "first_modern_day \<le> k" using month_start_modern [OF assms(1)] by simp
    have day: "Day (civil k) - 1 = k - month_start m" using day_of_month_number [of "civil k" m] k by simp
    have wk: "Weekday (civil k) = (k + 4) mod 7" using mk by (simp add: Weekday_modern)
    have seven: "AddDays (civil k) 7 = civil (k + 7)" using mk by (simp add: AddDays_nonneg)
    have "Includes e (civil k) = Some True \<longleftrightarrow> (k + 4) mod 7 = wd \<and>
        (if n = - 1 then Month (civil (k + 7)) \<noteq> Month (civil k) else (k - month_start m) div 7 + 1 = n)"
      using b by (auto simp: NthWeekdayOfMonth wk seven day sdiv_nonneg)
    also have "(if n = - 1 then Month (civil (k + 7)) \<noteq> Month (civil k) else (k - month_start m) div 7 + 1 = n) \<longleftrightarrow>
        a \<le> k \<and> k < a + 7"
      using week_later_month [OF assms(1) k] b by (auto simp: a_def)
    finally show ?thesis by blast
  qed
  have range: "month_start m \<le> a" "a + 7 \<le> month_start m + month_days m"
    using p(3) month_days_bounds [of m] by (auto simp: a_def)
  obtain i where i: "a \<le> i" "i < a + 7" "(i + 4) mod 7 = wd"
    and uniq: "\<And>j. a \<le> j \<Longrightarrow> j < a + 7 \<Longrightarrow> (j + 4) mod 7 = wd \<Longrightarrow> j = i"
    using one_weekday [OF p(1,2), of a] by metis
  have im: "MonthOf (civil i) = m" using i range MonthOf_civil_iff [OF assms(1)] by simp
  show ?thesis
  proof (intro ex1I [of _ "civil i"])
    show "valid_date (civil i) \<and> MonthOf (civil i) = m \<and> Includes e (civil i) = Some True"
      using im inc [OF im] i by simp
    fix d assume d: "valid_date d \<and> MonthOf d = m \<and> Includes e d = Some True"
    then have "civil (day_number d) = d" by (simp add: civil_day_number)
    then show "d = civil i" using inc [of "day_number d"] d uniq by metis
  qed
qed (use assms(2) in simp_all)


subsection \<open>The stored form\<close>

fun expr_dates :: "Expression \<Rightarrow> Date list" where
  "expr_dates (Weekly wd every anchor) = [anchor]"
| "expr_dates (Dates days) = days"
| "expr_dates (Difference i x) = expr_dates i @ expr_dates x"
| "expr_dates _ = []"

lemma UnmarshalText_plain: "plain d \<Longrightarrow> Year d \<le> 9999 \<Longrightarrow> UnmarshalText (MarshalText d) = Inr d"
proof -
  assume d: "plain d" "Year d \<le> 9999"
  have v: "valid_date d" "modern d" using d plain_is_modern by (simp_all add: plain_def)
  have "mk_date 2019 3 1 \<le> d"
    using d(1) day_number_le_iff [of "mk_date 2019 3 1" d]
    by (simp add: plain_def day_number_first_plain valid_date_def month_length_def)
  then have "0 \<le> Year d" by (cases d) (auto simp: less_eq_Date_def less_Date_def split: if_splits)
  then show ?thesis
    using Parse_String_valid [OF v(1) _ d(2)] FromUnix_Time [OF v(2)] by (simp add: UnmarshalText_def MarshalText_def)
qed

lemma read_dates_Nil [simp]: "read_dates [] = Some []"
  by (simp add: read_dates_def)

lemma read_dates_plain:
  "list_all (\<lambda>d. plain d \<and> Year d \<le> 9999) days \<Longrightarrow> read_dates (map MarshalText days) = Some days"
  unfolding read_dates_def map_map
  by (induction days) (simp_all add: UnmarshalText_plain)

lemma parse_leaf_round_trip:
  assumes "parse_leaf j anchor days = Inr e" "list_all (\<lambda>d. plain d \<and> Year d \<le> 9999) (expr_dates e)" "depth \<le> maxExpressionDepth"
  shows "parse (MarshalExpression e) depth = Inr e"
  using assms(1)
  by (simp split: if_splits option.splits)
    (use assms(2,3) in \<open>auto simp: parse.simps Unmarshal_def UnmarshalText_plain read_dates_plain\<close>)

lemma parse_round_trip:
  "parse j depth = Inr e \<Longrightarrow> list_all (\<lambda>d. plain d \<and> Year d \<le> 9999) (expr_dates e) \<Longrightarrow>
     parse (MarshalExpression e) depth = Inr e"
proof (induction j depth arbitrary: e rule: parse.induct)
  case (1 j depth)
  from 1(3) obtain anchor days where d: "depth \<le> maxExpressionDepth" "Unmarshal j = Some (anchor, days)"
    by (subst (asm) parse.simps) (auto split: if_splits option.splits)
  show ?case
  proof (cases "JKind j = ''difference''")
    case False
    then have "parse_leaf j anchor days = Inr e" using 1(3) d by (subst (asm) parse.simps) simp
    then show ?thesis using 1(4) d(1) by (rule parse_leaf_round_trip)
  next
    case True
    from 1(3) d True obtain ji jx i x where s: "JInclude j = Some ji" "JExclude j = Some jx"
      "parse ji (depth + 1) = Inr i" "parse jx (depth + 1) = Inr x" "schedulable i" "e = Difference i x"
      by (subst (asm) parse.simps) (auto split: if_splits option.splits sum.splits)
    have nd: "\<not> maxExpressionDepth < depth" using d(1) by simp
    have "parse (MarshalExpression i) (depth + 1) = Inr i"
      by (rule 1(1) [OF nd d(2) refl True s(1,2)]) (use s 1(4) in simp_all)
    moreover have "parse (MarshalExpression x) (depth + 1) = Inr x"
      by (rule 1(2) [OF nd d(2) refl True s(1,2,3)]) (use s 1(4) in simp_all)
    ultimately show ?thesis
      using s d(1) by (subst parse.simps) (simp add: Unmarshal_def read_dates_def)
  qed
qed

text \<open>C35: Every expression the program accepts survives being stored and read back: parsing its stored form
  gives the same expression (for dates the time zone does not disturb, in years of four digits).\<close>

theorem expression_round_trip:
  assumes "ParseExpression j = Inr e" "list_all (\<lambda>d. plain d \<and> Year d \<le> 9999) (expr_dates e)"
  shows "ParseExpression (MarshalExpression e) = Inr e"
  using assms parse_round_trip by (simp add: ParseExpression_def)

text \<open>C34: Evaluating an accepted expression on a day never panics and never runs forever: no division by a
  zero interval, no index outside the month's business days, whatever the nesting (on days whose
  month the time zone does not disturb).\<close>

theorem accepted_expression_answers:
  assumes "ParseExpression j = Inr e" "modern_month (MonthOf d)"
  shows "\<exists>b. Includes e d = Some b"
proof -
  have "wf_expr e" if "parse j depth = Inr e" for depth
    using that
  proof (induction j depth arbitrary: e rule: parse.induct)
    case (1 j depth)
    from 1(3) obtain anchor days where d: "depth \<le> maxExpressionDepth" "Unmarshal j = Some (anchor, days)"
      by (subst (asm) parse.simps) (auto split: if_splits option.splits)
    show ?case
    proof (cases "JKind j = ''difference''")
      case False
      then have "parse_leaf j anchor days = Inr e" using 1(3) d by (subst (asm) parse.simps) simp
      then show ?thesis by (auto split: if_splits option.splits)
    next
      case True
      from 1(3) d True obtain ji jx i x where s: "JInclude j = Some ji" "JExclude j = Some jx"
        "parse ji (depth + 1) = Inr i" "parse jx (depth + 1) = Inr x" "e = Difference i x"
        by (subst (asm) parse.simps) (auto split: if_splits option.splits sum.splits)
      have nd: "\<not> maxExpressionDepth < depth" using d(1) by simp
      have "wf_expr i" using 1(1) [OF nd d(2) refl True s(1,2,3)] .
      moreover have "wf_expr x" using 1(2) [OF nd d(2) refl True s(1,2,3,4)] .
      ultimately show ?thesis using s by simp
    qed
  qed
  then have "wf_expr e" using assms(1) by (simp add: ParseExpression_def)
  then show ?thesis using Includes_returns [OF _ assms(2)] by auto
qed


subsection \<open>The days before daylight saving time\<close>

text \<open>A search that reaches the day before daylight saving time began never returns: on 2018-11-03 the
  next day is that day again. So listing the occurrences of any accepted open-ended schedule that had
  started by then, over a window opening on that day, does not end.\<close>

theorem occurrences_never_return:
  assumes "ScheduleValidate s = None" "SchStart s \<le> mk_date 2018 11 3" "IsZero (SchEnd s)"
    and "mk_date 2018 11 3 < to" "DaysBetween (mk_date 2018 11 3) to \<le> MaxSpanDays"
  shows "Occurrences s (mk_date 2018 11 3) to = None"
proof -
  have stuck: "AddDays (mk_date 2018 11 3) 1 = mk_date 2018 11 3" by code_simp
  have "days_while (\<lambda>d. Before d to) (Includes (the (SchExpression s))) (mk_date 2018 11 3) = None"
    by (rule days_while_stuck [OF _ stuck]) (use assms(4) in simp)
  then have "ExprOccurrences (the (SchExpression s)) (mk_date 2018 11 3) to = None"
    using assms(5) by (simp add: ExprOccurrences_def)
  then show ?thesis
    using assms by (auto simp: Occurrences_def Let_def)
qed

definition every_month :: "Expression \<Rightarrow> Date \<Rightarrow> FinSchedule" where
  "every_month e start = \<lparr>SchExpression = Some e, SchStart = start, SchEnd = mk_date 0 0 0, SchAdjust = AdjustRollForward\<rparr>"

theorem occurrences_never_return_witness:
  "Occurrences (every_month (DayOfMonth 10) (mk_date 2018 1 1)) (mk_date 2018 11 3) (mk_date 2018 12 31) = None"
proof -
  have "ScheduleValidate (every_month (DayOfMonth 10) (mk_date 2018 1 1)) = None" by code_simp
  moreover have "DaysBetween (mk_date 2018 11 3) (mk_date 2018 12 31) \<le> MaxSpanDays" by code_simp
  ultimately show ?thesis
    using occurrences_never_return [of "every_month (DayOfMonth 10) (mk_date 2018 1 1)" "mk_date 2018 12 31"]
    by (simp add: every_month_def less_eq_Date_def less_Date_def IsZero_def)
qed

lemma every_month_ok:
  "ScheduleValidate (every_month e start) = None \<Longrightarrow> valid_date start \<Longrightarrow> 2020 \<le> Year start \<Longrightarrow> schedule_ok (every_month e start)"
  using plain_2020 by (simp add: schedule_ok_def every_month_def IsZero_def)

theorem occurrences_exact_witness:
  "\<exists>os. Occurrences (every_month (DayOfMonth 31) (mk_date 2026 1 1)) (mk_date 2026 1 1) (mk_date 2026 4 1) = Some (Inr os) \<and>
     sorted_wrt (<) (map OcNominal os)"
proof -
  have "ScheduleValidate (every_month (DayOfMonth 31) (mk_date 2026 1 1)) = None" by code_simp
  then have ok: "schedule_ok (every_month (DayOfMonth 31) (mk_date 2026 1 1))"
    by (rule every_month_ok) (simp_all add: valid_date_def month_length_def)
  have "day_number (mk_date 2026 4 1) - day_number (mk_date 2026 1 1) \<le> MaxSpanDays" by code_simp
  from occurrences_exact [OF ok _ _ this] show ?thesis by (auto simp: valid_date_def month_length_def)
qed

theorem monthly_rule_fires_once_witness:
  "\<exists>!d. valid_date d \<and> MonthOf d = mk_month 2026 2 \<and> Includes (WorkdayOfMonth 23) d = Some True"
  by (rule monthly_rule_fires_once) (simp_all add: modern_month_2020)

theorem expression_round_trip_witness:
  "ParseExpression (MarshalExpression (Difference (DayOfMonth 10) (Dates [mk_date 2026 3 10]))) =
     Inr (Difference (DayOfMonth 10) (Dates [mk_date 2026 3 10]))"
proof -
  have "UnmarshalText ''2026-03-10'' = Inr (mk_date 2026 3 10)" by code_simp
  then have "ParseExpression (ExprJSON ''difference'' 0 0 None 0 None 0 [] []
      (Some (ExprJSON ''day_of_month'' 10 0 None 0 None 0 [] [] None None))
      (Some (ExprJSON ''dates'' 0 0 None 0 None 0 [] [''2026-03-10''] None None))) =
    Inr (Difference (DayOfMonth 10) (Dates [mk_date 2026 3 10]))"
    by (simp add: ParseExpression_def parse.simps Unmarshal_def read_dates_def maxExpressionDepth_def maxDates_def)
  then show ?thesis
    by (rule expression_round_trip) (simp add: plain_2020 valid_date_def month_length_def)
qed

theorem accepted_expression_answers_witness:
  "\<exists>b. Includes (Weekly 5 2 (mk_date 2026 3 6)) (mk_date 2026 3 20) = Some b"
proof -
  have "UnmarshalText ''2026-03-06'' = Inr (mk_date 2026 3 6)" by code_simp
  moreover have "Weekday (mk_date 2026 3 6) = 5" by code_simp
  ultimately have "ParseExpression (ExprJSON ''weekly'' 0 0 (Some 5) 2 (Some ''2026-03-06'') 0 [] [] None None) =
    Inr (Weekly 5 2 (mk_date 2026 3 6))"
    by (simp add: ParseExpression_def parse.simps Unmarshal_def read_dates_def maxExpressionDepth_def IsZero_def)
  then show ?thesis
    by (rule accepted_expression_answers) (simp add: modern_month_2020 MonthOf_def)
qed

end
