(* ===== verification/Accounts.thy ===== *)
theory Accounts
  imports Ledger Text
begin

text \<open>
  The chart of accounts: \<open>account.go\<close> of \<open>api/internal/domain/finance\<close> and the classes and
  groups of \<open>ledger.go\<close>. \<open>ClassOther\<close> and \<open>GroupUnknown\<close> stand for every other string;
  \<open>GroupNone\<close> is the empty group of an account outside the income statement.
\<close>

datatype AccountClass = ClassAsset | ClassLiability | ClassIncome | ClassExpense | ClassEquity | ClassOther string

datatype DREGroup = GroupNone | GroupGrossRevenue | GroupDeductions | GroupCosts | GroupOperatingExpenses
  | GroupFinancialResult | GroupOther | GroupUnknown string

definition AllowsClass :: "DREGroup \<Rightarrow> AccountClass \<Rightarrow> bool" where
  "AllowsClass g c =
     (case g of
        GroupGrossRevenue \<Rightarrow> c = ClassIncome
      | GroupDeductions \<Rightarrow> c = ClassExpense
      | GroupCosts \<Rightarrow> c = ClassExpense
      | GroupOperatingExpenses \<Rightarrow> c = ClassExpense
      | GroupFinancialResult \<Rightarrow> c = ClassIncome \<or> c = ClassExpense
      | GroupOther \<Rightarrow> c = ClassIncome \<or> c = ClassExpense
      | _ \<Rightarrow> False)"

definition maxAccountName :: nat where "maxAccountName = 80"

definition maxAccountID :: nat where "maxAccountID = 64"

definition validAccountID :: "string \<Rightarrow> bool" where
  "validAccountID i \<longleftrightarrow>
     i \<noteq> '''' \<and> length i \<le> maxAccountID \<and>
     list_all (\<lambda>c. byte_in 97 122 c \<or> byte_in 65 90 c \<or> byte_in 48 57 c \<or> c = CHR ''_'' \<or> c = CHR ''-'') i"

datatype AccountSource = SourceManual | SourceBYOK | SourceOther string

record LedgerAccount =
  LaID :: string
  LaName :: string
  LaClass :: AccountClass
  LaGroup :: DREGroup
  LaSystem :: bool
  LaSystemKey :: string
  LaSource :: AccountSource
  LaProvider :: string

definition validClass :: "AccountClass \<Rightarrow> bool" where
  "validClass c = (case c of ClassOther _ \<Rightarrow> False | _ \<Rightarrow> True)"

datatype account_error = ErrAccountID | ErrAccountName | ErrAccountClass | ErrAccountGroup

definition AccountValidate :: "LedgerAccount \<Rightarrow> account_error option" where
  "AccountValidate a =
     (if \<not> validAccountID (LaID a) then Some ErrAccountID
      else if TrimSpace (LaName a) = '''' \<or> rune_count (LaName a) > maxAccountName then Some ErrAccountName
      else if \<not> validClass (LaClass a) then Some ErrAccountClass
      else if LaGroup a \<noteq> GroupNone \<and> \<not> AllowsClass (LaGroup a) (LaClass a) then Some ErrAccountGroup
      else None)"

definition system_account :: "string \<Rightarrow> string \<Rightarrow> AccountClass \<Rightarrow> string \<Rightarrow> LedgerAccount" where
  "system_account i name c key =
     \<lparr>LaID = i, LaName = name, LaClass = c, LaGroup = GroupNone, LaSystem = True, LaSystemKey = key,
      LaSource = SourceManual, LaProvider = ''''\<rparr>"

definition DefaultSystemAccounts :: "SystemAccounts \<times> LedgerAccount list" where
  "DefaultSystemAccounts =
     (let sys = \<lparr>Payables = ''sys-payables'', Receivables = ''sys-receivables'', OpeningBalanceID = ''sys-opening''\<rparr>
      in (sys,
          [system_account (Payables sys) ''Contas a pagar'' ClassLiability ''payables'',
           system_account (Receivables sys) ''Contas a receber'' ClassAsset ''receivables'',
           system_account (OpeningBalanceID sys) ''Saldos iniciais'' ClassEquity ''opening_balance'']))"

definition the_sys :: SystemAccounts where
  "the_sys = fst DefaultSystemAccounts"

lemma the_sys_ids [simp]:
  "Payables the_sys = ''sys-payables''" "Receivables the_sys = ''sys-receivables''" "OpeningBalanceID the_sys = ''sys-opening''"
  by (simp_all add: the_sys_def DefaultSystemAccounts_def Let_def)

end
