(* ===== verification/Space.thy ===== *)
theory Space
  imports Text "HOL-Library.Word"
begin

text \<open>
  \<open>api/internal/space\<close>: who may touch which finance partition. A request names a space
  (\<open>ParseSelector\<close>); the resolver turns the token's subject and that name into a
  \<open>ResolvedSpace\<close>, asking the account service for the membership and caching the answer; the
  repositories ask a space for the verbs they need (\<open>Require\<close>) and build every partition key
  from it (\<open>PK\<close>).

  The account service (\<open>MembershipSource\<close>, a client of another repository) is a parameter: a
  function that answers a membership or fails. The cache backend is a map from keys to what
  unmarshals from the stored bytes; an entry may disappear at any time and a write may be
  lost, as a best-effort cache allows. Verbs are the source's bits in a byte.
\<close>

unbundle bit_operations_syntax

subsection \<open>verbs.go and kind.go\<close>

type_synonym Verbs = "8 word"

definition Read :: Verbs where "Read = 1"

definition Write :: Verbs where "Write = 2"

definition Settle :: Verbs where "Settle = 4"

definition Import :: Verbs where "Import = 8"

definition Configure :: Verbs where "Configure = 16"

definition All :: Verbs where
  "All = Read OR Write OR Settle OR Import OR Configure"

definition Has :: "Verbs \<Rightarrow> Verbs \<Rightarrow> bool" where
  "Has v want \<longleftrightarrow> v AND want = want"

definition verbNames :: "(Verbs \<times> string) list" where
  "verbNames = [(Read, ''finance.read''), (Write, ''finance.write''), (Settle, ''finance.settle''),
     (Import, ''finance.import''), (Configure, ''finance.configure'')]"

definition Names :: "Verbs \<Rightarrow> string list" where
  "Names v = map snd (filter (\<lambda>n. Has v (fst n)) verbNames)"

datatype Kind = KindPersonalDefault | KindPersonal | KindOrganization | KindOther string

definition WorkspaceKind :: "string \<Rightarrow> Kind" where
  "WorkspaceKind raw =
     (if raw = '''' \<or> raw = ''organization'' then KindOrganization
      else if raw = ''personal'' then KindPersonal
      else if raw = ''personal_default'' then KindPersonalDefault
      else KindOther raw)"

definition VerbsFor :: "Kind \<Rightarrow> string \<Rightarrow> Verbs" where
  "VerbsFor kind role =
     (case kind of
        KindOrganization \<Rightarrow>
          (if role = ''owner'' \<or> role = ''admin'' then All
           else if role = ''member'' then All AND NOT Configure
           else if role = ''viewer'' then Read else 0)
      | KindPersonal \<Rightarrow>
          (if role = ''owner'' \<or> role = ''member'' then All
           else if role = ''viewer'' then Read else 0)
      | _ \<Rightarrow> 0)"

definition IsMerchantRole :: "Kind \<Rightarrow> string \<Rightarrow> bool" where
  "IsMerchantRole kind role \<longleftrightarrow> kind = KindOrganization \<and> (role = ''owner'' \<or> role = ''admin'')"

subsection \<open>space.go\<close>

datatype space_error = ErrNoSpace | ErrDenied | ErrSpaceNotFound | ErrSpaceUnavailable | ErrBadSelector | ErrInvalidSubject

record ResolvedSpace =
  SpOwner :: string
  SpPersonal :: bool
  SpKind :: Kind
  SpLivemode :: bool
  SpVerbs :: Verbs
  SpRole :: string

definition userPrefix :: string where
  "userPrefix = ''USER#''"

definition Mode :: "ResolvedSpace \<Rightarrow> string" where
  "Mode s = (if SpLivemode s then ''live'' else ''test'')"

definition PK :: "ResolvedSpace \<Rightarrow> string" where
  "PK s = (if SpOwner s = '''' then '''' else SpOwner s @ ''#'' @ Mode s)"

definition OrganizationID :: "ResolvedSpace \<Rightarrow> string" where
  "OrganizationID s = (if SpPersonal s then '''' else SpOwner s)"

definition SpaceIsZero :: "ResolvedSpace \<Rightarrow> bool" where
  "SpaceIsZero s \<longleftrightarrow> SpOwner s = ''''"

definition Can :: "ResolvedSpace \<Rightarrow> Verbs \<Rightarrow> bool" where
  "Can s v \<longleftrightarrow> \<not> SpaceIsZero s \<and> Has (SpVerbs s) v"

definition Require :: "ResolvedSpace \<Rightarrow> Verbs \<Rightarrow> space_error option" where
  "Require s v =
     (if SpaceIsZero s then Some ErrNoSpace
      else if \<not> Has (SpVerbs s) v then Some ErrDenied
      else None)"

definition personalSpace :: "string \<Rightarrow> bool \<Rightarrow> (space_error, ResolvedSpace) result" where
  "personalSpace sub livemode =
     (if sub = '''' \<or> CHR ''#'' \<in> set sub then Inl ErrInvalidSubject
      else Inr \<lparr>SpOwner = userPrefix @ sub, SpPersonal = True, SpKind = KindPersonalDefault,
             SpLivemode = livemode, SpVerbs = All, SpRole = ''''\<rparr>)"

definition orgSpace :: "string \<Rightarrow> Kind \<Rightarrow> bool \<Rightarrow> Verbs \<Rightarrow> ResolvedSpace" where
  "orgSpace orgID kind livemode verbs =
     \<lparr>SpOwner = orgID, SpPersonal = False, SpKind = kind, SpLivemode = livemode, SpVerbs = verbs, SpRole = ''''\<rparr>"

definition is_hex :: "char \<Rightarrow> bool" where
  "is_hex c \<longleftrightarrow> is_digit c \<or> 97 \<le> (of_char c :: nat) \<and> (of_char c :: nat) \<le> 102"

definition validOrganizationID :: "string \<Rightarrow> bool" where
  "validOrganizationID s \<longleftrightarrow>
     length s = 36 \<and>
     list_all (\<lambda>i. if i \<in> {8, 13, 18, 23} then s ! i = CHR ''-'' else is_hex (s ! i)) [0..<36]"

definition ForJob :: "string \<Rightarrow> bool \<Rightarrow> (space_error, ResolvedSpace) result" where
  "ForJob owner livemode =
     (if take 5 owner = userPrefix then personalSpace (drop 5 owner) livemode
      else if \<not> validOrganizationID owner then Inl ErrSpaceNotFound
      else Inr (orgSpace owner KindOrganization livemode All))"

definition Narrow :: "ResolvedSpace \<Rightarrow> Verbs \<Rightarrow> ResolvedSpace" where
  "Narrow s v = s\<lparr>SpVerbs := SpVerbs s AND v\<rparr>"

subsection \<open>selector.go and posting.go\<close>

record Selector =
  SelPersonal :: bool
  SelOrganizationID :: string

definition ParseSelector :: "string \<Rightarrow> (space_error, Selector) result" where
  "ParseSelector header =
     (if header = ''personal'' then Inr \<lparr>SelPersonal = True, SelOrganizationID = ''''\<rparr>
      else if take 4 header \<noteq> ''org:'' \<or> drop 4 header = '''' then Inl ErrBadSelector
      else if \<not> validOrganizationID (drop 4 header) then Inl ErrSpaceNotFound
      else Inr \<lparr>SelPersonal = False, SelOrganizationID = drop 4 header\<rparr>)"

definition postingVerbs :: Verbs where
  "postingVerbs = Read OR Write OR Settle"

definition ForInvoiceIssuer :: "string \<Rightarrow> bool \<Rightarrow> (space_error, ResolvedSpace) result" where
  "ForInvoiceIssuer organizationID livemode =
     (if \<not> validOrganizationID organizationID then Inl ErrSpaceNotFound
      else Inr (orgSpace organizationID KindOrganization livemode postingVerbs))"

definition ForInvoicePayer :: "string \<Rightarrow> bool \<Rightarrow> (space_error, ResolvedSpace) result" where
  "ForInvoicePayer sub livemode =
     (case personalSpace sub livemode of Inl err \<Rightarrow> Inl err | Inr sp \<Rightarrow> Inr (Narrow sp postingVerbs))"

subsection \<open>resolver.go\<close>

record cachedMembership =
  CmMember :: bool
  CmRole :: string
  CmKind :: string

definition cacheKey :: "string \<Rightarrow> string \<Rightarrow> string" where
  "cacheKey orgID userID = ''billing:space:'' @ orgID @ '':'' @ userID"

type_synonym MembershipSource = "string \<Rightarrow> string \<Rightarrow> cachedMembership option"
type_synonym membership_cache = "string \<rightharpoonup> cachedMembership option"

text \<open>
  The source of a resolver may be absent (\<open>None\<close>), and a lookup may fail (\<open>None\<close> of the
  function). A cache entry that does not unmarshal (\<open>Some None\<close>) is a miss. The new cache is
  the one after the write, when it is kept.
\<close>

definition membership ::
  "MembershipSource option \<Rightarrow> string \<Rightarrow> string \<Rightarrow> membership_cache \<Rightarrow> (space_error, cachedMembership) result \<times> membership_cache" where
  "membership src orgID userID cache =
     (case cache (cacheKey orgID userID) of
        Some (Some m) \<Rightarrow> (Inr m, cache)
      | _ \<Rightarrow>
        (case src of
           None \<Rightarrow> (Inl ErrSpaceUnavailable, cache)
         | Some ask \<Rightarrow>
           (case ask orgID userID of
              None \<Rightarrow> (Inl ErrSpaceUnavailable, cache)
            | Some m \<Rightarrow> (Inr m, cache(cacheKey orgID userID \<mapsto> Some m)))))"

definition Resolve ::
  "MembershipSource option \<Rightarrow> string \<Rightarrow> Selector \<Rightarrow> bool \<Rightarrow> membership_cache \<Rightarrow> (space_error, ResolvedSpace) result \<times> membership_cache" where
  "Resolve src sub sel livemode cache =
     (if SelPersonal sel then (personalSpace sub livemode, cache)
      else if sub = '''' then (Inl ErrInvalidSubject, cache)
      else if \<not> validOrganizationID (SelOrganizationID sel) then (Inl ErrSpaceNotFound, cache)
      else case membership src (SelOrganizationID sel) sub cache of
        (Inl err, cache') \<Rightarrow> (Inl err, cache')
      | (Inr m, cache') \<Rightarrow>
          let kind = WorkspaceKind (CmKind m);
              verbs = VerbsFor kind (CmRole m)
          in if \<not> CmMember m \<or> verbs = 0 then (Inl ErrSpaceNotFound, cache')
             else (Inr ((orgSpace (SelOrganizationID sel) kind livemode verbs)\<lparr>SpRole := CmRole m\<rparr>), cache'))"


subsection \<open>Keys\<close>

lemma is_hex_no_hash: "is_hex c \<Longrightarrow> c \<noteq> CHR ''#''"
  by (auto simp: is_hex_def is_digit_def)

lemma validOrganizationID_chars:
  assumes "validOrganizationID s"
  shows "length s = 36" "CHR ''#'' \<notin> set s"
proof -
  show l: "length s = 36" using assms by (simp add: validOrganizationID_def)
  have "s ! i \<noteq> CHR ''#''" if "i < 36" for i
  proof -
    have "if i \<in> {8, 13, 18, 23} then s ! i = CHR ''-'' else is_hex (s ! i)"
      using assms that unfolding validOrganizationID_def list_all_iff by auto
    then show ?thesis using is_hex_no_hash by (cases "i \<in> {8, 13, 18, 23}") auto
  qed
  then show "CHR ''#'' \<notin> set s" using l by (auto simp: in_set_conv_nth)
qed

lemma cacheKey_inj:
  "validOrganizationID o1 \<Longrightarrow> validOrganizationID o2 \<Longrightarrow> cacheKey o1 u1 = cacheKey o2 u2 \<longleftrightarrow> o1 = o2 \<and> u1 = u2"
  using validOrganizationID_chars(1) by (auto simp: cacheKey_def)

text \<open>Every way the package makes a space.\<close>

inductive space_made :: "ResolvedSpace \<Rightarrow> bool" where
  resolved: "Resolve src sub sel live cache = (Inr sp, cache') \<Longrightarrow> space_made sp"
| job: "ForJob owner live = Inr sp \<Longrightarrow> space_made sp"
| issuer: "ForInvoiceIssuer orgID live = Inr sp \<Longrightarrow> space_made sp"
| payer: "ForInvoicePayer sub live = Inr sp \<Longrightarrow> space_made sp"
| narrowed: "space_made sp \<Longrightarrow> space_made (Narrow sp v)"

definition owner_ok :: "ResolvedSpace \<Rightarrow> bool" where
  "owner_ok sp \<longleftrightarrow>
     (if SpPersonal sp then \<exists>sub. SpOwner sp = userPrefix @ sub \<and> sub \<noteq> '''' \<and> CHR ''#'' \<notin> set sub
      else validOrganizationID (SpOwner sp))"

lemma personalSpace_ok: "personalSpace sub live = Inr sp \<Longrightarrow> owner_ok sp"
  by (auto simp: personalSpace_def owner_ok_def split: if_splits)

lemma orgSpace_ok [simp]: "owner_ok (orgSpace org kind live v) = validOrganizationID org"
  by (simp add: owner_ok_def orgSpace_def)

lemma owner_ok_update [simp]: "owner_ok (sp\<lparr>SpVerbs := v\<rparr>) = owner_ok sp" "owner_ok (sp\<lparr>SpRole := r\<rparr>) = owner_ok sp"
  by (simp_all add: owner_ok_def)

lemma space_made_ok: "space_made sp \<Longrightarrow> owner_ok sp"
proof (induction rule: space_made.induct)
  case (resolved src sub sel live cache sp cache')
  then show ?case
    by (auto simp: Resolve_def Let_def split: if_splits prod.splits sum.splits dest: personalSpace_ok)
qed (auto simp: ForJob_def ForInvoiceIssuer_def ForInvoicePayer_def Narrow_def
    split: if_splits sum.splits dest: personalSpace_ok)

lemma owner_ok_PK: "owner_ok sp \<Longrightarrow> PK sp = SpOwner sp @ ''#'' @ Mode sp"
  by (auto simp: owner_ok_def PK_def userPrefix_def validOrganizationID_def split: if_splits)

text \<open>C10: Two spaces share a partition key exactly when they have the same owner and the same
  mode, and then they are of the same sort: however they were obtained, a personal space is
  never an organization's, one person's is never another's, and test data is never live data.\<close>


theorem partition_keys_isolate_spaces:
  assumes "space_made s" "space_made t" "PK s = PK t"
  shows "SpOwner s = SpOwner t \<and> SpLivemode s = SpLivemode t \<and> SpPersonal s = SpPersonal t \<and>
    (SpPersonal s \<longrightarrow> (\<exists>sub. SpOwner s = userPrefix @ sub \<and> CHR ''#'' \<notin> set sub)) \<and>
    (\<not> SpPersonal s \<longrightarrow> validOrganizationID (SpOwner s))"
proof -
  have ok: "owner_ok s" "owner_ok t" using assms space_made_ok by blast+
  have "SpOwner s @ ''#'' @ Mode s = SpOwner t @ ''#'' @ Mode t"
    using assms(3) by (simp add: owner_ok_PK ok)
  moreover have "length (Mode s) = 4" "length (Mode t) = 4" by (simp_all add: Mode_def)
  ultimately have eq: "SpOwner s = SpOwner t" "Mode s = Mode t" by (auto simp: append_eq_append_conv)
  have "CHR ''#'' \<in> set (SpOwner x) \<longleftrightarrow> SpPersonal x" if "owner_ok x" for x
    using that validOrganizationID_chars(2) by (auto simp: owner_ok_def userPrefix_def split: if_splits)
  with ok eq(1) have "SpPersonal s = SpPersonal t" by metis
  with eq ok(1) show ?thesis by (auto simp: Mode_def owner_ok_def split: if_splits)
qed

definition sample_org :: string where
  "sample_org = ''018f2b6a-7c11-7a3e-9f00-0123456789ab''"

lemma sample_org_valid: "validOrganizationID sample_org"
  by code_simp

theorem partition_keys_isolate_spaces_witness:
  "validOrganizationID (SpOwner (orgSpace sample_org KindOrganization True postingVerbs))"
proof -
  have "ForInvoiceIssuer sample_org True = Inr (orgSpace sample_org KindOrganization True postingVerbs)"
    by (simp add: ForInvoiceIssuer_def sample_org_valid)
  then have "space_made (orgSpace sample_org KindOrganization True postingVerbs)" by (rule space_made.issuer)
  from partition_keys_isolate_spaces [OF this this] show ?thesis by (simp add: orgSpace_def)
qed

subsection \<open>Access\<close>

text \<open>
  A resolver at work: requests arrive with whatever the account service answers at that moment,
  cache writes may be lost and entries may expire. \<open>asked\<close> collects every answer the service
  has given.
\<close>

definition answers :: "MembershipSource option \<Rightarrow> (string \<times> string \<times> cachedMembership) set" where
  "answers src = {(org, user, m). \<exists>ask. src = Some ask \<and> ask org user = Some m}"

inductive resolver_reachable :: "membership_cache \<Rightarrow> (string \<times> string \<times> cachedMembership) set \<Rightarrow> bool" where
  start: "resolver_reachable Map.empty {}"
| resolve: "resolver_reachable cache asked \<Longrightarrow> Resolve src sub sel live cache = (res, cache') \<Longrightarrow>
    resolver_reachable cache' (asked \<union> answers src)"
| write_lost: "resolver_reachable cache asked \<Longrightarrow> resolver_reachable cache (asked \<union> answers src)"
| expire: "resolver_reachable cache asked \<Longrightarrow> resolver_reachable (cache(k := None)) asked"

definition cache_inv :: "membership_cache \<Rightarrow> (string \<times> string \<times> cachedMembership) set \<Rightarrow> bool" where
  "cache_inv cache asked \<longleftrightarrow>
     (\<forall>org user m. validOrganizationID org \<and> cache (cacheKey org user) = Some (Some m) \<longrightarrow> (org, user, m) \<in> asked)"

lemma membership_answer:
  assumes "membership src org user cache = (Inr m, cache')" "cache_inv cache asked" "validOrganizationID org"
  shows "(org, user, m) \<in> asked \<union> answers src"
  using assms by (auto simp: membership_def cache_inv_def answers_def split: option.splits)

lemma membership_inv:
  assumes "membership src org user cache = (res, cache')" "cache_inv cache asked" "validOrganizationID org"
  shows "cache_inv cache' (asked \<union> answers src)"
proof -
  consider "cache' = cache" | m ask where "src = Some ask" "ask org user = Some m" "cache' = cache(cacheKey org user \<mapsto> Some m)"
    using assms(1) by (auto simp: membership_def split: option.splits)
  then show ?thesis
  proof cases
    case 1
    then show ?thesis using assms(2) by (auto simp: cache_inv_def)
  next
    case 2
    have "(org', user', m') \<in> asked \<union> answers src"
      if "validOrganizationID org'" "cache' (cacheKey org' user') = Some (Some m')" for org' user' m'
    proof (cases "org' = org \<and> user' = user")
      case True
      then show ?thesis using 2 that by (simp add: answers_def)
    next
      case False
      then have "cacheKey org' user' \<noteq> cacheKey org user" using cacheKey_inj that(1) assms(3) by blast
      then show ?thesis using 2(3) that assms(2) by (simp add: cache_inv_def)
    qed
    then show ?thesis unfolding cache_inv_def by blast
  qed
qed

lemma cache_inv_mono: "cache_inv cache asked \<Longrightarrow> asked \<subseteq> asked' \<Longrightarrow> cache_inv cache asked'"
  unfolding cache_inv_def by blast

lemma resolver_inv: "resolver_reachable cache asked \<Longrightarrow> cache_inv cache asked"
proof (induction rule: resolver_reachable.induct)
  case (resolve cache asked src sub sel live res cache')
  then show ?case
    by (auto simp: Resolve_def Let_def split: if_splits prod.splits sum.splits
        intro: membership_inv cache_inv_mono)
qed (auto simp: cache_inv_def)

text \<open>C21: A request gets a space only if it is the caller's own personal one, or if the account
  service has answered, now or earlier, that this very caller is a member of this very
  organization with a role that grants something; it then holds exactly that role's verbs. No
  cached answer for another person or organization is ever used.\<close>

theorem space_needs_membership:
  assumes "resolver_reachable cache asked" "Resolve src sub sel live cache = (Inr sp, cache')"
  shows "SelPersonal sel \<and> SpOwner sp = userPrefix @ sub \<and> SpVerbs sp = All \<or>
    \<not> SelPersonal sel \<and> SpOwner sp = SelOrganizationID sel \<and>
      (\<exists>m. (SelOrganizationID sel, sub, m) \<in> asked \<union> answers src \<and> CmMember m \<and>
        SpVerbs sp = VerbsFor (WorkspaceKind (CmKind m)) (CmRole m) \<and> SpVerbs sp \<noteq> 0)"
proof (cases "SelPersonal sel")
  case True
  then show ?thesis using assms(2) by (auto simp: Resolve_def personalSpace_def split: if_splits)
next
  case False
  then obtain m where m: "membership src (SelOrganizationID sel) sub cache = (Inr m, cache')"
    "validOrganizationID (SelOrganizationID sel)" "CmMember m" "VerbsFor (WorkspaceKind (CmKind m)) (CmRole m) \<noteq> 0"
    "sp = (orgSpace (SelOrganizationID sel) (WorkspaceKind (CmKind m)) live (VerbsFor (WorkspaceKind (CmKind m)) (CmRole m)))\<lparr>SpRole := CmRole m\<rparr>"
    using assms(2) by (auto simp: Resolve_def Let_def split: if_splits prod.splits sum.splits)
  show ?thesis using membership_answer [OF m(1) resolver_inv [OF assms(1)] m(2)] m False by (auto simp: orgSpace_def)
qed

definition sample_member :: cachedMembership where
  "sample_member = \<lparr>CmMember = True, CmRole = ''member'', CmKind = ''organization''\<rparr>"

theorem space_needs_membership_witness:
  "\<exists>m. (sample_org, ''u1'', m) \<in> answers (Some (\<lambda>org user. if user = ''u1'' then Some sample_member else None)) \<and> CmMember m"
proof -
  let ?src = "Some (\<lambda>org user. if user = ''u1'' then Some sample_member else None) :: MembershipSource option"
  let ?sel = "\<lparr>SelPersonal = False, SelOrganizationID = sample_org\<rparr>"
  have "VerbsFor (WorkspaceKind (CmKind sample_member)) (CmRole sample_member) \<noteq> 0" by code_simp
  then have "Resolve ?src ''u1'' ?sel True Map.empty =
      (Inr ((orgSpace sample_org (WorkspaceKind (CmKind sample_member)) True
         (VerbsFor (WorkspaceKind (CmKind sample_member)) (CmRole sample_member)))\<lparr>SpRole := CmRole sample_member\<rparr>),
       Map.empty(cacheKey sample_org ''u1'' \<mapsto> Some sample_member))"
    by (simp add: Resolve_def membership_def Let_def sample_org_valid) (simp add: sample_member_def)
  from space_needs_membership [OF resolver_reachable.start this] show ?thesis by auto
qed

text \<open>Narrowing a space only removes verbs.\<close>

lemma Can_Narrow: "Can (Narrow s v) w \<longleftrightarrow> Can s w \<and> Has v w"
proof -
  have "(x AND v) AND w = w \<longleftrightarrow> x AND w = w \<and> v AND w = w" for x :: Verbs
    by (simp add: bit_eq_iff bit_and_iff) blast
  then show ?thesis by (simp add: Can_def Narrow_def Has_def SpaceIsZero_def)
qed

text \<open>Reading an absent workspace kind as organization never widens what a role may do, except
  for an administrator, whose role grants everything in an organization and nothing in a
  personal workspace: the comment on the default says it can only narrow access for every role.\<close>

theorem default_kind_widens_only_admin:
  "(\<forall>role. role = ''admin'' \<or> Has (VerbsFor KindPersonal role) (VerbsFor (WorkspaceKind '''') role)) \<and>
   VerbsFor (WorkspaceKind '''') ''admin'' = All \<and> VerbsFor KindPersonal ''admin'' = 0"
proof (intro conjI allI)
  fix role
  have "Has All (All AND NOT Configure)" "Has All All" "Has Read Read" "Has 0 0" "Has All 0" "Has Read 0" by code_simp+
  then show "role = ''admin'' \<or> Has (VerbsFor KindPersonal role) (VerbsFor (WorkspaceKind '''') role)"
    by (simp add: VerbsFor_def WorkspaceKind_def)
qed (simp_all add: VerbsFor_def WorkspaceKind_def)

end
