(* ===== verification/LedgerStore.thy ===== *)
theory LedgerStore
  imports Accounts Space "HOL-Library.Char_ord" "HOL-Library.List_Lexorder"
begin

text \<open>
  The stored ledger of one space: \<open>ledger.go\<close> and \<open>ledger_rebuild.go\<close> of
  \<open>api/internal/repositories\<close>. The rows of the space's partitions are \<open>ledger_store\<close>: the chart
  with its cached balances, the cached monthly summaries, the transaction headers in key
  order, the entries, the reversal and opening markers and the audit rows.

  A repository method builds the items of one \<open>TransactWriteItems\<close> call from what it has read.
  The call is modelled by its documented behaviour: it refuses more than a hundred items or two
  items on one row, evaluates every condition on the rows as they are before the call, and then
  writes all items or none, reporting per item which condition failed. A number an \<open>ADD\<close> keeps
  is unbounded. Identifiers drawn from \<open>id.New\<close> are arguments (\<open>fresh\<close>); a collision fails the
  condition of the header. \<open>idempotentID\<close>, a SHA-256 digest of the space, a kind and a key, is
  the parameter \<open>derive_id\<close>. Decoding failures, throttling and transaction conflicts, which
  write nothing, are not modelled.
\<close>

subsection \<open>Rows and write items\<close>

record AccountRow =
  RowAccount :: LedgerAccount
  RowBalance :: int
  RowArchived :: bool

record StoredTx =
  StID :: string
  StTx :: Transaction
  StOrigin :: string
  StActor :: string
  StMemo :: string
  StRef :: string

record entryItem =
  EiAccountID :: string
  EiTxID :: string
  EiDate :: Date
  EiLeg :: nat
  EiAmount :: Cents
  EiKind :: TxKind
  EiFlow :: string
  EiMemo :: string
  EiRef :: string
  EiReversal :: bool

record ledger_store =
  LsAccounts :: "string \<rightharpoonup> AccountRow"
  LsSummary :: "SummaryKey \<rightharpoonup> Totals"
  LsTxs :: "StoredTx list"
  LsEntries :: "entryItem list"
  LsReversals :: "string \<rightharpoonup> string"
  LsOpenings :: "string \<rightharpoonup> string"
  LsAudit :: "(string \<times> string) list"

datatype ledger_item =
    PutTx StoredTx
  | PutEntry entryItem
  | AddBalance string int
  | AddSummary SummaryKey int int
  | PutReversal string string
  | PutOpening string string
  | DeleteOpening string
  | PutAudit string string

datatype row_key = KeyTx string | KeyEntry string Date string nat | KeyAccount string | KeySummary SummaryKey
  | KeyReversal string | KeyOpening string | KeyAudit string

primrec item_key :: "ledger_item \<Rightarrow> row_key" where
  "item_key (PutTx t) = KeyTx (StID t)"
| "item_key (PutEntry e) = KeyEntry (EiAccountID e) (EiDate e) (EiTxID e) (EiLeg e)"
| "item_key (AddBalance a n) = KeyAccount a"
| "item_key (AddSummary k d c) = KeySummary k"
| "item_key (PutReversal i t) = KeyReversal i"
| "item_key (PutOpening a t) = KeyOpening a"
| "item_key (DeleteOpening a) = KeyOpening a"
| "item_key (PutAudit t actor) = KeyAudit t"

definition entry_key :: "entryItem \<Rightarrow> row_key" where
  "entry_key e = item_key (PutEntry e)"

primrec item_cond :: "ledger_item \<Rightarrow> ledger_store \<Rightarrow> bool" where
  "item_cond (PutTx t) st \<longleftrightarrow> StID t \<notin> StID ` set (LsTxs st)"
| "item_cond (PutEntry e) st \<longleftrightarrow> entry_key e \<notin> entry_key ` set (LsEntries st)"
| "item_cond (AddBalance a n) st \<longleftrightarrow> LsAccounts st a \<noteq> None"
| "item_cond (AddSummary k d c) st \<longleftrightarrow> True"
| "item_cond (PutReversal i t) st \<longleftrightarrow> LsReversals st i = None"
| "item_cond (PutOpening a t) st \<longleftrightarrow> LsOpenings st a = None"
| "item_cond (DeleteOpening a) st \<longleftrightarrow> True"
| "item_cond (PutAudit t actor) st \<longleftrightarrow> True"

definition add_balance :: "int \<Rightarrow> AccountRow \<Rightarrow> AccountRow" where
  "add_balance n row = row\<lparr>RowBalance := RowBalance row + n\<rparr>"

definition add_totals :: "int \<Rightarrow> int \<Rightarrow> Totals \<Rightarrow> Totals" where
  "add_totals d c t = \<lparr>Debits = Debits t + d, Credits = Credits t + c\<rparr>"

primrec item_write :: "ledger_item \<Rightarrow> ledger_store \<Rightarrow> ledger_store" where
  "item_write (PutTx t) st = st\<lparr>LsTxs := insort_key StID t (LsTxs st)\<rparr>"
| "item_write (PutEntry e) st = st\<lparr>LsEntries := LsEntries st @ [e]\<rparr>"
| "item_write (AddBalance a n) st = st\<lparr>LsAccounts := (LsAccounts st)(a := map_option (add_balance n) (LsAccounts st a))\<rparr>"
| "item_write (AddSummary k d c) st = st\<lparr>LsSummary := (LsSummary st)(k \<mapsto> add_totals d c (totals_of (LsSummary st) k))\<rparr>"
| "item_write (PutReversal i t) st = st\<lparr>LsReversals := (LsReversals st)(i \<mapsto> t)\<rparr>"
| "item_write (PutOpening a t) st = st\<lparr>LsOpenings := (LsOpenings st)(a \<mapsto> t)\<rparr>"
| "item_write (DeleteOpening a) st = st\<lparr>LsOpenings := (LsOpenings st)(a := None)\<rparr>"
| "item_write (PutAudit t actor) st = st\<lparr>LsAudit := LsAudit st @ [(t, actor)]\<rparr>"

datatype write_error = Rejected | Cancelled "bool list"

definition TransactWrite :: "ledger_item list \<Rightarrow> ledger_store \<Rightarrow> (write_error, ledger_store) result" where
  "TransactWrite items st =
     (if length items > 100 \<or> \<not> distinct (map item_key items) then Inl Rejected
      else if list_all (\<lambda>i. item_cond i st) items then Inr (fold item_write items st)
      else Inl (Cancelled (map (\<lambda>i. \<not> item_cond i st) items)))"

subsection \<open>Posting\<close>

datatype ledger_error = ErrSpace space_error | ErrTx tx_error | ErrUnknownAccount | ErrAlreadyReversed | ErrOpeningExists
  | ErrAccountHasEntries | ErrNotManual | ErrAccountIsSynced | ErrTxNotFound | ErrReversalPosted | ErrWriteRejected

record PostMeta =
  PmOrigin :: string
  PmActor :: string
  PmRequestID :: string
  PmIdempotencyKey :: string
  PmMemo :: string
  PmRef :: string
  PmTxID :: string

definition leg_entry :: "string \<Rightarrow> Transaction \<Rightarrow> PostMeta \<Rightarrow> TxKind \<Rightarrow> bool \<Rightarrow> nat \<Rightarrow> Leg \<Rightarrow> entryItem" where
  "leg_entry txID tx meta entryKind reversal i l =
     \<lparr>EiAccountID = LegAccountID l, EiTxID = txID, EiDate = TxDate tx, EiLeg = i, EiAmount = LegAmount l,
      EiKind = entryKind, EiFlow = LegFlow l, EiMemo = PmMemo meta, EiRef = PmRef meta, EiReversal = reversal\<rparr>"

text \<open>The items of one leg: its entry and, unless the totals are gathered, the two \<open>ADD\<close>s.\<close>

definition leg_items :: "string \<Rightarrow> Transaction \<Rightarrow> PostMeta \<Rightarrow> TxKind \<Rightarrow> bool \<Rightarrow> bool \<Rightarrow> nat \<times> Leg \<Rightarrow> ledger_item list" where
  "leg_items txID tx meta entryKind reversal gathered = (\<lambda>(i, l).
     PutEntry (leg_entry txID tx meta entryKind reversal i l) #
     (if gathered then []
      else [AddBalance (LegAccountID l) (LegAmount l),
            AddSummary (MonthOf (TxDate tx), LegAccountID l)
              (if LegAmount l > 0 then LegAmount l else 0)
              (if LegAmount l > 0 then 0 else wrap64 (- LegAmount l))]))"

definition postItemsWith ::
  "string \<Rightarrow> Transaction \<Rightarrow> PostMeta \<Rightarrow> TxKind \<Rightarrow> bool \<Rightarrow> bool \<Rightarrow> ledger_item list \<times> nat option" where
  "postItemsWith txID tx meta entryKind reversal gathered =
     (let header = PutTx \<lparr>StID = txID, StTx = tx, StOrigin = PmOrigin meta, StActor = PmActor meta,
                          StMemo = PmMemo meta, StRef = PmRef meta\<rparr>;
          items = header # concat (map (leg_items txID tx meta entryKind reversal gathered) (enumerate 0 (TxLegs tx)));
          audit = [PutAudit txID (PmActor meta)]
      in if TxAdjusts tx \<noteq> '''' then (items @ [PutReversal (TxAdjusts tx) txID] @ audit, Some (length items))
         else (items @ audit, None))"

record ledgerPlan =
  PlTxID :: string
  PlItems :: "ledger_item list"
  PlMarkerIdx :: "nat option"

definition planPostAs ::
  "ResolvedSpace \<Rightarrow> Transaction \<Rightarrow> PostMeta \<Rightarrow> string \<Rightarrow> TxKind \<Rightarrow> bool \<Rightarrow> (ledger_error, ledgerPlan) result" where
  "planPostAs sp tx meta fresh entryKind reversal =
     (case Require sp (if TxKindOf tx = KindSettlement then Write OR Settle else Write) of
        Some err \<Rightarrow> Inl (ErrSpace err)
      | None \<Rightarrow>
        (case NewTransaction (TxKindOf tx) (TxDate tx) (TxLegs tx) of
           Inl err \<Rightarrow> Inl (ErrTx err)
         | Inr checked \<Rightarrow>
           let checked = checked\<lparr>TxAdjusts := TxAdjusts tx\<rparr>;
               txID = (if PmTxID meta \<noteq> '''' then PmTxID meta else fresh);
               (items, marker) = postItemsWith txID checked meta entryKind reversal False
           in Inr \<lparr>PlTxID = txID, PlItems = items, PlMarkerIdx = marker\<rparr>))"

definition planPost :: "ResolvedSpace \<Rightarrow> Transaction \<Rightarrow> PostMeta \<Rightarrow> string \<Rightarrow> (ledger_error, ledgerPlan) result" where
  "planPost sp tx meta fresh = planPostAs sp tx meta fresh (TxKindOf tx) False"

definition classifyPostCancel :: "write_error \<Rightarrow> nat option \<Rightarrow> ledger_error" where
  "classifyPostCancel err markerIdx =
     (case err of
        Rejected \<Rightarrow> ErrWriteRejected
      | Cancelled codes \<Rightarrow>
          (case markerIdx of
             Some i \<Rightarrow> if i < length codes \<and> codes ! i then ErrAlreadyReversed else ErrUnknownAccount
           | None \<Rightarrow> ErrUnknownAccount))"

definition post :: "ResolvedSpace \<Rightarrow> Transaction \<Rightarrow> PostMeta \<Rightarrow> string \<Rightarrow> ledger_store \<Rightarrow> (ledger_error, string \<times> ledger_store) result" where
  "post sp tx meta fresh st =
     (case planPost sp tx meta fresh of
        Inl err \<Rightarrow> Inl err
      | Inr plan \<Rightarrow>
        (case TransactWrite (PlItems plan) st of
           Inl err \<Rightarrow> Inl (classifyPostCancel err (PlMarkerIdx plan))
         | Inr st' \<Rightarrow> Inr (PlTxID plan, st')))"

definition Post :: "ResolvedSpace \<Rightarrow> Transaction \<Rightarrow> PostMeta \<Rightarrow> string \<Rightarrow> ledger_store \<Rightarrow> (ledger_error, string \<times> ledger_store) result" where
  "Post sp tx meta fresh st =
     (if TxAdjusts tx \<noteq> '''' \<or> TxKindOf tx = KindReversal then Inl ErrReversalPosted
      else post sp tx meta fresh st)"

subsection \<open>Reading\<close>

text \<open>\<open>stored\<close> revalidates what it reads; a header it refuses is an error of the read.\<close>

definition stored :: "StoredTx \<Rightarrow> (ledger_error, StoredTx) result" where
  "stored t =
     (case NewTransaction (TxKindOf (StTx t)) (TxDate (StTx t)) (TxLegs (StTx t)) of
        Inl err \<Rightarrow> Inl (ErrTx err)
      | Inr tx \<Rightarrow> Inr (t\<lparr>StTx := tx\<lparr>TxAdjusts := TxAdjusts (StTx t)\<rparr>\<rparr>))"

definition GetTransaction :: "ResolvedSpace \<Rightarrow> string \<Rightarrow> ledger_store \<Rightarrow> (ledger_error, StoredTx) result" where
  "GetTransaction sp txID st =
     (case Require sp Read of
        Some err \<Rightarrow> Inl (ErrSpace err)
      | None \<Rightarrow> (case find (\<lambda>t. StID t = txID) (LsTxs st) of None \<Rightarrow> Inl ErrTxNotFound | Some t \<Rightarrow> stored t))"

fun stored_all :: "StoredTx list \<Rightarrow> (ledger_error, Transaction list) result" where
  "stored_all [] = Inr []"
| "stored_all (t # ts) =
     (case stored t of Inl err \<Rightarrow> Inl err
      | Inr t' \<Rightarrow> (case stored_all ts of Inl err \<Rightarrow> Inl err | Inr txs \<Rightarrow> Inr (StTx t' # txs)))"

definition AllTransactions :: "ResolvedSpace \<Rightarrow> ledger_store \<Rightarrow> (ledger_error, Transaction list) result" where
  "AllTransactions sp st =
     (case Require sp Read of Some err \<Rightarrow> Inl (ErrSpace err) | None \<Rightarrow> stored_all (LsTxs st))"

subsection \<open>Reversing\<close>

definition planReverse ::
  "ResolvedSpace \<Rightarrow> string \<Rightarrow> Date \<Rightarrow> PostMeta \<Rightarrow> string \<Rightarrow> ledger_store \<Rightarrow> (ledger_error, ledgerPlan) result" where
  "planReverse sp originalID date meta fresh st =
     (case Require sp Write of
        Some err \<Rightarrow> Inl (ErrSpace err)
      | None \<Rightarrow>
        (case GetTransaction sp originalID st of
           Inl err \<Rightarrow> Inl err
         | Inr orig \<Rightarrow>
           (case (if TxKindOf (StTx orig) = KindSettlement then Require sp Settle else None) of
              Some err \<Rightarrow> Inl (ErrSpace err)
            | None \<Rightarrow>
              (case Reverse (StTx orig) originalID date of
                 Inl err \<Rightarrow> Inl (ErrTx err)
               | Inr r \<Rightarrow>
                 let meta = (if PmMemo meta = '''' then meta\<lparr>PmMemo := StMemo orig\<rparr> else meta);
                     meta = (if PmRef meta = '''' then meta\<lparr>PmRef := StRef orig\<rparr> else meta)
                 in planPostAs sp r meta fresh (TxKindOf (StTx orig)) True))))"

definition LedgerReverse ::
  "ResolvedSpace \<Rightarrow> string \<Rightarrow> Date \<Rightarrow> PostMeta \<Rightarrow> string \<Rightarrow> ledger_store \<Rightarrow> (ledger_error, string \<times> ledger_store) result" where
  "LedgerReverse sp originalID date meta fresh st =
     (case planReverse sp originalID date meta fresh st of
        Inl err \<Rightarrow> Inl err
      | Inr plan \<Rightarrow>
        (case TransactWrite (PlItems plan) st of
           Inl err \<Rightarrow> Inl (classifyPostCancel err (PlMarkerIdx plan))
         | Inr st' \<Rightarrow> Inr (PlTxID plan, st')))"


subsection \<open>Transfers and opening balances\<close>

definition getAccount :: "string \<Rightarrow> ledger_store \<Rightarrow> AccountRow option" where
  "getAccount i st = LsAccounts st i"

definition activeCashRow :: "string \<Rightarrow> ledger_store \<Rightarrow> (ledger_error, AccountRow) result" where
  "activeCashRow i st =
     (case getAccount i st of
        None \<Rightarrow> Inl ErrUnknownAccount
      | Some acct \<Rightarrow>
          if LaClass (RowAccount acct) \<noteq> ClassAsset \<or> LaSystem (RowAccount acct) \<or> RowArchived acct
          then Inl ErrUnknownAccount else Inr acct)"

definition activeManualCash :: "string \<Rightarrow> ledger_store \<Rightarrow> ledger_error option" where
  "activeManualCash i st =
     (case activeCashRow i st of
        Inl err \<Rightarrow> Some err
      | Inr acct \<Rightarrow> if LaSource (RowAccount acct) = SourceBYOK then Some ErrAccountIsSynced else None)"

definition default_memo :: "string \<Rightarrow> PostMeta \<Rightarrow> PostMeta" where
  "default_memo s meta = (if PmMemo meta = '''' then meta\<lparr>PmMemo := s\<rparr> else meta)"

definition postOpening ::
  "ResolvedSpace \<Rightarrow> string \<Rightarrow> Cents \<Rightarrow> Date \<Rightarrow> PostMeta \<Rightarrow> string \<Rightarrow> ledger_store \<Rightarrow> (ledger_error, string \<times> ledger_store) result" where
  "postOpening sp accountID amount date meta fresh st =
     (case OpeningBalance (fst DefaultSystemAccounts) accountID amount date of
        Inl err \<Rightarrow> Inl (ErrTx err)
      | Inr tx \<Rightarrow>
        (case planPost sp tx (default_memo ''Saldo inicial'' meta) fresh of
           Inl err \<Rightarrow> Inl err
         | Inr plan \<Rightarrow>
           let openingIdx = length (PlItems plan);
               items = PlItems plan @ [PutOpening accountID (PlTxID plan)]
           in (case TransactWrite items st of
                 Inr st' \<Rightarrow> Inr (PlTxID plan, st')
               | Inl err \<Rightarrow>
                   if (case err of Cancelled codes \<Rightarrow> codes ! openingIdx | Rejected \<Rightarrow> False) then Inl ErrOpeningExists
                   else Inl (classifyPostCancel err (PlMarkerIdx plan)))))"

definition PostOpeningBalance ::
  "ResolvedSpace \<Rightarrow> string \<Rightarrow> Cents \<Rightarrow> Date \<Rightarrow> PostMeta \<Rightarrow> string \<Rightarrow> ledger_store \<Rightarrow> (ledger_error, string \<times> ledger_store) result" where
  "PostOpeningBalance sp accountID amount date meta fresh st =
     (case Require sp Configure of
        Some err \<Rightarrow> Inl (ErrSpace err)
      | None \<Rightarrow>
        (case activeManualCash accountID st of
           Some err \<Rightarrow> Inl err
         | None \<Rightarrow> postOpening sp accountID amount date meta fresh st))"

definition transfer_memo :: string where
  "transfer_memo = ''Transfer'' @ bytes [195, 170] @ ''ncia''"

text \<open>\<open>derive_id kind key\<close> stands for \<open>idempotentID(sp, kind, key)\<close>.\<close>

definition PostTransfer ::
  "(string \<Rightarrow> string \<Rightarrow> string) \<Rightarrow> ResolvedSpace \<Rightarrow> string \<Rightarrow> string \<Rightarrow> Cents \<Rightarrow> Date \<Rightarrow> PostMeta \<Rightarrow> string \<Rightarrow>
     ledger_store \<Rightarrow> (ledger_error, string \<times> ledger_store) result" where
  "PostTransfer derive_id sp src dst amount date meta fresh st =
     (case Require sp Write of
        Some err \<Rightarrow> Inl (ErrSpace err)
      | None \<Rightarrow>
        if src = dst then Inl (ErrTx ErrSameAccount)
        else case activeManualCash src st of Some err \<Rightarrow> Inl err
          | None \<Rightarrow>
            (case activeManualCash dst st of Some err \<Rightarrow> Inl err
             | None \<Rightarrow>
               (case Transfer src dst amount date of
                  Inl err \<Rightarrow> Inl (ErrTx err)
                | Inr tx \<Rightarrow>
                  let meta = default_memo transfer_memo meta
                  in if PmIdempotencyKey meta = '''' then post sp tx meta fresh st
                     else (case planPost sp tx (meta\<lparr>PmTxID := derive_id ''transfer'' (PmIdempotencyKey meta)\<rparr>) fresh of
                         Inl err \<Rightarrow> Inl err
                       | Inr plan \<Rightarrow>
                         (case TransactWrite (PlItems plan) st of
                            Inr st' \<Rightarrow> Inr (PlTxID plan, st')
                          | Inl err \<Rightarrow>
                              if (case err of Cancelled codes \<Rightarrow> codes \<noteq> [] \<and> codes ! 0 | Rejected \<Rightarrow> False)
                              then Inr (PlTxID plan, st)
                              else Inl (classifyPostCancel err (PlMarkerIdx plan))))))) "

definition refuseSyncedLegs :: "Transaction \<Rightarrow> ledger_store \<Rightarrow> ledger_error option" where
  "refuseSyncedLegs tx st =
     (if list_ex (\<lambda>l. case getAccount (LegAccountID l) st of
          None \<Rightarrow> False | Some acct \<Rightarrow> LaSource (RowAccount acct) = SourceBYOK) (TxLegs tx)
      then Some ErrAccountIsSynced else None)"

definition ReverseManual ::
  "ResolvedSpace \<Rightarrow> string \<Rightarrow> Date \<Rightarrow> PostMeta \<Rightarrow> string \<Rightarrow> ledger_store \<Rightarrow> (ledger_error, string \<times> ledger_store) result" where
  "ReverseManual sp txID date meta fresh st =
     (case GetTransaction sp txID st of
        Inl err \<Rightarrow> Inl err
      | Inr orig \<Rightarrow>
        if TxKindOf (StTx orig) \<noteq> KindTransfer \<and> TxKindOf (StTx orig) \<noteq> KindOpeningBalance then Inl ErrNotManual
        else case refuseSyncedLegs (StTx orig) st of Some err \<Rightarrow> Inl err
          | None \<Rightarrow>
            (case (if TxKindOf (StTx orig) = KindOpeningBalance then Require sp Configure else None) of
               Some err \<Rightarrow> Inl (ErrSpace err)
             | None \<Rightarrow>
               (case planReverse sp txID date meta fresh st of
                  Inl err \<Rightarrow> Inl err
                | Inr plan \<Rightarrow>
                  let items = PlItems plan @
                    (if TxKindOf (StTx orig) = KindOpeningBalance
                     then map (\<lambda>l. DeleteOpening (LegAccountID l)) (filter (\<lambda>l. LegFlow l = FlowNone) (TxLegs (StTx orig)))
                     else [])
                  in (case TransactWrite items st of
                        Inl err \<Rightarrow> Inl (classifyPostCancel err (PlMarkerIdx plan))
                      | Inr st' \<Rightarrow> Inr (PlTxID plan, st')))))"

subsection \<open>The chart\<close>

datatype chart_error = ErrChartSpace space_error | ErrChartSystem | ErrChartInvalid account_error | ErrAccountExists | ErrAccountNotFound

definition newAccountItem :: "LedgerAccount \<Rightarrow> AccountRow" where
  "newAccountItem a = \<lparr>RowAccount = a, RowBalance = 0, RowArchived = False\<rparr>"

text \<open>The rows \<open>EnsureSpace\<close> creates; a space that exists is left as it is.\<close>

definition EnsureSpace :: ledger_store where
  "EnsureSpace =
     \<lparr>LsAccounts = map_of (map (\<lambda>a. (LaID a, newAccountItem a)) (snd DefaultSystemAccounts)),
      LsSummary = Map.empty, LsTxs = [], LsEntries = [], LsReversals = Map.empty, LsOpenings = Map.empty, LsAudit = []\<rparr>"

definition CreateAccount :: "ResolvedSpace \<Rightarrow> LedgerAccount \<Rightarrow> ledger_store \<Rightarrow> (chart_error, ledger_store) result" where
  "CreateAccount sp a st =
     (case Require sp Configure of
        Some err \<Rightarrow> Inl (ErrChartSpace err)
      | None \<Rightarrow>
        if LaSystem a then Inl ErrChartSystem
        else case AccountValidate a of
          Some err \<Rightarrow> Inl (ErrChartInvalid err)
        | None \<Rightarrow>
            if LsAccounts st (LaID a) \<noteq> None then Inl ErrAccountExists
            else Inr (st\<lparr>LsAccounts := (LsAccounts st)(LaID a \<mapsto> newAccountItem a)\<rparr>))"

definition ArchiveAccount :: "ResolvedSpace \<Rightarrow> string \<Rightarrow> ledger_store \<Rightarrow> (chart_error, ledger_store) result" where
  "ArchiveAccount sp i st =
     (case Require sp Configure of
        Some err \<Rightarrow> Inl (ErrChartSpace err)
      | None \<Rightarrow>
        (case getAccount i st of
           None \<Rightarrow> Inl ErrAccountNotFound
         | Some acct \<Rightarrow>
             if LaSystem (RowAccount acct) then Inl ErrChartSystem
             else Inr (st\<lparr>LsAccounts := (LsAccounts st)(i \<mapsto> acct\<lparr>RowArchived := True\<rparr>)\<rparr>)))"

subsection \<open>The rebuild\<close>

datatype Drift = BalanceDrift string int Cents | SummaryDrift SummaryKey Totals Totals

definition stored_balances :: "ledger_store \<Rightarrow> string \<rightharpoonup> Cents" where
  "stored_balances st a = map_option RowBalance (LsAccounts st a)"

text \<open>
  \<open>Compare\<close> walks the union of the stored and the derived keys, a missing row counting as zero,
  and sorts its report. The two key unions are its arguments \<open>accts\<close> and \<open>ks\<close>, in the order of
  the report.
\<close>

definition LedgerCompare :: "string list \<Rightarrow> SummaryKey list \<Rightarrow> ledger_store \<Rightarrow> Derived \<Rightarrow> Drift list" where
  "LedgerCompare accts ks st d =
     map (\<lambda>a. BalanceDrift a (balance_of (stored_balances st) a) (balance_of (Balances d) a))
       (filter (\<lambda>a. balance_of (stored_balances st) a \<noteq> balance_of (Balances d) a) accts) @
     map (\<lambda>k. SummaryDrift k (totals_of (LsSummary st) k) (totals_of (Summary d) k))
       (filter (\<lambda>k. totals_of (LsSummary st) k \<noteq> totals_of (Summary d) k) ks)"

text \<open>A balance drift of an account outside the chart is reported and not written.\<close>

primrec apply_drift :: "Drift \<Rightarrow> ledger_store \<Rightarrow> ledger_store" where
  "apply_drift (BalanceDrift a s d) st =
     st\<lparr>LsAccounts := (LsAccounts st)(a := map_option (\<lambda>row. row\<lparr>RowBalance := d\<rparr>) (LsAccounts st a))\<rparr>"
| "apply_drift (SummaryDrift k s d) st = st\<lparr>LsSummary := (LsSummary st)(k \<mapsto> d)\<rparr>"

definition applyDrift :: "Drift list \<Rightarrow> ledger_store \<Rightarrow> ledger_store" where
  "applyDrift drift st = fold apply_drift drift st"

definition Rebuild ::
  "string list \<Rightarrow> SummaryKey list \<Rightarrow> ResolvedSpace \<Rightarrow> bool \<Rightarrow> ledger_store \<Rightarrow> (ledger_error, Drift list \<times> ledger_store) result" where
  "Rebuild accts ks sp app st =
     (case Require sp Configure of
        Some err \<Rightarrow> Inl (ErrSpace err)
      | None \<Rightarrow>
        (case AllTransactions sp st of
           Inl err \<Rightarrow> Inl err
         | Inr txs \<Rightarrow>
           let drift = LedgerCompare accts ks st (Derive txs)
           in Inr (drift, if app then applyDrift drift st else st)))"


subsection \<open>What a plan writes\<close>

definition txs_of :: "ledger_store \<Rightarrow> Transaction list" where
  "txs_of st = map StTx (LsTxs st)"

lemma txs_of_accounts [simp]: "txs_of (st\<lparr>LsAccounts := acc\<rparr>) = txs_of st" "txs_of (st\<lparr>LsSummary := sm\<rparr>) = txs_of st"
  by (simp_all add: txs_of_def)

lemma add_balance_simps [simp]: "add_balance 0 row = row" "add_balance m (add_balance n row) = add_balance (n + m) row"
  "RowBalance (add_balance n row) = RowBalance row + n" "RowAccount (add_balance n row) = RowAccount row"
  by (simp_all add: add_balance_def)

lemma add_totals_simps [simp]: "add_totals 0 0 t = t" "add_totals d c (add_totals d' c' t) = add_totals (d' + d) (c' + c) t"
  "Debits (add_totals d c t) = Debits t + d" "Credits (add_totals d c t) = Credits t + c"
  by (simp_all add: add_totals_def)

lemma leg_debit: "leg_ok l \<Longrightarrow> (if LegAmount l > 0 then LegAmount l else 0) = max 0 (LegAmount l)"
  "leg_ok l \<Longrightarrow> (if LegAmount l > 0 then 0 else wrap64 (- LegAmount l)) = max 0 (- LegAmount l)"
  by (auto simp: leg_ok_def wrap64_uminus)


text \<open>The legs of a transaction, written one after the other, move each account and summary by their sums.\<close>

definition write_leg :: "string \<Rightarrow> Transaction \<Rightarrow> PostMeta \<Rightarrow> TxKind \<Rightarrow> bool \<Rightarrow> nat \<times> Leg \<Rightarrow> ledger_store \<Rightarrow> ledger_store" where
  "write_leg txID tx meta k rv el st = fold item_write (leg_items txID tx meta k rv False el) st"

lemma fold_leg_items:
  "fold item_write (concat (map (leg_items txID tx meta k rv False) els)) st = fold (write_leg txID tx meta k rv) els st"
  by (induction els arbitrary: st) (simp_all add: write_leg_def)

lemma write_leg_frame [simp]:
  "LsTxs (write_leg txID tx meta k rv el st) = LsTxs st" "LsReversals (write_leg txID tx meta k rv el st) = LsReversals st"
  "LsOpenings (write_leg txID tx meta k rv el st) = LsOpenings st" "LsAudit (write_leg txID tx meta k rv el st) = LsAudit st"
  "LsEntries (write_leg txID tx meta k rv el st) = LsEntries st @ [leg_entry txID tx meta k rv (fst el) (snd el)]"
  by (simp_all add: write_leg_def leg_items_def split: prod.splits)

lemma write_leg_account:
  "LsAccounts (write_leg txID tx meta k rv el st) a = map_option (add_balance (leg_effect a (snd el))) (LsAccounts st a)"
  by (cases "LsAccounts st a") (auto simp: write_leg_def leg_items_def leg_effect_def split: prod.splits)

lemma write_leg_summary:
  "leg_ok (snd el) \<Longrightarrow> totals_of (LsSummary (write_leg txID tx meta k rv el st)) s =
     (if MonthOf (TxDate tx) = fst s
      then add_totals (max 0 (leg_effect (snd s) (snd el))) (max 0 (- leg_effect (snd s) (snd el))) (totals_of (LsSummary st) s)
      else totals_of (LsSummary st) s)"
  using leg_debit [of "snd el"]
  by (cases s; cases el) (auto simp: write_leg_def leg_items_def leg_effect_def totals_of_def)

lemma write_legs_frame [simp]:
  "LsTxs (fold (write_leg txID tx meta k rv) els st) = LsTxs st"
  "LsReversals (fold (write_leg txID tx meta k rv) els st) = LsReversals st"
  "LsOpenings (fold (write_leg txID tx meta k rv) els st) = LsOpenings st"
  "LsAudit (fold (write_leg txID tx meta k rv) els st) = LsAudit st"
  "LsEntries (fold (write_leg txID tx meta k rv) els st) = LsEntries st @ map (\<lambda>el. leg_entry txID tx meta k rv (fst el) (snd el)) els"
  by (induction els arbitrary: st) simp_all

lemma write_legs_account:
  "LsAccounts (fold (write_leg txID tx meta k rv) els st) a =
     map_option (add_balance (sum_list (map (leg_effect a) (map snd els)))) (LsAccounts st a)"
proof (induction els arbitrary: st)
  case Nil
  then show ?case by (cases "LsAccounts st a") simp_all
next
  case (Cons el els)
  then show ?case by (cases "LsAccounts st a") (simp_all add: write_leg_account)
qed

lemma write_legs_summary:
  "list_all leg_ok (map snd els) \<Longrightarrow> totals_of (LsSummary (fold (write_leg txID tx meta k rv) els st)) s =
     (if MonthOf (TxDate tx) = fst s
      then add_totals (sum_list (map (\<lambda>l. max 0 (leg_effect (snd s) l)) (map snd els)))
             (sum_list (map (\<lambda>l. max 0 (- leg_effect (snd s) l)) (map snd els))) (totals_of (LsSummary st) s)
      else totals_of (LsSummary st) s)"
  by (induction els arbitrary: st) (simp_all add: write_leg_summary)

text \<open>The conditions of the legs' items.\<close>

lemma leg_items_cond:
  "list_all (\<lambda>i. item_cond i st) (concat (map (leg_items txID tx meta k rv False) els)) \<Longrightarrow>
   LegAccountID ` snd ` set els \<subseteq> dom (LsAccounts st)"
  by (induction els) (auto simp: leg_items_def)

subsection \<open>The invariant\<close>

definition opening_item :: "ledger_item \<Rightarrow> bool" where
  "opening_item i = (case i of PutOpening _ _ \<Rightarrow> True | DeleteOpening _ \<Rightarrow> True | _ \<Rightarrow> False)"

lemma write_opening_items [simp]:
  "list_all opening_item xs \<Longrightarrow> LsTxs (fold item_write xs st) = LsTxs st"
  "list_all opening_item xs \<Longrightarrow> LsAccounts (fold item_write xs st) = LsAccounts st"
  "list_all opening_item xs \<Longrightarrow> LsSummary (fold item_write xs st) = LsSummary st"
  "list_all opening_item xs \<Longrightarrow> LsReversals (fold item_write xs st) = LsReversals st"
  "list_all opening_item xs \<Longrightarrow> LsEntries (fold item_write xs st) = LsEntries st"
  by (induction xs arbitrary: st) (auto simp: opening_item_def split: ledger_item.splits)

text \<open>
  The caches are what the stored transactions say, every account moved is in the chart, and a
  reversal marker stands for the one stored reversal of a stored transaction.
\<close>

definition cache_ok :: "ledger_store \<Rightarrow> bool" where
  "cache_ok st \<longleftrightarrow>
     (\<forall>a. case LsAccounts st a of
        None \<Rightarrow> a \<notin> touched (txs_of st)
      | Some row \<Rightarrow> RowBalance row = net (txs_of st) a) \<and>
     (\<forall>k. totals_of (LsSummary st) k = \<lparr>Debits = month_debits (txs_of st) k, Credits = month_credits (txs_of st) k\<rparr>)"

definition reversals_ok :: "ledger_store \<Rightarrow> bool" where
  "reversals_ok st \<longleftrightarrow>
     (\<forall>i r. LsReversals st i = Some r \<longleftrightarrow> i \<noteq> '''' \<and> (\<exists>t \<in> set (LsTxs st). StID t = r \<and> TxAdjusts (StTx t) = i)) \<and>
     (\<forall>t \<in> set (LsTxs st). TxAdjusts (StTx t) \<noteq> '''' \<longrightarrow>
        TxKindOf (StTx t) = KindReversal \<and>
        (\<exists>o' \<in> set (LsTxs st). StID o' = TxAdjusts (StTx t) \<and> TxKindOf (StTx o') \<noteq> KindReversal \<and>
          (\<forall>a. effect (StTx t) a = - effect (StTx o') a)))"

definition ledger_inv :: "ledger_store \<Rightarrow> bool" where
  "ledger_inv st \<longleftrightarrow>
     distinct (map StID (LsTxs st)) \<and> list_all tx_valid (txs_of st) \<and> cache_ok st \<and> reversals_ok st"


lemma sum_insort_key: "sum_list (map f (insort_key g x xs)) = f x + sum_list (map f xs)"
  for f :: "'a \<Rightarrow> int"
  by (induction xs) auto

lemma distinct_insort_id: "distinct (map f (insort_key f t ts)) \<longleftrightarrow> f t \<notin> f ` set ts \<and> distinct (map f ts)"
  by (induction ts) (auto simp: set_insort_key)

lemma net_insort: "net (map StTx (insort_key StID t ts)) a = effect (StTx t) a + net (map StTx ts) a"
  by (simp add: net_def o_def sum_insort_key)

lemma month_insort:
  "month_debits (map StTx (insort_key StID t ts)) k = month_debits [StTx t] k + month_debits (map StTx ts) k"
  "month_credits (map StTx (insort_key StID t ts)) k = month_credits [StTx t] k + month_credits (map StTx ts) k"
  by (simp_all add: month_debits_def month_credits_def o_def sum_insort_key)

lemma touched_insort: "touched (map StTx (insort_key StID t ts)) = LegAccountID ` set (TxLegs (StTx t)) \<union> touched (map StTx ts)"
  by (auto simp: touched_def set_insort_key)

text \<open>A plan that commits has written exactly its transaction; \<open>extra\<close> are the markers some callers add.\<close>

lemma commit_post:
  assumes "TransactWrite (fst (postItemsWith txID tx meta k rv False) @ extra) st = Inr st'"
    and "list_all opening_item extra" "tx_valid tx"
  obtains t where "StID t = txID" "StTx t = tx" "LsTxs st' = insort_key StID t (LsTxs st)" "txID \<notin> StID ` set (LsTxs st)"
    "\<forall>a. LsAccounts st' a = map_option (add_balance (effect tx a)) (LsAccounts st a)"
    "\<forall>s. totals_of (LsSummary st') s = add_totals (month_debits [tx] s) (month_credits [tx] s) (totals_of (LsSummary st) s)"
    "LegAccountID ` set (TxLegs tx) \<subseteq> dom (LsAccounts st)"
    "LsReversals st' = (if TxAdjusts tx \<noteq> '''' then (LsReversals st)(TxAdjusts tx \<mapsto> txID) else LsReversals st)"
    "TxAdjusts tx \<noteq> '''' \<longrightarrow> LsReversals st (TxAdjusts tx) = None"
proof -
  define t where "t = \<lparr>StID = txID, StTx = tx, StOrigin = PmOrigin meta, StActor = PmActor meta, StMemo = PmMemo meta, StRef = PmRef meta\<rparr>"
  define ls where "ls = concat (map (leg_items txID tx meta k rv False) (enumerate 0 (TxLegs tx)))"
  define mk where "mk = (if TxAdjusts tx \<noteq> '''' then [PutReversal (TxAdjusts tx) txID] else [])"
  have items: "fst (postItemsWith txID tx meta k rv False) = PutTx t # ls @ mk @ [PutAudit txID (PmActor meta)]"
    by (simp add: postItemsWith_def t_def ls_def mk_def Let_def)
  define st1 where "st1 = fold (write_leg txID tx meta k rv) (enumerate 0 (TxLegs tx)) (item_write (PutTx t) st)"
  have c: "list_all (\<lambda>i. item_cond i st) (PutTx t # ls @ mk)"
    and st': "st' = fold item_write extra (item_write (PutAudit txID (PmActor meta)) (fold item_write mk st1))"
    using assms(1) unfolding items TransactWrite_def st1_def
    by (auto simp: ls_def fold_leg_items split: if_splits)
  have ok: "list_all leg_ok (map snd (enumerate 0 (TxLegs tx)))" using assms(3) by (simp add: tx_valid_def)
  have mk1: "LsTxs (fold item_write mk st1) = LsTxs st1" "LsAccounts (fold item_write mk st1) = LsAccounts st1"
    "LsSummary (fold item_write mk st1) = LsSummary st1"
    "LsReversals (fold item_write mk st1) = (if TxAdjusts tx \<noteq> '''' then (LsReversals st1)(TxAdjusts tx \<mapsto> txID) else LsReversals st1)"
    by (simp_all add: mk_def)
  show thesis
  proof (rule that [of t])
    show "StID t = txID" "StTx t = tx" by (simp_all add: t_def)
    show "LsTxs st' = insort_key StID t (LsTxs st)" by (simp add: st' assms(2) mk1) (simp add: st1_def)
    show "txID \<notin> StID ` set (LsTxs st)" using c by (simp add: t_def)
    show "\<forall>a. LsAccounts st' a = map_option (add_balance (effect tx a)) (LsAccounts st a)"
      by (simp add: st' assms(2) mk1) (simp add: st1_def write_legs_account effect_def)
    show "\<forall>s. totals_of (LsSummary st') s = add_totals (month_debits [tx] s) (month_credits [tx] s) (totals_of (LsSummary st) s)"
      by (simp add: st' assms(2) mk1) (simp add: st1_def write_legs_summary [OF ok] month_debits_def month_credits_def)
    show "LegAccountID ` set (TxLegs tx) \<subseteq> dom (LsAccounts st)"
      using leg_items_cond [of st txID tx meta k rv "enumerate 0 (TxLegs tx)"] c
      by (simp add: ls_def image_image [symmetric] flip: set_map)
    show "LsReversals st' = (if TxAdjusts tx \<noteq> '''' then (LsReversals st)(TxAdjusts tx \<mapsto> txID) else LsReversals st)"
      by (simp add: st' assms(2) mk1) (simp add: st1_def)
    show "TxAdjusts tx \<noteq> '''' \<longrightarrow> LsReversals st (TxAdjusts tx) = None"
      using c by (auto simp: mk_def split: if_splits)
  qed
qed

text \<open>
  Committing a valid transaction keeps the invariant, provided a reversal undoes a stored
  transaction that is not itself a reversal.
\<close>

lemma commit_post_inv:
  assumes w: "TransactWrite (fst (postItemsWith txID tx meta k rv False) @ extra) st = Inr st'"
    and "list_all opening_item extra" and v: "tx_valid tx" and inv: "ledger_inv st"
    and r: "TxAdjusts tx \<noteq> '''' \<longrightarrow> TxKindOf tx = KindReversal \<and>
      (\<exists>o' \<in> set (LsTxs st). StID o' = TxAdjusts tx \<and> TxKindOf (StTx o') \<noteq> KindReversal \<and>
        (\<forall>a. effect tx a = - effect (StTx o') a))"
  shows "ledger_inv st'"
proof -
  obtain t where t: "StID t = txID" "StTx t = tx" "LsTxs st' = insort_key StID t (LsTxs st)" "txID \<notin> StID ` set (LsTxs st)"
    and acc: "\<forall>a. LsAccounts st' a = map_option (add_balance (effect tx a)) (LsAccounts st a)"
    and summ: "\<forall>s. totals_of (LsSummary st') s = add_totals (month_debits [tx] s) (month_credits [tx] s) (totals_of (LsSummary st) s)"
    and known: "LegAccountID ` set (TxLegs tx) \<subseteq> dom (LsAccounts st)"
    and rev: "LsReversals st' = (if TxAdjusts tx \<noteq> '''' then (LsReversals st)(TxAdjusts tx \<mapsto> txID) else LsReversals st)"
    and fresh: "TxAdjusts tx \<noteq> '''' \<longrightarrow> LsReversals st (TxAdjusts tx) = None"
    using commit_post [OF w assms(2) v] by blast
  have set': "set (LsTxs st') = insert t (set (LsTxs st))" by (simp add: t(3) set_insort_key)
  have "distinct (map StID (LsTxs st'))"
    using inv t by (simp add: ledger_inv_def distinct_insort_id)
  moreover have "list_all tx_valid (txs_of st')"
    using inv v t by (auto simp: ledger_inv_def txs_of_def list_all_iff set_insort_key)
  moreover have "cache_ok st'"
  proof -
    have "case LsAccounts st' a of None \<Rightarrow> a \<notin> touched (txs_of st') | Some row \<Rightarrow> RowBalance row = net (txs_of st') a" for a
    proof (cases "LsAccounts st a")
      case None
      then have "a \<notin> touched (txs_of st)" "a \<notin> LegAccountID ` set (TxLegs tx)" "LsAccounts st' a = None"
        using inv known acc by (auto simp: ledger_inv_def cache_ok_def split: option.splits dest: spec [of _ a])
      then show ?thesis by (simp add: txs_of_def t touched_insort)
    next
      case (Some row)
      then have "RowBalance row = net (txs_of st) a"
        using inv unfolding ledger_inv_def cache_ok_def by (auto split: option.splits dest: spec [of _ a])
      then show ?thesis using acc Some by (simp add: txs_of_def t net_insort)
    qed
    moreover have "totals_of (LsSummary st') k = \<lparr>Debits = month_debits (txs_of st') k, Credits = month_credits (txs_of st') k\<rparr>" for k
      using inv summ t(2) by (cases k) (simp add: ledger_inv_def cache_ok_def txs_of_def t(3) month_insort add_totals_def)
    ultimately show ?thesis by (simp add: cache_ok_def)
  qed
  moreover have "reversals_ok st'"
  proof -
    have inv': "reversals_ok st" using inv by (simp add: ledger_inv_def)
    have "LsReversals st' i = Some x \<longleftrightarrow> i \<noteq> '''' \<and> (\<exists>t \<in> set (LsTxs st'). StID t = x \<and> TxAdjusts (StTx t) = i)" for i x
    proof -
      have old: "LsReversals st i = Some x \<longleftrightarrow> i \<noteq> '''' \<and> (\<exists>t \<in> set (LsTxs st). StID t = x \<and> TxAdjusts (StTx t) = i)" for i x
        using inv' unfolding reversals_ok_def by blast
      show ?thesis
      proof (cases "TxAdjusts tx \<noteq> '''' \<and> i = TxAdjusts tx")
        case True
        then have "\<not> (\<exists>t \<in> set (LsTxs st). StID t = x \<and> TxAdjusts (StTx t) = i)" for x
          using old [of i] fresh by auto
        then show ?thesis using True t(1,2) by (auto simp: rev set')
      next
        case False
        then show ?thesis using old [of i x] t(1,2) by (auto simp: rev set')
      qed
    qed
    moreover have "TxKindOf (StTx u) = KindReversal \<and>
        (\<exists>o' \<in> set (LsTxs st'). StID o' = TxAdjusts (StTx u) \<and> TxKindOf (StTx o') \<noteq> KindReversal \<and>
          (\<forall>a. effect (StTx u) a = - effect (StTx o') a))"
      if "u \<in> set (LsTxs st')" "TxAdjusts (StTx u) \<noteq> ''''" for u
    proof (cases "u = t")
      case True
      then show ?thesis using r that t(2) unfolding set' by blast
    next
      case False
      then have "u \<in> set (LsTxs st)" using that(1) by (simp add: set')
      then show ?thesis using inv' that(2) unfolding set' reversals_ok_def by blast
    qed
    ultimately show ?thesis unfolding reversals_ok_def by blast
  qed
  ultimately show ?thesis by (simp add: ledger_inv_def)
qed


subsection \<open>Every operation keeps it\<close>

lemma planPostAs_plan:
  assumes "planPostAs sp tx meta fresh k rv = Inr plan"
  obtains txID where "PlItems plan = fst (postItemsWith txID tx meta k rv False)" "PlTxID plan = txID" "tx_valid tx"
proof -
  obtain checked where c: "NewTransaction (TxKindOf tx) (TxDate tx) (TxLegs tx) = Inr checked"
    using assms by (auto simp: planPostAs_def split: option.splits sum.splits)
  then have "checked\<lparr>TxAdjusts := TxAdjusts tx\<rparr> = tx" "tx_valid tx"
    by (auto simp: NewTransaction_iff tx_valid_def)
  then show thesis
    using that [of "if PmTxID meta \<noteq> [] then PmTxID meta else fresh"] assms c
    by (auto simp: planPostAs_def Let_def split: option.splits prod.splits)
qed

lemma stored_id: "stored t = Inr t' \<Longrightarrow> t' = t \<and> tx_valid (StTx t)"
  by (auto simp: stored_def NewTransaction_iff tx_valid_def split: sum.splits)

lemma GetTransaction_stored:
  "GetTransaction sp i st = Inr t \<Longrightarrow> t \<in> set (LsTxs st) \<and> StID t = i \<and> tx_valid (StTx t)"
  by (auto simp: GetTransaction_def find_Some_iff split: option.splits dest!: stored_id)

lemma planReverse_plan:
  assumes "planReverse sp i d meta fresh st = Inr plan"
  obtains txID r o' meta' k where "PlItems plan = fst (postItemsWith txID r meta' k True False)" "PlTxID plan = txID" "tx_valid r"
    "o' \<in> set (LsTxs st)" "StID o' = i" "i \<noteq> ''''" "TxKindOf (StTx o') \<noteq> KindReversal" "TxKindOf r = KindReversal" "TxAdjusts r = i"
    "\<forall>a. effect r a = - effect (StTx o') a" "TxDate r = d" "GetTransaction sp i st = Inr o'"
proof -
  obtain o' where o: "GetTransaction sp i st = Inr o'"
    using assms by (auto simp: planReverse_def split: option.splits sum.splits)
  obtain r where r: "Reverse (StTx o') i d = Inr r"
    using assms o by (auto simp: planReverse_def split: option.splits sum.splits)
  obtain meta' where p: "planPostAs sp r meta' fresh (TxKindOf (StTx o')) True = Inr plan"
    using assms o r by (auto simp: planReverse_def Let_def split: option.splits)
  have ne: "i \<noteq> ''''" "TxKindOf (StTx o') \<noteq> KindReversal" using r by (auto simp: Reverse_def split: if_splits)
  obtain txID where "PlItems plan = fst (postItemsWith txID r meta' (TxKindOf (StTx o')) True False)" "PlTxID plan = txID" "tx_valid r"
    using planPostAs_plan [OF p] by blast
  then show thesis
    using that GetTransaction_stored [OF o] Reverse_effect [OF r] ne o by blast
qed

lemma post_inv:
  assumes "post sp tx meta fresh st = Inr (i, st')" "ledger_inv st" "TxAdjusts tx = ''''"
  shows "ledger_inv st'"
proof -
  obtain plan where p: "planPost sp tx meta fresh = Inr plan" "TransactWrite (PlItems plan @ []) st = Inr st'"
    using assms(1) by (auto simp: post_def split: sum.splits)
  obtain txID where "PlItems plan = fst (postItemsWith txID tx meta (TxKindOf tx) False False)" "tx_valid tx"
    using p(1) planPostAs_plan unfolding planPost_def by blast
  then show ?thesis using commit_post_inv [of txID tx meta _ False "[]"] p(2) assms(2,3) by simp
qed

lemma reverse_inv:
  assumes "planReverse sp i d meta fresh st = Inr plan" "TransactWrite (PlItems plan @ extra) st = Inr st'"
    and "list_all opening_item extra" "ledger_inv st"
  shows "ledger_inv st'"
proof -
  obtain txID r o' meta' k where r: "PlItems plan = fst (postItemsWith txID r meta' k True False)" "tx_valid r"
    "o' \<in> set (LsTxs st)" "StID o' = i" "TxKindOf (StTx o') \<noteq> KindReversal" "TxKindOf r = KindReversal" "TxAdjusts r = i"
    "\<forall>a. effect r a = - effect (StTx o') a"
    using planReverse_plan [OF assms(1)] by metis
  show ?thesis
  proof (rule commit_post_inv [OF assms(2) [unfolded r(1)] assms(3) r(2) assms(4)])
    show "TxAdjusts r \<noteq> '''' \<longrightarrow> TxKindOf r = KindReversal \<and>
      (\<exists>o' \<in> set (LsTxs st). StID o' = TxAdjusts r \<and> TxKindOf (StTx o') \<noteq> KindReversal \<and>
        (\<forall>a. effect r a = - effect (StTx o') a))"
      using r by (intro impI conjI bexI [of _ o']) simp_all
  qed
qed

lemma opening_inv:
  assumes "postOpening sp a n d meta fresh st = Inr (i, st')" "ledger_inv st"
  shows "ledger_inv st'"
proof -
  obtain tx plan meta' where tx: "OpeningBalance (fst DefaultSystemAccounts) a n d = Inr tx"
    and p: "planPost sp tx meta' fresh = Inr plan" "TransactWrite (PlItems plan @ [PutOpening a (PlTxID plan)]) st = Inr st'"
    using assms(1) by (auto simp: postOpening_def Let_def split: sum.splits if_splits)
  have "TxAdjusts tx = ''''" using tx by (auto simp: OpeningBalance_def NewTransaction_iff split: if_splits)
  moreover obtain txID where "PlItems plan = fst (postItemsWith txID tx meta' (TxKindOf tx) False False)" "tx_valid tx"
    using p(1) planPostAs_plan unfolding planPost_def by blast
  ultimately show ?thesis
    using commit_post_inv [of txID tx meta' _ False "[PutOpening a (PlTxID plan)]"] p(2) assms(2)
    by (simp add: opening_item_def)
qed


lemma Transfer_adjusts: "Transfer a b n d = Inr tx \<Longrightarrow> TxAdjusts tx = ''''"
  by (auto simp: Transfer_def NewTransaction_iff split: if_splits)

lemma postItemsWith_header:
  "\<exists>t rest. fst (postItemsWith txID tx meta k rv g) = PutTx t # rest \<and> StID t = txID"
  by (simp add: postItemsWith_def Let_def)

text \<open>What a transfer does to the store: it posts through a plan, or finds its header there.\<close>

lemma PostTransfer_cases:
  assumes "PostTransfer derive_id sp a b n d meta fresh st = Inr (i, st')"
  obtains tx meta' where "Transfer a b n d = Inr tx" "post sp tx meta' fresh st = Inr (i, st')"
  | "PmIdempotencyKey meta \<noteq> ''''" "st' = st" "i \<in> StID ` set (LsTxs st)"
proof -
  define m where "m = default_memo transfer_memo meta"
  have key: "PmIdempotencyKey m = PmIdempotencyKey meta" by (simp add: m_def default_memo_def)
  obtain tx where tx: "Transfer a b n d = Inr tx"
    using assms by (auto simp: PostTransfer_def split: option.splits if_splits sum.splits)
  show thesis
  proof (cases "PmIdempotencyKey meta = ''''")
    case True
    then have "post sp tx m fresh st = Inr (i, st')"
      using assms tx key by (simp add: PostTransfer_def Let_def flip: m_def split: option.splits if_splits)
    with tx show thesis by (rule that(1))
  next
    case False
    define m' where "m' = m\<lparr>PmTxID := derive_id ''transfer'' (PmIdempotencyKey m)\<rparr>"
    obtain plan where p: "planPost sp tx m' fresh = Inr plan"
      and w: "(case TransactWrite (PlItems plan) st of
          Inr st' \<Rightarrow> Inr (PlTxID plan, st')
        | Inl err \<Rightarrow> if (case err of Cancelled codes \<Rightarrow> codes \<noteq> [] \<and> codes ! 0 | Rejected \<Rightarrow> False)
            then Inr (PlTxID plan, st) else Inl (classifyPostCancel err (PlMarkerIdx plan))) = Inr (i, st')"
      using assms tx key False
      by (auto simp: PostTransfer_def Let_def m'_def simp flip: m_def split: option.splits if_splits sum.splits)
    show thesis
    proof (cases "TransactWrite (PlItems plan) st")
      case (Inr st1)
      then have "post sp tx m' fresh st = Inr (i, st')" using p w by (simp add: post_def)
      with tx show thesis by (rule that(1))
    next
      case (Inl err)
      then obtain codes where "err = Cancelled codes" "codes \<noteq> []" "codes ! 0" "st' = st" "i = PlTxID plan"
        using w by (cases err) (auto split: if_splits)
      moreover obtain t rest where "PlItems plan = PutTx t # rest" "StID t = PlTxID plan"
        using p planPostAs_plan unfolding planPost_def by (metis postItemsWith_header)
      ultimately show thesis
        using Inl False that(2) by (auto simp: TransactWrite_def split: if_splits)
    qed
  qed
qed

lemma transfer_inv:
  assumes "ledger_inv st" "PostTransfer derive_id sp a b n d meta fresh st = Inr (i, st')"
  shows "ledger_inv st'"
  using assms(2)
proof (cases rule: PostTransfer_cases)
  case 1
  then show ?thesis using post_inv assms(1) Transfer_adjusts by blast
next
  case 2
  then show ?thesis using assms(1) by simp
qed

lemma ReverseManual_plan:
  assumes "ReverseManual sp i d meta fresh st = Inr (j, st')"
  obtains plan extra where "planReverse sp i d meta fresh st = Inr plan" "TransactWrite (PlItems plan @ extra) st = Inr st'"
    "list_all opening_item extra"
proof -
  obtain orig where o: "GetTransaction sp i st = Inr orig"
    using assms by (auto simp: ReverseManual_def split: sum.splits)
  obtain plan where p: "planReverse sp i d meta fresh st = Inr plan"
    using assms o by (auto simp: ReverseManual_def split: if_splits option.splits sum.splits)
  define extra where "extra = (if TxKindOf (StTx orig) = KindOpeningBalance
    then map (\<lambda>l. DeleteOpening (LegAccountID l)) (filter (\<lambda>l. LegFlow l = FlowNone) (TxLegs (StTx orig))) else [])"
  have "list_all opening_item extra" by (auto simp: extra_def list_all_iff opening_item_def)
  moreover have "TransactWrite (PlItems plan @ extra) st = Inr st'"
    using assms o p by (auto simp: ReverseManual_def Let_def extra_def split: if_splits option.splits sum.splits)
  ultimately show thesis using that p by blast
qed

text \<open>One operation of the ledger, by anyone, and the states a space's ledger reaches.\<close>

inductive ledger_step :: "ledger_store \<Rightarrow> ledger_store \<Rightarrow> bool" where
  create_account: "CreateAccount sp a st = Inr st' \<Longrightarrow> ledger_step st st'"
| archive_account: "ArchiveAccount sp i st = Inr st' \<Longrightarrow> ledger_step st st'"
| post: "Post sp tx meta fresh st = Inr (i, st') \<Longrightarrow> ledger_step st st'"
| reverse: "LedgerReverse sp i d meta fresh st = Inr (j, st') \<Longrightarrow> ledger_step st st'"
| transfer: "PostTransfer derive_id sp a b n d meta fresh st = Inr (i, st') \<Longrightarrow> ledger_step st st'"
| opening_balance: "PostOpeningBalance sp a n d meta fresh st = Inr (i, st') \<Longrightarrow> ledger_step st st'"
| reverse_manual: "ReverseManual sp i d meta fresh st = Inr (j, st') \<Longrightarrow> ledger_step st st'"

inductive ledger_reachable :: "ledger_store \<Rightarrow> bool" where
  created: "ledger_reachable EnsureSpace"
| step: "ledger_reachable st \<Longrightarrow> ledger_step st st' \<Longrightarrow> ledger_reachable st'"

lemma EnsureSpace_inv: "ledger_inv EnsureSpace"
  by (auto simp: ledger_inv_def EnsureSpace_def txs_of_def cache_ok_def reversals_ok_def touched_def totals_of_def
      month_debits_def month_credits_def newAccountItem_def map_of_map [unfolded comp_def] net_def
      split: option.splits dest!: map_of_SomeD)

lemma cache_ok_chart:
  assumes "cache_ok st" "\<And>a. map_option RowBalance (acc a) = map_option RowBalance (LsAccounts st a) \<or>
    LsAccounts st a = None \<and> map_option RowBalance (acc a) = Some 0"
  shows "cache_ok (st\<lparr>LsAccounts := acc\<rparr>)"
proof -
  have l: "a \<notin> LegAccountID ` set ls \<Longrightarrow> sum_list (map (leg_effect a) ls) = 0" for a ls
    by (induction ls) (auto simp: leg_effect_def)
  have t: "a \<notin> touched txs \<Longrightarrow> net txs a = 0" for a txs
    by (induction txs) (simp_all add: net_def touched_def effect_def l)
  have "case acc a of None \<Rightarrow> a \<notin> touched (txs_of st) | Some row \<Rightarrow> RowBalance row = net (txs_of st) a" for a
    using assms(2) [of a] assms(1) t [of a "txs_of st"] unfolding cache_ok_def
    by (cases "LsAccounts st a"; cases "acc a") (auto split: option.splits dest: spec [of _ a])
  then show ?thesis using assms(1) by (simp add: cache_ok_def cong: option.case_cong)
qed

lemma chart_inv: "ledger_inv st \<Longrightarrow> cache_ok (st\<lparr>LsAccounts := acc\<rparr>) \<Longrightarrow> ledger_inv (st\<lparr>LsAccounts := acc\<rparr>)"
  by (simp add: ledger_inv_def reversals_ok_def)

lemma ledger_step_inv: "ledger_step st st' \<Longrightarrow> ledger_inv st \<Longrightarrow> ledger_inv st'"
proof (induction rule: ledger_step.induct)
  case (create_account sp a st st')
  then have "st' = st\<lparr>LsAccounts := (LsAccounts st)(LaID a \<mapsto> newAccountItem a)\<rparr>" "LsAccounts st (LaID a) = None"
    by (auto simp: CreateAccount_def split: option.splits if_splits)
  then show ?case
    using chart_inv [OF create_account.prems] cache_ok_chart create_account.prems
    by (simp add: ledger_inv_def [of st] newAccountItem_def)
next
  case (archive_account sp i st st')
  then obtain acct where "LsAccounts st i = Some acct" "st' = st\<lparr>LsAccounts := (LsAccounts st)(i \<mapsto> acct\<lparr>RowArchived := True\<rparr>)\<rparr>"
    by (auto simp: ArchiveAccount_def getAccount_def split: option.splits if_splits)
  then show ?case
    using chart_inv [OF archive_account.prems] cache_ok_chart archive_account.prems by (simp add: ledger_inv_def [of st])
next
  case (post sp tx meta fresh st i st')
  then show ?case using post_inv by (auto simp: Post_def split: if_splits)
next
  case (reverse sp i d meta fresh st j st')
  then obtain plan where "planReverse sp i d meta fresh st = Inr plan" "TransactWrite (PlItems plan @ []) st = Inr st'"
    by (auto simp: LedgerReverse_def split: sum.splits)
  then show ?case using reverse_inv [of sp i d meta fresh st plan "[]" st'] reverse.prems by simp
next
  case (transfer derive_id sp a b n d meta fresh st i st')
  then show ?case using transfer_inv by blast
next
  case (opening_balance sp a n d meta fresh st i st')
  then show ?case using opening_inv by (auto simp: PostOpeningBalance_def split: option.splits)
next
  case (reverse_manual sp i d meta fresh st j st')
  then obtain plan extra where "planReverse sp i d meta fresh st = Inr plan" "TransactWrite (PlItems plan @ extra) st = Inr st'"
    "list_all opening_item extra"
    using ReverseManual_plan by blast
  then show ?case using reverse_inv reverse_manual.prems by blast
qed

lemma ledger_reachable_inv: "ledger_reachable st \<Longrightarrow> ledger_inv st"
  by (induction rule: ledger_reachable.induct) (auto intro: EnsureSpace_inv ledger_step_inv)

text \<open>Nothing the ledger does removes or changes a stored header.\<close>

lemma item_write_grows: "set (LsTxs st) \<subseteq> set (LsTxs (item_write i st))"
  by (cases i) (auto simp: set_insort_key)

lemma TransactWrite_grows: "TransactWrite items st = Inr st' \<Longrightarrow> set (LsTxs st) \<subseteq> set (LsTxs st')"
proof -
  have "set (LsTxs st) \<subseteq> set (LsTxs (fold item_write items st))" for st
    by (induction items arbitrary: st) (use item_write_grows in force)+
  then show "TransactWrite items st = Inr st' \<Longrightarrow> ?thesis" by (auto simp: TransactWrite_def split: if_splits)
qed

lemma ledger_step_grows: "ledger_step st st' \<Longrightarrow> set (LsTxs st) \<subseteq> set (LsTxs st')"
proof (induction rule: ledger_step.induct)
  case (transfer derive_id sp a b n d meta fresh st i st')
  then show ?case
    by (cases rule: PostTransfer_cases) (auto simp: post_def split: sum.splits dest: TransactWrite_grows)
next
  case (reverse_manual sp i d meta fresh st j st')
  then show ?case using ReverseManual_plan TransactWrite_grows by metis
qed (auto simp: CreateAccount_def ArchiveAccount_def Post_def post_def LedgerReverse_def PostOpeningBalance_def
    postOpening_def Let_def split: option.splits if_splits sum.splits dest: TransactWrite_grows)


subsection \<open>Properties\<close>

lemma stored_all_valid: "list_all tx_valid (map StTx ts) \<Longrightarrow> stored_all ts = Inr (map StTx ts)"
proof (induction ts)
  case (Cons t ts)
  have "NewTransaction (TxKindOf (StTx t)) (TxDate (StTx t)) (TxLegs (StTx t)) =
      Inr \<lparr>TxKindOf = TxKindOf (StTx t), TxDate = TxDate (StTx t), TxLegs = TxLegs (StTx t), TxAdjusts = ''''\<rparr>"
    using Cons.prems by (simp add: NewTransaction_iff tx_valid_def)
  then have "stored t = Inr t" by (simp add: stored_def)
  then show ?case using Cons by simp
qed simp

lemma AllTransactions_reachable:
  "ledger_inv st \<Longrightarrow> Require sp Read = None \<Longrightarrow> AllTransactions sp st = Inr (txs_of st)"
  by (simp add: AllTransactions_def ledger_inv_def txs_of_def stored_all_valid)

lemma month_bound:
  assumes "list_all tx_valid txs"
  shows "0 \<le> month_debits txs k \<and> month_debits txs k \<le> int (length txs) * (8 * MaxLegAmount)"
    "0 \<le> month_credits txs k \<and> month_credits txs k \<le> int (length txs) * (8 * MaxLegAmount)"
proof -
  have s: "0 \<le> sum_list (map f ls) \<and> sum_list (map f ls) \<le> int (length ls) * MaxLegAmount"
    if "\<And>l. leg_ok l \<Longrightarrow> 0 \<le> f l \<and> f l \<le> MaxLegAmount" "list_all leg_ok ls" for f ls
    using that(2) by (induction ls) (use that(1) in \<open>force simp: algebra_simps\<close>)+
  have f: "leg_ok l \<Longrightarrow> 0 \<le> max 0 (leg_effect a l) \<and> max 0 (leg_effect a l) \<le> MaxLegAmount"
    "leg_ok l \<Longrightarrow> 0 \<le> max 0 (- leg_effect a l) \<and> max 0 (- leg_effect a l) \<le> MaxLegAmount" for a l
    by (auto simp: leg_effect_def leg_ok_def MaxLegAmount_def)
  have len: "int (length (TxLegs tx)) * MaxLegAmount \<le> 8 * MaxLegAmount" if "tx_valid tx" for tx
    using that by (simp add: tx_valid_def MaxLegs_def MaxLegAmount_def)
  have g: "0 \<le> sum_list (map h (TxLegs tx)) \<and> sum_list (map h (TxLegs tx)) \<le> 8 * MaxLegAmount"
    if "tx_valid tx" "\<And>l. leg_ok l \<Longrightarrow> 0 \<le> h l \<and> h l \<le> MaxLegAmount" for tx h
    using s [where f = h and ls = "TxLegs tx", OF that(2)] len [OF that(1)] that(1) by (fastforce simp: tx_valid_def)
  have p: "0 < MaxLegAmount" by (simp add: MaxLegAmount_def)
  show "0 \<le> month_debits txs k \<and> month_debits txs k \<le> int (length txs) * (8 * MaxLegAmount)"
    using assms
  proof (induction txs)
    case (Cons tx txs)
    then have "0 \<le> month_debits [tx] k \<and> month_debits [tx] k \<le> 8 * MaxLegAmount"
      using g [where tx = tx and h = "\<lambda>l. max 0 (leg_effect (snd k) l)", OF _ f(1)] p by (simp add: month_debits_def)
    then show ?case using Cons by (simp add: month_debits_def algebra_simps)
  qed (simp add: month_debits_def)
  show "0 \<le> month_credits txs k \<and> month_credits txs k \<le> int (length txs) * (8 * MaxLegAmount)"
    using assms
  proof (induction txs)
    case (Cons tx txs)
    then have "0 \<le> month_credits [tx] k \<and> month_credits [tx] k \<le> 8 * MaxLegAmount"
      using g [where tx = tx and h = "\<lambda>l. max 0 (- leg_effect (snd k) l)", OF _ f(2)] p by (simp add: month_credits_def)
    then show ?case using Cons by (simp add: month_credits_def algebra_simps)
  qed (simp add: month_credits_def)
qed

lemma month_exact:
  assumes "list_all tx_valid txs" "length txs \<le> 1000000"
  shows "wrap64 (month_debits txs k) = month_debits txs k" "wrap64 (month_credits txs k) = month_credits txs k"
proof -
  have "int (length txs) * (8 * MaxLegAmount) \<le> 1000000 * (8 * MaxLegAmount)"
    using assms(2) by (simp add: MaxLegAmount_def)
  then show "wrap64 (month_debits txs k) = month_debits txs k" "wrap64 (month_credits txs k) = month_credits txs k"
    using month_bound [OF assms(1), of k] by (auto intro!: wrap64_id simp: in64_def MaxLegAmount_def)
qed

lemma no_drift:
  assumes "ledger_inv st" "length (LsTxs st) \<le> 1000000"
    and "Require sp Configure = None" "Require sp Read = None"
  shows "Rebuild accts ks sp app st = Inr ([], st)"
proof -
  note inv = assms(1)
  have v: "list_all tx_valid (txs_of st)" and c: "cache_ok st" using inv by (simp_all add: ledger_inv_def)
  have l: "length (txs_of st) \<le> 1000000" using assms(2) by (simp add: txs_of_def)
  have "balance_of (stored_balances st) a = balance_of (Balances (Derive (txs_of st))) a" for a
  proof (cases "LsAccounts st a")
    case None
    then have "a \<notin> touched (txs_of st)" using c by (auto simp: cache_ok_def split: option.splits dest: spec [of _ a])
    then have "Balances (Derive (txs_of st)) a = None" using Derive_dom [of "txs_of st"] by auto
    then show ?thesis using None by (simp add: stored_balances_def balance_of_def)
  next
    case (Some row)
    then have "RowBalance row = net (txs_of st) a"
      using c by (auto simp: cache_ok_def split: option.splits dest: spec [of _ a])
    then show ?thesis using Some
      by (simp add: Derive_balance net_exact [OF v l]) (simp add: stored_balances_def balance_of_def)
  qed
  moreover have "totals_of (LsSummary st) k = totals_of (Summary (Derive (txs_of st))) k" for k
    using c by (cases k) (simp add: Derive_summary [OF v] month_exact [OF v l] cache_ok_def)
  ultimately have "LedgerCompare accts ks st (Derive (txs_of st)) = []" by (simp add: LedgerCompare_def)
  then show ?thesis
    using assms(3) AllTransactions_reachable [OF inv assms(4)] by (simp add: Rebuild_def applyDrift_def)
qed

text \<open>C4: In every state a space's ledger can reach, the cached balances and monthly summaries are
  exactly what the stored transactions derive, so the rebuild reports no drift, whatever keys it
  compares (up to a million transactions, beyond which the derivation's 64-bit sums could wrap).\<close>

theorem cache_equals_derivation:
  assumes "ledger_reachable st" "length (LsTxs st) \<le> 1000000"
    and "Require sp Configure = None" "Require sp Read = None"
  shows "Rebuild accts ks sp app st = Inr ([], st)"
  by (rule no_drift [OF ledger_reachable_inv [OF assms(1)] assms(2-4)])


definition sample_space :: ResolvedSpace where
  "sample_space = \<lparr>SpOwner = ''USER#u1'', SpPersonal = True, SpKind = KindPersonalDefault, SpLivemode = True, SpVerbs = All, SpRole = ''''\<rparr>"

definition sample_meta :: "string \<Rightarrow> PostMeta" where
  "sample_meta key = \<lparr>PmOrigin = ''manual'', PmActor = ''u1'', PmRequestID = '''', PmIdempotencyKey = key, PmMemo = '''', PmRef = '''', PmTxID = ''''\<rparr>"

definition sample_cash :: "string \<Rightarrow> LedgerAccount" where
  "sample_cash i = \<lparr>LaID = i, LaName = ''Cash'', LaClass = ClassAsset, LaGroup = GroupNone, LaSystem = False, LaSystemKey = '''',
     LaSource = SourceManual, LaProvider = ''''\<rparr>"

lemma sample_space_may: "Require sample_space Configure = None" "Require sample_space Read = None" "Require sample_space Write = None"
  by code_simp+

text \<open>A space with two cash accounts and one transfer between them.\<close>

definition sample_chart :: ledger_store where
  "sample_chart = EnsureSpace\<lparr>LsAccounts := (LsAccounts EnsureSpace)(''a'' \<mapsto> newAccountItem (sample_cash ''a''), ''b'' \<mapsto> newAccountItem (sample_cash ''b''))\<rparr>"

lemma sample_chart_reachable: "ledger_reachable sample_chart"
proof -
  have v: "AccountValidate (sample_cash ''a'') = None" "AccountValidate (sample_cash ''b'') = None" by code_simp+
  have e: "LsAccounts EnsureSpace ''a'' = None" "LsAccounts EnsureSpace ''b'' = None"
    by (simp_all add: EnsureSpace_def DefaultSystemAccounts_def Let_def system_account_def)
  have 1: "CreateAccount sample_space (sample_cash ''a'') EnsureSpace =
      Inr (EnsureSpace\<lparr>LsAccounts := (LsAccounts EnsureSpace)(''a'' \<mapsto> newAccountItem (sample_cash ''a''))\<rparr>)" (is "_ = Inr ?st")
    by (simp add: CreateAccount_def sample_space_may v e) (simp add: sample_cash_def e)
  have "CreateAccount sample_space (sample_cash ''b'') ?st = Inr sample_chart"
    by (simp add: CreateAccount_def sample_space_may v e) (simp add: sample_cash_def sample_chart_def e)
  with 1 show ?thesis using ledger_reachable.intros ledger_step.create_account by blast
qed


text \<open>A posted plan reports the identifier it wrote, and a header there already fails its first item.\<close>

lemma post_stored: "post sp tx meta fresh st = Inr (i, st') \<Longrightarrow> i \<in> StID ` set (LsTxs st')"
proof -
  assume a: "post sp tx meta fresh st = Inr (i, st')"
  then obtain plan where p: "planPost sp tx meta fresh = Inr plan" "TransactWrite (PlItems plan @ []) st = Inr st'" "i = PlTxID plan"
    by (auto simp: post_def split: sum.splits)
  then obtain txID where i: "PlItems plan = fst (postItemsWith txID tx meta (TxKindOf tx) False False)" "PlTxID plan = txID" "tx_valid tx"
    using planPostAs_plan unfolding planPost_def by blast
  obtain t where "StID t = txID" "LsTxs st' = insort_key StID t (LsTxs st)"
    by (rule commit_post [OF p(2) [unfolded i(1)] _ i(3)]) auto
  then show ?thesis using p(3) i(2) by (auto simp: set_insort_key)
qed

definition leg_rows :: "string \<Rightarrow> Transaction \<Rightarrow> string \<Rightarrow> row_key set" where
  "leg_rows txID tx a = {KeyAccount a, KeySummary (MonthOf (TxDate tx), a)} \<union> range (KeyEntry a (TxDate tx) txID)"

lemma leg_rows_disjoint: "a \<noteq> b \<Longrightarrow> leg_rows txID tx a \<inter> leg_rows txID tx b = {}"
  by (auto simp: leg_rows_def)

lemma leg_item_rows: "item_key ` set (leg_items txID tx meta k rv False (n, l)) \<subseteq> leg_rows txID tx (LegAccountID l)"
  by (auto simp: leg_items_def leg_entry_def leg_rows_def)

lemma legs_rows:
  "item_key ` set (concat (map (leg_items txID tx meta k rv False) (enumerate n ls))) \<subseteq> (\<Union>l \<in> set ls. leg_rows txID tx (LegAccountID l))"
proof (induction ls arbitrary: n)
  case (Cons l ls)
  show ?case using Un_mono [OF leg_item_rows [of txID tx meta k rv n l] Cons [of "Suc n"]] by (simp add: image_Un)
qed simp

lemma leg_keys:
  "distinct (map LegAccountID ls) \<Longrightarrow>
   distinct (map item_key (concat (map (leg_items txID tx meta k rv False) (enumerate n ls))))"
proof (induction ls arbitrary: n)
  case (Cons l ls)
  have "leg_rows txID tx (LegAccountID l) \<inter> (\<Union>l \<in> set ls. leg_rows txID tx (LegAccountID l)) = {}"
    using Cons.prems leg_rows_disjoint [of "LegAccountID l"] by auto
  then have "item_key ` set (leg_items txID tx meta k rv False (n, l)) \<inter>
      item_key ` set (concat (map (leg_items txID tx meta k rv False) (enumerate (Suc n) ls))) = {}"
    using leg_item_rows [of txID tx meta k rv n l] legs_rows [of txID tx meta k rv "Suc n" ls] by blast
  moreover have "distinct (map item_key (leg_items txID tx meta k rv False (n, l)))" by (simp add: leg_items_def)
  ultimately show ?case using Cons by simp
qed simp

lemma leg_count: "length (concat (map (leg_items txID tx meta k rv False) els)) = 3 * length els"
  by (induction els) (auto simp: leg_items_def)

lemma plan_fits:
  assumes "planPostAs sp tx meta fresh k rv = Inr plan"
  shows "length (PlItems plan) \<le> 27" "distinct (map item_key (PlItems plan))"
proof -
  obtain txID where i: "PlItems plan = fst (postItemsWith txID tx meta k rv False)" "tx_valid tx"
    using planPostAs_plan [OF assms] by blast
  then have "length (TxLegs tx) \<le> 8" "distinct (map LegAccountID (TxLegs tx))" by (auto simp: tx_valid_def MaxLegs_def)
  then show "length (PlItems plan) \<le> 27" "distinct (map item_key (PlItems plan))"
    using leg_keys [of "TxLegs tx" txID tx meta k rv 0] legs_rows [of txID tx meta k rv 0 "TxLegs tx"]
    by (auto simp: i(1) postItemsWith_def Let_def leg_count leg_rows_def)
qed


text \<open>Repeating a transfer with the same idempotency key, whatever else the repetition says, moves
  no money a second time: a repetition that is answered at all is answered with the first one's
  identifier and leaves the store as it is.\<close>

theorem transfer_retry_is_harmless:
  assumes "PostTransfer derive_id sp a b n d meta fresh st = Inr (i, st')"
    and "PostTransfer derive_id sp' a' b' n' d' meta' fresh' st' = Inr (j, st'')"
    and "PmIdempotencyKey meta = PmIdempotencyKey meta'" "PmIdempotencyKey meta \<noteq> ''''"
    and "\<And>kind key. derive_id kind key \<noteq> ''''"
  shows "j = i \<and> st'' = st'"
proof -
  have id: "k = derive_id ''transfer'' (PmIdempotencyKey m)"
    if "PostTransfer derive_id sp a b n d m fresh st = Inr (k, st')" "PmIdempotencyKey m \<noteq> ''''" for sp a b n d m fresh st k st'
  proof -
    note prems = that
    define m1 where "m1 = default_memo transfer_memo m"
    have m1: "PmIdempotencyKey m1 = PmIdempotencyKey m" by (simp add: m1_def default_memo_def)
    obtain tx where tx: "Transfer a b n d = Inr tx"
      using prems(1) by (auto simp: PostTransfer_def split: option.splits if_splits sum.splits)
    define m' where "m' = m1\<lparr>PmTxID := derive_id ''transfer'' (PmIdempotencyKey m)\<rparr>"
    obtain plan where "planPost sp tx m' fresh = Inr plan" "PlTxID plan = k"
      using prems tx m1
      by (auto simp: PostTransfer_def Let_def m'_def simp flip: m1_def split: option.splits if_splits sum.splits)
    then show ?thesis using assms(5) m'_def
      by (auto simp: planPost_def planPostAs_def Let_def split: option.splits sum.splits prod.splits)
  qed
  have ji: "j = i" using id [OF assms(1)] id [OF assms(2)] assms(3,4) by simp
  have in_st': "i \<in> StID ` set (LsTxs st')"
    using assms(1) by (cases rule: PostTransfer_cases) (auto dest: post_stored)
  show ?thesis
    using assms(2)
  proof (cases rule: PostTransfer_cases)
    case (1 tx m)
    then obtain plan where p: "planPost sp' tx m fresh' = Inr plan" "TransactWrite (PlItems plan) st' = Inr st''" "j = PlTxID plan"
      by (auto simp: post_def split: sum.splits)
    then obtain t rest where "PlItems plan = PutTx t # rest" "StID t = j"
      using planPostAs_plan unfolding planPost_def by (metis postItemsWith_header)
    then show ?thesis using p(2) in_st' ji by (auto simp: TransactWrite_def split: if_splits)
  next
    case 2
    then show ?thesis using ji by simp
  qed
qed

text \<open>C9: In every state the ledger can reach, a transaction is reversed at most once, a reversal is
  not itself reversed, and a reversal moves every account by exactly the opposite of the
  transaction it reverses.\<close>

theorem reversed_at_most_once:
  assumes "ledger_reachable st" "r \<in> set (LsTxs st)" "TxAdjusts (StTx r) \<noteq> ''''"
  shows "(\<exists>o' \<in> set (LsTxs st). StID o' = TxAdjusts (StTx r) \<and> TxAdjusts (StTx o') = '''' \<and>
      (\<forall>a. effect (StTx r) a = - effect (StTx o') a)) \<and>
    (\<forall>r' \<in> set (LsTxs st). TxAdjusts (StTx r') = TxAdjusts (StTx r) \<longrightarrow> r' = r)"
proof -
  have inv: "ledger_inv st" using assms(1) by (rule ledger_reachable_inv)
  then have ok: "reversals_ok st" and dist: "distinct (map StID (LsTxs st))" by (simp_all add: ledger_inv_def)
  obtain o' where o: "o' \<in> set (LsTxs st)" "StID o' = TxAdjusts (StTx r)" "TxKindOf (StTx o') \<noteq> KindReversal"
    "\<forall>a. effect (StTx r) a = - effect (StTx o') a"
    using ok assms(2,3) unfolding reversals_ok_def by blast
  have "TxAdjusts (StTx o') = ''''" using ok o(1,3) unfolding reversals_ok_def by blast
  moreover have "r' = r" if "r' \<in> set (LsTxs st)" "TxAdjusts (StTx r') = TxAdjusts (StTx r)" for r'
  proof -
    have "LsReversals st (TxAdjusts (StTx r)) = Some (StID r)" "LsReversals st (TxAdjusts (StTx r)) = Some (StID r')"
      using ok that assms(2,3) unfolding reversals_ok_def by auto
    then show ?thesis using dist that(1) assms(2) by (simp add: distinct_map inj_on_def)
  qed
  ultimately show ?thesis using o by blast
qed


subsection \<open>Repair\<close>

lemma apply_drift_fold:
  fixes d :: Derived
  shows "LsAccounts (fold apply_drift (map (\<lambda>a. BalanceDrift a (f a) (g a)) xs) st) a =
     (if a \<in> set xs then map_option (\<lambda>row. row\<lparr>RowBalance := g a\<rparr>) (LsAccounts st a) else LsAccounts st a)"
    "LsSummary (fold apply_drift (map (\<lambda>a. BalanceDrift a (f a) (g a)) xs) st) = LsSummary st"
    "LsTxs (fold apply_drift (map (\<lambda>a. BalanceDrift a (f a) (g a)) xs) st) = LsTxs st"
    "LsAccounts (fold apply_drift (map (\<lambda>k. SummaryDrift k (p k) (q k)) ks) st) = LsAccounts st"
    "LsSummary (fold apply_drift (map (\<lambda>k. SummaryDrift k (p k) (q k)) ks) st) k = (if k \<in> set ks then Some (q k) else LsSummary st k)"
    "LsTxs (fold apply_drift (map (\<lambda>k. SummaryDrift k (p k) (q k)) ks) st) = LsTxs st"
proof -
  show "LsAccounts (fold apply_drift (map (\<lambda>a. BalanceDrift a (f a) (g a)) xs) st) a =
     (if a \<in> set xs then map_option (\<lambda>row. row\<lparr>RowBalance := g a\<rparr>) (LsAccounts st a) else LsAccounts st a)"
    by (induction xs arbitrary: st) (auto simp: option.map_comp comp_def)
  show "LsSummary (fold apply_drift (map (\<lambda>k. SummaryDrift k (p k) (q k)) ks) st) k = (if k \<in> set ks then Some (q k) else LsSummary st k)"
    by (induction ks arbitrary: st) auto
  show "LsSummary (fold apply_drift (map (\<lambda>a. BalanceDrift a (f a) (g a)) xs) st) = LsSummary st"
    "LsTxs (fold apply_drift (map (\<lambda>a. BalanceDrift a (f a) (g a)) xs) st) = LsTxs st"
    by (induction xs arbitrary: st) simp_all
  show "LsAccounts (fold apply_drift (map (\<lambda>k. SummaryDrift k (p k) (q k)) ks) st) = LsAccounts st"
    "LsTxs (fold apply_drift (map (\<lambda>k. SummaryDrift k (p k) (q k)) ks) st) = LsTxs st"
    by (induction ks arbitrary: st) simp_all
qed

lemma applyDrift_compare:
  fixes st d accts ks
  defines "st' \<equiv> applyDrift (LedgerCompare accts ks st d) st"
  shows "LsTxs st' = LsTxs st"
    "\<And>a. a \<in> set accts \<Longrightarrow> LsAccounts st' a = map_option (\<lambda>row. row\<lparr>RowBalance := balance_of (Balances d) a\<rparr>) (LsAccounts st a)"
    "\<And>k. k \<in> set ks \<Longrightarrow> totals_of (LsSummary st') k = totals_of (Summary d) k"
proof -
  show "LsTxs st' = LsTxs st" by (simp add: st'_def applyDrift_def LedgerCompare_def apply_drift_fold)
  fix a assume a: "a \<in> set accts"
  show "LsAccounts st' a = map_option (\<lambda>row. row\<lparr>RowBalance := balance_of (Balances d) a\<rparr>) (LsAccounts st a)"
  proof (cases "LsAccounts st a")
    case (Some row)
    have "row = row\<lparr>RowBalance := RowBalance row\<rparr>" by simp
    then show ?thesis using a Some
      by (simp add: st'_def applyDrift_def LedgerCompare_def apply_drift_fold)
        (auto simp: stored_balances_def balance_of_def)
  qed (simp add: st'_def applyDrift_def LedgerCompare_def apply_drift_fold)
next
  fix k assume k: "k \<in> set ks"
  have s: "LsSummary st' k =
      (if totals_of (LsSummary st) k \<noteq> totals_of (Summary d) k then Some (totals_of (Summary d) k) else LsSummary st k)"
    using k by (simp add: st'_def applyDrift_def LedgerCompare_def apply_drift_fold)
  show "totals_of (LsSummary st') k = totals_of (Summary d) k"
    unfolding totals_of_def [of "LsSummary st'"] s by (auto simp: totals_of_def [of "LsSummary st"])
qed

text \<open>C30: Whatever the cached balances and summaries of a store had become, a rebuild that applies what
  it finds leaves the transactions alone and every compared cache equal to the derivation: a second
  rebuild reports only accounts that are missing from the chart.\<close>

theorem rebuild_repairs_any_cache:
  assumes "Rebuild accts ks sp True st = Inr (drift, st')"
  shows "LsTxs st' = LsTxs st \<and>
    (\<exists>rest. Rebuild accts ks sp app st' = Inr (rest, if app then applyDrift rest st' else st') \<and>
      list_all (\<lambda>d. case d of BalanceDrift a s n \<Rightarrow> LsAccounts st a = None | SummaryDrift k s n \<Rightarrow> False) rest)"
proof -
  obtain txs where r: "Require sp Configure = None" "AllTransactions sp st = Inr txs"
    and st': "st' = applyDrift (LedgerCompare accts ks st (Derive txs)) st"
    using assms by (auto simp: Rebuild_def Let_def split: option.splits sum.splits)
  note fixed = applyDrift_compare [where accts = accts and ks = ks and st = st and d = "Derive txs", folded st']
  have "AllTransactions sp st' = Inr txs"
    using r(2) fixed(1) by (cases "Require sp Read") (simp_all add: AllTransactions_def)
  moreover have "list_all (\<lambda>d. case d of BalanceDrift a s n \<Rightarrow> LsAccounts st a = None | SummaryDrift k s n \<Rightarrow> False)
      (LedgerCompare accts ks st' (Derive txs))"
  proof -
    have "LsAccounts st a = None" if "a \<in> set accts" "balance_of (stored_balances st') a \<noteq> balance_of (Balances (Derive txs)) a" for a
      using that fixed(2) [of a] by (cases "LsAccounts st a") (simp_all add: stored_balances_def balance_of_def)
    then show ?thesis using fixed(3) by (auto simp: LedgerCompare_def list_all_iff)
  qed
  ultimately show ?thesis using r(1) fixed(1)
    by (intro conjI exI [of _ "LedgerCompare accts ks st' (Derive txs)"]) (simp_all add: Rebuild_def Let_def)
qed

theorem rebuild_repairs_any_cache_witness:
  "LsTxs (snd (projr (Rebuild [''a'', ''z''] [] sample_space True
     (sample_chart\<lparr>LsAccounts := (LsAccounts sample_chart)(''a'' \<mapsto> (newAccountItem (sample_cash ''a''))\<lparr>RowBalance := 7\<rparr>)\<rparr>)))) = []"
proof -
  let ?st = "sample_chart\<lparr>LsAccounts := (LsAccounts sample_chart)(''a'' \<mapsto> (newAccountItem (sample_cash ''a''))\<lparr>RowBalance := 7\<rparr>)\<rparr>"
  have t: "LsTxs ?st = []" by (simp add: sample_chart_def EnsureSpace_def)
  have "AllTransactions sample_space ?st = Inr []" by (simp add: AllTransactions_def sample_space_may t)
  then obtain drift st' where r: "Rebuild [''a'', ''z''] [] sample_space True ?st = Inr (drift, st')"
    by (simp add: Rebuild_def sample_space_may Let_def)
  show ?thesis using rebuild_repairs_any_cache [OF r, of True] t r by simp
qed

theorem cache_equals_derivation_witness: "Rebuild [''a''] [] sample_space True sample_chart = Inr ([], sample_chart)"
  by (rule cache_equals_derivation [OF sample_chart_reachable _ sample_space_may(1,2)])
    (simp add: sample_chart_def EnsureSpace_def)


definition sample_transfer :: "string \<Rightarrow> ledger_store \<Rightarrow> (ledger_error, string \<times> ledger_store) result" where
  "sample_transfer key st =
     PostTransfer (\<lambda>kind k. kind @ ''-'' @ k) sample_space ''a'' ''b'' 500 (mk_date 2026 3 5) (sample_meta key) ''t1'' st"

lemma sample_transfer_once: "\<not> isl (sample_transfer ''k'' sample_chart)"
  by code_simp

lemma sample_transfer_twice: "\<not> isl (sample_transfer ''k'' (snd (projr (sample_transfer ''k'' sample_chart))))"
  by code_simp


definition sample_moved :: ledger_store where
  "sample_moved = snd (projr (sample_transfer ''k'' sample_chart))"

definition sample_reversal :: "(ledger_error, string \<times> ledger_store) result" where
  "sample_reversal = LedgerReverse sample_space ''transfer-k'' (mk_date 2026 3 9) (sample_meta '''') ''t2'' sample_moved"

lemma sample_reversal_ok: "\<not> isl sample_reversal"
  by code_simp

lemma not_isl_pair: "\<not> isl r \<Longrightarrow> r = Inr (fst (projr r), snd (projr r))"
  by (cases r) simp_all

theorem transfer_retry_is_harmless_witness: "snd (projr (sample_transfer ''k'' sample_moved)) = sample_moved"
proof -
  have m: "PmIdempotencyKey (sample_meta ''k'') \<noteq> ''''" by (simp add: sample_meta_def)
  show ?thesis
    using transfer_retry_is_harmless [OF not_isl_pair [OF sample_transfer_once, unfolded sample_transfer_def]
        not_isl_pair [OF sample_transfer_twice, unfolded sample_transfer_def] refl m]
    by (simp add: sample_moved_def sample_transfer_def)
qed

theorem reversed_at_most_once_witness:
  "(\<exists>o' \<in> set (LsTxs (snd (projr sample_reversal))). StID o' = ''transfer-k'')"
proof -
  have 1: "ledger_reachable sample_moved"
    unfolding sample_moved_def
    by (rule ledger_reachable.step [OF sample_chart_reachable ledger_step.transfer [OF not_isl_pair [OF sample_transfer_once, unfolded sample_transfer_def], folded sample_transfer_def]])
  have 2: "ledger_reachable (snd (projr sample_reversal))"
    by (rule ledger_reachable.step [OF 1 ledger_step.reverse [OF not_isl_pair [OF sample_reversal_ok, unfolded sample_reversal_def], folded sample_reversal_def]])
  have "map (\<lambda>t. TxAdjusts (StTx t)) (LsTxs (snd (projr sample_reversal))) = [''transfer-k'', '''']" by code_simp
  then have "''transfer-k'' \<in> set (map (\<lambda>t. TxAdjusts (StTx t)) (LsTxs (snd (projr sample_reversal))))" by simp
  then obtain r where "r \<in> set (LsTxs (snd (projr sample_reversal)))" "TxAdjusts (StTx r) = ''transfer-k''"
    unfolding set_map by (elim imageE) simp
  then show ?thesis using reversed_at_most_once [OF 2, of r] by auto
qed

text \<open>A plan the ledger builds always fits one \<open>TransactWriteItems\<close> call: it has at most 27 items, no
  two of them on one row, so the call is never rejected as malformed and the outcome is decided
  by the conditions alone.\<close>

theorem plan_is_never_rejected:
  assumes "planPostAs sp tx meta fresh k rv = Inr plan"
  shows "length (PlItems plan) \<le> 27 \<and> TransactWrite (PlItems plan) st \<noteq> Inl Rejected"
  using plan_fits [OF assms] by (simp add: TransactWrite_def)

theorem plan_is_never_rejected_witness:
  "TransactWrite (PlItems (projr (planPost sample_space (projr (Transfer ''a'' ''b'' 500 (mk_date 2026 3 5))) (sample_meta '''') ''t1''))) sample_chart
     \<noteq> Inl Rejected"
proof -
  define tx where "tx = projr (Transfer ''a'' ''b'' 500 (mk_date 2026 3 5))"
  have "\<not> isl (planPost sample_space (projr (Transfer ''a'' ''b'' 500 (mk_date 2026 3 5))) (sample_meta '''') ''t1'')" by code_simp
  then have "planPostAs sample_space tx (sample_meta '''') ''t1'' (TxKindOf tx) False = Inr (projr (planPost sample_space tx (sample_meta '''') ''t1''))"
    unfolding planPost_def tx_def by (cases "planPostAs sample_space tx (sample_meta '''') ''t1'' (TxKindOf tx) False") (auto simp: tx_def)
  from plan_is_never_rejected [OF this] show ?thesis by (simp add: tx_def)
qed

end
