(* ===== verification/LedgerMerge.thy ===== *)
theory LedgerMerge
  imports LedgerStore
begin

text \<open>
  \<open>api/internal/repositories/ledger_merge.go\<close> and the gathered totals of \<open>ledger.go\<close>: writing two
  facts in one transaction. DynamoDB refuses two items on one row, so the \<open>ADD\<close>s of the facts
  that meet on a balance or a summary are folded into one. \<open>mergeAdds\<close> does it on finished
  items; \<open>planReplace\<close> gathers the totals while it builds them. Both are shown to write what the
  plans write one after the other.
\<close>

subsection \<open>mergeAdds\<close>

text \<open>Two items are one fold when they are the same \<open>ADD\<close> expression on the same row.\<close>

fun same_add :: "ledger_item \<Rightarrow> ledger_item \<Rightarrow> bool" where
  "same_add (AddBalance a m) (AddBalance b n) \<longleftrightarrow> a = b"
| "same_add (AddSummary k d c) (AddSummary l e f) \<longleftrightarrow> k = l"
| "same_add _ _ \<longleftrightarrow> False"

fun add_values :: "ledger_item \<Rightarrow> ledger_item \<Rightarrow> ledger_item" where
  "add_values (AddBalance a m) (AddBalance b n) = AddBalance a (wrap64 (m + n))"
| "add_values (AddSummary k d c) (AddSummary l e f) = AddSummary k (wrap64 (d + e)) (wrap64 (c + f))"
| "add_values x _ = x"

definition merge_step :: "ledger_item \<Rightarrow> ledger_item list \<Rightarrow> ledger_item list" where
  "merge_step it out =
     (if list_ex (\<lambda>x. same_add x it) out then map (\<lambda>x. if same_add x it then add_values x it else x) out
      else out @ [it])"

definition mergeAdds :: "ledger_item list \<Rightarrow> ledger_item list" where
  "mergeAdds items = fold merge_step items []"

subsection \<open>What a list of items writes\<close>

fun item_balance :: "string \<Rightarrow> ledger_item \<Rightarrow> int" where
  "item_balance a (AddBalance b n) = (if b = a then n else 0)"
| "item_balance a _ = 0"

fun item_debits :: "SummaryKey \<Rightarrow> ledger_item \<Rightarrow> int" where
  "item_debits k (AddSummary l d c) = (if l = k then d else 0)"
| "item_debits k _ = 0"

fun item_credits :: "SummaryKey \<Rightarrow> ledger_item \<Rightarrow> int" where
  "item_credits k (AddSummary l d c) = (if l = k then c else 0)"
| "item_credits k _ = 0"

fun is_add :: "ledger_item \<Rightarrow> bool" where
  "is_add (AddBalance _ _) = True"
| "is_add (AddSummary _ _ _) = True"
| "is_add _ = False"

fun adds_summary :: "SummaryKey \<Rightarrow> ledger_item \<Rightarrow> bool" where
  "adds_summary k (AddSummary l _ _) \<longleftrightarrow> l = k"
| "adds_summary k _ \<longleftrightarrow> False"

lemma fold_write_accounts:
  "LsAccounts (fold item_write xs st) a = map_option (add_balance (sum_list (map (item_balance a) xs))) (LsAccounts st a)"
proof (induction xs arbitrary: st)
  case Nil
  then show ?case by (cases "LsAccounts st a") simp_all
next
  case (Cons x xs)
  then show ?case by (cases x; cases "LsAccounts st a") auto
qed

lemma item_sums_zero: "\<not> adds_summary k x \<Longrightarrow> item_debits k x = 0 \<and> item_credits k x = 0"
  by (cases x) simp_all

lemma sums_zero:
  "\<not> list_ex (adds_summary k) xs \<Longrightarrow> sum_list (map (item_debits k) xs) = 0 \<and> sum_list (map (item_credits k) xs) = 0"
  by (induction xs) (simp_all add: item_sums_zero)

lemma fold_write_summary:
  "LsSummary (fold item_write xs st) k =
     (if list_ex (adds_summary k) xs
      then Some (add_totals (sum_list (map (item_debits k) xs)) (sum_list (map (item_credits k) xs)) (totals_of (LsSummary st) k))
      else LsSummary st k)"
proof (induction xs arbitrary: st)
  case (Cons x xs)
  show ?case
  proof (cases "adds_summary k x")
    case True
    then obtain d c where "x = AddSummary k d c" by (cases x) simp_all
    then show ?thesis using Cons [of "item_write x st"] sums_zero [of k xs] by (auto simp: totals_of_def)
  next
    case False
    then have "LsSummary (item_write x st) k = LsSummary st k" "totals_of (LsSummary (item_write x st)) k = totals_of (LsSummary st) k"
      by (cases x; auto simp: totals_of_def)+
    then show ?thesis using False Cons [of "item_write x st"] item_sums_zero [of k x] by simp
  qed
qed simp

text \<open>Everything else is written in order by the items that are no \<open>ADD\<close>.\<close>

lemma write_add_frame:
  assumes "is_add x"
  shows "LsTxs (item_write x st) = LsTxs st" "LsEntries (item_write x st) = LsEntries st"
    "LsReversals (item_write x st) = LsReversals st" "LsOpenings (item_write x st) = LsOpenings st"
    "LsAudit (item_write x st) = LsAudit st"
  using assms by (cases x; simp)+

definition rest_of :: "ledger_store \<Rightarrow> ledger_store" where
  "rest_of st = st\<lparr>LsAccounts := Map.empty, LsSummary := Map.empty\<rparr>"

lemma rest_of_write: "rest_of (item_write x st) = (if is_add x then rest_of st else item_write x (rest_of st))"
  by (cases x) (simp_all add: rest_of_def)

lemma rest_of_fold: "rest_of (fold item_write xs st) = fold item_write (filter (\<lambda>x. \<not> is_add x) xs) (rest_of st)"
  by (induction xs arbitrary: st) (simp_all add: rest_of_write)

lemma store_eqI:
  "LsAccounts s = LsAccounts t \<Longrightarrow> LsSummary s = LsSummary t \<Longrightarrow> rest_of s = rest_of t \<Longrightarrow> s = (t :: ledger_store)"
  by (cases s; cases t) (simp add: rest_of_def)

text \<open>Two lists of items with the same totals and the same other items write the same.\<close>

definition same_writes :: "ledger_item list \<Rightarrow> ledger_item list \<Rightarrow> bool" where
  "same_writes xs ys \<longleftrightarrow>
     (\<forall>a. sum_list (map (item_balance a) xs) = sum_list (map (item_balance a) ys)) \<and>
     (\<forall>k. sum_list (map (item_debits k) xs) = sum_list (map (item_debits k) ys)) \<and>
     (\<forall>k. sum_list (map (item_credits k) xs) = sum_list (map (item_credits k) ys)) \<and>
     (\<forall>k. list_ex (adds_summary k) xs = list_ex (adds_summary k) ys) \<and>
     filter (\<lambda>x. \<not> is_add x) xs = filter (\<lambda>x. \<not> is_add x) ys"

lemma same_writes_fold: "same_writes xs ys \<Longrightarrow> fold item_write xs st = fold item_write ys st"
  by (rule store_eqI) (auto simp: fun_eq_iff fold_write_accounts fold_write_summary rest_of_fold same_writes_def)

subsection \<open>mergeAdds writes what its items write\<close>

definition small_item :: "ledger_item \<Rightarrow> bool" where
  "small_item i = (case i of AddBalance a n \<Rightarrow> \<bar>n\<bar> \<le> MaxLegAmount
     | AddSummary k d c \<Rightarrow> \<bar>d\<bar> \<le> MaxLegAmount \<and> \<bar>c\<bar> \<le> MaxLegAmount | _ \<Rightarrow> True)"

lemma same_add_iff: "same_add x y \<longleftrightarrow> is_add x \<and> is_add y \<and> item_key x = item_key y"
  by (cases x; cases y) simp_all

lemma sum_small:
  assumes "list_all small_item xs"
  shows "\<bar>sum_list (map (item_balance a) xs)\<bar> \<le> int (length xs) * MaxLegAmount"
    "\<bar>sum_list (map (item_debits k) xs)\<bar> \<le> int (length xs) * MaxLegAmount"
    "\<bar>sum_list (map (item_credits k) xs)\<bar> \<le> int (length xs) * MaxLegAmount"
proof -
  have *: "\<bar>sum_list (map f xs)\<bar> \<le> int (length xs) * MaxLegAmount"
    if "\<And>x. small_item x \<Longrightarrow> \<bar>f x\<bar> \<le> MaxLegAmount" for f :: "ledger_item \<Rightarrow> int"
    using assms
  proof (induction xs)
    case (Cons x xs)
    then have "\<bar>f x\<bar> \<le> MaxLegAmount" using that by simp
    moreover have "\<bar>sum_list (map f xs)\<bar> \<le> int (length xs) * MaxLegAmount" using Cons by simp
    ultimately show ?case by (simp add: algebra_simps)
  qed simp
  have m: "0 \<le> MaxLegAmount" by (simp add: MaxLegAmount_def)
  have "\<bar>item_balance a x\<bar> \<le> MaxLegAmount" "\<bar>item_debits k x\<bar> \<le> MaxLegAmount" "\<bar>item_credits k x\<bar> \<le> MaxLegAmount"
    if "small_item x" for x
    using that m by (cases x; simp add: small_item_def)+
  then show "\<bar>sum_list (map (item_balance a) xs)\<bar> \<le> int (length xs) * MaxLegAmount"
    "\<bar>sum_list (map (item_debits k) xs)\<bar> \<le> int (length xs) * MaxLegAmount"
    "\<bar>sum_list (map (item_credits k) xs)\<bar> \<le> int (length xs) * MaxLegAmount"
    using * by blast+
qed

lemma other_key_adds_nothing:
  "item_key x = KeyAccount a \<Longrightarrow> is_add x \<Longrightarrow> KeyAccount a \<notin> item_key ` set (filter is_add us) \<Longrightarrow> sum_list (map (item_balance a) us) = 0"
  "KeySummary k \<notin> item_key ` set (filter is_add us) \<Longrightarrow> sum_list (map (item_debits k) us) = 0 \<and> sum_list (map (item_credits k) us) = 0"
proof -
  have *: "item_balance a u = 0" if "is_add u \<longrightarrow> item_key u \<noteq> KeyAccount a" for u a using that by (cases u) simp_all
  have **: "item_debits k u = 0 \<and> item_credits k u = 0" if "is_add u \<longrightarrow> item_key u \<noteq> KeySummary k" for u using that by (cases u) simp_all
  show "sum_list (map (item_balance a) us) = 0" if "KeyAccount a \<notin> item_key ` set (filter is_add us)"
    using that by (induction us) (auto simp: * split: if_splits)
  show "KeySummary k \<notin> item_key ` set (filter is_add us) \<Longrightarrow> sum_list (map (item_debits k) us) = 0 \<and> sum_list (map (item_credits k) us) = 0"
    by (induction us) (auto simp: ** split: if_splits)
qed

text \<open>The loop's invariant.\<close>

definition merged :: "ledger_item list \<Rightarrow> ledger_item list \<Rightarrow> bool" where
  "merged xs out \<longleftrightarrow> same_writes out xs \<and> distinct (map item_key (filter is_add out)) \<and>
     item_key ` set (filter is_add out) = item_key ` set (filter is_add xs)"

lemma merge_step_new:
  assumes "merged xs out" "\<not> list_ex (\<lambda>x. same_add x it) out"
  shows "merged (xs @ [it]) (out @ [it])"
proof -
  have "is_add it \<longrightarrow> item_key it \<notin> item_key ` set (filter is_add out)"
    using assms(2) by (force simp: same_add_iff list_ex_iff)
  then have "distinct (map item_key (filter is_add (out @ [it])))" using assms(1) by (auto simp: merged_def)
  moreover have "item_key ` set (filter is_add (out @ [it])) = item_key ` set (filter is_add (xs @ [it]))"
    using assms(1) by (simp only: merged_def filter_append set_append image_Un)
  moreover have "same_writes (out @ [it]) (xs @ [it])"
    using assms(1) by (simp add: merged_def same_writes_def)
  ultimately show ?thesis by (simp only: merged_def)
qed

lemma same_writes_replace:
  assumes "same_writes (us @ y # vs) xs" "is_add y" "is_add z" "is_add it"
    and "\<And>a. item_balance a z = item_balance a y + item_balance a it"
    and "\<And>k. item_debits k z = item_debits k y + item_debits k it"
    and "\<And>k. item_credits k z = item_credits k y + item_credits k it"
    and "\<And>k. adds_summary k z = adds_summary k y" "\<And>k. adds_summary k it = adds_summary k y"
  shows "same_writes (us @ z # vs) (xs @ [it])"
proof -
  have sums: "sum_list (map f (us @ z # vs)) = sum_list (map f (xs @ [it]))"
    if "sum_list (map f (us @ y # vs)) = sum_list (map f xs)" "f z = f y + f it" for f :: "ledger_item \<Rightarrow> int"
    using that by simp
  have ex: "list_ex (adds_summary k) (us @ z # vs) = list_ex (adds_summary k) (xs @ [it])"
    if "list_ex (adds_summary k) (us @ y # vs) = list_ex (adds_summary k) xs" for k
    using that assms(8,9) [of k] by auto
  show ?thesis
    using assms(1-7) unfolding same_writes_def
    by (intro conjI allI sums ex) (simp_all only: filter_append, simp_all)
qed

lemma merge_step_old:
  assumes m: "merged xs out" and e: "list_ex (\<lambda>x. same_add x it) out"
    and small: "list_all small_item (xs @ [it])" "length xs \<le> 1000"
  shows "merged (xs @ [it]) (merge_step it out)"
proof -
  obtain y where y: "y \<in> set out" "same_add y it" using e by (auto simp: list_ex_iff)
  then obtain us vs where out: "out = us @ y # vs" by (auto simp: in_set_conv_decomp)
  have yi: "is_add y" "is_add it" "item_key y = item_key it" using y(2) by (simp_all add: same_add_iff)
  have no: "item_key it \<notin> item_key ` set (filter is_add us)" "item_key it \<notin> item_key ` set (filter is_add vs)"
    using m yi by (auto simp: merged_def out)
  have id: "map (\<lambda>x. if same_add x it then add_values x it else x) ws = ws" if "item_key it \<notin> item_key ` set (filter is_add ws)" for ws
    using that by (induction ws) (auto simp: same_add_iff split: if_splits)
  have step: "merge_step it out = us @ add_values y it # vs"
    using e no y(2) by (simp add: merge_step_def id) (simp add: out id)
  have sw: "same_writes out xs" using m by (simp add: merged_def)
  have xs: "list_all small_item xs" "small_item it" using small(1) by simp_all
  note bounds = sum_small [OF xs(1)]
  have len: "int (length xs) * MaxLegAmount + MaxLegAmount \<le> 1001 * MaxLegAmount"
    using small(2) by (simp add: MaxLegAmount_def)
  have w: "wrap64 (u + v) = u + v" if "\<bar>u\<bar> \<le> int (length xs) * MaxLegAmount" "\<bar>v\<bar> \<le> MaxLegAmount" for u v
    using that len by (intro wrap64_id) (auto simp: in64_def MaxLegAmount_def)
  have key: "item_key (add_values y it) = item_key it" "is_add (add_values y it)"
    using y(2) by (cases y; cases it; simp)+
  have dist: "distinct (map item_key (filter is_add (us @ add_values y it # vs)))"
    using m key yi by (simp add: merged_def out)
  have keys: "item_key ` set (filter is_add (us @ add_values y it # vs)) = item_key ` set (filter is_add (xs @ [it]))"
    using m key yi by (auto simp: merged_def out)
  have "same_writes (us @ add_values y it # vs) (xs @ [it])"
  proof (cases it)
    case (AddBalance a n)
    then obtain m' where y': "y = AddBalance a m'" using yi by (cases y) simp_all
    have "sum_list (map (item_balance a) out) = sum_list (map (item_balance a) xs)" using sw by (simp only: same_writes_def)
    then have "sum_list (map (item_balance a) xs) = m'"
      using other_key_adds_nothing(1) [of it a us] other_key_adds_nothing(1) [of it a vs] no AddBalance yi
      by (simp add: out y')
    then have "wrap64 (m' + n) = m' + n" using w bounds(1) [of a] xs(2) AddBalance by (simp add: small_item_def)
    then show ?thesis using yi key sw unfolding out by (intro same_writes_replace) (auto simp: y' AddBalance)
  next
    case (AddSummary k d c)
    then obtain d' c' where y': "y = AddSummary k d' c'" using yi by (cases y) simp_all
    have "sum_list (map (item_debits k) out) = sum_list (map (item_debits k) xs)"
      "sum_list (map (item_credits k) out) = sum_list (map (item_credits k) xs)"
      using sw by (simp_all only: same_writes_def)
    then have "sum_list (map (item_debits k) xs) = d'" "sum_list (map (item_credits k) xs) = c'"
      using other_key_adds_nothing(2) [of k us] other_key_adds_nothing(2) [of k vs] no AddSummary
      by (simp_all add: out y')
    then have "wrap64 (d' + d) = d' + d" "wrap64 (c' + c) = c' + c"
      using w bounds(2,3) [of k] xs(2) AddSummary by (simp_all add: small_item_def)
    then show ?thesis using yi key sw unfolding out by (intro same_writes_replace) (auto simp: y' AddSummary)
  qed (use yi in simp_all)
  then show ?thesis using dist keys by (simp add: step merged_def)
qed

lemma mergeAdds_merged: "list_all small_item xs \<Longrightarrow> length xs \<le> 1000 \<Longrightarrow> merged xs (mergeAdds xs)"
proof (induction xs rule: rev_induct)
  case Nil
  show ?case by (simp add: mergeAdds_def merged_def same_writes_def)
next
  case (snoc x xs)
  then show ?case
    using merge_step_new [of xs "mergeAdds xs" x] merge_step_old [of xs "mergeAdds xs" x]
    by (cases "list_ex (\<lambda>y. same_add y x) (mergeAdds xs)") (simp_all add: mergeAdds_def merge_step_def [of x])
qed

subsection \<open>A merged write is its plans, one after the other\<close>

lemma item_cond_write: "is_add x \<or> item_key x \<noteq> item_key y \<Longrightarrow> item_cond y (item_write x st) = item_cond y st"
  by (cases x; cases y) (auto simp: entry_key_def set_insort_key image_iff)

lemma item_cond_fold:
  "\<forall>x \<in> set xs. is_add x \<or> item_key x \<noteq> item_key y \<Longrightarrow> item_cond y (fold item_write xs st) = item_cond y st"
  by (induction xs arbitrary: st) (simp_all add: item_cond_write)

lemma merged_conditions:
  assumes "merged xs zs" "list_all (\<lambda>i. item_cond i st) zs"
  shows "list_all (\<lambda>i. item_cond i st) xs"
proof -
  have "item_cond x st" if x: "x \<in> set xs" for x
  proof (cases "is_add x")
    case True
    then have "item_key x \<in> item_key ` set (filter is_add xs)" using x by simp
    then have "item_key x \<in> item_key ` set (filter is_add zs)" using assms(1) by (simp only: merged_def)
    then obtain z where "z \<in> set zs" "is_add z" "item_key z = item_key x" by auto
    moreover from this(1) have "item_cond z st" using assms(2) by (simp add: list_all_iff)
    ultimately have "is_add z" "item_key z = item_key x" "item_cond z st" by simp_all
    then show ?thesis using True by - (cases x; cases z; simp)
  next
    case False
    then have "x \<in> set (filter (\<lambda>x. \<not> is_add x) xs)" using x by simp
    then have "x \<in> set (filter (\<lambda>x. \<not> is_add x) zs)" using assms(1) by (simp only: merged_def same_writes_def)
    then show ?thesis using assms(2) by (simp add: list_all_iff)
  qed
  then show ?thesis by (simp add: list_all_iff)
qed

lemma distinct_filter_keys:
  "distinct (map item_key xs) \<Longrightarrow> distinct (map item_key (filter P xs))"
  by (rule distinct_map_filter)

theorem merged_commit:
  assumes m: "merged (xs @ ys) zs" and w: "TransactWrite (zs @ extra) st = Inr st'"
    and xs: "length xs \<le> 100" "distinct (map item_key xs)" and ys: "length ys \<le> 100" "distinct (map item_key ys)"
  obtains st1 st2 where "TransactWrite xs st = Inr st1" "TransactWrite ys st1 = Inr st2"
    "st' = fold item_write extra st2" "list_all (\<lambda>i. item_cond i st) extra"
proof -
  have zs: "distinct (map item_key zs)" "list_all (\<lambda>i. item_cond i st) zs" "list_all (\<lambda>i. item_cond i st) extra"
    and st': "st' = fold item_write extra (fold item_write zs st)"
    using w by (auto simp: TransactWrite_def split: if_splits)
  have c: "list_all (\<lambda>i. item_cond i st) xs" "list_all (\<lambda>i. item_cond i st) ys"
    using merged_conditions [OF m zs(2)] by simp_all
  have "distinct (map item_key (filter (\<lambda>x. \<not> is_add x) zs))" by (rule distinct_filter_keys [OF zs(1)])
  then have d: "distinct (map item_key (filter (\<lambda>x. \<not> is_add x) (xs @ ys)))"
    using m by (simp only: merged_def same_writes_def)
  have "is_add x \<or> item_key x \<noteq> item_key y" if "x \<in> set xs" "y \<in> set ys" for x y
  proof (cases "is_add y")
    case True
    then show ?thesis by (cases x; cases y) simp_all
  next
    case False
    then show ?thesis using d that by (cases "is_add x") auto
  qed
  then have "list_all (\<lambda>i. item_cond i (fold item_write xs st)) ys"
    using c(2) item_cond_fold by (simp add: list_all_iff)
  then have 2: "TransactWrite ys (fold item_write xs st) = Inr (fold item_write ys (fold item_write xs st))"
    using ys by (simp add: TransactWrite_def)
  have 1: "TransactWrite xs st = Inr (fold item_write xs st)" using xs c(1) by (simp add: TransactWrite_def)
  have "fold item_write zs st = fold item_write ys (fold item_write xs st)"
    using same_writes_fold [of zs "xs @ ys"] m by (simp add: merged_def)
  then show thesis using that [OF 1 2] st' zs(3) by simp
qed

subsection \<open>Gathered totals and planReplace\<close>

record legTotals =
  LtBalance :: "(string \<times> int) list"
  LtSums :: "(SummaryKey \<times> (int \<times> int)) list"

definition newLegTotals :: legTotals where
  "newLegTotals = \<lparr>LtBalance = [], LtSums = []\<rparr>"

definition sum_of :: "(SummaryKey \<times> (int \<times> int)) list \<Rightarrow> SummaryKey \<Rightarrow> int \<times> int" where
  "sum_of m k = (case map_of m k of None \<Rightarrow> (0, 0) | Some v \<Rightarrow> v)"

text \<open>The two maps with their order slices are association lists that grow at the end.\<close>

definition lt_add :: "FMonth \<Rightarrow> Leg \<Rightarrow> legTotals \<Rightarrow> legTotals" where
  "lt_add month l t =
     (let a = LegAccountID l; k = (month, a); (d, c) = sum_of (LtSums t) k
      in \<lparr>LtBalance = AList.update a (wrap64 (net_of (LtBalance t) a + LegAmount l)) (LtBalance t),
          LtSums = AList.update k
            (if LegAmount l > 0 then (wrap64 (d + LegAmount l), c) else (d, wrap64 (c + wrap64 (- LegAmount l)))) (LtSums t)\<rparr>)"

definition totalsItems :: "legTotals \<Rightarrow> ledger_item list" where
  "totalsItems t = map (\<lambda>(a, n). AddBalance a n) (LtBalance t) @ map (\<lambda>(k, d, c). AddSummary k d c) (LtSums t)"

definition gather :: "Transaction \<Rightarrow> legTotals \<Rightarrow> legTotals" where
  "gather tx t = fold (lt_add (MonthOf (TxDate tx))) (TxLegs tx) t"

record replacePlan =
  RpReplacementID :: string
  RpItems :: "ledger_item list"
  RpMarkerIdx :: "nat option"

definition planReplace ::
  "ResolvedSpace \<Rightarrow> string \<Rightarrow> Transaction \<Rightarrow> Date \<Rightarrow> PostMeta \<Rightarrow> PostMeta \<Rightarrow> string \<Rightarrow> string \<Rightarrow> ledger_store \<Rightarrow>
     (ledger_error, replacePlan) result" where
  "planReplace sp originalID replacement date reverseMeta meta revID nextID st =
     (case Require sp Write of Some err \<Rightarrow> Inl (ErrSpace err)
      | None \<Rightarrow>
        (case GetTransaction sp originalID st of Inl err \<Rightarrow> Inl err
         | Inr orig \<Rightarrow>
           (case (if TxKindOf (StTx orig) = KindSettlement then Require sp Settle else None) of Some err \<Rightarrow> Inl (ErrSpace err)
            | None \<Rightarrow>
              (case Reverse (StTx orig) originalID date of Inl err \<Rightarrow> Inl (ErrTx err)
               | Inr rv \<Rightarrow>
                 (case NewTransaction (TxKindOf replacement) (TxDate replacement) (TxLegs replacement) of Inl err \<Rightarrow> Inl (ErrTx err)
                  | Inr nxt \<Rightarrow>
                    let reverseMeta = (if PmMemo reverseMeta = '''' then reverseMeta\<lparr>PmMemo := StMemo orig\<rparr> else reverseMeta);
                        reverseMeta = (if PmRef reverseMeta = '''' then reverseMeta\<lparr>PmRef := StRef orig\<rparr> else reverseMeta);
                        (revItems, marker) = postItemsWith revID rv reverseMeta (TxKindOf (StTx orig)) True True;
                        (nextItems, _) = postItemsWith nextID nxt meta (TxKindOf nxt) False True;
                        totals = gather nxt (gather rv newLegTotals)
                    in Inr \<lparr>RpReplacementID = nextID, RpItems = revItems @ nextItems @ totalsItems totals, RpMarkerIdx = marker\<rparr>)))))"

text \<open>The totals are the merged \<open>ADD\<close>s.\<close>

definition leg_adds :: "FMonth \<Rightarrow> Leg \<Rightarrow> ledger_item list" where
  "leg_adds month l = [AddBalance (LegAccountID l) (LegAmount l),
     AddSummary (month, LegAccountID l) (if LegAmount l > 0 then LegAmount l else 0) (if LegAmount l > 0 then 0 else wrap64 (- LegAmount l))]"

definition totals_ok :: "ledger_item list \<Rightarrow> legTotals \<Rightarrow> bool" where
  "totals_ok xs t \<longleftrightarrow>
     distinct (map fst (LtBalance t)) \<and> distinct (map fst (LtSums t)) \<and>
     fst ` set (LtBalance t) = {a. KeyAccount a \<in> item_key ` set (filter is_add xs)} \<and>
     fst ` set (LtSums t) = {k. KeySummary k \<in> item_key ` set (filter is_add xs)} \<and>
     (\<forall>a. net_of (LtBalance t) a = sum_list (map (item_balance a) xs)) \<and>
     (\<forall>k. sum_of (LtSums t) k = (sum_list (map (item_debits k) xs), sum_list (map (item_credits k) xs)))"

lemma totals_ok_step:
  assumes t: "totals_ok xs t" and l: "leg_ok l" and s: "list_all small_item xs" "length xs \<le> 1000"
  shows "totals_ok (xs @ leg_adds month l) (lt_add month l t)"
proof -
  have amt: "\<bar>LegAmount l\<bar> \<le> MaxLegAmount" "wrap64 (- LegAmount l) = - LegAmount l"
    using l by (auto simp: leg_ok_def wrap64_uminus)
  have w: "wrap64 (u + v) = u + v" if "\<bar>u\<bar> \<le> int (length xs) * MaxLegAmount" "\<bar>v\<bar> \<le> MaxLegAmount" for u v
  proof -
    have "int (length xs) * MaxLegAmount + MaxLegAmount \<le> 1001 * MaxLegAmount" using s(2) by (simp add: MaxLegAmount_def)
    then show ?thesis using that by (intro wrap64_id) (auto simp: in64_def MaxLegAmount_def)
  qed
  have wb: "wrap64 (net_of (LtBalance t) a + LegAmount l) = net_of (LtBalance t) a + LegAmount l" for a
    using t w [OF sum_small(1) [OF s(1)] amt(1)] by (simp add: totals_ok_def)
  have wd: "wrap64 (fst (sum_of (LtSums t) k) + LegAmount l) = fst (sum_of (LtSums t) k) + LegAmount l"
    "wrap64 (snd (sum_of (LtSums t) k) - LegAmount l) = snd (sum_of (LtSums t) k) - LegAmount l" for k
  proof -
    have "sum_of (LtSums t) k = (sum_list (map (item_debits k) xs), sum_list (map (item_credits k) xs))"
      using t unfolding totals_ok_def by blast
    then show "wrap64 (fst (sum_of (LtSums t) k) + LegAmount l) = fst (sum_of (LtSums t) k) + LegAmount l"
      "wrap64 (snd (sum_of (LtSums t) k) - LegAmount l) = snd (sum_of (LtSums t) k) - LegAmount l"
      using w [OF sum_small(2) [OF s(1)] amt(1), of k] w [OF sum_small(3) [OF s(1)], of "- LegAmount l" k] amt(1) by simp_all
  qed
  define a where "a = LegAccountID l"
  have lt: "LtBalance (lt_add month l t) = AList.update a (net_of (LtBalance t) a + LegAmount l) (LtBalance t)"
    "LtSums (lt_add month l t) = AList.update (month, a)
       (fst (sum_of (LtSums t) (month, a)) + (if LegAmount l > 0 then LegAmount l else 0),
        snd (sum_of (LtSums t) (month, a)) + (if LegAmount l > 0 then 0 else - LegAmount l)) (LtSums t)"
    using wb [of a] wd [of "(month, a)"] amt(2) by (auto simp: lt_add_def Let_def a_def split: prod.splits)
  have "net_of (LtBalance (lt_add month l t)) b = sum_list (map (item_balance b) (xs @ leg_adds month l))" for b
    using t by (auto simp: lt totals_ok_def net_of_def update_conv' leg_adds_def a_def)
  moreover have "sum_of (LtSums (lt_add month l t)) k =
      (sum_list (map (item_debits k) (xs @ leg_adds month l)), sum_list (map (item_credits k) (xs @ leg_adds month l)))" for k
    using t amt(2) by (cases k) (auto simp: lt totals_ok_def sum_of_def update_conv' leg_adds_def a_def)
  moreover have "fst ` set (LtBalance (lt_add month l t)) = {b. KeyAccount b \<in> item_key ` set (filter is_add (xs @ leg_adds month l))}"
    using t unfolding lt(1) totals_ok_def by (simp add: dom_update leg_adds_def a_def) blast
  moreover have "fst ` set (LtSums (lt_add month l t)) = {k. KeySummary k \<in> item_key ` set (filter is_add (xs @ leg_adds month l))}"
    using t unfolding lt(2) totals_ok_def by (simp add: dom_update leg_adds_def a_def) blast
  ultimately show ?thesis using t unfolding totals_ok_def lt by (simp add: distinct_update)
qed


lemma gather_ok:
  assumes "totals_ok xs t" "list_all leg_ok ls" "list_all small_item xs" "length xs + 2 * length ls \<le> 1000"
  shows "totals_ok (xs @ concat (map (leg_adds m) ls)) (fold (lt_add m) ls t)"
  using assms
proof (induction ls arbitrary: xs t)
  case (Cons l ls)
  have "list_all small_item (leg_adds m l)"
    using Cons.prems(2) by (auto simp: leg_adds_def small_item_def leg_ok_def wrap64_uminus MaxLegAmount_def)
  moreover have "length (leg_adds m l) = 2" by (simp add: leg_adds_def)
  ultimately show ?case
    using Cons.IH [of "xs @ leg_adds m l" "lt_add m l t"] totals_ok_step [of xs t l m] Cons.prems by simp
qed simp

lemma adds_only:
  "sum_list (map (item_balance a) (filter is_add xs)) = sum_list (map (item_balance a) xs)"
  "sum_list (map (item_debits k) (filter is_add xs)) = sum_list (map (item_debits k) xs)"
  "sum_list (map (item_credits k) (filter is_add xs)) = sum_list (map (item_credits k) xs)"
  "list_ex (adds_summary k) (filter is_add xs) = list_ex (adds_summary k) xs"
proof -
  have "item_balance a x = 0" "item_debits k x = 0" "item_credits k x = 0" "\<not> adds_summary k x" if "\<not> is_add x" for x
    using that by (cases x; simp)+
  then show "sum_list (map (item_balance a) (filter is_add xs)) = sum_list (map (item_balance a) xs)"
    "sum_list (map (item_debits k) (filter is_add xs)) = sum_list (map (item_debits k) xs)"
    "sum_list (map (item_credits k) (filter is_add xs)) = sum_list (map (item_credits k) xs)"
    "list_ex (adds_summary k) (filter is_add xs) = list_ex (adds_summary k) xs"
    by (induction xs) auto
qed

lemma ex_adds_summary: "list_ex (adds_summary k) xs \<longleftrightarrow> KeySummary k \<in> item_key ` set (filter is_add xs)"
proof -
  have "adds_summary k x \<longleftrightarrow> is_add x \<and> item_key x = KeySummary k" for x by (cases x) auto
  then show ?thesis by (auto simp: list_ex_iff image_iff) 
qed

lemma balance_items:
  "distinct (map fst m) \<Longrightarrow> sum_list (map (item_balance a) (map (\<lambda>(a, n). AddBalance a n) m)) = net_of m a"
  "sum_list (map (item_debits k) (map (\<lambda>(a, n). AddBalance a n) m)) = 0"
  "sum_list (map (item_credits k) (map (\<lambda>(a, n). AddBalance a n) m)) = 0"
proof -
  show "distinct (map fst m) \<Longrightarrow> sum_list (map (item_balance a) (map (\<lambda>(a, n). AddBalance a n) m)) = net_of m a"
  proof (induction m)
    case (Cons p m)
    then have "map_of m (fst p) = None" by (simp add: map_of_eq_None_iff)
    then show ?case using Cons by (cases p) (auto simp: net_of_def)
  qed (simp add: net_of_def)
  show "sum_list (map (item_debits k) (map (\<lambda>(a, n). AddBalance a n) m)) = 0"
    "sum_list (map (item_credits k) (map (\<lambda>(a, n). AddBalance a n) m)) = 0"
    by (induction m) auto
qed

lemma summary_items:
  "distinct (map fst m) \<Longrightarrow> sum_list (map (item_debits k) (map (\<lambda>(k, d, c). AddSummary k d c) m)) = fst (sum_of m k) \<and>
     sum_list (map (item_credits k) (map (\<lambda>(k, d, c). AddSummary k d c) m)) = snd (sum_of m k)"
  "sum_list (map (item_balance a) (map (\<lambda>(k, d, c). AddSummary k d c) m)) = 0"
proof -
  show "distinct (map fst m) \<Longrightarrow> sum_list (map (item_debits k) (map (\<lambda>(k, d, c). AddSummary k d c) m)) = fst (sum_of m k) \<and>
     sum_list (map (item_credits k) (map (\<lambda>(k, d, c). AddSummary k d c) m)) = snd (sum_of m k)"
  proof (induction m)
    case (Cons p m)
    then have "map_of m (fst p) = None" by (simp add: map_of_eq_None_iff)
    then show ?case using Cons by (cases p) (auto simp: sum_of_def)
  qed (simp add: sum_of_def)
  show "sum_list (map (item_balance a) (map (\<lambda>(k, d, c). AddSummary k d c) m)) = 0"
    by (induction m) auto
qed

lemma total_keys: "item_key ` set (totalsItems t) = KeyAccount ` fst ` set (LtBalance t) \<union> KeySummary ` fst ` set (LtSums t)"
proof -
  have "item_key ` (\<lambda>(a, n). AddBalance a n) ` set m = KeyAccount ` fst ` set m" for m
    by (auto simp: image_image split: prod.splits intro: rev_image_eqI)
  moreover have "item_key ` (\<lambda>(k, d, c). AddSummary k d c) ` set m = KeySummary ` fst ` set m" for m
    by (auto simp: image_image split: prod.splits intro: rev_image_eqI)
  ultimately show ?thesis by (simp add: totalsItems_def image_Un)
qed

lemma total_items: "filter is_add (totalsItems t) = totalsItems t" "filter (\<lambda>x. \<not> is_add x) (totalsItems t) = []"
proof -
  have "filter is_add (map (\<lambda>(a, n). AddBalance a n) m) = map (\<lambda>(a, n). AddBalance a n) m"
    "filter is_add (map (\<lambda>(k, d, c). AddSummary k d c) m') = map (\<lambda>(k, d, c). AddSummary k d c) m'" for m m'
    by (induction m, auto) (induction m', auto)
  then show "filter is_add (totalsItems t) = totalsItems t" by (simp add: totalsItems_def)
  then show "filter (\<lambda>x. \<not> is_add x) (totalsItems t) = []" by (metis filter_False filter_id_conv)
qed

lemma total_distinct:
  "distinct (map fst (LtBalance t)) \<Longrightarrow> distinct (map fst (LtSums t)) \<Longrightarrow> distinct (map item_key (totalsItems t))"
proof -
  have "map item_key (map (\<lambda>(a, n). AddBalance a n) m) = map KeyAccount (map fst m)"
    "map item_key (map (\<lambda>(k, d, c). AddSummary k d c) m') = map KeySummary (map fst m')" for m m'
    by auto
  moreover assume "distinct (map fst (LtBalance t))" "distinct (map fst (LtSums t))"
  ultimately show ?thesis by (auto simp: totalsItems_def distinct_map inj_on_def)
qed

lemma totals_merged:
  assumes t: "totals_ok (filter is_add xs) t"
  shows "merged xs (filter (\<lambda>x. \<not> is_add x) xs @ totalsItems t)"
proof -
  let ?zs = "filter (\<lambda>x. \<not> is_add x) xs @ totalsItems t"
  have d: "distinct (map fst (LtBalance t))" "distinct (map fst (LtSums t))" using t by (simp_all add: totals_ok_def)
  have zs: "filter is_add ?zs = totalsItems t" by (simp add: total_items)
  have add_key: "(\<exists>a. item_key x = KeyAccount a) \<or> (\<exists>k. item_key x = KeySummary k)" if "is_add x" for x
    using that by (cases x) auto
  have "fst ` set (LtBalance t) = {a. KeyAccount a \<in> item_key ` set (filter is_add xs)}"
    "fst ` set (LtSums t) = {k. KeySummary k \<in> item_key ` set (filter is_add xs)}"
    using t unfolding totals_ok_def by simp_all
  moreover have "KeyAccount ` {a. KeyAccount a \<in> S} \<union> KeySummary ` {k. KeySummary k \<in> S} = S"
    if "S \<subseteq> range KeyAccount \<union> range KeySummary" for S
    using that by blast
  moreover have "item_key ` set (filter is_add xs) \<subseteq> range KeyAccount \<union> range KeySummary" using add_key by fastforce
  ultimately have keys: "item_key ` set (totalsItems t) = item_key ` set (filter is_add xs)"
    by (simp only: total_keys)
  have "sum_list (map (item_balance a) ?zs) = sum_list (map (item_balance a) xs)" for a
  proof -
    have "net_of (LtBalance t) a = sum_list (map (item_balance a) xs)" using t unfolding totals_ok_def adds_only by blast
    then show ?thesis unfolding adds_only(1) [of a ?zs, symmetric] zs
      using balance_items(1) [OF d(1), of a] summary_items(2) [of a "LtSums t"] by (simp add: totalsItems_def)
  qed
  moreover have "sum_list (map (item_debits k) ?zs) = sum_list (map (item_debits k) xs)"
    "sum_list (map (item_credits k) ?zs) = sum_list (map (item_credits k) xs)" for k
  proof -
    have "sum_of (LtSums t) k = (sum_list (map (item_debits k) xs), sum_list (map (item_credits k) xs))"
      using t unfolding totals_ok_def adds_only by blast
    then show "sum_list (map (item_debits k) ?zs) = sum_list (map (item_debits k) xs)"
      "sum_list (map (item_credits k) ?zs) = sum_list (map (item_credits k) xs)"
      unfolding adds_only(2,3) [of k ?zs, symmetric] zs
      using summary_items(1) [OF d(2), of k] balance_items(2,3) [of k "LtBalance t"] by (simp_all add: totalsItems_def)
  qed
  moreover have "list_ex (adds_summary k) ?zs = list_ex (adds_summary k) xs" for k
    unfolding ex_adds_summary zs keys by simp
  moreover have "filter (\<lambda>x. \<not> is_add x) ?zs = filter (\<lambda>x. \<not> is_add x) xs"
    by (simp add: total_items)
  ultimately have "same_writes ?zs xs" unfolding same_writes_def by blast
  then show ?thesis using keys total_distinct [OF d] by (simp only: merged_def zs)
qed


text \<open>The items of a plan with its totals gathered are those of the full plan without the \<open>ADD\<close>s.\<close>

lemma gathered_items:
  assumes "tx_valid tx"
  shows "fst (postItemsWith i tx meta k rv True) = filter (\<lambda>x. \<not> is_add x) (fst (postItemsWith i tx meta k rv False))"
    "filter is_add (fst (postItemsWith i tx meta k rv False)) = concat (map (leg_adds (MonthOf (TxDate tx))) (TxLegs tx))"
proof -
  have "concat (map (leg_items i tx meta k rv True) els) = filter (\<lambda>x. \<not> is_add x) (concat (map (leg_items i tx meta k rv False) els))"
    "filter is_add (concat (map (leg_items i tx meta k rv False) els)) = concat (map (leg_adds (MonthOf (TxDate tx))) (map snd els))" for els
    by (induction els) (auto simp: leg_items_def leg_adds_def)
  moreover have "map (f \<circ> snd) (enumerate 0 xs) = map f xs" for f :: "Leg \<Rightarrow> ledger_item list" and xs
    by (simp flip: map_map)
  ultimately show "fst (postItemsWith i tx meta k rv True) = filter (\<lambda>x. \<not> is_add x) (fst (postItemsWith i tx meta k rv False))"
    "filter is_add (fst (postItemsWith i tx meta k rv False)) = concat (map (leg_adds (MonthOf (TxDate tx))) (TxLegs tx))"
    by (simp_all add: postItemsWith_def Let_def)
qed

lemma gathered_merged:
  assumes "tx_valid t1" "tx_valid t2"
  shows "merged (fst (postItemsWith i1 t1 m1 k1 r1 False) @ fst (postItemsWith i2 t2 m2 k2 r2 False))
    (fst (postItemsWith i1 t1 m1 k1 r1 True) @ fst (postItemsWith i2 t2 m2 k2 r2 True) @ totalsItems (gather t2 (gather t1 newLegTotals)))"
proof -
  have legs: "list_all leg_ok (TxLegs t1)" "list_all leg_ok (TxLegs t2)" "length (TxLegs t1) \<le> 8" "length (TxLegs t2) \<le> 8"
    using assms by (simp_all add: tx_valid_def MaxLegs_def)
  have small: "list_all small_item (concat (map (leg_adds m) ls))" "length (concat (map (leg_adds m) ls)) = 2 * length ls"
    if "list_all leg_ok ls" for m ls
    using that by (induction ls) (auto simp: leg_adds_def small_item_def leg_ok_def wrap64_uminus MaxLegAmount_def)
  have "totals_ok [] newLegTotals"
    by (auto simp: totals_ok_def newLegTotals_def net_of_def sum_of_def)
  then have 1: "totals_ok (concat (map (leg_adds (MonthOf (TxDate t1))) (TxLegs t1))) (gather t1 newLegTotals)"
    using gather_ok [of "[]" newLegTotals "TxLegs t1"] legs by (simp add: gather_def)
  have "totals_ok (concat (map (leg_adds (MonthOf (TxDate t1))) (TxLegs t1)) @ concat (map (leg_adds (MonthOf (TxDate t2))) (TxLegs t2)))
      (gather t2 (gather t1 newLegTotals))"
    using gather_ok [OF 1 legs(2)] small [OF legs(1)] legs(3,4) by (simp add: gather_def)
  then show ?thesis
    using totals_merged [of "fst (postItemsWith i1 t1 m1 k1 r1 False) @ fst (postItemsWith i2 t2 m2 k2 r2 False)"]
    by (simp add: gathered_items [OF assms(1)] gathered_items [OF assms(2)])
qed

lemma post_items_fit:
  assumes "tx_valid tx"
  shows "length (fst (postItemsWith i tx meta k rv False)) \<le> 100" "distinct (map item_key (fst (postItemsWith i tx meta k rv False)))"
    "list_all small_item (fst (postItemsWith i tx meta k rv False))"
proof -
  have "length (TxLegs tx) \<le> 8" "distinct (map LegAccountID (TxLegs tx))" "list_all leg_ok (TxLegs tx)"
    using assms by (auto simp: tx_valid_def MaxLegs_def)
  moreover have "list_all small_item (concat (map (leg_items i tx meta k rv False) els))" if "list_all leg_ok (map snd els)" for els
    using that by (induction els) (auto simp: leg_items_def small_item_def leg_ok_def wrap64_uminus MaxLegAmount_def)
  ultimately show "length (fst (postItemsWith i tx meta k rv False)) \<le> 100" "distinct (map item_key (fst (postItemsWith i tx meta k rv False)))"
    "list_all small_item (fst (postItemsWith i tx meta k rv False))"
    using leg_keys [of "TxLegs tx" i tx meta k rv 0] legs_rows [of i tx meta k rv 0 "TxLegs tx"]
    by (auto simp: postItemsWith_def Let_def leg_count leg_rows_def small_item_def)
qed

text \<open>C17: Correcting a stored transaction in one write (\<open>planReplace\<close>, whose gathered totals add each
  balance and each monthly summary once) leaves exactly the store that reversing it and then
  posting the replacement would leave, in two writes that both succeed.\<close>

theorem replacement_is_reverse_then_post:
  assumes "planReplace sp i repl d rm m revID nextID st = Inr rp" "TransactWrite (RpItems rp) st = Inr st'"
    and "TxKindOf repl \<noteq> KindSettlement" "TxAdjusts repl = ''''" "PmTxID rm = ''''" "PmTxID m = ''''"
  shows "\<exists>st1. LedgerReverse sp i d rm revID st = Inr (revID, st1) \<and> post sp repl m nextID st1 = Inr (nextID, st')"
proof -
  obtain orig where o: "Require sp Write = None" "GetTransaction sp i st = Inr orig"
    "(if TxKindOf (StTx orig) = KindSettlement then Require sp Settle else None) = None"
    using assms(1) by (auto simp: planReplace_def split: option.splits sum.splits)
  obtain rv nxt where rv: "Reverse (StTx orig) i d = Inr rv"
    and nxt: "NewTransaction (TxKindOf repl) (TxDate repl) (TxLegs repl) = Inr nxt"
    using assms(1) o by (auto simp: planReplace_def split: sum.splits)
  define rm' where "rm' = (let rm = (if PmMemo rm = '''' then rm\<lparr>PmMemo := StMemo orig\<rparr> else rm)
    in if PmRef rm = '''' then rm\<lparr>PmRef := StRef orig\<rparr> else rm)"
  have rm': "PmTxID rm' = ''''" using assms(5) by (simp add: rm'_def Let_def)
  have nxt': "nxt = repl" using nxt assms(4) by (auto simp: NewTransaction_iff)
  have v: "tx_valid rv" "tx_valid repl" "TxKindOf rv = KindReversal"
    using Reverse_effect [OF rv] GetTransaction_stored [OF o(2)] NewTransaction_valid [OF nxt] nxt' by auto
  define R where "R = postItemsWith revID rv rm' (TxKindOf (StTx orig)) True False"
  define N where "N = postItemsWith nextID repl m (TxKindOf repl) False False"
  have items: "RpItems rp = fst (postItemsWith revID rv rm' (TxKindOf (StTx orig)) True True) @
      fst (postItemsWith nextID repl m (TxKindOf repl) False True) @ totalsItems (gather repl (gather rv newLegTotals))"
    using assms(1) o rv nxt nxt' by (auto simp: planReplace_def Let_def rm'_def split: prod.splits if_splits)
  obtain st1 st2 where w: "TransactWrite (fst R) st = Inr st1" "TransactWrite (fst N) st1 = Inr st2" "st' = st2"
  proof (rule merged_commit [OF gathered_merged [OF v(1,2), of revID rm' "TxKindOf (StTx orig)" True nextID m "TxKindOf repl" False],
        of "[]" st st'])
    show "TransactWrite (((fst (postItemsWith revID rv rm' (TxKindOf (StTx orig)) True True)) @
      fst (postItemsWith nextID repl m (TxKindOf repl) False True) @ totalsItems (gather repl (gather rv newLegTotals))) @ []) st = Inr st'"
      using assms(2) items by simp
  qed (use that post_items_fit [OF v(1)] post_items_fit [OF v(2)] in \<open>simp_all add: R_def N_def\<close>)
  have chk: "NewTransaction (TxKindOf tx) (TxDate tx) (TxLegs tx) = Inr (tx\<lparr>TxAdjusts := ''''\<rparr>)" if "tx_valid tx" for tx
    using that by (simp add: NewTransaction_iff tx_valid_def)
  have p1: "planPostAs sp rv rm' revID (TxKindOf (StTx orig)) True = Inr \<lparr>PlTxID = revID, PlItems = fst R, PlMarkerIdx = snd R\<rparr>"
    using o(1) v(3) chk [OF v(1)] rm' by (simp add: planPostAs_def R_def split: prod.splits)
  have p2: "planPost sp repl m nextID = Inr \<lparr>PlTxID = nextID, PlItems = fst N, PlMarkerIdx = snd N\<rparr>"
    using o(1) chk [OF v(2)] assms(3,6) by (simp add: planPost_def planPostAs_def N_def split: prod.splits)
  have "planReverse sp i d rm revID st = Inr \<lparr>PlTxID = revID, PlItems = fst R, PlMarkerIdx = snd R\<rparr>"
    using o rv p1 by (simp add: planReverse_def Let_def rm'_def)
  then show ?thesis using w p2 by (simp add: LedgerReverse_def post_def)
qed


text \<open>Two facts posted in one write through \<open>mergeAdds\<close>, which folds the \<open>ADD\<close>s that meet on one
  row, leave exactly the store that posting them one after the other leaves.\<close>

theorem merged_posts_in_sequence:
  assumes "planPostAs sp t1 m1 f1 k1 r1 = Inr p1" "planPostAs sp t2 m2 f2 k2 r2 = Inr p2"
    and "TransactWrite (mergeAdds (PlItems p1 @ PlItems p2)) st = Inr st'"
  shows "\<exists>st1. TransactWrite (PlItems p1) st = Inr st1 \<and> TransactWrite (PlItems p2) st1 = Inr st'"
proof -
  obtain i1 where p1: "PlItems p1 = fst (postItemsWith i1 t1 m1 k1 r1 False)" "tx_valid t1"
    using planPostAs_plan [OF assms(1)] by blast
  obtain i2 where p2: "PlItems p2 = fst (postItemsWith i2 t2 m2 k2 r2 False)" "tx_valid t2"
    using planPostAs_plan [OF assms(2)] by blast
  note fit = post_items_fit [OF p1(2), of i1 m1 k1 r1, folded p1(1)] post_items_fit [OF p2(2), of i2 m2 k2 r2, folded p2(1)]
  have "merged (PlItems p1 @ PlItems p2) (mergeAdds (PlItems p1 @ PlItems p2))"
    using fit by (intro mergeAdds_merged) simp_all
  then show ?thesis
    using merged_commit [of "PlItems p1" "PlItems p2" _ "[]" st st'] assms(3) fit by (metis append_Nil2 fold_simps(1))
qed

definition sample_tx :: "Cents \<Rightarrow> Transaction" where
  "sample_tx n = projr (Transfer ''a'' ''b'' n (mk_date 2026 3 7))"

lemma inr_projr: "\<not> isl r \<Longrightarrow> r = Inr (projr r)"
  by (cases r) simp_all

theorem merged_posts_in_sequence_witness:
  "\<exists>st1. TransactWrite (PlItems (projr (planPostAs sample_space (sample_tx 500) (sample_meta '''') ''t1'' KindTransfer False))) sample_chart = Inr st1 \<and>
     \<not> isl (TransactWrite (PlItems (projr (planPostAs sample_space (sample_tx 200) (sample_meta '''') ''t2'' KindTransfer False))) st1)"
proof -
  have p: "\<not> isl (planPostAs sample_space (sample_tx 500) (sample_meta '''') ''t1'' KindTransfer False)"
    "\<not> isl (planPostAs sample_space (sample_tx 200) (sample_meta '''') ''t2'' KindTransfer False)" by code_simp+
  have "\<not> isl (TransactWrite (mergeAdds (PlItems (projr (planPostAs sample_space (sample_tx 500) (sample_meta '''') ''t1'' KindTransfer False)) @
      PlItems (projr (planPostAs sample_space (sample_tx 200) (sample_meta '''') ''t2'' KindTransfer False)))) sample_chart)"
    by code_simp
  from merged_posts_in_sequence [OF inr_projr [OF p(1)] inr_projr [OF p(2)] inr_projr [OF this]]
  show ?thesis by auto
qed

definition sample_correction :: "(ledger_error, replacePlan) result" where
  "sample_correction =
     planReplace sample_space ''transfer-k'' (sample_tx 700) (mk_date 2026 3 9) (sample_meta '''') (sample_meta '''') ''t2'' ''t3'' sample_moved"

theorem replacement_is_reverse_then_post_witness:
  "\<exists>st1. LedgerReverse sample_space ''transfer-k'' (mk_date 2026 3 9) (sample_meta '''') ''t2'' sample_moved = Inr (''t2'', st1) \<and>
     \<not> isl (post sample_space (sample_tx 700) (sample_meta '''') ''t3'' st1)"
proof -
  have 1: "\<not> isl sample_correction" by code_simp
  have 2: "\<not> isl (TransactWrite (RpItems (projr sample_correction)) sample_moved)" by code_simp
  have k: "TxKindOf (sample_tx 700) \<noteq> KindSettlement" "TxAdjusts (sample_tx 700) = ''''" "PmTxID (sample_meta '''') = ''''"
    by code_simp+
  from replacement_is_reverse_then_post [OF inr_projr [OF 1, unfolded sample_correction_def] inr_projr [OF 2, unfolded sample_correction_def] k k(3)]
  show ?thesis by auto
qed

end
