(* ===== verification/Bill.thy ===== *)
theory Bill
  imports LedgerMerge
begin

text \<open>
  \<open>api/internal/domain/finance/bill.go\<close>: a bill, a forecast or recognised obligation, and what its
  status allows. \<open>StatusOther\<close> and \<open>OriginOther\<close> stand for every string the code does not know.
\<close>

datatype BillStatus = BillForecast | BillPaid | BillCanceled | StatusOther string

datatype BillOrigin = OriginManual | OriginRecurrence | OriginBillingInvoice | OriginCardStatement | OriginImport | OriginOther string

definition maxBillDescription :: nat where "maxBillDescription = 200"

record Bill =
  BlID :: string
  BlDirection :: Direction
  BlAmount :: Cents
  BlAccountID :: string
  BlCategoryID :: string
  BlDescription :: string
  BlCompetence :: Date
  BlDue :: Date
  BlPaidDate :: Date
  BlStatus :: BillStatus
  BlOrigin :: BillOrigin
  BlOriginRef :: string
  BlAutoSettle :: bool
  BlPaymentGroup :: string
  BlTransactionIDs :: "string list"
  BlCredited :: Cents

datatype invalid_bill = BillDirection | BillAmount | BillAccount | BillCategory | BillCompetence | BillDue
  | BillDescription | BillUnknownStatus | BillNoPaidDate | BillNoReference | BillUnknownOrigin

definition BillValidate :: "Bill \<Rightarrow> invalid_bill option" where
  "BillValidate b =
     (if BlDirection b \<noteq> Payable \<and> BlDirection b \<noteq> Receivable then Some BillDirection
      else if BlAmount b \<le> 0 \<or> BlAmount b > MaxLegAmount then Some BillAmount
      else if BlAccountID b = '''' then Some BillAccount
      else if BlCategoryID b = '''' then Some BillCategory
      else if IsZero (BlCompetence b) then Some BillCompetence
      else if IsZero (BlDue b) then Some BillDue
      else if length (BlDescription b) > maxBillDescription then Some BillDescription
      else if BlStatus b \<noteq> BillForecast \<and> BlStatus b \<noteq> BillPaid \<and> BlStatus b \<noteq> BillCanceled then Some BillUnknownStatus
      else if BlStatus b = BillPaid \<and> IsZero (BlPaidDate b) then Some BillNoPaidDate
      else case BlOrigin b of
        OriginManual \<Rightarrow> None
      | OriginOther _ \<Rightarrow> Some BillUnknownOrigin
      | _ \<Rightarrow> if TrimSpace (BlOriginRef b) = '''' then Some BillNoReference else None)"

definition Facts :: "Bill \<Rightarrow> BillFacts" where
  "Facts b = \<lparr>BfDirection = BlDirection b, BfAmount = BlAmount b, BfCategoryID = BlCategoryID b, BfAccountID = BlAccountID b,
     BfClears = (if BlOrigin b = OriginCardStatement then BlCategoryID b else '''')\<rparr>"

definition CanEdit :: "Bill \<Rightarrow> bool" where
  "CanEdit b \<longleftrightarrow> BlStatus b = BillForecast"

text \<open>\<open>CanSettle\<close> and \<open>CanCancel\<close> answer an error or nil; every error of theirs is \<open>ErrBillState\<close>.\<close>

definition CanSettle :: "Bill \<Rightarrow> bool" where
  "CanSettle b \<longleftrightarrow> BlStatus b = BillForecast"

definition CanCancel :: "Bill \<Rightarrow> bool \<Rightarrow> bool" where
  "CanCancel b cardArchived \<longleftrightarrow>
     (if BlOrigin b = OriginCardStatement \<and> \<not> cardArchived then False
      else case BlStatus b of BillForecast \<Rightarrow> True | _ \<Rightarrow> False)"

datatype Bucket = BucketOverdue | BucketToday | BucketUpcoming

definition BucketOn :: "Bill \<Rightarrow> Date \<Rightarrow> Bucket" where
  "BucketOn b today =
     (if BlDue b < today then BucketOverdue else if BlDue b = today then BucketToday else BucketUpcoming)"

end
