(* ===== verification/Recurrence.thy ===== *)
theory Recurrence
  imports ScheduleProps Bill
begin

text \<open>
  \<open>api/internal/domain/finance/recurrence_rule.go\<close>: a recurrence, the rule that produces bills or card
  charges, and what it owes at a day. As in theory \<open>Schedule\<close> an outer \<open>None\<close> means that the call does
  not return. Shown: what a recurrence owes is exactly the occurrences after its cursor up to the
  horizon, however many five-year chunks the walk takes, a later run continues where an earlier one
  stopped, and a preview is the beginning of the whole list.
\<close>

subsection \<open>Recurrences\<close>

datatype AmountMode = AmountUnset | AmountFixed | AmountExpected | AmountOther string

definition AttentionCardArchived :: string where "AttentionCardArchived = ''card_archived''"
definition AttentionCategoryArchived :: string where "AttentionCategoryArchived = ''category_archived''"

record FinRecurrence =
  RcID :: string
  RcDirection :: Direction
  RcAmount :: Cents
  RcAmountMode :: AmountMode
  RcCategoryID :: string
  RcAccountID :: string
  RcCardID :: string
  RcInstallments :: int
  RcDescription :: string
  RcSchedule :: FinSchedule
  RcAutoSettle :: bool
  RcArchived :: bool
  RcNeedsAttention :: string

definition IsCard :: "FinRecurrence \<Rightarrow> bool" where
  "IsCard r \<longleftrightarrow> RcCardID r \<noteq> ''''"

record CardCharge =
  CcRecurrenceID :: string
  CcNominal :: Date
  CcCardID :: string
  CcCategoryID :: string
  CcDescription :: string
  CcAmount :: Cents
  CcInstallments :: int

datatype fin_recurrence_error = RecDirection | RecAmount | RecAmountMode | RecExpectedSettles | RecCategory | RecNoTarget
  | RecTwoTargets | RecDescription | RecCardDirection | RecCardSettles | RecInstallments installment_error
  | RecAccountInstallments | RecSchedule schedule_error | RecTooOld | RecKind | RecPreviewCount

definition FinRecurrenceValidate :: "FinRecurrence \<Rightarrow> fin_recurrence_error option" where
  "FinRecurrenceValidate r =
     (let rest = map_option (RecSchedule \<circ> ErrInvalidSchedule) (ScheduleValidate (RcSchedule r))
      in if RcDirection r \<noteq> Payable \<and> RcDirection r \<noteq> Receivable then Some RecDirection
         else if RcAmount r \<le> 0 \<or> RcAmount r > MaxLegAmount then Some RecAmount
         else if RcAmountMode r \<noteq> AmountUnset \<and> RcAmountMode r \<noteq> AmountFixed \<and> RcAmountMode r \<noteq> AmountExpected
         then Some RecAmountMode
         else if RcAmountMode r = AmountExpected \<and> RcAutoSettle r then Some RecExpectedSettles
         else if RcCategoryID r = '''' then Some RecCategory
         else if RcAccountID r = '''' \<and> RcCardID r = '''' then Some RecNoTarget
         else if RcAccountID r \<noteq> '''' \<and> RcCardID r \<noteq> '''' then Some RecTwoTargets
         else if length (RcDescription r) > maxBillDescription then Some RecDescription
         else if IsCard r then
           (if RcDirection r \<noteq> Payable then Some RecCardDirection
            else if RcAutoSettle r then Some RecCardSettles
            else case SplitInstallments (RcAmount r) (RcInstallments r) of
              Inl err \<Rightarrow> Some (RecInstallments err) | Inr _ \<Rightarrow> rest)
         else if RcInstallments r \<noteq> 0 then Some RecAccountInstallments
         else rest)"

definition catchUpSlackDays :: int where "catchUpSlackDays = 31"

definition Horizon :: "Date \<Rightarrow> Date \<times> Date" where
  "Horizon today = (let m = MonthOf today in (First m, Last (MonthAdd m 1)))"

definition ValidateAt :: "FinRecurrence \<Rightarrow> Date \<Rightarrow> fin_recurrence_error option" where
  "ValidateAt r today =
     (case FinRecurrenceValidate r of Some err \<Rightarrow> Some err
      | None \<Rightarrow>
        let (from, _) = Horizon today
        in if Before (SchStart (RcSchedule r)) (AddDays from (- MaxSpanDays)) then Some RecTooOld else None)"

definition OccurrenceRef :: "string \<Rightarrow> Date \<Rightarrow> string" where
  "OccurrenceRef recurrenceID nominal = recurrenceID @ ''@'' @ Brcal.String nominal"

record Draft =
  DfNominal :: Date
  DfBill :: Bill

subsection \<open>What is owed\<close>

text \<open>The walk over a range in chunks of at most \<open>MaxSpanDays\<close>, from \<open>lo\<close> to \<open>to\<close> inclusive.\<close>

partial_function (option) in_chunks ::
  "(Date \<Rightarrow> Date \<Rightarrow> (schedule_error, Occurrence list) result option) \<Rightarrow> Date \<Rightarrow> Date \<Rightarrow>
     (schedule_error, Occurrence list) result option" where
  "in_chunks f lo to =
     (if After lo to then Some (Inr [])
      else let hi = AddDays lo MaxSpanDays;
               hi = (if After hi (AddDays to 1) then AddDays to 1 else hi)
           in Option.bind (f lo hi) (\<lambda>r. case r of Inl err \<Rightarrow> Some (Inl err)
              | Inr found \<Rightarrow> Option.bind (in_chunks f hi to) (\<lambda>r. case r of Inl err \<Rightarrow> Some (Inl err)
                | Inr out \<Rightarrow> Some (Inr (found @ out)))))"

definition draft_of :: "FinRecurrence \<Rightarrow> Occurrence \<Rightarrow> Draft" where
  "draft_of r oc =
     \<lparr>DfNominal = OcNominal oc,
      DfBill = \<lparr>BlID = '''', BlDirection = RcDirection r, BlAmount = RcAmount r, BlAccountID = RcAccountID r,
        BlCategoryID = RcCategoryID r, BlDescription = RcDescription r, BlCompetence = OcNominal oc, BlDue = OcDue oc,
        BlPaidDate = mk_date 0 0 0, BlStatus = BillForecast, BlOrigin = OriginRecurrence,
        BlOriginRef = OccurrenceRef (RcID r) (OcNominal oc), BlAutoSettle = RcAutoSettle r, BlPaymentGroup = '''',
        BlTransactionIDs = [], BlCredited = 0\<rparr>\<rparr>"

definition charge_of :: "FinRecurrence \<Rightarrow> Occurrence \<Rightarrow> CardCharge" where
  "charge_of r oc =
     \<lparr>CcRecurrenceID = RcID r, CcNominal = OcNominal oc, CcCardID = RcCardID r, CcCategoryID = RcCategoryID r,
      CcDescription = RcDescription r, CcAmount = RcAmount r, CcInstallments = RcInstallments r\<rparr>"

definition Materialise :: "FinRecurrence \<Rightarrow> Date \<Rightarrow> Date \<Rightarrow> (fin_recurrence_error, Draft list) result option" where
  "Materialise r cursor today =
     (if IsCard r then Some (Inl RecKind)
      else case (if IsZero cursor then ValidateAt r (AddDays today (- catchUpSlackDays)) else FinRecurrenceValidate r) of
        Some err \<Rightarrow> Some (Inl err)
      | None \<Rightarrow>
        if RcArchived r then Some (Inr [])
        else let (_, to) = Horizon today;
                 from = (if \<not> IsZero cursor then AddDays cursor 1 else SchStart (RcSchedule r))
             in if After from to then Some (Inr [])
                else Option.bind (in_chunks (Occurrences (RcSchedule r)) from to) (\<lambda>res.
                  case res of Inl err \<Rightarrow> Some (Inl (RecSchedule err)) | Inr found \<Rightarrow> Some (Inr (map (draft_of r) found))))"

definition CardDue :: "FinRecurrence \<Rightarrow> Date \<Rightarrow> Date \<Rightarrow> Date \<Rightarrow> (fin_recurrence_error, CardCharge list) result option" where
  "CardDue r cursor today floor =
     (if \<not> IsCard r then Some (Inl RecKind)
      else case (if IsZero cursor then ValidateAt r (AddDays today (- catchUpSlackDays)) else FinRecurrenceValidate r) of
        Some err \<Rightarrow> Some (Inl err)
      | None \<Rightarrow>
        if RcArchived r then Some (Inr [])
        else let from = (if \<not> IsZero cursor then AddDays cursor 1 else SchStart (RcSchedule r));
                 from = (if Before from floor then floor else from)
             in Option.bind (in_chunks (Occurrences (RcSchedule r)) from today) (\<lambda>res.
                  case res of Inl err \<Rightarrow> Some (Inl (RecSchedule err)) | Inr found \<Rightarrow> Some (Inr (map (charge_of r) found))))"

definition NextMaterialiseDate :: "FinRecurrence \<Rightarrow> Date \<Rightarrow> Date option option" where
  "NextMaterialiseDate r after =
     (if RcArchived r then Some None
      else let from = SchStart (RcSchedule r);
               from = (if \<not> IsZero after \<and> \<not> Before after from then AddDays after 1 else from)
           in Option.bind (Occurrences (RcSchedule r) from (AddDays from MaxSpanDays)) (\<lambda>res.
                case res of Inl _ \<Rightarrow> Some None
                | Inr [] \<Rightarrow> Some None
                | Inr (oc # _) \<Rightarrow>
                    Some (Some (if IsCard r then OcNominal oc else First (MonthAdd (MonthOf (OcNominal oc)) (- 1))))))"

definition MaxPreview :: int where "MaxPreview = 24"
definition previewSpans :: nat where "previewSpans = 20"

fun preview_from ::
  "nat \<Rightarrow> FinSchedule \<Rightarrow> Date \<Rightarrow> nat \<Rightarrow> Occurrence list \<Rightarrow> (schedule_error, Occurrence list) result option" where
  "preview_from 0 s lo n out = Some (Inr out)"
| "preview_from (Suc k) s lo n out =
     (if length out < n
      then let hi = AddDays lo MaxSpanDays
           in Option.bind (Occurrences s lo hi) (\<lambda>res.
                case res of Inl err \<Rightarrow> Some (Inl err) | Inr found \<Rightarrow> preview_from k s hi n (out @ found))
      else Some (Inr out))"

definition Preview :: "FinSchedule \<Rightarrow> Date \<Rightarrow> int \<Rightarrow> (fin_recurrence_error, Occurrence list) result option" where
  "Preview s from n =
     (if n < 1 \<or> n > MaxPreview then Some (Inl RecPreviewCount)
      else case ScheduleValidate s of Some err \<Rightarrow> Some (Inl (RecSchedule (ErrInvalidSchedule err)))
      | None \<Rightarrow>
        Option.bind (preview_from previewSpans s from (nat n) []) (\<lambda>res.
          case res of Inl err \<Rightarrow> Some (Inl (RecSchedule err)) | Inr out \<Rightarrow> Some (Inr (take (nat n) out))))"

definition Ended :: "FinRecurrence \<Rightarrow> Date \<Rightarrow> Date \<Rightarrow> bool option" where
  "Ended r cursor today =
     (let from = AddDays today 1;
          from = (if IsZero cursor then SchStart (RcSchedule r)
                  else if Before (AddDays cursor 1) from then AddDays cursor 1 else from)
      in Option.bind (Preview (RcSchedule r) from 1) (\<lambda>res.
           case res of Inl _ \<Rightarrow> Some False | Inr found \<Rightarrow> Some (found = [])))"


subsection \<open>What is owed, as a window of the schedule\<close>

lemma in_chunks_window:
  assumes ok: "schedule_ok s" and lo: "plain lo" and to: "plain to"
  shows "in_chunks (Occurrences s) lo to = Some (Inr (map (occ s) (window s (day_number lo) (day_number to + 1))))"
  using lo
proof (induction "nat (day_number to + 1 - day_number lo)" arbitrary: lo rule: less_induct)
  case less
  have v: "valid_date lo" "valid_date to" and m: "modern lo" "modern to"
    using less.prems to plain_is_modern by (simp_all add: plain_def)
  show ?case
  proof (cases "to < lo")
    case True
    then show ?thesis using day_number_less_iff [OF v(2,1)] by (subst in_chunks.simps) simp
  next
    case False
    then have le: "day_number lo \<le> day_number to" using day_number_less_iff [OF v(2,1)] by simp
    define hi where "hi = civil (min (day_number lo + MaxSpanDays) (day_number to + 1))"
    have a1: "AddDays lo MaxSpanDays = civil (day_number lo + MaxSpanDays)"
      by (rule AddDays_nonneg [OF m(1)]) (simp add: MaxSpanDays_def)
    have a2: "AddDays to 1 = civil (day_number to + 1)" by (rule AddDays_nonneg [OF m(2)]) simp
    have hi_eq: "(if After (AddDays lo MaxSpanDays) (AddDays to 1) then AddDays to 1 else AddDays lo MaxSpanDays) = hi"
      by (auto simp: a1 a2 hi_def min_def)
    have hi: "day_number lo < day_number hi" "day_number hi \<le> day_number to + 1" "day_number hi - day_number lo \<le> MaxSpanDays"
      "plain hi"
      using le less.prems by (auto simp: hi_def plain_def MaxSpanDays_def)
    have one: "Occurrences s lo hi = Some (Inr (map (occ s) (window s (day_number lo) (day_number hi))))"
      by (rule Occurrences_window [OF ok v(1) _ hi(3)]) (simp add: hi_def)
    have rest: "in_chunks (Occurrences s) hi to = Some (Inr (map (occ s) (window s (day_number hi) (day_number to + 1))))"
      by (rule less.hyps) (use hi le in simp_all)
    have "window s (day_number lo) (day_number hi) @ window s (day_number hi) (day_number to + 1) =
        window s (day_number lo) (day_number to + 1)"
      by (rule window_append) (use hi in simp_all)
    then have "map (occ s) (window s (day_number lo) (day_number hi)) @ map (occ s) (window s (day_number hi) (day_number to + 1)) =
        map (occ s) (window s (day_number lo) (day_number to + 1))"
      by (simp flip: map_append)
    then show ?thesis
      using False by (subst in_chunks.simps) (simp add: Let_def hi_eq [unfolded After_iff] one rest)
  qed
qed

text \<open>The last day of the month after \<open>today\<close>'s.\<close>

definition horizon_end :: "Date \<Rightarrow> Date" where
  "horizon_end today = snd (Horizon today)"

lemma horizon_plain:
  assumes "plain today"
  shows "plain (horizon_end today)" "today < horizon_end today"
proof -
  have m: "modern_month (MonthOf today)" using plain_month [of "day_number today"] assms by (simp add: plain_def civil_day_number)
  have l: "modern_month (MonthAdd (MonthOf today) 1)" using m by simp
  have e: "horizon_end today = Last (MonthAdd (MonthOf today) 1)" by (simp add: horizon_end_def Horizon_def Let_def)
  have "MonthOf (Last (MonthAdd (MonthOf today) 1)) = MonthAdd (MonthOf today) 1"
    using Last_modern(1) [OF l] by (simp add: MonthOf_def)
  then show less: "today < horizon_end today"
    using date_less_month [of today "horizon_end today"] m l by (simp add: e)
  have "valid_date (horizon_end today)" using Last_modern(2) [OF l] modern_valid by (simp add: e)
  then show "plain (horizon_end today)" using plain_mono [OF assms] less by (simp add: order_less_imp_le)
qed

text \<open>The first day a recurrence still owes, and a recurrence and cursor the walk is defined for.\<close>

definition owed_from :: "FinRecurrence \<Rightarrow> Date \<Rightarrow> int" where
  "owed_from r cursor = (if IsZero cursor then day_number (SchStart (RcSchedule r)) else day_number cursor + 1)"

definition owed :: "FinRecurrence \<Rightarrow> Date \<Rightarrow> Date \<Rightarrow> Date list" where
  "owed r cursor until = window (RcSchedule r) (owed_from r cursor) (day_number until + 1)"

definition recurrence_ok :: "FinRecurrence \<Rightarrow> bool" where
  "recurrence_ok r \<longleftrightarrow> FinRecurrenceValidate r = None \<and> plain (SchStart (RcSchedule r)) \<and>
     (IsZero (SchEnd (RcSchedule r)) \<or> valid_date (SchEnd (RcSchedule r)))"

lemma recurrence_ok_schedule: "recurrence_ok r \<Longrightarrow> schedule_ok (RcSchedule r)"
  by (auto simp: recurrence_ok_def schedule_ok_def FinRecurrenceValidate_def Let_def split: if_splits sum.splits)

lemma not_zero_plain: "plain d \<Longrightarrow> \<not> IsZero d"
  by (auto simp: plain_def IsZero_def valid_date_def)

lemma owed_start:
  assumes "recurrence_ok r" "IsZero cursor \<or> plain cursor"
  shows "plain (if \<not> IsZero cursor then AddDays cursor 1 else SchStart (RcSchedule r)) \<and>
    day_number (if \<not> IsZero cursor then AddDays cursor 1 else SchStart (RcSchedule r)) = owed_from r cursor"
  using assms plain_is_modern [of cursor] by (auto simp: owed_from_def recurrence_ok_def plain_def AddDays_nonneg)

lemma Materialise_owed:
  assumes "recurrence_ok r" "\<not> IsCard r" "\<not> RcArchived r" "plain today" "IsZero cursor \<or> plain cursor"
    and "IsZero cursor \<Longrightarrow> ValidateAt r (AddDays today (- catchUpSlackDays)) = None"
  shows "Materialise r cursor today = Some (Inr (map (draft_of r \<circ> occ (RcSchedule r)) (owed r cursor (horizon_end today))))"
proof -
  note ok = recurrence_ok_schedule [OF assms(1)]
  have valid: "(if IsZero cursor then ValidateAt r (AddDays today (- catchUpSlackDays)) else FinRecurrenceValidate r) = None"
    using assms(1,6) by (auto simp: recurrence_ok_def)
  define lo where "lo = (if \<not> IsZero cursor then AddDays cursor 1 else SchStart (RcSchedule r))"
  have lo: "plain lo" "day_number lo = owed_from r cursor"
    using owed_start [OF assms(1,5)] by (simp_all add: lo_def)
  have to: "plain (horizon_end today)" using horizon_plain(1) [OF assms(4)] .
  have chunks: "in_chunks (Occurrences (RcSchedule r)) lo (horizon_end today) =
      Some (Inr (map (occ (RcSchedule r)) (owed r cursor (horizon_end today))))"
    using in_chunks_window [OF ok lo(1) to] by (simp add: lo(2) owed_def)
  have empty: "owed r cursor (horizon_end today) = []" if "horizon_end today < lo"
    using that day_number_less_iff [of "horizon_end today" lo] lo to by (simp add: owed_def plain_def)
  have "Materialise r cursor today =
      (if After lo (horizon_end today) then Some (Inr [])
       else Option.bind (in_chunks (Occurrences (RcSchedule r)) lo (horizon_end today)) (\<lambda>res.
         case res of Inl err \<Rightarrow> Some (Inl (RecSchedule err)) | Inr found \<Rightarrow> Some (Inr (map (draft_of r) found))))"
    using assms(2,3) valid by (simp add: Materialise_def lo_def horizon_end_def case_prod_beta Let_def)
  then show ?thesis using empty by (simp add: chunks comp_def)
qed


lemma CardDue_owed:
  assumes "recurrence_ok r" "IsCard r" "\<not> RcArchived r" "plain today" "plain floor" "IsZero cursor \<or> plain cursor"
    and "IsZero cursor \<Longrightarrow> ValidateAt r (AddDays today (- catchUpSlackDays)) = None"
  shows "CardDue r cursor today floor = Some (Inr (map (charge_of r \<circ> occ (RcSchedule r))
    (window (RcSchedule r) (max (owed_from r cursor) (day_number floor)) (day_number today + 1))))"
proof -
  note ok = recurrence_ok_schedule [OF assms(1)]
  have valid: "(if IsZero cursor then ValidateAt r (AddDays today (- catchUpSlackDays)) else FinRecurrenceValidate r) = None"
    using assms(1,7) by (auto simp: recurrence_ok_def)
  define lo where "lo = (if \<not> IsZero cursor then AddDays cursor 1 else SchStart (RcSchedule r))"
  define lo' where "lo' = (if Before lo floor then floor else lo)"
  have lo: "plain lo" "day_number lo = owed_from r cursor"
    using owed_start [OF assms(1,6)] by (simp_all add: lo_def)
  have lo': "plain lo'" "day_number lo' = max (owed_from r cursor) (day_number floor)"
    using lo assms(5) day_number_less_iff [of lo floor] by (auto simp: lo'_def plain_def)
  have "CardDue r cursor today floor =
      Option.bind (in_chunks (Occurrences (RcSchedule r)) lo' today) (\<lambda>res.
         case res of Inl err \<Rightarrow> Some (Inl (RecSchedule err)) | Inr found \<Rightarrow> Some (Inr (map (charge_of r) found)))"
    using assms(2,3) valid by (simp add: CardDue_def lo_def lo'_def Let_def)
  then show ?thesis by (simp add: in_chunks_window [OF ok lo'(1) assms(4)] lo'(2) comp_def)
qed

lemma set_owed:
  assumes "recurrence_ok r" "IsZero cursor \<or> plain cursor" "plain until"
  shows "d \<in> set (owed r cursor until) \<longleftrightarrow> valid_date d \<and> (IsZero cursor \<or> cursor < d) \<and> d \<le> until \<and>
    SchStart (RcSchedule r) \<le> d \<and> (IsZero (SchEnd (RcSchedule r)) \<or> d \<le> SchEnd (RcSchedule r)) \<and>
    Includes (the (SchExpression (RcSchedule r))) d = Some True"
proof -
  note ok = recurrence_ok_schedule [OF assms(1)]
  have c: "civil (owed_from r cursor) = (if IsZero cursor then SchStart (RcSchedule r) else civil (day_number cursor + 1))"
    "civil (day_number until + 1) = civil (day_number until + 1)"
    using assms(1) plain_civil by (auto simp: owed_from_def recurrence_ok_def)
  have "owed r cursor until = window (RcSchedule r) (day_number (civil (owed_from r cursor))) (day_number (civil (day_number until + 1)))"
    by (simp add: owed_def)
  moreover have "(valid_date d \<and> civil (owed_from r cursor) \<le> d) = (valid_date d \<and> (if IsZero cursor then SchStart (RcSchedule r) \<le> d else cursor < d))"
    using day_number_le_iff [OF valid_civil, of d "day_number cursor + 1"] assms(2) day_number_less_iff [of cursor d]
    by (auto simp: c(1) plain_def)
  moreover have "(valid_date d \<and> d < civil (day_number until + 1)) = (valid_date d \<and> d \<le> until)"
    using day_number_less_iff [OF _ valid_civil, of d "day_number until + 1"] assms(3) day_number_le_iff [of d until]
    by (auto simp: plain_def)
  ultimately show ?thesis using set_window_dates [OF ok valid_civil valid_civil, of d]
    by (cases "valid_date d"; cases "IsZero cursor") auto
qed

lemma sorted_owed: "sorted_wrt (<) (owed r cursor until)"
  by (simp add: owed_def sorted_window)

text \<open>C15: What the daily job owes for a rule paid from an account is exactly the occurrences after its cursor
  (from its start, when nothing was made yet) to the end of the month after today's: each once, in
  order, and each as a draft of a forecast bill of the rule's amount that carries the occurrence's
  identity. The walk in five-year chunks neither loses nor repeats a day at a seam. The rule
  validates, is not archived, starts on 1 March 2019 or later and, when nothing was made of it yet,
  passes the check of a first run; today and the cursor are 1 March 2019 or later. (A rule charged
  to a card is owed otherwise, and the job keeps the drafts of an expected amount as occurrences
  that wait instead of bills.)\<close>

theorem materialise_owes_exactly:
  assumes "recurrence_ok r" "\<not> IsCard r" "\<not> RcArchived r" "plain today" "IsZero cursor \<or> plain cursor"
    and "IsZero cursor \<Longrightarrow> ValidateAt r (AddDays today (- catchUpSlackDays)) = None"
  shows "\<exists>ds. Materialise r cursor today = Some (Inr ds) \<and> sorted_wrt (<) (map DfNominal ds) \<and>
    set (map DfNominal ds) = {d. valid_date d \<and> (IsZero cursor \<or> cursor < d) \<and> d \<le> snd (Horizon today) \<and>
      SchStart (RcSchedule r) \<le> d \<and> (IsZero (SchEnd (RcSchedule r)) \<or> d \<le> SchEnd (RcSchedule r)) \<and>
      Includes (the (SchExpression (RcSchedule r))) d = Some True} \<and>
    (\<forall>df \<in> set ds. BlCompetence (DfBill df) = DfNominal df \<and> BlAmount (DfBill df) = RcAmount r \<and>
      BlStatus (DfBill df) = BillForecast \<and> BlOriginRef (DfBill df) = OccurrenceRef (RcID r) (DfNominal df))"
proof (intro exI conjI)
  let ?w = "owed r cursor (horizon_end today)"
  let ?ds = "map (draft_of r \<circ> occ (RcSchedule r)) ?w"
  show "Materialise r cursor today = Some (Inr ?ds)" by (rule Materialise_owed [OF assms])
  have nominal: "map DfNominal ?ds = ?w" by (simp add: comp_def draft_of_def occ_def)
  show "sorted_wrt (<) (map DfNominal ?ds)" unfolding nominal by (rule sorted_owed)
  show "set (map DfNominal ?ds) = {d. valid_date d \<and> (IsZero cursor \<or> cursor < d) \<and> d \<le> snd (Horizon today) \<and>
      SchStart (RcSchedule r) \<le> d \<and> (IsZero (SchEnd (RcSchedule r)) \<or> d \<le> SchEnd (RcSchedule r)) \<and>
      Includes (the (SchExpression (RcSchedule r))) d = Some True}"
    unfolding nominal using set_owed [OF assms(1,5) horizon_plain(1) [OF assms(4)]]
    by (auto simp: horizon_end_def)
  show "\<forall>df \<in> set ?ds. BlCompetence (DfBill df) = DfNominal df \<and> BlAmount (DfBill df) = RcAmount r \<and>
      BlStatus (DfBill df) = BillForecast \<and> BlOriginRef (DfBill df) = OccurrenceRef (RcID r) (DfNominal df)"
    by (auto simp: draft_of_def occ_def)
qed

subsection \<open>Cursors\<close>

lemma filter_after_nth:
  "sorted_wrt (<) xs \<Longrightarrow> k < length xs \<Longrightarrow> filter (\<lambda>d. xs ! k < d) xs = drop (Suc k) (xs :: Date list)"
proof (induction xs arbitrary: k)
  case (Cons x xs)
  then show ?case
    by (cases k) (auto simp: filter_id_conv dest: nth_mem order_less_trans)
qed simp

text \<open>Up to a later day more is owed, after what was owed before.\<close>

lemma owed_later:
  "owed_from r cursor \<le> day_number h + 1 \<Longrightarrow> day_number h \<le> day_number h' \<Longrightarrow>
     owed r cursor h' = owed r cursor h @ window (RcSchedule r) (day_number h + 1) (day_number h' + 1)"
  using window_append [of "owed_from r cursor" "day_number h + 1" "day_number h' + 1"] by (simp add: owed_def)

text \<open>With the cursor on an occurrence, what follows it is owed.\<close>

lemma owed_after:
  assumes "k < length (owed r cursor h)" "plain (owed r cursor h ! k)" "day_number h \<le> day_number h'"
    and "owed_from r cursor \<le> day_number h + 1"
  shows "owed r (owed r cursor h ! k) h' = drop (Suc k) (owed r cursor h')"
proof -
  let ?w = "owed r cursor h'" and ?e = "owed r cursor h ! k"
  have e: "?e = ?w ! k" "k < length ?w"
    using owed_later [OF assms(4,3)] assms(1) by (simp_all add: nth_append)
  have in_w: "?e \<in> set ?w" using e by simp
  then obtain n where n: "?e = civil n" "owed_from r cursor \<le> n" by (auto simp: owed_def set_window)
  have f: "owed_from r ?e = n + 1" using not_zero_plain [OF assms(2)] n(1) by (simp add: owed_from_def)
  have "owed r ?e h' = filter (\<lambda>d. ?e < d) ?w"
  proof (rule strict_sorted_equal)
    show "sorted_wrt (<) (filter (\<lambda>d. ?e < d) ?w)" by (rule sorted_wrt_filter) (rule sorted_owed)
    have "owed_from r cursor \<le> m \<and> n < m \<longleftrightarrow> n + 1 \<le> m" for m using n(2) by linarith
    then show "set (owed r ?e h') = set (filter (\<lambda>d. ?e < d) ?w)"
      unfolding n(1) by (fastforce simp: owed_def set_window f [unfolded n(1)])
  qed (rule sorted_owed)
  also have "\<dots> = drop (Suc k) ?w" unfolding e(1) by (rule filter_after_nth [OF sorted_owed e(2)])
  finally show ?thesis .
qed


subsection \<open>Previews\<close>

lemma preview_from_window:
  assumes ok: "schedule_ok s"
  shows "first_plain_day \<le> m \<Longrightarrow> \<exists>out'. preview_from k s (civil m) n out = Some (Inr out') \<and>
    take n out' = take n (out @ map (occ s) (window s m (m + int k * MaxSpanDays)))"
proof (induction k arbitrary: m out)
  case (Suc k)
  have max: "0 < MaxSpanDays" by (simp add: MaxSpanDays_def)
  have step: "AddDays (civil m) MaxSpanDays = civil (m + MaxSpanDays)"
    using AddDays_nonneg [of "civil m" MaxSpanDays] plain_modern [OF Suc.prems] max by simp
  have occ: "Occurrences s (civil m) (civil (m + MaxSpanDays)) = Some (Inr (map (occ s) (window s m (m + MaxSpanDays))))"
    using Occurrences_window [OF ok, of "civil m" "civil (m + MaxSpanDays)"] by simp
  have split: "window s m (m + MaxSpanDays) @ window s (m + MaxSpanDays) (m + int (Suc k) * MaxSpanDays) =
      window s m (m + int (Suc k) * MaxSpanDays)"
    by (rule window_append) (use max in \<open>simp_all add: algebra_simps\<close>)
  show ?case
  proof (cases "length out < n")
    case True
    obtain out' where "preview_from k s (civil (m + MaxSpanDays)) n (out @ map (occ s) (window s m (m + MaxSpanDays))) = Some (Inr out')"
      "take n out' = take n ((out @ map (occ s) (window s m (m + MaxSpanDays))) @
        map (occ s) (window s (m + MaxSpanDays) (m + MaxSpanDays + int k * MaxSpanDays)))"
      using Suc.IH [of "m + MaxSpanDays"] Suc.prems max by force
    moreover have "m + MaxSpanDays + int k * MaxSpanDays = m + int (Suc k) * MaxSpanDays" by (simp add: algebra_simps)
    ultimately show ?thesis
      using True split by (simp add: Let_def step occ flip: map_append)
  qed simp
qed simp

text \<open>A preview is the beginning of the schedule: the first occurrences on or after the day asked for, as
  many as asked for, or all there are when fewer fall within about a century.\<close>

theorem preview_is_prefix:
  assumes "schedule_ok s" "plain from" "1 \<le> n" "n \<le> MaxPreview"
  shows "\<exists>out rest. Preview s from n = Some (Inr out) \<and> int (length out) \<le> n \<and> (rest = [] \<or> int (length out) = n) \<and>
    sorted_wrt (<) (map OcNominal (out @ rest)) \<and>
    set (map OcNominal (out @ rest)) = {d. valid_date d \<and> from \<le> d \<and> day_number d < day_number from + 36600 \<and>
      SchStart s \<le> d \<and> (IsZero (SchEnd s) \<or> d \<le> SchEnd s) \<and> Includes (the (SchExpression s)) d = Some True}"
proof -
  define w where "w = window s (day_number from) (day_number from + 36600)"
  have v: "valid_date from" "first_plain_day \<le> day_number from" using assms(2) by (simp_all add: plain_def)
  obtain out' where out': "preview_from previewSpans s from (nat n) [] = Some (Inr out')" "take (nat n) out' = take (nat n) (map (occ s) w)"
    using preview_from_window [OF assms(1) v(2), of previewSpans "nat n" "[]"]
    by (auto simp: plain_civil [OF assms(2)] w_def previewSpans_def MaxSpanDays_def)
  have "ScheduleValidate s = None" using assms(1) by (simp add: schedule_ok_def)
  then have p: "Preview s from n = Some (Inr (take (nat n) (map (occ s) w)))"
    using assms(3,4) out' by (simp add: Preview_def)
  have all: "map OcNominal (take (nat n) (map (occ s) w) @ drop (nat n) (map (occ s) w)) = w"
    by (simp add: comp_def occ_def)
  have "set w = {d. valid_date d \<and> from \<le> d \<and> day_number d < day_number from + 36600 \<and>
      SchStart s \<le> d \<and> (IsZero (SchEnd s) \<or> d \<le> SchEnd s) \<and> Includes (the (SchExpression s)) d = Some True}"
    using set_window_dates [OF assms(1) v(1), of "civil (day_number from + 36600)"] day_number_less_iff [OF _ valid_civil]
    by (auto simp: w_def)
  note days = this
  let ?out = "take (nat n) (map (occ s) w)" and ?rest = "drop (nat n) (map (occ s) w)"
  have len: "int (length ?out) \<le> n" "?rest = [] \<or> int (length ?out) = n" using assms(3) by auto
  have sorted: "sorted_wrt (<) (map OcNominal (?out @ ?rest))" unfolding all using sorted_window by (simp add: w_def)
  from days have "set (map OcNominal (?out @ ?rest)) = {d. valid_date d \<and> from \<le> d \<and> day_number d < day_number from + 36600 \<and>
      SchStart s \<le> d \<and> (IsZero (SchEnd s) \<or> d \<le> SchEnd s) \<and> Includes (the (SchExpression s)) d = Some True}"
    unfolding all .
  with p len sorted show ?thesis by blast
qed

subsection \<open>Witnesses\<close>

definition rent_rule :: FinRecurrence where
  "rent_rule = \<lparr>RcID = ''r1'', RcDirection = Payable, RcAmount = 150000, RcAmountMode = AmountFixed, RcCategoryID = ''rent'',
     RcAccountID = ''a'', RcCardID = [], RcInstallments = 0, RcDescription = [],
     RcSchedule = every_month (DayOfMonth 31) (mk_date 2026 1 1), RcAutoSettle = False, RcArchived = False, RcNeedsAttention = []\<rparr>"

lemma rent_rule_ok: "recurrence_ok rent_rule"
proof -
  have "FinRecurrenceValidate rent_rule = None" by code_simp
  moreover have "plain (mk_date 2026 1 1)" by (rule plain_2020) (simp_all add: valid_date_def month_length_def)
  ultimately show ?thesis by (simp add: recurrence_ok_def rent_rule_def every_month_def IsZero_def)
qed

theorem materialise_owes_exactly_witness:
  "\<exists>ds. Materialise rent_rule (mk_date 2026 2 28) (mk_date 2026 3 15) = Some (Inr ds) \<and> sorted_wrt (<) (map DfNominal ds)"
proof -
  have p: "plain (mk_date 2026 2 28)" "plain (mk_date 2026 3 15)"
    by (rule plain_2020; simp add: valid_date_def month_length_def)+
  have "\<not> IsCard rent_rule" "\<not> RcArchived rent_rule" "\<not> IsZero (mk_date 2026 2 28)"
    by (simp_all add: IsCard_def rent_rule_def IsZero_def)
  then show ?thesis using materialise_owes_exactly [OF rent_rule_ok _ _ p(2), of "mk_date 2026 2 28"] p(1) by blast
qed

theorem preview_is_prefix_witness:
  "\<exists>out. Preview (every_month (DayOfMonth 31) (mk_date 2026 1 1)) (mk_date 2026 2 1) 3 = Some (Inr out) \<and> int (length out) \<le> 3"
proof -
  have ok: "schedule_ok (every_month (DayOfMonth 31) (mk_date 2026 1 1))"
    using recurrence_ok_schedule [OF rent_rule_ok] by (simp add: rent_rule_def)
  have p: "plain (mk_date 2026 2 1)" by (rule plain_2020) (simp_all add: valid_date_def month_length_def)
  show ?thesis using preview_is_prefix [OF ok p, of 3] by (auto simp: MaxPreview_def)
qed

end
