(* ===== verification/Bills.thy ===== *)
theory Bills
  imports Recurrence
begin

text \<open>
  \<open>api/internal/repositories/bills.go\<close> and the credit of \<open>finance_invoices.go\<close>: payables and
  receivables. Every change is one \<open>TransactWriteItems\<close> of the ledger's plan and the bill's own
  item, whose condition is evaluated on the stored row. What an operation read before is an
  argument: \<open>read\<close> is the bills table as its (eventually consistent) reads show it, which may be
  any earlier version of a row. The ledger's rows are read as they are; its headers are
  immutable. \<open>RwOpen\<close> and \<open>RwSchedule\<close> are the sparse keys of the two indexes, without the
  space, which is the same for all rows here. The realtime log item that \<open>commit\<close> appends last
  has no condition and is left out, as are the throttling and conflict outcomes of a write.
\<close>

subsection \<open>Rows and items\<close>

record bill_row =
  RwBill :: Bill
  RwOpen :: "(Direction \<times> Date \<times> string) option"
  RwSchedule :: "(Date \<times> string) option"

text \<open>
  A recurrence's row: the rule as stored, the cursor (zero: nothing made yet) and the day it enters
  the job's work list. The lock of an occurrence says what was made of it, or that it was skipped;
  a pending occurrence waits for its amount to be confirmed.
\<close>

record rec_row =
  RrRec :: FinRecurrence
  RrCursor :: Date
  RrSchedule :: "Date option"

record occurrence_lock =
  LkState :: string
  LkBillID :: string
  LkPurchaseID :: string
  LkCardID :: string
  LkStatement :: string
  LkAmount :: Cents
  LkExpectedAmount :: Cents

record PendingOccurrence =
  PoRecurrenceID :: string
  PoNominal :: Date
  PoDue :: Date
  PoDirection :: Direction
  PoExpected :: Cents
  PoAccountID :: string
  PoCardID :: string
  PoCategoryID :: string
  PoDescription :: string
  PoInstallments :: int
  PoState :: string

definition pending_state :: string where "pending_state = ''pending_confirmation''"

record bill_store =
  BsLedger :: ledger_store
  BsBills :: "string \<rightharpoonup> bill_row"
  BsLocks :: "(string \<times> Date) \<rightharpoonup> occurrence_lock"
  BsRecurrences :: "string \<rightharpoonup> rec_row"
  BsPending :: "(string \<times> Date) \<rightharpoonup> PendingOccurrence"

definition sparseKeys :: "Bill \<Rightarrow> (Direction \<times> Date \<times> string) option \<times> (Date \<times> string) option" where
  "sparseKeys b =
     (if BlStatus b \<noteq> BillForecast then (None, None)
      else (Some (BlDirection b, BlDue b, BlID b), if BlAutoSettle b then Some (BlDue b, BlID b) else None))"

definition newBillItem :: "Bill \<Rightarrow> bill_row" where
  "newBillItem b = \<lparr>RwBill = b, RwOpen = fst (sparseKeys b), RwSchedule = snd (sparseKeys b)\<rparr>"

datatype bill_item =
    Led ledger_item
  | PutBill bill_row
  | UpdBill string "bill_row \<Rightarrow> bool" "bill_row \<Rightarrow> bill_row"
  | PutLock string Date occurrence_lock
  | PutPending PendingOccurrence
  | DelPending string Date
  | PutRecurrence rec_row
  | UpdRecurrence string "rec_row \<Rightarrow> bool" "rec_row \<Rightarrow> rec_row"
  | CheckRecurrence string "rec_row \<Rightarrow> bool"

datatype bill_row_key = LedKey row_key | BillKey string | LockKey string Date | PendingKey string Date | RecurrenceKey string

primrec bill_key :: "bill_item \<Rightarrow> bill_row_key" where
  "bill_key (Led i) = LedKey (item_key i)"
| "bill_key (PutBill r) = BillKey (BlID (RwBill r))"
| "bill_key (UpdBill i c f) = BillKey i"
| "bill_key (PutLock r d b) = LockKey r d"
| "bill_key (PutPending p) = PendingKey (PoRecurrenceID p) (PoNominal p)"
| "bill_key (DelPending r d) = PendingKey r d"
| "bill_key (PutRecurrence row) = RecurrenceKey (RcID (RrRec row))"
| "bill_key (UpdRecurrence r c f) = RecurrenceKey r"
| "bill_key (CheckRecurrence r c) = RecurrenceKey r"

primrec bill_cond :: "bill_item \<Rightarrow> bill_store \<Rightarrow> bool" where
  "bill_cond (Led i) st \<longleftrightarrow> item_cond i (BsLedger st)"
| "bill_cond (PutBill r) st \<longleftrightarrow> BsBills st (BlID (RwBill r)) = None"
| "bill_cond (UpdBill i c f) st \<longleftrightarrow> (case BsBills st i of None \<Rightarrow> False | Some row \<Rightarrow> c row)"
| "bill_cond (PutLock r d b) st \<longleftrightarrow> BsLocks st (r, d) = None"
| "bill_cond (PutPending p) st \<longleftrightarrow> BsPending st (PoRecurrenceID p, PoNominal p) = None"
| "bill_cond (DelPending r d) st \<longleftrightarrow> (case BsPending st (r, d) of None \<Rightarrow> False | Some p \<Rightarrow> PoState p = pending_state)"
| "bill_cond (PutRecurrence row) st \<longleftrightarrow> BsRecurrences st (RcID (RrRec row)) = None"
| "bill_cond (UpdRecurrence r c f) st \<longleftrightarrow> (case BsRecurrences st r of None \<Rightarrow> False | Some t \<Rightarrow> c t)"
| "bill_cond (CheckRecurrence r c) st \<longleftrightarrow> (case BsRecurrences st r of None \<Rightarrow> False | Some t \<Rightarrow> c t)"

primrec bill_write :: "bill_item \<Rightarrow> bill_store \<Rightarrow> bill_store" where
  "bill_write (Led i) st = st\<lparr>BsLedger := item_write i (BsLedger st)\<rparr>"
| "bill_write (PutBill r) st = st\<lparr>BsBills := (BsBills st)(BlID (RwBill r) \<mapsto> r)\<rparr>"
| "bill_write (UpdBill i c f) st = st\<lparr>BsBills := (BsBills st)(i := map_option f (BsBills st i))\<rparr>"
| "bill_write (PutLock r d b) st = st\<lparr>BsLocks := (BsLocks st)((r, d) \<mapsto> b)\<rparr>"
| "bill_write (PutPending p) st = st\<lparr>BsPending := (BsPending st)((PoRecurrenceID p, PoNominal p) \<mapsto> p)\<rparr>"
| "bill_write (DelPending r d) st = st\<lparr>BsPending := (BsPending st)((r, d) := None)\<rparr>"
| "bill_write (PutRecurrence row) st = st\<lparr>BsRecurrences := (BsRecurrences st)(RcID (RrRec row) \<mapsto> row)\<rparr>"
| "bill_write (UpdRecurrence r c f) st = st\<lparr>BsRecurrences := (BsRecurrences st)(r := map_option f (BsRecurrences st r))\<rparr>"
| "bill_write (CheckRecurrence r c) st = st"

definition BillWrite :: "bill_item list \<Rightarrow> bill_store \<Rightarrow> (write_error, bill_store) result" where
  "BillWrite items st =
     (if length items > 100 \<or> \<not> distinct (map bill_key items) then Inl Rejected
      else if list_all (\<lambda>i. bill_cond i st) items then Inr (fold bill_write items st)
      else Inl (Cancelled (map (\<lambda>i. \<not> bill_cond i st) items)))"

datatype bill_error = ErrBillSpace space_error | ErrInvalidBill invalid_bill | ErrBillAccounts | ErrBillUnknownAccount
  | ErrBillState | ErrBillNotFound | ErrBillLedger ledger_error | ErrBillTransaction | ErrRecurrenceChanged
  | ErrOccurrenceAlreadyHandled | ErrConcurrentBill | ErrBillSynced

definition failed_at :: "write_error \<Rightarrow> nat \<Rightarrow> bool" where
  "failed_at err i = (case err of Cancelled codes \<Rightarrow> i < length codes \<and> codes ! i | Rejected \<Rightarrow> False)"

definition onlyConditionFailed :: "write_error \<Rightarrow> bool" where
  "onlyConditionFailed err = (case err of Cancelled codes \<Rightarrow> list_ex id codes | Rejected \<Rightarrow> False)"

subsection \<open>Checks\<close>

definition checkCategory :: "Direction \<Rightarrow> string \<Rightarrow> ledger_store \<Rightarrow> bill_error option" where
  "checkCategory dir categoryID st =
     (case getAccount categoryID st of
        None \<Rightarrow> Some ErrBillUnknownAccount
      | Some cat \<Rightarrow>
          if LaClass (RowAccount cat) \<noteq> (if dir = Receivable then ClassIncome else ClassExpense)
             \<or> LaSystem (RowAccount cat) \<or> RowArchived cat
          then Some ErrBillAccounts else None)"

definition checkAssetAccount :: "string \<Rightarrow> ledger_store \<Rightarrow> bill_error option" where
  "checkAssetAccount accountID st =
     (case getAccount accountID st of
        None \<Rightarrow> Some ErrBillUnknownAccount
      | Some acct \<Rightarrow>
          if LaClass (RowAccount acct) \<noteq> ClassAsset \<or> LaSystem (RowAccount acct) \<or> RowArchived acct
          then Some ErrBillAccounts else None)"

definition checkDirectionAccounts :: "Direction \<Rightarrow> string \<Rightarrow> string \<Rightarrow> ledger_store \<Rightarrow> bill_error option" where
  "checkDirectionAccounts dir categoryID accountID st =
     (case checkCategory dir categoryID st of Some err \<Rightarrow> Some err | None \<Rightarrow> checkAssetAccount accountID st)"

definition checkBillAccounts :: "Bill \<Rightarrow> ledger_store \<Rightarrow> bill_error option" where
  "checkBillAccounts b st = checkDirectionAccounts (BlDirection b) (BlCategoryID b) (BlAccountID b) st"

definition no_description :: string where
  "no_description = ''Sem descri'' @ bytes [195, 167, 195, 163] @ ''o''"

definition billMeta :: "PostMeta \<Rightarrow> Bill \<Rightarrow> PostMeta" where
  "billMeta meta b =
     meta\<lparr>PmMemo := (if BlDescription b = '''' then no_description else BlDescription b), PmRef := ''bill:'' @ BlID b\<rparr>"

definition forecastGuard :: "Bill \<Rightarrow> bill_row \<Rightarrow> bool" where
  "forecastGuard cur row \<longleftrightarrow>
     BlStatus (RwBill row) = BillForecast \<and> length (BlTransactionIDs (RwBill row)) = length (BlTransactionIDs cur) \<and>
     BlAccountID (RwBill row) = BlAccountID cur \<and> BlDue (RwBill row) = BlDue cur"

type_synonym bill_reads = "string \<rightharpoonup> Bill"

definition changedSince :: "bill_reads \<Rightarrow> Bill \<Rightarrow> bool" where
  "changedSince reread rd =
     (case reread (BlID rd) of None \<Rightarrow> False
      | Some cur \<Rightarrow> BlStatus cur \<noteq> BlStatus rd \<or> length (BlTransactionIDs cur) \<noteq> length (BlTransactionIDs rd) \<or>
          BlAccountID cur \<noteq> BlAccountID rd \<or> BlDue cur \<noteq> BlDue rd)"

definition removeSparse :: "bill_row \<Rightarrow> bill_row" where
  "removeSparse row = row\<lparr>RwOpen := None, RwSchedule := None\<rparr>"

definition upd_bill :: "(Bill \<Rightarrow> Bill) \<Rightarrow> bill_row \<Rightarrow> bill_row" where
  "upd_bill f row = row\<lparr>RwBill := f (RwBill row)\<rparr>"

definition append_tx :: "string \<Rightarrow> Bill \<Rightarrow> Bill" where
  "append_tx i b = b\<lparr>BlTransactionIDs := BlTransactionIDs b @ [i]\<rparr>"

subsection \<open>Creating\<close>

definition createWithGuards ::
  "ResolvedSpace \<Rightarrow> Bill \<Rightarrow> bill_item option \<Rightarrow> bill_item option \<Rightarrow> PostMeta \<Rightarrow> string \<Rightarrow> bill_reads \<Rightarrow> bill_item list \<Rightarrow>
     bill_store \<Rightarrow> (bill_error, Bill option \<times> bool \<times> bill_store) result" where
  "createWithGuards sp b lock check meta fresh reread extra st =
     (case RecognizeBill the_sys (Facts b) (BlCompetence b) of
        Inl err \<Rightarrow> Inl (ErrBillLedger (ErrTx err))
      | Inr rec \<Rightarrow>
        (case planPost sp rec (billMeta meta b) fresh of
           Inl err \<Rightarrow> Inl (ErrBillLedger err)
         | Inr plan \<Rightarrow>
           let b = b\<lparr>BlTransactionIDs := [PlTxID plan]\<rparr>;
               items = map Led (PlItems plan);
               billIdx = length items;
               items = items @ [PutBill (newBillItem b)];
               lockIdx = length items;
               items = items @ (case lock of None \<Rightarrow> [] | Some l \<Rightarrow> [l]);
               checkIdx = length items;
               items = items @ (case check of None \<Rightarrow> [] | Some c \<Rightarrow> [c]);
               extraIdx = length items;
               items = items @ extra
           in (case BillWrite items st of
                 Inr st' \<Rightarrow> Inr (Some b, True, st')
               | Inl err \<Rightarrow>
                   if check \<noteq> None \<and> failed_at err checkIdx then Inl ErrRecurrenceChanged
                   else if lock \<noteq> None \<and> failed_at err lockIdx then Inr (None, False, st)
                   else if extra \<noteq> [] \<and> failed_at err extraIdx then Inl ErrOccurrenceAlreadyHandled
                   else if failed_at err billIdx \<and> PmIdempotencyKey meta \<noteq> '''' \<and> reread (BlID b) \<noteq> None
                   then Inr (reread (BlID b), False, st)
                   else Inl (ErrBillLedger (classifyPostCancel err (PlMarkerIdx plan))))))"

definition BillCreate ::
  "(string \<Rightarrow> string \<Rightarrow> string) \<Rightarrow> ResolvedSpace \<Rightarrow> Bill \<Rightarrow> PostMeta \<Rightarrow> string \<Rightarrow> string \<Rightarrow> bill_reads \<Rightarrow> bill_store \<Rightarrow>
     (bill_error, Bill option \<times> bill_store) result" where
  "BillCreate derive_id sp b meta freshBill freshTx reread st =
     (case Require sp (if BlAutoSettle b then Write OR Settle else Write) of
        Some err \<Rightarrow> Inl (ErrBillSpace err)
      | None \<Rightarrow>
        let b = b\<lparr>BlID := (if PmIdempotencyKey meta \<noteq> '''' then derive_id ''bill'' (PmIdempotencyKey meta) else freshBill),
                  BlStatus := BillForecast, BlPaidDate := (mk_date 0 0 0), BlTransactionIDs := []\<rparr>
        in case BillValidate b of Some err \<Rightarrow> Inl (ErrInvalidBill err)
         | None \<Rightarrow>
           (case checkBillAccounts b (BsLedger st) of Some err \<Rightarrow> Inl err
            | None \<Rightarrow>
              (case createWithGuards sp b None None meta freshTx reread [] st of
                 Inl err \<Rightarrow> Inl err | Inr (b', _, st') \<Rightarrow> Inr (b', st'))))"

definition recurrenceUnchanged :: "string \<Rightarrow> Bill \<Rightarrow> bill_item" where
  "recurrenceUnchanged recurrenceID b =
     CheckRecurrence recurrenceID (\<lambda>t. \<not> RcArchived (RrRec t) \<and> RcAmount (RrRec t) = BlAmount b \<and>
       RcAccountID (RrRec t) = BlAccountID b \<and> RcCategoryID (RrRec t) = BlCategoryID b \<and>
       RcAutoSettle (RrRec t) = BlAutoSettle b)"

definition bill_lock :: "string \<Rightarrow> occurrence_lock" where
  "bill_lock billID = \<lparr>LkState = '''', LkBillID = billID, LkPurchaseID = '''', LkCardID = '''', LkStatement = '''',
     LkAmount = 0, LkExpectedAmount = 0\<rparr>"

definition CreateFromOccurrence ::
  "ResolvedSpace \<Rightarrow> Draft \<Rightarrow> string \<Rightarrow> PostMeta \<Rightarrow> string \<Rightarrow> string \<Rightarrow> bill_reads \<Rightarrow> bill_store \<Rightarrow>
     (bill_error, bool \<times> Bill option \<times> bill_store) result" where
  "CreateFromOccurrence sp d recurrenceID meta freshBill freshTx reread st =
     (case Require sp (if BlAutoSettle (DfBill d) then Write OR Settle else Write) of
        Some err \<Rightarrow> Inl (ErrBillSpace err)
      | None \<Rightarrow>
        let b = (DfBill d)\<lparr>BlID := freshBill, BlStatus := BillForecast, BlPaidDate := (mk_date 0 0 0), BlTransactionIDs := [],
                  BlOrigin := OriginRecurrence, BlOriginRef := OccurrenceRef recurrenceID (DfNominal d)\<rparr>
        in case BillValidate b of Some err \<Rightarrow> Inl (ErrInvalidBill err)
         | None \<Rightarrow>
           (case createWithGuards sp b (Some (PutLock recurrenceID (DfNominal d) (bill_lock (BlID b)))) (Some (recurrenceUnchanged recurrenceID b))
                   meta freshTx reread [] st of
              Inl err \<Rightarrow> Inl err | Inr (b', created, st') \<Rightarrow> Inr (created, b', st')))"

subsection \<open>Expected occurrences\<close>

definition expectedRecurrenceUnchanged :: "PendingOccurrence \<Rightarrow> bill_item" where
  "expectedRecurrenceUnchanged p =
     CheckRecurrence (PoRecurrenceID p) (\<lambda>t. \<not> RcArchived (RrRec t) \<and> RcAmountMode (RrRec t) = AmountExpected \<and>
       RcAmount (RrRec t) = PoExpected p \<and> RcCategoryID (RrRec t) = PoCategoryID p \<and>
       (if PoCardID p \<noteq> '''' then RcCardID (RrRec t) = PoCardID p else RcAccountID (RrRec t) = PoAccountID p))"

definition ConfirmExpectedOccurrence ::
  "(string \<Rightarrow> string \<Rightarrow> string) \<Rightarrow> ResolvedSpace \<Rightarrow> PendingOccurrence \<Rightarrow> Cents \<Rightarrow> PostMeta \<Rightarrow> string \<Rightarrow> string \<Rightarrow> bill_reads \<Rightarrow>
     bill_store \<Rightarrow> (bill_error, bool \<times> Bill option \<times> bill_store) result" where
  "ConfirmExpectedOccurrence derive_id sp p amount meta freshBill freshTx reread st =
     (case Require sp Write of
        Some err \<Rightarrow> Inl (ErrBillSpace err)
      | None \<Rightarrow>
        if PoState p \<noteq> pending_state \<or> PoRecurrenceID p = '''' then Inl ErrOccurrenceAlreadyHandled
        else let b = \<lparr>BlID = (if PmIdempotencyKey meta \<noteq> '''' then derive_id ''expected-confirmation'' (PmIdempotencyKey meta)
                              else freshBill),
                     BlDirection = PoDirection p, BlAmount = amount, BlAccountID = PoAccountID p, BlCategoryID = PoCategoryID p,
                     BlDescription = PoDescription p, BlCompetence = PoNominal p, BlDue = PoDue p, BlPaidDate = mk_date 0 0 0,
                     BlStatus = BillForecast, BlOrigin = OriginRecurrence,
                     BlOriginRef = OccurrenceRef (PoRecurrenceID p) (PoNominal p), BlAutoSettle = False, BlPaymentGroup = '''',
                     BlTransactionIDs = [], BlCredited = 0\<rparr>
        in case BillValidate b of Some err \<Rightarrow> Inl (ErrInvalidBill err)
         | None \<Rightarrow>
           (case createWithGuards sp b
                   (Some (PutLock (PoRecurrenceID p) (PoNominal p)
                     ((bill_lock (BlID b))\<lparr>LkAmount := amount, LkExpectedAmount := PoExpected p\<rparr>)))
                   (Some (expectedRecurrenceUnchanged p)) meta freshTx reread
                   [DelPending (PoRecurrenceID p) (PoNominal p)] st of
              Inl err \<Rightarrow> Inl err | Inr (b', created, st') \<Rightarrow> Inr (created, b', st')))"

text \<open>
  The other half, of \<open>recurrences.go\<close>: an expected occurrence is put on the list of those that wait, or
  skipped. \<open>pend\<close> and \<open>locks\<close> are what the reads show.
\<close>

type_synonym pending_reads = "(string \<times> Date) \<rightharpoonup> PendingOccurrence"
type_synonym lock_reads = "(string \<times> Date) \<rightharpoonup> occurrence_lock"

definition pendingItem :: "FinRecurrence \<Rightarrow> Date \<Rightarrow> Date \<Rightarrow> PendingOccurrence" where
  "pendingItem rec nominal due =
     \<lparr>PoRecurrenceID = RcID rec, PoNominal = nominal, PoDue = due, PoDirection = RcDirection rec, PoExpected = RcAmount rec,
      PoAccountID = RcAccountID rec, PoCardID = RcCardID rec, PoCategoryID = RcCategoryID rec,
      PoDescription = RcDescription rec, PoInstallments = RcInstallments rec, PoState = pending_state\<rparr>"

definition CreatePendingOccurrence ::
  "ResolvedSpace \<Rightarrow> FinRecurrence \<Rightarrow> Date \<Rightarrow> Date \<Rightarrow> pending_reads \<Rightarrow> bill_store \<Rightarrow> (bill_error, bool \<times> bill_store) result" where
  "CreatePendingOccurrence sp rec nominal due pend st =
     (case Require sp Write of
        Some err \<Rightarrow> Inl (ErrBillSpace err)
      | None \<Rightarrow>
        let check = CheckRecurrence (RcID rec) (\<lambda>t. \<not> RcArchived (RrRec t) \<and>
              (IsZero (SchEnd (RcSchedule (RrRec t))) \<or> nominal \<le> SchEnd (RcSchedule (RrRec t))) \<and>
              RcAmount (RrRec t) = RcAmount rec \<and> RcCategoryID (RrRec t) = RcCategoryID rec \<and>
              RcAmountMode (RrRec t) = AmountExpected \<and>
              (if RcCardID rec \<noteq> '''' then RcCardID (RrRec t) = RcCardID rec else RcAccountID (RrRec t) = RcAccountID rec))
        in (case BillWrite [PutPending (pendingItem rec nominal due), check] st of
              Inr st' \<Rightarrow> Inr (True, st')
            | Inl err \<Rightarrow>
                if \<not> onlyConditionFailed err then Inl ErrBillTransaction
                else if Require sp Read = None \<and> pend (RcID rec, nominal) \<noteq> None then Inr (False, st)
                else Inl ErrRecurrenceChanged))"

definition occurrenceWasSkipped :: "lock_reads \<Rightarrow> string \<Rightarrow> Date \<Rightarrow> bool" where
  "occurrenceWasSkipped locks recID nominal =
     (case locks (recID, nominal) of None \<Rightarrow> False | Some l \<Rightarrow> LkState l = ''skipped'')"

definition SkipPendingOccurrence ::
  "ResolvedSpace \<Rightarrow> string \<Rightarrow> Date \<Rightarrow> pending_reads \<Rightarrow> lock_reads \<Rightarrow> bill_store \<Rightarrow> (bill_error, bool \<times> bill_store) result" where
  "SkipPendingOccurrence sp recID nominal pend locks st =
     (case Require sp Write of
        Some err \<Rightarrow> Inl (ErrBillSpace err)
      | None \<Rightarrow>
        case Require sp Read of
        Some err \<Rightarrow> Inl (ErrBillSpace err)
      | None \<Rightarrow>
        (case pend (recID, nominal) of
           None \<Rightarrow> if occurrenceWasSkipped locks recID nominal then Inr (False, st) else Inl ErrOccurrenceAlreadyHandled
         | Some p \<Rightarrow>
           (case BillWrite [DelPending recID nominal,
                   PutLock recID nominal ((bill_lock '''')\<lparr>LkState := ''skipped'', LkExpectedAmount := PoExpected p\<rparr>)] st of
              Inr st' \<Rightarrow> Inr (True, st')
            | Inl err \<Rightarrow>
                if \<not> onlyConditionFailed err then Inl ErrBillTransaction
                else if occurrenceWasSkipped locks recID nominal then Inr (False, st)
                else Inl ErrOccurrenceAlreadyHandled)))"

subsection \<open>Settling\<close>

record settlePlan =
  SpBill :: Bill
  SpTxID :: string
  SpItems :: "bill_item list"

definition planSettleBill ::
  "ResolvedSpace \<Rightarrow> Bill \<Rightarrow> Cents \<Rightarrow> string \<Rightarrow> Date \<Rightarrow> PostMeta \<Rightarrow> string \<Rightarrow> string \<Rightarrow> bill_store \<Rightarrow> (bill_error, settlePlan) result" where
  "planSettleBill sp b paid differenceCategoryID date meta accountID fresh st =
     (if \<not> CanSettle b then Inl ErrBillState
      else case (if differenceCategoryID = '''' then None
                 else case getAccount differenceCategoryID (BsLedger st) of
                     None \<Rightarrow> Some ErrBillUnknownAccount
                   | Some cat \<Rightarrow>
                       if (LaClass (RowAccount cat) \<noteq> ClassIncome \<and> LaClass (RowAccount cat) \<noteq> ClassExpense)
                          \<or> LaSystem (RowAccount cat) \<or> RowArchived cat
                       then Some ErrBillTransaction else None) of
        Some err \<Rightarrow> Inl err
      | None \<Rightarrow>
        let settled = (if accountID \<noteq> '''' then b\<lparr>BlAccountID := accountID\<rparr> else b)
        in (case SettleBill the_sys (Facts settled) paid differenceCategoryID date of
              Inl err \<Rightarrow> Inl (ErrBillLedger (ErrTx err))
            | Inr tx \<Rightarrow>
              (case planPost sp tx (billMeta meta b) fresh of
                 Inl err \<Rightarrow> Inl (ErrBillLedger err)
               | Inr plan \<Rightarrow>
                 let set = (\<lambda>r. r\<lparr>BlStatus := BillPaid, BlPaidDate := date,
                                 BlAccountID := (if accountID \<noteq> '''' then accountID else BlAccountID r)\<rparr>);
                     update = UpdBill (BlID b) (forecastGuard b) (removeSparse \<circ> upd_bill (set \<circ> append_tx (PlTxID plan)))
                 in Inr \<lparr>SpBill = b, SpTxID = PlTxID plan, SpItems = map Led (PlItems plan) @ [update]\<rparr>)))"

definition planSettle ::
  "ResolvedSpace \<Rightarrow> string \<Rightarrow> Cents \<Rightarrow> string \<Rightarrow> Date \<Rightarrow> PostMeta \<Rightarrow> string \<Rightarrow> bill_reads \<Rightarrow> bill_store \<Rightarrow> (bill_error, settlePlan) result" where
  "planSettle sp billID paid differenceCategoryID date meta fresh read st =
     (case read billID of None \<Rightarrow> Inl ErrBillNotFound
      | Some b \<Rightarrow> planSettleBill sp b paid differenceCategoryID date meta '''' fresh st)"

definition planSettleInto ::
  "ResolvedSpace \<Rightarrow> string \<Rightarrow> Cents \<Rightarrow> string \<Rightarrow> bool \<Rightarrow> Date \<Rightarrow> PostMeta \<Rightarrow> string \<Rightarrow> bill_reads \<Rightarrow> bill_store \<Rightarrow> (bill_error, settlePlan) result" where
  "planSettleInto sp billID paid accountID credit date meta fresh read st =
     (case read billID of None \<Rightarrow> Inl ErrBillNotFound
      | Some b \<Rightarrow>
          if BlDirection b \<noteq> (if credit then Receivable else Payable) then Inl ErrBillTransaction
          else planSettleBill sp b paid '''' date meta accountID fresh st)"

definition settled_bill :: "settlePlan \<Rightarrow> Date \<Rightarrow> Bill" where
  "settled_bill p date = (append_tx (SpTxID p) (SpBill p))\<lparr>BlStatus := BillPaid, BlPaidDate := date\<rparr>"

definition settleError :: "bill_reads \<Rightarrow> Bill \<Rightarrow> write_error \<Rightarrow> bill_error" where
  "settleError reread rd err =
     (if \<not> onlyConditionFailed err then ErrBillLedger ErrWriteRejected
      else if changedSince reread rd then ErrBillState else ErrBillUnknownAccount)"

definition BillSettle ::
  "ResolvedSpace \<Rightarrow> string \<Rightarrow> Cents \<Rightarrow> string \<Rightarrow> Date \<Rightarrow> PostMeta \<Rightarrow> string \<Rightarrow> bill_reads \<Rightarrow> bill_reads \<Rightarrow> bill_reads \<Rightarrow>
     bill_store \<Rightarrow> (bill_error, Bill \<times> bill_store) result" where
  "BillSettle sp billID paid differenceCategoryID date meta fresh read read2 reread st =
     (case Require sp (Write OR Settle) of
        Some err \<Rightarrow> Inl (ErrBillSpace err)
      | None \<Rightarrow>
        if (case read billID of None \<Rightarrow> False
            | Some b \<Rightarrow> BlAccountID b \<noteq> '''' \<and>
                (case getAccount (BlAccountID b) (BsLedger st) of None \<Rightarrow> False
                 | Some acct \<Rightarrow> LaSource (RowAccount acct) = SourceBYOK))
        then Inl ErrBillSynced
        else case planSettle sp billID paid differenceCategoryID date meta fresh read2 st of
          Inl err \<Rightarrow> Inl err
        | Inr p \<Rightarrow>
          (case BillWrite (SpItems p) st of
             Inl err \<Rightarrow> Inl (settleError reread (SpBill p) err)
           | Inr st' \<Rightarrow> Inr (settled_bill p date, st')))"

subsection \<open>Cancelling and restoring\<close>

definition billCancelError :: "write_error \<Rightarrow> bill_error" where
  "billCancelError err = (if onlyConditionFailed err then ErrBillState else ErrBillLedger ErrWriteRejected)"

definition cancelItems ::
  "ResolvedSpace \<Rightarrow> Bill \<Rightarrow> Date \<Rightarrow> PostMeta \<Rightarrow> string \<Rightarrow> (bill_error, bill_item list \<times> string) result" where
  "cancelItems sp b date meta fresh =
     (let set = (\<lambda>r. r\<lparr>BlStatus := BillCanceled\<rparr>)
      in if BlOrigin b = OriginCardStatement
         then Inr ([UpdBill (BlID b) (forecastGuard b) (removeSparse \<circ> upd_bill set)], '''')
         else let date = (if IsZero date then BlCompetence b else date)
           in (case CancelBill the_sys (Facts b) date of
                 Inl err \<Rightarrow> Inl (ErrBillLedger (ErrTx err))
               | Inr tx \<Rightarrow>
                 (case planPost sp tx (billMeta meta b) fresh of
                    Inl err \<Rightarrow> Inl (ErrBillLedger err)
                  | Inr plan \<Rightarrow>
                    Inr (map Led (PlItems plan) @
                         [UpdBill (BlID b) (forecastGuard b) (removeSparse \<circ> upd_bill (set \<circ> append_tx (PlTxID plan)))],
                         PlTxID plan))))"

definition BillCancel ::
  "ResolvedSpace \<Rightarrow> string \<Rightarrow> Date \<Rightarrow> PostMeta \<Rightarrow> string \<Rightarrow> bill_reads \<Rightarrow> bill_store \<Rightarrow> (bill_error, Bill \<times> bill_store) result" where
  "BillCancel sp billID date meta fresh read st =
     (case Require sp Write of
        Some err \<Rightarrow> Inl (ErrBillSpace err)
      | None \<Rightarrow>
        (case read billID of None \<Rightarrow> Inl ErrBillNotFound
         | Some b \<Rightarrow>
           let archived = (BlOrigin b = OriginCardStatement \<and>
                 (case getAccount (BlCategoryID b) (BsLedger st) of None \<Rightarrow> False | Some crd \<Rightarrow> RowArchived crd))
           in if \<not> CanCancel b archived then Inl ErrBillState
              else case cancelItems sp b date meta fresh of
                Inl err \<Rightarrow> Inl err
              | Inr (items, txID) \<Rightarrow>
                (case BillWrite items st of
                   Inl err \<Rightarrow> Inl (billCancelError err)
                 | Inr st' \<Rightarrow>
                     Inr ((if txID \<noteq> '''' then append_tx txID b else b)\<lparr>BlStatus := BillCanceled\<rparr>, st'))))"

definition RestoreCancelled ::
  "ResolvedSpace \<Rightarrow> string \<Rightarrow> Date \<Rightarrow> PostMeta \<Rightarrow> string \<Rightarrow> bill_reads \<Rightarrow> bill_store \<Rightarrow> (bill_error, Bill \<times> bill_store) result" where
  "RestoreCancelled sp billID date meta fresh read st =
     (case Require sp Write of
        Some err \<Rightarrow> Inl (ErrBillSpace err)
      | None \<Rightarrow>
        (case read billID of None \<Rightarrow> Inl ErrBillNotFound
         | Some b \<Rightarrow>
           if BlStatus b \<noteq> BillCanceled \<or> length (BlTransactionIDs b) < 2 then Inl ErrBillState
           else case planReverse sp (last (BlTransactionIDs b)) (if IsZero date then BlCompetence b else date)
                       (billMeta meta b) fresh (BsLedger st) of
             Inl err \<Rightarrow> Inl (ErrBillLedger err)
           | Inr plan \<Rightarrow>
             let reopened = b\<lparr>BlStatus := BillForecast, BlAutoSettle := False\<rparr>;
                 set = (\<lambda>r. r\<lparr>BlStatus := BillForecast, BlAutoSettle := False\<rparr>);
                 update = UpdBill billID
                   (\<lambda>row. BlStatus (RwBill row) = BillCanceled \<and>
                      length (BlTransactionIDs (RwBill row)) = length (BlTransactionIDs b))
                   (\<lambda>row. (upd_bill (set \<circ> append_tx (PlTxID plan)) row)\<lparr>RwOpen := fst (sparseKeys reopened)\<rparr>)
             in (case BillWrite (map Led (PlItems plan) @ [update]) st of
                   Inl err \<Rightarrow> Inl (billCancelError err)
                 | Inr st' \<Rightarrow> Inr (append_tx (PlTxID plan) reopened, st'))))"

definition Unsettle ::
  "ResolvedSpace \<Rightarrow> string \<Rightarrow> Date \<Rightarrow> PostMeta \<Rightarrow> string \<Rightarrow> bill_reads \<Rightarrow> bill_store \<Rightarrow> (bill_error, Bill \<times> bill_store) result" where
  "Unsettle sp billID date meta fresh read st =
     (case Require sp (Write OR Settle) of
        Some err \<Rightarrow> Inl (ErrBillSpace err)
      | None \<Rightarrow>
        (case read billID of None \<Rightarrow> Inl ErrBillNotFound
         | Some b \<Rightarrow>
           if BlStatus b \<noteq> BillPaid \<or> BlTransactionIDs b = [] then Inl ErrBillState
           else let settlement = last (BlTransactionIDs b)
             in (case GetTransaction sp settlement (BsLedger st) of
                   Inl err \<Rightarrow> Inl (ErrBillLedger err)
                 | Inr orig \<Rightarrow>
                   (case refuseSyncedLegs (StTx orig) (BsLedger st) of
                      Some err \<Rightarrow> Inl (ErrBillLedger err)
                    | None \<Rightarrow>
                      (case planReverse sp settlement date (billMeta meta b) fresh (BsLedger st) of
                         Inl err \<Rightarrow> Inl (ErrBillLedger err)
                       | Inr plan \<Rightarrow>
                         let reopened = b\<lparr>BlStatus := BillForecast, BlPaidDate := mk_date 0 0 0, BlAutoSettle := False\<rparr>;
                             set = (\<lambda>r. r\<lparr>BlStatus := BillForecast, BlPaidDate := mk_date 0 0 0, BlAutoSettle := False\<rparr>);
                             update = UpdBill billID
                               (\<lambda>row. BlStatus (RwBill row) = BillPaid \<and>
                                  length (BlTransactionIDs (RwBill row)) = length (BlTransactionIDs b))
                               (\<lambda>row. (upd_bill (set \<circ> append_tx (PlTxID plan)) row)\<lparr>RwOpen := fst (sparseKeys reopened)\<rparr>)
                         in (case BillWrite (map Led (PlItems plan) @ [update]) st of
                               Inl err \<Rightarrow> Inl (billCancelError err)
                             | Inr st' \<Rightarrow> Inr (append_tx (PlTxID plan) reopened, st')))))))"


subsection \<open>Editing\<close>

record BillEdit =
  EdAmount :: "Cents option"
  EdCategoryID :: "string option"
  EdAccountID :: "string option"
  EdDescription :: "string option"
  EdDue :: "Date option"
  EdAutoSettle :: "bool option"

definition opt_or :: "'a option \<Rightarrow> 'a \<Rightarrow> 'a" where
  "opt_or x d = (case x of None \<Rightarrow> d | Some y \<Rightarrow> y)"

definition edited :: "BillEdit \<Rightarrow> Bill \<Rightarrow> Bill" where
  "edited e cur = cur\<lparr>BlAmount := opt_or (EdAmount e) (BlAmount cur), BlCategoryID := opt_or (EdCategoryID e) (BlCategoryID cur),
     BlAccountID := opt_or (EdAccountID e) (BlAccountID cur), BlDescription := opt_or (EdDescription e) (BlDescription cur),
     BlDue := opt_or (EdDue e) (BlDue cur), BlAutoSettle := opt_or (EdAutoSettle e) (BlAutoSettle cur)\<rparr>"

text \<open>
  The update expression: the attributes that change, the list the adjustment is appended to, and
  the index keys that follow them.
\<close>

definition edit_set :: "Bill \<Rightarrow> Bill \<Rightarrow> string option \<Rightarrow> bill_row \<Rightarrow> bill_row" where
  "edit_set cur next txID row =
     (let b = RwBill row;
          b = (if BlAmount next \<noteq> BlAmount cur \<or> BlCategoryID next \<noteq> BlCategoryID cur
               then b\<lparr>BlAmount := BlAmount next, BlCategoryID := BlCategoryID next\<rparr> else b);
          b = (case txID of None \<Rightarrow> b | Some i \<Rightarrow> append_tx i b);
          b = (if BlAccountID next \<noteq> BlAccountID cur then b\<lparr>BlAccountID := BlAccountID next\<rparr> else b);
          b = (if BlDescription next \<noteq> BlDescription cur then b\<lparr>BlDescription := BlDescription next\<rparr> else b);
          b = (if BlDue next \<noteq> BlDue cur then b\<lparr>BlDue := BlDue next\<rparr> else b);
          b = (if BlAutoSettle next \<noteq> BlAutoSettle cur then b\<lparr>BlAutoSettle := BlAutoSettle next\<rparr> else b);
          opn = (if BlDue next \<noteq> BlDue cur
                 then map_option (\<lambda>(dir, _, _). (dir, BlDue next, BlID next)) (RwOpen row) else RwOpen row);
          sched = (if BlAutoSettle next
                   then (if BlAutoSettle next \<noteq> BlAutoSettle cur \<or> BlDue next \<noteq> BlDue cur
                         then snd (sparseKeys next) else RwSchedule row)
                   else if BlAutoSettle cur then None else RwSchedule row)
      in \<lparr>RwBill = b, RwOpen = opn, RwSchedule = sched\<rparr>)"

definition BillEdited ::
  "ResolvedSpace \<Rightarrow> string \<Rightarrow> BillEdit \<Rightarrow> PostMeta \<Rightarrow> string \<Rightarrow> bill_reads \<Rightarrow> bill_store \<Rightarrow> (bill_error, Bill \<times> bill_store) result" where
  "BillEdited sp billID e meta fresh read st =
     (case Require sp Write of
        Some err \<Rightarrow> Inl (ErrBillSpace err)
      | None \<Rightarrow>
        (case read billID of None \<Rightarrow> Inl ErrBillNotFound
         | Some cur \<Rightarrow>
           if \<not> CanEdit cur then Inl ErrBillState
           else if BlOrigin cur = OriginCardStatement \<and>
               (opt_or (EdAmount e) (BlAmount cur) \<noteq> BlAmount cur \<or> opt_or (EdCategoryID e) (BlCategoryID cur) \<noteq> BlCategoryID cur)
           then Inl ErrBillState
           else let next = edited e cur in
           case BillValidate next of Some err \<Rightarrow> Inl (ErrInvalidBill err)
         | None \<Rightarrow>
           (case (if BlAutoSettle next \<and> (\<not> BlAutoSettle cur \<or> BlAccountID next \<noteq> BlAccountID cur \<or>
                       BlAmount next \<noteq> BlAmount cur \<or> BlDue next \<noteq> BlDue cur)
                  then Require sp (Write OR Settle) else None) of
              Some err \<Rightarrow> Inl (ErrBillSpace err)
            | None \<Rightarrow>
              (case (if BlOrigin cur = OriginCardStatement \<and> BlAccountID next \<noteq> BlAccountID cur
                     then map_option ErrBillLedger (activeManualCash (BlAccountID next) (BsLedger st))
                     else if BlOrigin cur \<noteq> OriginCardStatement \<and>
                         (BlCategoryID next \<noteq> BlCategoryID cur \<or> BlAccountID next \<noteq> BlAccountID cur)
                     then checkBillAccounts next (BsLedger st) else None) of
                 Some err \<Rightarrow> Inl err
               | None \<Rightarrow>
                 (case (if BlAmount next \<noteq> BlAmount cur \<or> BlCategoryID next \<noteq> BlCategoryID cur
                        then (case AdjustBill the_sys (Facts cur) (Facts next) (BlCompetence cur) of
                                Inl err \<Rightarrow> Inl (ErrBillLedger (ErrTx err))
                              | Inr tx \<Rightarrow>
                                (case planPost sp tx (billMeta meta next) fresh of
                                   Inl err \<Rightarrow> Inl (ErrBillLedger err) | Inr plan \<Rightarrow> Inr (Some plan)))
                        else Inr None) of
                    Inl err \<Rightarrow> Inl err
                  | Inr plan \<Rightarrow>
                    if next = cur then Inr (cur, st)
                    else let txID = map_option PlTxID plan;
                             items = (case plan of None \<Rightarrow> [] | Some p \<Rightarrow> map Led (PlItems p)) @
                                     [UpdBill billID (forecastGuard cur) (edit_set cur next txID)]
                      in (case BillWrite items st of
                            Inl err \<Rightarrow> Inl (billCancelError err)
                          | Inr st' \<Rightarrow> Inr (case txID of None \<Rightarrow> next | Some i \<Rightarrow> append_tx i next, st')))))))"

subsection \<open>Crediting a paid invoice's bill\<close>

definition credit_memo :: string where
  "credit_memo = ''Nota de cr'' @ bytes [195, 169] @ ''dito '' @ bytes [194, 183] @ '' ''"

text \<open>One attempt of \<open>RecordInvoiceCredit\<close>: the answer, or \<open>None\<close> when it should be tried from a fresh read.\<close>

definition recordInvoiceCreditOnce ::
  "(string \<Rightarrow> string \<Rightarrow> string) \<Rightarrow> ResolvedSpace \<Rightarrow> string \<Rightarrow> string \<Rightarrow> Cents \<Rightarrow> Date \<Rightarrow> PostMeta \<Rightarrow> bill_reads \<Rightarrow> bill_store \<Rightarrow>
     (bill_error, bool) result option \<times> bill_store" where
  "recordInvoiceCreditOnce derive_id sp invoiceID creditNoteID amount date meta read st =
     (let billID = derive_id ''billing-invoice'' invoiceID in
      case read billID of None \<Rightarrow> (Some (Inl ErrBillNotFound), st)
      | Some b \<Rightarrow>
        if BlStatus b \<noteq> BillPaid then (Some (Inl ErrBillState), st)
        else if amount > wrap64 (BlAmount b - BlCredited b) then (Some (Inl ErrBillTransaction), st)
        else case CreditBill (Facts b) amount date of
          Inl err \<Rightarrow> (Some (Inl (ErrBillLedger (ErrTx err))), st)
        | Inr tx \<Rightarrow>
          let meta = (billMeta meta b)\<lparr>PmOrigin := ''billing_credit_note'', PmMemo := credit_memo @ BlDescription b,
                       PmTxID := derive_id ''billing-credit-note'' creditNoteID\<rparr>
          in (case planPost sp tx meta '''' of
                Inl err \<Rightarrow> (Some (Inl (ErrBillLedger err)), st)
              | Inr plan \<Rightarrow>
                let update = UpdBill billID
                      (\<lambda>row. BlStatus (RwBill row) = BillPaid \<and> BlCredited (RwBill row) = BlCredited b)
                      (upd_bill (\<lambda>r. r\<lparr>BlCredited := wrap64 (BlCredited b + amount)\<rparr>));
                    items = map Led (PlItems plan) @ [update]
                in (case BillWrite items st of
                      Inr st' \<Rightarrow> (Some (Inr True), st')
                    | Inl err \<Rightarrow>
                        if failed_at err 0 then (Some (Inr False), st)
                        else if failed_at err (length items - 1) then (None, st)
                        else (Some (Inl (ErrBillLedger (classifyPostCancel err None))), st))))"

subsection \<open>The bill of a card statement\<close>

definition statementBillItem :: "Bill \<Rightarrow> (bill_error, bill_item) result" where
  "statementBillItem b =
     (case BillValidate b of Some err \<Rightarrow> Inl (ErrInvalidBill err) | None \<Rightarrow> Inr (PutBill (newBillItem b)))"

subsection \<open>Lists\<close>

text \<open>The auto-settle work list of a day, and one step of the daily job on a bill of it.\<close>

definition DueForAutoSettle :: "Date \<Rightarrow> bill_store \<Rightarrow> string \<Rightarrow> bool" where
  "DueForAutoSettle today st i =
     (case BsBills st i of None \<Rightarrow> False
      | Some row \<Rightarrow> (case RwSchedule row of None \<Rightarrow> False | Some (due, _) \<Rightarrow> due \<le> today))"

definition AutoSettle_step ::
  "ResolvedSpace \<Rightarrow> Bill \<Rightarrow> PostMeta \<Rightarrow> string \<Rightarrow> bill_reads \<Rightarrow> bill_reads \<Rightarrow> bill_reads \<Rightarrow> bill_store \<Rightarrow> (bill_error, Bill \<times> bill_store) result" where
  "AutoSettle_step sp b meta fresh read read2 reread st =
     BillSettle sp (BlID b) (BlAmount b) '''' (BlDue b) meta fresh read read2 reread st"

end
