(* ===== verification/BillsInv.thy ===== *)
theory BillsInv
  imports Bills "HOL-Library.Sublist"
begin

text \<open>
  What holds of bills and ledger together, however operations interleave and however stale their
  reads are: a bill's transactions always move exactly what its status says, and the open list
  is exactly the forecast bills. The states are reached by any operation of the ledger and of
  the bills; \<open>seen\<close> collects every version of a bill row that was ever committed, and a read
  returns any of them.
\<close>

subsection \<open>A bill's transactions\<close>

definition lookup_tx :: "ledger_store \<Rightarrow> string \<Rightarrow> Transaction option" where
  "lookup_tx led i = map_option StTx (find (\<lambda>t. StID t = i) (LsTxs led))"

definition id_effect :: "ledger_store \<Rightarrow> string \<Rightarrow> string \<Rightarrow> int" where
  "id_effect led a i = (case lookup_tx led i of None \<Rightarrow> 0 | Some tx \<Rightarrow> effect tx a)"

definition ids_net :: "ledger_store \<Rightarrow> string list \<Rightarrow> string \<Rightarrow> int" where
  "ids_net led ids a = sum_list (map (id_effect led a) ids)"

lemma ids_net_simps [simp]:
  "ids_net led [] a = 0" "ids_net led (xs @ [i]) a = ids_net led xs a + id_effect led a i"
  by (simp_all add: ids_net_def)

lemma lookup_stored:
  "distinct (map StID (LsTxs led)) \<Longrightarrow> t \<in> set (LsTxs led) \<Longrightarrow> lookup_tx led (StID t) = Some (StTx t)"
proof -
  assume d: "distinct (map StID (LsTxs led))" and t: "t \<in> set (LsTxs led)"
  then obtain t' where f: "find (\<lambda>u. StID u = StID t) (LsTxs led) = Some t'"
    by (cases "find (\<lambda>u. StID u = StID t) (LsTxs led)") (auto simp: find_None_iff)
  then have "t' \<in> set (LsTxs led)" "StID t' = StID t" by (auto simp: find_Some_iff)
  then have "t' = t" using d t by (simp add: distinct_map inj_on_def)
  with f show ?thesis by (simp add: lookup_tx_def)
qed

definition stored_ids :: "ledger_store \<Rightarrow> string set" where
  "stored_ids led = StID ` set (LsTxs led)"

lemma lookup_grows:
  assumes "set (LsTxs led) \<subseteq> set (LsTxs led')" "distinct (map StID (LsTxs led))" "distinct (map StID (LsTxs led'))"
    and "i \<in> stored_ids led"
  shows "lookup_tx led' i = lookup_tx led i"
  using assms lookup_stored by (auto simp: stored_ids_def)

lemma ids_net_grows:
  assumes "set (LsTxs led) \<subseteq> set (LsTxs led')" "distinct (map StID (LsTxs led))" "distinct (map StID (LsTxs led'))"
    and "set ids \<subseteq> stored_ids led"
  shows "ids_net led' ids a = ids_net led ids a"
  using assms(4) lookup_grows [OF assms(1-3)] unfolding ids_net_def id_effect_def
  by (intro arg_cong [where f = sum_list] map_cong) auto

text \<open>What a bill's recognition moves; a card statement is not recognised, its purchases were.\<close>

definition recognised :: "BillFacts \<Rightarrow> string \<Rightarrow> int" where
  "recognised f a = side f * (on (BfCategoryID f) (BfAmount f) a - on (control the_sys f) (BfAmount f) a)"

definition base :: "Bill \<Rightarrow> string \<Rightarrow> int" where
  "base b a = (if BlOrigin b = OriginCardStatement then 0 else recognised (Facts b) a)"

lemma base_cong:
  "BlDirection b = BlDirection c \<Longrightarrow> BlOrigin b = BlOrigin c \<Longrightarrow> BlAmount b = BlAmount c \<Longrightarrow> BlCategoryID b = BlCategoryID c \<Longrightarrow>
   base b a = base c a"
  by (simp add: base_def recognised_def Facts_def side_def control_def)

text \<open>The chart of accounts only grows: an account keeps its class and whether the system owns it.\<close>

definition chart_grows :: "ledger_store \<Rightarrow> ledger_store \<Rightarrow> bool" where
  "chart_grows led led' \<longleftrightarrow>
     (\<forall>a row. LsAccounts led a = Some row \<longrightarrow> (\<exists>row'. LsAccounts led' a = Some row' \<and> RowAccount row' = RowAccount row))"

definition is_category :: "ledger_store \<Rightarrow> string \<Rightarrow> bool" where
  "is_category led a \<longleftrightarrow>
     (\<exists>row. getAccount a led = Some row \<and> \<not> LaSystem (RowAccount row) \<and>
        (LaClass (RowAccount row) = ClassIncome \<or> LaClass (RowAccount row) = ClassExpense))"

lemma chart_grows_refl [simp]: "chart_grows led led"
  by (simp add: chart_grows_def)

lemma chart_grows_trans:
  assumes "chart_grows x y" "chart_grows y z"
  shows "chart_grows x z"
  unfolding chart_grows_def
proof (intro allI impI)
  fix a row
  assume "LsAccounts x a = Some row"
  then obtain r where "LsAccounts y a = Some r" "RowAccount r = RowAccount row" using assms(1) unfolding chart_grows_def by blast
  then show "\<exists>row'. LsAccounts z a = Some row' \<and> RowAccount row' = RowAccount row"
    using assms(2) unfolding chart_grows_def by metis
qed

lemma is_category_grows: "chart_grows led led' \<Longrightarrow> is_category led a \<Longrightarrow> is_category led' a"
  unfolding chart_grows_def is_category_def getAccount_def by metis

lemma item_write_chart: "chart_grows st (item_write i st)"
  by (cases i) (auto simp: chart_grows_def add_balance_def)

lemma TransactWrite_chart: "TransactWrite items st = Inr st' \<Longrightarrow> chart_grows st st'"
proof -
  have "chart_grows s (fold item_write items s)" for s
    by (induction items arbitrary: s) (auto intro: chart_grows_refl chart_grows_trans item_write_chart)
  then show "TransactWrite items st = Inr st' \<Longrightarrow> ?thesis" by (auto simp: TransactWrite_def split: if_splits)
qed

lemma ledger_step_chart: "ledger_step st st' \<Longrightarrow> chart_grows st st'"
proof (induction rule: ledger_step.induct)
  case (transfer derive_id sp a b n d meta fresh st i st')
  then show ?case
    by (cases rule: PostTransfer_cases) (auto simp: post_def split: sum.splits dest: TransactWrite_chart)
next
  case (reverse_manual sp i d meta fresh st j st')
  then show ?case using ReverseManual_plan TransactWrite_chart by metis
next
  case (create_account sp a st st')
  then show ?case
    by (auto simp: CreateAccount_def chart_grows_def split: option.splits if_splits)
next
  case (archive_account sp i st st')
  then show ?case
    by (auto simp: ArchiveAccount_def chart_grows_def getAccount_def split: option.splits if_splits)
qed (auto simp: Post_def post_def LedgerReverse_def PostOpeningBalance_def
    postOpening_def Let_def split: option.splits if_splits sum.splits dest: TransactWrite_chart)

text \<open>The accounts of the system are in every chart, and no category is one of them.\<close>

lemma control_is_system: "\<exists>row. LsAccounts EnsureSpace (control the_sys f) = Some row \<and> LaSystem (RowAccount row)"
proof -
  have "map_option (\<lambda>row. LaSystem (RowAccount row)) (LsAccounts EnsureSpace ''sys-payables'') = Some True"
    "map_option (\<lambda>row. LaSystem (RowAccount row)) (LsAccounts EnsureSpace ''sys-receivables'') = Some True"
    by code_simp+
  then show ?thesis by (auto simp: control_def)
qed

lemma category_not_control:
  assumes "chart_grows EnsureSpace led" "is_category led dc"
  shows "dc \<noteq> control the_sys f"
proof
  assume dc: "dc = control the_sys f"
  have "\<exists>row. LsAccounts EnsureSpace dc = Some row \<and> LaSystem (RowAccount row)"
    unfolding dc by (rule control_is_system)
  then obtain row where row: "LsAccounts EnsureSpace dc = Some row" "LaSystem (RowAccount row)" by blast
  then obtain row' where "LsAccounts led dc = Some row'" "RowAccount row' = RowAccount row"
    using assms(1) unfolding chart_grows_def by blast
  with row(2) have "\<exists>r. LsAccounts led dc = Some r \<and> LaSystem (RowAccount r)" by auto
  then show False using assms(2) by (auto simp: is_category_def getAccount_def)
qed

text \<open>The last transaction of a paid bill is its settlement; what was paid more or less than the
  bill's amount went to a category of the chart.\<close>

definition settled_by :: "ledger_store \<Rightarrow> Bill \<Rightarrow> string \<Rightarrow> bool" where
  "settled_by led b i \<longleftrightarrow> (\<exists>tx paid dc d. lookup_tx led i = Some tx \<and> SettleBill the_sys (Facts b) paid dc d = Inr tx \<and> in64 paid \<and>
     (paid \<noteq> BlAmount b \<longrightarrow> is_category led dc))"

definition cancelled_by :: "ledger_store \<Rightarrow> Bill \<Rightarrow> string \<Rightarrow> bool" where
  "cancelled_by led b i \<longleftrightarrow> (\<exists>tx d. lookup_tx led i = Some tx \<and> CancelBill the_sys (Facts b) d = Inr tx)"

definition reversal_last :: "ledger_store \<Rightarrow> Bill \<Rightarrow> bool" where
  "reversal_last led b \<longleftrightarrow> BlTransactionIDs b = [] \<or>
     (\<exists>tx. lookup_tx led (last (BlTransactionIDs b)) = Some tx \<and> TxKindOf tx = KindReversal)"

definition bill_ok :: "ledger_store \<Rightarrow> Bill \<Rightarrow> bool" where
  "bill_ok led b \<longleftrightarrow>
     set (BlTransactionIDs b) \<subseteq> stored_ids led \<and> 0 < BlAmount b \<and> BlAmount b \<le> MaxLegAmount \<and>
     (BlOrigin b = OriginCardStatement \<and> BlStatus b \<noteq> BillPaid \<longrightarrow> reversal_last led b) \<and>
     (case BlStatus b of
        BillForecast \<Rightarrow> \<forall>a. ids_net led (BlTransactionIDs b) a = base b a
      | BillPaid \<Rightarrow> BlTransactionIDs b \<noteq> [] \<and> (\<forall>a. ids_net led (butlast (BlTransactionIDs b)) a = base b a) \<and>
          settled_by led b (last (BlTransactionIDs b))
      | BillCanceled \<Rightarrow> (\<forall>a. ids_net led (BlTransactionIDs b) a = 0) \<and>
          (BlOrigin b \<noteq> OriginCardStatement \<longrightarrow>
             BlTransactionIDs b \<noteq> [] \<and> cancelled_by led b (last (BlTransactionIDs b)))
      | StatusOther _ \<Rightarrow> False)"

lemma bill_ok_grows:
  assumes g: "set (LsTxs led) \<subseteq> set (LsTxs led')" "distinct (map StID (LsTxs led))" "distinct (map StID (LsTxs led'))"
    and ch: "chart_grows led led'" and ok: "bill_ok led b"
  shows "bill_ok led' b"
proof -
  have s: "set (BlTransactionIDs b) \<subseteq> stored_ids led" using ok by (simp add: bill_ok_def)
  have l: "BlTransactionIDs b \<noteq> [] \<Longrightarrow> lookup_tx led' (last (BlTransactionIDs b)) = lookup_tx led (last (BlTransactionIDs b))"
    by (rule lookup_grows [OF g]) (use s last_in_set in blast)
  have n: "ids_net led' (BlTransactionIDs b) a = ids_net led (BlTransactionIDs b) a"
    "ids_net led' (butlast (BlTransactionIDs b)) a = ids_net led (butlast (BlTransactionIDs b)) a" for a
  proof -
    show "ids_net led' (BlTransactionIDs b) a = ids_net led (BlTransactionIDs b) a" by (rule ids_net_grows [OF g s])
    have "set (butlast (BlTransactionIDs b)) \<subseteq> stored_ids led" using s by (auto dest: in_set_butlastD)
    then show "ids_net led' (butlast (BlTransactionIDs b)) a = ids_net led (butlast (BlTransactionIDs b)) a"
      by (rule ids_net_grows [OF g])
  qed
  have "stored_ids led \<subseteq> stored_ids led'" using g(1) by (auto simp: stored_ids_def)
  then have s': "set (BlTransactionIDs b) \<subseteq> stored_ids led'" using s by blast
  have e: "settled_by led b (last (BlTransactionIDs b)) \<Longrightarrow> settled_by led' b (last (BlTransactionIDs b))"
    "cancelled_by led' b (last (BlTransactionIDs b)) = cancelled_by led b (last (BlTransactionIDs b))"
    if "BlTransactionIDs b \<noteq> []"
    using is_category_grows [OF ch] by (simp_all add: settled_by_def cancelled_by_def l [OF that]) blast
  have r: "reversal_last led' b = reversal_last led b"
    by (cases "BlTransactionIDs b = []") (simp_all add: reversal_last_def l)
  show ?thesis
    using ok s' e unfolding bill_ok_def n r by (cases "BlStatus b") simp_all
qed

subsection \<open>Versions\<close>

text \<open>
  What an earlier version \<open>b\<close> of a row tells about the current one \<open>c\<close>: the list of transactions
  only grows, and while it has not grown, nothing that was recognised has changed.
\<close>

definition version_ok :: "Bill \<Rightarrow> Bill \<Rightarrow> bool" where
  "version_ok c b \<longleftrightarrow>
     prefix (BlTransactionIDs b) (BlTransactionIDs c) \<and> BlID b = BlID c \<and> BlDirection b = BlDirection c \<and>
     BlOrigin b = BlOrigin c \<and> BlCompetence b = BlCompetence c \<and>
     (length (BlTransactionIDs b) = length (BlTransactionIDs c) \<longrightarrow>
        BlAmount b = BlAmount c \<and> BlCategoryID b = BlCategoryID c \<and>
        (BlStatus b = BlStatus c \<and> BlStatus b \<noteq> BillForecast \<longrightarrow> BlDue b = BlDue c \<and> BlAccountID b = BlAccountID c)) \<and>
     (BlOrigin b = OriginCardStatement \<and> BlStatus b = BillCanceled \<longrightarrow> BlStatus c = BillCanceled)"

lemma version_refl: "version_ok b b"
  by (simp add: version_ok_def)

definition same_bill :: "Bill \<Rightarrow> Bill \<Rightarrow> bool" where
  "same_bill c' c \<longleftrightarrow> BlID c' = BlID c \<and> BlDirection c' = BlDirection c \<and> BlOrigin c' = BlOrigin c \<and> BlCompetence c' = BlCompetence c"

lemma version_append:
  assumes "version_ok c b" "same_bill c' c" "BlTransactionIDs c' = BlTransactionIDs c @ [x]"
    and "BlOrigin c = OriginCardStatement \<longrightarrow> BlStatus c \<noteq> BillCanceled"
  shows "version_ok c' b"
  using assms by (auto simp: version_ok_def same_bill_def dest: prefix_length_le)

lemma version_same:
  assumes "version_ok c b" "same_bill c' c" "BlTransactionIDs c' = BlTransactionIDs c"
    and "BlAmount c' = BlAmount c" "BlCategoryID c' = BlCategoryID c"
    and "BlStatus c' = BillForecast \<and> BlStatus c = BillForecast \<or>
      BlStatus c' = BillCanceled \<and> BlStatus c = BillForecast \<and> BlOrigin c = OriginCardStatement \<or>
      BlStatus c' = BlStatus c \<and> BlDue c' = BlDue c \<and> BlAccountID c' = BlAccountID c"
  shows "version_ok c' b"
  using assms by (auto simp: version_ok_def same_bill_def)

lemma version_equal:
  assumes "version_ok c b" "length (BlTransactionIDs c) = length (BlTransactionIDs b)"
  shows "BlTransactionIDs b = BlTransactionIDs c" "BlAmount b = BlAmount c" "BlCategoryID b = BlCategoryID c"
    "BlDirection b = BlDirection c" "BlOrigin b = BlOrigin c" "BlCompetence b = BlCompetence c" "BlID b = BlID c"
    "BlStatus b = BlStatus c \<Longrightarrow> BlStatus b \<noteq> BillForecast \<Longrightarrow> BlDue b = BlDue c \<and> BlAccountID b = BlAccountID c"
  using assms by (auto simp: version_ok_def prefix_def)


subsection \<open>Committing a plan with a bill's item\<close>

lemma led_conds: "list_all (\<lambda>i. bill_cond i st) (map Led xs) = list_all (\<lambda>i. item_cond i (BsLedger st)) xs"
  by (induction xs) simp_all

lemma led_writes:
  "fold bill_write (map Led xs) st = st\<lparr>BsLedger := fold item_write xs (BsLedger st)\<rparr>"
  by (induction xs arbitrary: st) simp_all

lemma led_keys: "distinct (map bill_key (map Led xs)) = distinct (map item_key xs)"
  by (simp add: distinct_map inj_on_def)

lemma BillWrite_split:
  assumes "BillWrite (map Led xs @ ys) st = Inr st'"
  shows "TransactWrite xs (BsLedger st) = Inr (fold item_write xs (BsLedger st))"
    "list_all (\<lambda>i. bill_cond i st) ys"
    "st' = fold bill_write ys (st\<lparr>BsLedger := fold item_write xs (BsLedger st)\<rparr>)"
proof -
  have "length xs \<le> 100" "distinct (map bill_key (map Led xs))" "list_all (\<lambda>i. bill_cond i st) (map Led xs)"
    and "list_all (\<lambda>i. bill_cond i st) ys" "st' = fold bill_write (map Led xs @ ys) st"
    using assms by (auto simp: BillWrite_def split: if_splits)
  moreover from this(2) have "distinct (map item_key xs)" by (simp only: led_keys)
  ultimately show "TransactWrite xs (BsLedger st) = Inr (fold item_write xs (BsLedger st))"
    "list_all (\<lambda>i. bill_cond i st) ys" "st' = fold bill_write ys (st\<lparr>BsLedger := fold item_write xs (BsLedger st)\<rparr>)"
    by (simp_all add: TransactWrite_def led_conds led_writes)
qed

text \<open>What committing the ledger's plan does for the bills: its transaction is stored, everything stored stays.\<close>

definition posted_in :: "ledger_store \<Rightarrow> ledger_store \<Rightarrow> string \<Rightarrow> Transaction \<Rightarrow> bool" where
  "posted_in led led' i tx \<longleftrightarrow> ledger_inv led' \<and> set (LsTxs led) \<subseteq> set (LsTxs led') \<and> chart_grows led led' \<and>
     lookup_tx led' i = Some tx \<and> i \<in> stored_ids led'"

lemma ledger_inv_distinct: "ledger_inv led \<Longrightarrow> distinct (map StID (LsTxs led))"
  by (simp add: ledger_inv_def)

lemma commit_posted:
  assumes w: "TransactWrite (fst (postItemsWith i tx meta k rv False)) led = Inr led'" and v: "tx_valid tx" and inv: "ledger_inv led"
    and r: "TxAdjusts tx \<noteq> '''' \<longrightarrow> TxKindOf tx = KindReversal \<and>
      (\<exists>o' \<in> set (LsTxs led). StID o' = TxAdjusts tx \<and> TxKindOf (StTx o') \<noteq> KindReversal \<and> (\<forall>a. effect tx a = - effect (StTx o') a))"
  shows "posted_in led led' i tx"
proof -
  have w': "TransactWrite (fst (postItemsWith i tx meta k rv False) @ []) led = Inr led'" using w by simp
  have inv': "ledger_inv led'" by (rule commit_post_inv [OF w' _ v inv r]) simp
  obtain t where t: "StID t = i" "StTx t = tx" "LsTxs led' = insort_key StID t (LsTxs led)"
    by (rule commit_post [OF w' _ v]) auto
  then have "t \<in> set (LsTxs led')" by (simp add: set_insort_key)
  then have "lookup_tx led' i = Some tx" "i \<in> stored_ids led'"
    using lookup_stored [OF ledger_inv_distinct [OF inv']] t(1,2) by (auto simp: stored_ids_def)
  then show ?thesis using inv' TransactWrite_grows [OF w] TransactWrite_chart [OF w] by (simp add: posted_in_def)
qed

lemma posted_id_effect: "posted_in led led' i tx \<Longrightarrow> id_effect led' a i = effect tx a"
  by (simp add: posted_in_def id_effect_def)

subsection \<open>The invariant\<close>

definition row_ok :: "ledger_store \<Rightarrow> string \<Rightarrow> bill_row \<Rightarrow> bool" where
  "row_ok led i row \<longleftrightarrow> BlID (RwBill row) = i \<and> bill_ok led (RwBill row) \<and> RwOpen row = fst (sparseKeys (RwBill row))"

definition versions :: "bill_store \<Rightarrow> Bill set" where
  "versions st = {b. \<exists>i row. BsBills st i = Some row \<and> RwBill row = b}"

definition bills_inv :: "bill_store \<Rightarrow> Bill set \<Rightarrow> bool" where
  "bills_inv st seen \<longleftrightarrow>
     ledger_inv (BsLedger st) \<and> chart_grows EnsureSpace (BsLedger st) \<and>
     (\<forall>i row. BsBills st i = Some row \<longrightarrow> row_ok (BsLedger st) i row) \<and>
     (\<forall>b \<in> seen. \<exists>row. BsBills st (BlID b) = Some row \<and> version_ok (RwBill row) b)"

definition reads_from :: "Bill set \<Rightarrow> bill_reads \<Rightarrow> bool" where
  "reads_from seen read \<longleftrightarrow> (\<forall>i b. read i = Some b \<longrightarrow> b \<in> seen \<and> BlID b = i)"

lemma read_version:
  assumes "bills_inv st seen" "reads_from seen read" "read i = Some b"
  obtains row where "BsBills st i = Some row" "row_ok (BsLedger st) i row" "version_ok (RwBill row) b" "BlID b = i"
proof -
  have b: "b \<in> seen" "BlID b = i" using assms(2,3) by (auto simp: reads_from_def)
  then obtain row where "BsBills st i = Some row" "version_ok (RwBill row) b" using assms(1) unfolding bills_inv_def by blast
  then show thesis using that b assms(1) unfolding bills_inv_def by blast
qed

text \<open>A step that replaces one row, or adds one, beside a growing ledger.\<close>

lemma row_ok_grows:
  "set (LsTxs led) \<subseteq> set (LsTxs led') \<Longrightarrow> chart_grows led led' \<Longrightarrow> ledger_inv led \<Longrightarrow> ledger_inv led' \<Longrightarrow> row_ok led i row \<Longrightarrow>
   row_ok led' i row"
  unfolding row_ok_def using bill_ok_grows ledger_inv_distinct by blast

lemma update_inv:
  assumes inv: "bills_inv st seen" and row: "BsBills st i = Some row"
    and led: "ledger_inv led'" "set (LsTxs (BsLedger st)) \<subseteq> set (LsTxs led')" "chart_grows (BsLedger st) led'"
    and ok: "row_ok led' i row'" and ver: "\<And>b. version_ok (RwBill row) b \<Longrightarrow> version_ok (RwBill row') b"
    and st': "BsLedger st' = led'" "BsBills st' = (BsBills st)(i \<mapsto> row')"
  shows "bills_inv st' (seen \<union> versions st')"
proof -
  have rows: "row_ok led' j r" if "BsBills st' j = Some r" for j r
    using that inv ok led row_ok_grows [OF led(2,3) _ led(1)] by (auto simp: bills_inv_def st' split: if_splits)
  have "\<exists>r. BsBills st' (BlID b) = Some r \<and> version_ok (RwBill r) b" if "b \<in> seen \<union> versions st'" for b
    using that
  proof
    assume "b \<in> seen"
    then obtain r where r: "BsBills st (BlID b) = Some r" "version_ok (RwBill r) b" using inv unfolding bills_inv_def by blast
    then show ?thesis using ver row by (cases "BlID b = i") (auto simp: st')
  next
    assume "b \<in> versions st'"
    then obtain j r where "BsBills st' j = Some r" "RwBill r = b" by (auto simp: versions_def)
    then show ?thesis using rows [of j r] version_refl by (auto simp: row_ok_def)
  qed
  then show ?thesis
    using rows led(1) inv chart_grows_trans [OF _ led(3)] by (simp add: bills_inv_def st'(1))
qed

lemma insert_inv:
  assumes inv: "bills_inv st seen" and new: "BsBills st i = None"
    and led: "ledger_inv led'" "set (LsTxs (BsLedger st)) \<subseteq> set (LsTxs led')" "chart_grows (BsLedger st) led'"
    and ok: "row_ok led' i row'"
    and st': "BsLedger st' = led'" "BsBills st' = (BsBills st)(i \<mapsto> row')"
  shows "bills_inv st' (seen \<union> versions st')"
proof -
  have rows: "row_ok led' j r" if "BsBills st' j = Some r" for j r
    using that inv ok led row_ok_grows [OF led(2,3) _ led(1)] by (auto simp: bills_inv_def st' split: if_splits)
  have "\<exists>r. BsBills st' (BlID b) = Some r \<and> version_ok (RwBill r) b" if "b \<in> seen \<union> versions st'" for b
    using that
  proof
    assume "b \<in> seen"
    then obtain r where "BsBills st (BlID b) = Some r" "version_ok (RwBill r) b" using inv unfolding bills_inv_def by blast
    then show ?thesis using new by (cases "BlID b = i") (auto simp: st')
  next
    assume "b \<in> versions st'"
    then obtain j r where "BsBills st' j = Some r" "RwBill r = b" by (auto simp: versions_def)
    then show ?thesis using rows [of j r] version_refl by (auto simp: row_ok_def)
  qed
  then show ?thesis
    using rows led(1) inv chart_grows_trans [OF _ led(3)] by (simp add: bills_inv_def st'(1))
qed


lemma plan_commit:
  assumes "planPost sp tx meta fresh = Inr plan" "BillWrite (map Led (PlItems plan) @ ys) st = Inr st'"
    and "ledger_inv (BsLedger st)" "TxAdjusts tx = ''''"
  obtains led' where "posted_in (BsLedger st) led' (PlTxID plan) tx" "list_all (\<lambda>i. bill_cond i st) ys"
    "st' = fold bill_write ys (st\<lparr>BsLedger := led'\<rparr>)"
proof -
  obtain i where i: "PlItems plan = fst (postItemsWith i tx meta (TxKindOf tx) False False)" "PlTxID plan = i" "tx_valid tx"
    using assms(1) planPostAs_plan unfolding planPost_def by blast
  note s = BillWrite_split [OF assms(2)]
  show thesis
    using that [OF commit_posted [OF s(1) [unfolded i(1)] i(3) assms(3), folded i(1,2)] s(2,3)] assms(4) by simp
qed

lemma reverse_commit:
  assumes "planReverse sp i d meta fresh (BsLedger st) = Inr plan" "BillWrite (map Led (PlItems plan) @ ys) st = Inr st'"
    and "ledger_inv (BsLedger st)"
  obtains led' r tx where "posted_in (BsLedger st) led' (PlTxID plan) r" "lookup_tx (BsLedger st) i = Some tx"
    "TxKindOf tx \<noteq> KindReversal" "TxKindOf r = KindReversal" "\<And>a. effect r a = - effect tx a"
    "list_all (\<lambda>i. bill_cond i st) ys" "st' = fold bill_write ys (st\<lparr>BsLedger := led'\<rparr>)"
proof -
  obtain txID r o' meta' k where r: "PlItems plan = fst (postItemsWith txID r meta' k True False)" "PlTxID plan = txID" "tx_valid r"
    "o' \<in> set (LsTxs (BsLedger st))" "StID o' = i" "TxKindOf (StTx o') \<noteq> KindReversal" "TxKindOf r = KindReversal" "TxAdjusts r = i"
    "\<forall>a. effect r a = - effect (StTx o') a"
    using planReverse_plan [OF assms(1)] by metis
  note s = BillWrite_split [OF assms(2)]
  have "posted_in (BsLedger st) (fold item_write (PlItems plan) (BsLedger st)) (PlTxID plan) r"
    unfolding r(2) using r by (intro commit_posted [OF s(1) [unfolded r(1)] r(3) assms(3), folded r(1)] impI conjI bexI [of _ o']) simp_all
  moreover have "lookup_tx (BsLedger st) i = Some (StTx o')"
    using lookup_stored [OF ledger_inv_distinct [OF assms(3)] r(4)] r(5) by simp
  ultimately show thesis using that r(6,7,9) s(2,3) by blast
qed

lemma SettleBill_adjusts: "SettleBill sys f paid dc d = Inr tx \<Longrightarrow> TxAdjusts tx = ''''"
  by (auto simp: SettleBill_def Let_def NewTransaction_iff split: if_splits prod.splits)

text \<open>A settlement without a category for the difference settles the bill's amount.\<close>

lemma settled_difference:
  assumes "SettleBill sys f paid dc d = Inr tx" "in64 paid" "in64 (BfAmount f)"
  shows "paid = BfAmount f \<or> dc \<noteq> []"
proof -
  have "0 < paid" "0 < BfAmount f" using assms(1) by (auto simp: SettleBill_def facts_valid_def split: if_splits)
  then have "wrap64 (paid - BfAmount f) = paid - BfAmount f" using assms(2,3) by (intro wrap64_id) (simp add: in64_def)
  then show ?thesis using assms(1) by (auto simp: SettleBill_def Let_def split: if_splits)
qed

lemma CancelBill_adjusts: "CancelBill sys f d = Inr tx \<Longrightarrow> TxAdjusts tx = ''''"
  by (auto simp: CancelBill_def NewTransaction_iff split: sum.splits)

lemma AdjustBill_adjusts: "AdjustBill sys f g d = Inr tx \<Longrightarrow> TxAdjusts tx = ''''"
  by (auto simp: AdjustBill_def Let_def NewTransaction_iff split: sum.splits if_splits)

lemma RecognizeBill_adjusts: "RecognizeBill sys f d = Inr tx \<Longrightarrow> TxAdjusts tx = ''''"
  by (auto simp: RecognizeBill_def NewTransaction_iff split: if_splits)

lemma CreditBill_adjusts: "CreditBill f n d = Inr tx \<Longrightarrow> TxAdjusts tx = ''''"
  by (auto simp: CreditBill_def NewTransaction_iff split: if_splits)

lemma posted_inD:
  "posted_in led led' i tx \<Longrightarrow> ledger_inv led' \<and> set (LsTxs led) \<subseteq> set (LsTxs led') \<and> chart_grows led led' \<and>
     lookup_tx led' i = Some tx \<and> i \<in> stored_ids led'"
  by (simp add: posted_in_def)

lemma net_posted:
  assumes "posted_in led led' i tx" "ledger_inv led" "set ids \<subseteq> stored_ids led"
  shows "ids_net led' ids a = ids_net led ids a" "ids_net led' (ids @ [i]) a = ids_net led ids a + effect tx a"
    "set (ids @ [i]) \<subseteq> stored_ids led'"
proof -
  have g: "set (LsTxs led) \<subseteq> set (LsTxs led')" "distinct (map StID (LsTxs led))" "distinct (map StID (LsTxs led'))"
    using assms(1,2) by (simp_all add: posted_in_def ledger_inv_distinct)
  show n: "ids_net led' ids a = ids_net led ids a" by (rule ids_net_grows [OF g assms(3)])
  show "ids_net led' (ids @ [i]) a = ids_net led ids a + effect tx a" by (simp add: n posted_id_effect [OF assms(1)])
  show "set (ids @ [i]) \<subseteq> stored_ids led'" using assms(1,3) g(1) by (auto simp: posted_in_def stored_ids_def)
qed

text \<open>The recognition of equal facts is equal, and the account plays no part in it.\<close>

lemma recognised_tx: "RecognizeBill the_sys f d = Inr tx \<Longrightarrow> effect tx a = recognised f a"
  by (simp add: RecognizeBill_effect(1) recognised_def)

lemma cancelled_tx: "CancelBill the_sys f d = Inr tx \<Longrightarrow> effect tx a = - recognised f a"
proof -
  assume c: "CancelBill the_sys f d = Inr tx"
  then obtain r where r: "RecognizeBill the_sys f d = Inr r" by (auto simp: CancelBill_def split: sum.splits)
  show ?thesis using CancelBill_effect(1) [OF r c] recognised_tx [OF r] by simp
qed

subsection \<open>Every operation keeps it\<close>

lemma settle_inv:
  assumes p: "planSettleBill sp b paid dc date meta accountID fresh st = Inr p" and w: "BillWrite (SpItems p) st = Inr st'"
    and inv: "bills_inv st seen" and row: "BsBills st (BlID b) = Some row" "version_ok (RwBill row) b" and paid: "in64 paid"
  shows "bills_inv st' (seen \<union> versions st')"
proof -
  define settled where "settled = (if accountID \<noteq> '''' then b\<lparr>BlAccountID := accountID\<rparr> else b)"
  define st_set :: "Bill \<Rightarrow> Bill" where "st_set = (\<lambda>r. r\<lparr>BlStatus := BillPaid, BlPaidDate := date, BlAccountID := (if accountID \<noteq> '''' then accountID else BlAccountID r)\<rparr>)"
  obtain tx plan where tx: "SettleBill the_sys (Facts settled) paid dc date = Inr tx" and plan: "planPost sp tx (billMeta meta b) fresh = Inr plan"
    and items: "SpItems p = map Led (PlItems plan) @ [UpdBill (BlID b) (forecastGuard b) (removeSparse \<circ> upd_bill (st_set \<circ> append_tx (PlTxID plan)))]"
    using p by (auto simp: planSettleBill_def Let_def settled_def st_set_def split: if_splits option.splits sum.splits)
  have cat: "dc \<noteq> [] \<Longrightarrow> is_category (BsLedger st) dc"
    using p by (auto simp: planSettleBill_def is_category_def split: if_splits option.splits)
  have led: "ledger_inv (BsLedger st)" using inv by (simp add: bills_inv_def)
  obtain led' where pst: "posted_in (BsLedger st) led' (PlTxID plan) tx" and g: "forecastGuard b row"
    and st': "st' = st\<lparr>BsLedger := led', BsBills := (BsBills st)(BlID b \<mapsto> removeSparse (upd_bill (st_set \<circ> append_tx (PlTxID plan)) row))\<rparr>"
    by (rule plan_commit [OF plan w [unfolded items] led SettleBill_adjusts [OF tx]]) (simp add: row)
  define c where "c = RwBill row"
  define c' where "c' = st_set (append_tx (PlTxID plan) c)"
  have ids: "BlTransactionIDs c' = BlTransactionIDs c @ [PlTxID plan]" by (simp add: c'_def st_set_def append_tx_def)
  have ok: "row_ok (BsLedger st) (BlID b) row" using inv row(1) by (simp add: bills_inv_def)
  have st: "BlStatus c = BillForecast" "length (BlTransactionIDs c) = length (BlTransactionIDs b)" "BlAccountID c = BlAccountID b"
    using g by (simp_all add: forecastGuard_def c_def)
  note v = version_equal [OF row(2) [folded c_def] st(2)]
  have facts: "Facts c' = Facts settled"
    using v st(3) by (simp add: Facts_def c'_def st_set_def append_tx_def settled_def)
  have bc: "bill_ok (BsLedger st) c" using ok by (simp add: row_ok_def c_def)
  then have s: "set (BlTransactionIDs c) \<subseteq> stored_ids (BsLedger st)" by (simp add: bill_ok_def)
  note n = net_posted [OF pst led s]
  have "bill_ok led' c'"
  proof -
    have "base c' a = base c a" for a by (rule base_cong) (simp_all add: c'_def st_set_def append_tx_def)
    moreover have "BlStatus c' = BillPaid" by (simp add: c'_def st_set_def)
    moreover have amt: "BlAmount c' = BlAmount c" by (simp add: c'_def st_set_def append_tx_def)
    moreover have "settled_by led' c' (PlTxID plan)"
    proof -
      have "in64 (BlAmount c)" using bc by (simp add: bill_ok_def in64_def MaxLegAmount_def)
      moreover have "BfAmount (Facts settled) = BlAmount c" using amt unfolding facts [symmetric] by (simp add: Facts_def)
      ultimately have "paid = BlAmount c' \<or> dc \<noteq> []" using settled_difference [OF tx paid] amt by simp
      then show ?thesis
        using posted_inD [OF pst] tx facts paid is_category_grows [of "BsLedger st" led' dc] cat by (auto simp: settled_by_def)
    qed
    ultimately show ?thesis using bc st(1) n by (simp add: bill_ok_def ids)
  qed
  moreover define r' where "r' = removeSparse (upd_bill (st_set \<circ> append_tx (PlTxID plan)) row)"
  have r': "RwBill r' = c'" "RwOpen r' = None" "BlStatus c' = BillPaid" "BlID c' = BlID c"
    by (simp_all add: r'_def removeSparse_def upd_bill_def c'_def c_def st_set_def append_tx_def)
  ultimately have "row_ok led' (BlID b) r'"
    using ok by (simp add: row_ok_def sparseKeys_def c_def)
  moreover have "version_ok c' x" if "version_ok c x" for x
    by (rule version_append [OF that _ ids]) (use st(1) in \<open>simp_all add: same_bill_def c'_def st_set_def append_tx_def\<close>)
  ultimately show ?thesis
    using posted_inD [OF pst] row(1) inv
    by (intro update_inv [of st seen "BlID b" row led' r']) (simp_all add: st' r' c_def flip: r'_def)
qed


lemma append_inv:
  assumes inv: "bills_inv st seen" and row: "BsBills st i = Some row"
    and pst: "posted_in (BsLedger st) led' j tx"
    and c': "RwBill r' = c'" "BlTransactionIDs c' = BlTransactionIDs (RwBill row) @ [j]" "same_bill c' (RwBill row)"
      "RwOpen r' = fst (sparseKeys c')" "bill_ok led' c'"
    and card: "BlOrigin (RwBill row) = OriginCardStatement \<longrightarrow> BlStatus (RwBill row) \<noteq> BillCanceled"
    and st': "BsLedger st' = led'" "BsBills st' = (BsBills st)(i \<mapsto> r')"
  shows "bills_inv st' (seen \<union> versions st')"
proof -
  have ok: "row_ok (BsLedger st) i row" using inv row by (simp add: bills_inv_def)
  then have "row_ok led' i r'" using c' by (simp add: row_ok_def same_bill_def)
  moreover have "version_ok c' x" if "version_ok (RwBill row) x" for x
    by (rule version_append [OF that c'(3,2) card])
  ultimately show ?thesis
    using posted_inD [OF pst] row inv c'(1) by (intro update_inv [of st seen i row led' r'] st') simp_all
qed

lemma row_okD:
  assumes "bills_inv st seen" "BsBills st i = Some row"
  shows "bill_ok (BsLedger st) (RwBill row)" "BlID (RwBill row) = i" "RwOpen row = fst (sparseKeys (RwBill row))"
    "set (BlTransactionIDs (RwBill row)) \<subseteq> stored_ids (BsLedger st)"
  using assms by (auto simp: bills_inv_def row_ok_def bill_ok_def)

lemma cancel_inv:
  assumes p: "cancelItems sp b date meta fresh = Inr (items, txID)" and w: "BillWrite items st = Inr st'"
    and inv: "bills_inv st seen" and row: "BsBills st (BlID b) = Some row" "version_ok (RwBill row) b"
  shows "bills_inv st' (seen \<union> versions st')"
proof (cases "BlOrigin b = OriginCardStatement")
  case True
  then have items: "items = [UpdBill (BlID b) (forecastGuard b) (removeSparse \<circ> upd_bill (\<lambda>r. r\<lparr>BlStatus := BillCanceled\<rparr>))]"
    using p by (simp add: cancelItems_def Let_def)
  define r' where "r' = removeSparse (upd_bill (\<lambda>r. r\<lparr>BlStatus := BillCanceled\<rparr>) row)"
  have g: "forecastGuard b row" and st': "st' = st\<lparr>BsBills := (BsBills st)(BlID b \<mapsto> r')\<rparr>"
    using w row(1) by (auto simp: items BillWrite_def r'_def split: if_splits)
  define c where "c = RwBill row"
  have st: "BlStatus c = BillForecast" "BlOrigin c = OriginCardStatement"
    using g True row(2) by (simp_all add: forecastGuard_def c_def version_ok_def)
  have r': "RwBill r' = c\<lparr>BlStatus := BillCanceled\<rparr>" "RwOpen r' = None"
    by (simp_all add: r'_def removeSparse_def upd_bill_def c_def)
  have "bill_ok (BsLedger st) (c\<lparr>BlStatus := BillCanceled\<rparr>)"
    using row_okD(1) [OF inv row(1), folded c_def] st by (simp add: bill_ok_def base_def reversal_last_def)
  then have "row_ok (BsLedger st) (BlID b) r'"
    using row_okD(2) [OF inv row(1), folded c_def] r' by (simp add: row_ok_def sparseKeys_def)
  moreover have "version_ok (RwBill r') x" if "version_ok (RwBill row) x" for x
    by (rule version_same [OF that]) (use st in \<open>simp_all add: r' same_bill_def flip: c_def\<close>)
  ultimately show ?thesis
    using inv row(1) by (intro update_inv [of st seen "BlID b" row "BsLedger st" r']) (simp_all add: st' bills_inv_def)
next
  case False
  define d where "d = (if IsZero date then BlCompetence b else date)"
  define can :: "Bill \<Rightarrow> Bill" where "can = (\<lambda>r. r\<lparr>BlStatus := BillCanceled\<rparr>)"
  obtain tx plan where tx: "CancelBill the_sys (Facts b) d = Inr tx" and plan: "planPost sp tx (billMeta meta b) fresh = Inr plan"
    and items: "items = map Led (PlItems plan) @ [UpdBill (BlID b) (forecastGuard b) (removeSparse \<circ> upd_bill (can \<circ> append_tx (PlTxID plan)))]"
    using p False by (auto simp: cancelItems_def Let_def d_def can_def split: if_splits sum.splits)
  have led: "ledger_inv (BsLedger st)" using inv by (simp add: bills_inv_def)
  define r' where "r' = removeSparse (upd_bill (can \<circ> append_tx (PlTxID plan)) row)"
  obtain led' where pst: "posted_in (BsLedger st) led' (PlTxID plan) tx" and g: "forecastGuard b row"
    and st': "st' = st\<lparr>BsLedger := led', BsBills := (BsBills st)(BlID b \<mapsto> r')\<rparr>"
    by (rule plan_commit [OF plan w [unfolded items] led CancelBill_adjusts [OF tx]]) (simp add: row r'_def)
  define c where "c = RwBill row"
  define c' where "c' = can (append_tx (PlTxID plan) c)"
  have st: "BlStatus c = BillForecast" "length (BlTransactionIDs c) = length (BlTransactionIDs b)" "BlAccountID c = BlAccountID b"
    using g by (simp_all add: forecastGuard_def c_def)
  note v = version_equal [OF row(2) [folded c_def] st(2)]
  have facts: "Facts c' = Facts b" "Facts c = Facts b"
    using v st(3) by (simp_all add: Facts_def c'_def can_def append_tx_def)
  have c': "BlTransactionIDs c' = BlTransactionIDs c @ [PlTxID plan]" "BlStatus c' = BillCanceled" "same_bill c' c" "BlOrigin c' \<noteq> OriginCardStatement"
    "BlAmount c' = BlAmount c"
    using v False by (simp_all add: c'_def can_def append_tx_def same_bill_def)
  note n = net_posted [OF pst led row_okD(4) [OF inv row(1), folded c_def]]
  have "cancelled_by led' c' (PlTxID plan)" using posted_inD [OF pst] tx facts by (auto simp: cancelled_by_def)
  moreover have "base c a = recognised (Facts b) a" for a using v False facts by (simp add: base_def)
  ultimately have "bill_ok led' c'"
    using row_okD(1) [OF inv row(1), folded c_def] st(1) n c' cancelled_tx [OF tx] by (simp add: bill_ok_def)
  then show ?thesis
    using c' row(1) inv st(1)
    by (intro append_inv [OF inv row(1) pst, of r' c'])
      (simp_all add: st' r'_def removeSparse_def upd_bill_def c'_def sparseKeys_def flip: c_def)
qed


text \<open>Reopening: the reversal of the last transaction, from either of the two closed statuses.\<close>

definition reopen :: "Date option \<Rightarrow> Bill \<Rightarrow> Bill" where
  "reopen paid r = (case paid of None \<Rightarrow> r\<lparr>BlStatus := BillForecast, BlAutoSettle := False\<rparr>
     | Some d \<Rightarrow> r\<lparr>BlStatus := BillForecast, BlPaidDate := d, BlAutoSettle := False\<rparr>)"

lemma reopen_simps [simp]:
  "BlStatus (reopen p r) = BillForecast" "BlTransactionIDs (reopen p r) = BlTransactionIDs r" "BlID (reopen p r) = BlID r"
  "BlDirection (reopen p r) = BlDirection r" "BlOrigin (reopen p r) = BlOrigin r" "BlCompetence (reopen p r) = BlCompetence r"
  "BlAmount (reopen p r) = BlAmount r" "BlCategoryID (reopen p r) = BlCategoryID r" "BlDue (reopen p r) = BlDue r"
  "BlAutoSettle (reopen p r) = False"
  by (simp_all add: reopen_def split: option.splits)

lemma reopen_inv:
  assumes plan: "planReverse sp (last (BlTransactionIDs b)) d meta fresh (BsLedger st) = Inr plan"
    and w: "BillWrite (map Led (PlItems plan) @ [UpdBill i cnd f]) st = Inr st'"
    and inv: "bills_inv st seen" and row: "BsBills st i = Some row" "version_ok (RwBill row) b"
    and cnd: "cnd row \<Longrightarrow> BlStatus (RwBill row) = BlStatus b \<and> length (BlTransactionIDs (RwBill row)) = length (BlTransactionIDs b)"
    and f: "RwBill (f row) = reopen p (append_tx (PlTxID plan) (RwBill row))" "RwOpen (f row) = fst (sparseKeys (reopen p b))"
    and b: "BlStatus b = BillPaid \<and> BlTransactionIDs b \<noteq> [] \<or> BlStatus b = BillCanceled \<and> 2 \<le> length (BlTransactionIDs b)"
  shows "bills_inv st' (seen \<union> versions st')"
proof -
  define c where "c = RwBill row"
  define c' where "c' = reopen p (append_tx (PlTxID plan) c)"
  have led: "ledger_inv (BsLedger st)" using inv by (simp add: bills_inv_def)
  obtain led' r tx where pst: "posted_in (BsLedger st) led' (PlTxID plan) r"
    and tx: "lookup_tx (BsLedger st) (last (BlTransactionIDs b)) = Some tx" "TxKindOf tx \<noteq> KindReversal"
    and r: "TxKindOf r = KindReversal" "\<And>a. effect r a = - effect tx a" and g: "cnd row"
    and st': "st' = st\<lparr>BsLedger := led', BsBills := (BsBills st)(i \<mapsto> f row)\<rparr>"
    by (rule reverse_commit [OF plan w led]) (simp add: row)
  have st: "BlStatus c = BlStatus b" "length (BlTransactionIDs c) = length (BlTransactionIDs b)" using cnd [OF g] by (simp_all add: c_def)
  note v = version_equal [OF row(2) [folded c_def] st(2)]
  have same: "BlDue b = BlDue c" using v(8) st(1) b by auto
  have ne: "BlTransactionIDs c \<noteq> []" using b v(1) by auto
  have bc: "bill_ok (BsLedger st) c" using row_okD(1) [OF inv row(1)] by (simp add: c_def)
  note n = net_posted [OF pst led row_okD(4) [OF inv row(1), folded c_def]]
  have last: "id_effect (BsLedger st) a (last (BlTransactionIDs c)) = effect tx a" for a
    using tx(1) v(1) by (simp add: id_effect_def)
  have split: "ids_net (BsLedger st) (BlTransactionIDs c) a =
      ids_net (BsLedger st) (butlast (BlTransactionIDs c)) a + effect tx a" for a
    using ids_net_simps(2) [of "BsLedger st" "butlast (BlTransactionIDs c)" "last (BlTransactionIDs c)" a] ne last by simp
  have "ids_net (BsLedger st) (BlTransactionIDs c) a - effect tx a = base c a" for a
  proof (cases "BlStatus c")
    case BillPaid
    then show ?thesis using bc split [of a] by (simp add: bill_ok_def)
  next
    case BillCanceled
    have nc: "BlOrigin c \<noteq> OriginCardStatement"
    proof
      assume "BlOrigin c = OriginCardStatement"
      then have "reversal_last (BsLedger st) c" using bc BillCanceled by (simp add: bill_ok_def)
      then show False using ne tx v(1) by (auto simp: reversal_last_def)
    qed
    then have "cancelled_by (BsLedger st) c (last (BlTransactionIDs c))" using bc BillCanceled by (simp add: bill_ok_def)
    then have "effect tx a = - recognised (Facts c) a" using tx(1) v(1) cancelled_tx by (auto simp: cancelled_by_def)
    then show ?thesis using bc BillCanceled nc by (simp add: bill_ok_def base_def)
  qed (use b st(1) in auto)
  then have net: "ids_net led' (BlTransactionIDs c @ [PlTxID plan]) a = base c a" for a
    using n(2) [of a] r(2) [of a] by simp
  have c': "BlTransactionIDs c' = BlTransactionIDs c @ [PlTxID plan]" "same_bill c' c" "BlStatus c' = BillForecast" "BlAmount c' = BlAmount c"
    by (simp_all add: c'_def append_tx_def same_bill_def)
  have "base c' a = base c a" for a by (rule base_cong) (simp_all add: c'_def append_tx_def)
  moreover have "reversal_last led' c'" using posted_inD [OF pst] r(1) by (simp add: reversal_last_def c')
  moreover have "0 < BlAmount c \<and> BlAmount c \<le> MaxLegAmount" using bc by (simp add: bill_ok_def)
  ultimately have "bill_ok led' c'" using net n(3) by (simp add: bill_ok_def c')
  moreover have "RwOpen (f row) = fst (sparseKeys c')"
    using f(2) v same by (simp add: sparseKeys_def c'_def append_tx_def)
  moreover have "BlOrigin c = OriginCardStatement \<longrightarrow> BlStatus c \<noteq> BillCanceled"
  proof (intro impI notI)
    assume "BlOrigin c = OriginCardStatement" "BlStatus c = BillCanceled"
    then have "reversal_last (BsLedger st) c" using bc by (simp add: bill_ok_def)
    then show False using ne tx v(1) by (auto simp: reversal_last_def)
  qed
  ultimately show ?thesis
    using c' f(1) by (intro append_inv [OF inv row(1) pst, of "f row" c']) (simp_all add: st' c'_def flip: c_def)
qed

lemma restore_inv:
  assumes "RestoreCancelled sp i date meta fresh read st = Inr (b', st')" "bills_inv st seen" "reads_from seen read"
  shows "bills_inv st' (seen \<union> versions st')"
proof -
  obtain b where b: "read i = Some b" using assms(1) by (auto simp: RestoreCancelled_def split: option.splits)
  obtain row where row: "BsBills st i = Some row" "version_ok (RwBill row) b" by (rule read_version [OF assms(2,3) b])
  define cnd :: "bill_row \<Rightarrow> bool" where "cnd = (\<lambda>row. BlStatus (RwBill row) = BillCanceled \<and> length (BlTransactionIDs (RwBill row)) = length (BlTransactionIDs b))"
  define d where "d = (if IsZero date then BlCompetence b else date)"
  obtain plan where st: "BlStatus b = BillCanceled" "2 \<le> length (BlTransactionIDs b)"
    and plan: "planReverse sp (last (BlTransactionIDs b)) d (billMeta meta b) fresh (BsLedger st) = Inr plan"
    and w: "BillWrite (map Led (PlItems plan) @ [UpdBill i cnd
      (\<lambda>row. (upd_bill ((\<lambda>r. r\<lparr>BlStatus := BillForecast, BlAutoSettle := False\<rparr>) \<circ> append_tx (PlTxID plan)) row)\<lparr>RwOpen := fst (sparseKeys (b\<lparr>BlStatus := BillForecast, BlAutoSettle := False\<rparr>))\<rparr>)]) st = Inr st'"
    using assms(1) b by (auto simp: RestoreCancelled_def Let_def cnd_def d_def split: option.splits if_splits sum.splits)
  show ?thesis
    by (rule reopen_inv [OF plan w assms(2) row, of None])
      (use st in \<open>simp_all add: cnd_def reopen_def upd_bill_def sparseKeys_def\<close>)
qed

lemma unsettle_inv:
  assumes "Unsettle sp i date meta fresh read st = Inr (b', st')" "bills_inv st seen" "reads_from seen read"
  shows "bills_inv st' (seen \<union> versions st')"
proof -
  obtain b where b: "read i = Some b" using assms(1) by (auto simp: Unsettle_def split: option.splits)
  obtain row where row: "BsBills st i = Some row" "version_ok (RwBill row) b" by (rule read_version [OF assms(2,3) b])
  define cnd :: "bill_row \<Rightarrow> bool" where "cnd = (\<lambda>row. BlStatus (RwBill row) = BillPaid \<and> length (BlTransactionIDs (RwBill row)) = length (BlTransactionIDs b))"
  obtain plan where st: "BlStatus b = BillPaid" "BlTransactionIDs b \<noteq> []"
    and plan: "planReverse sp (last (BlTransactionIDs b)) date (billMeta meta b) fresh (BsLedger st) = Inr plan"
    and w: "BillWrite (map Led (PlItems plan) @ [UpdBill i cnd
      (\<lambda>row. (upd_bill ((\<lambda>r. r\<lparr>BlStatus := BillForecast, BlPaidDate := mk_date 0 0 0, BlAutoSettle := False\<rparr>) \<circ> append_tx (PlTxID plan)) row)
         \<lparr>RwOpen := fst (sparseKeys (b\<lparr>BlStatus := BillForecast, BlPaidDate := mk_date 0 0 0, BlAutoSettle := False\<rparr>))\<rparr>)]) st = Inr st'"
    using assms(1) b by (auto simp: Unsettle_def Let_def cnd_def split: option.splits if_splits sum.splits)
  show ?thesis
    by (rule reopen_inv [OF plan w assms(2) row, of "Some (mk_date 0 0 0)"])
      (use st in \<open>simp_all add: cnd_def reopen_def upd_bill_def sparseKeys_def\<close>)
qed


lemma valid_amount: "BillValidate b = None \<Longrightarrow> 0 < BlAmount b \<and> BlAmount b \<le> MaxLegAmount"
  by (auto simp: BillValidate_def split: if_splits)

lemma edit_bill:
  assumes "RwBill row = c" "BlAccountID c = BlAccountID cur" "BlDue c = BlDue cur" "BlAmount c = BlAmount cur" "BlCategoryID c = BlCategoryID cur"
    and "BlStatus c = BillForecast" "BlID nxt = BlID c" "RwOpen row = fst (sparseKeys c)"
  shows "BlAmount (RwBill (edit_set cur nxt t row)) = BlAmount nxt" "BlCategoryID (RwBill (edit_set cur nxt t row)) = BlCategoryID nxt"
    "BlTransactionIDs (RwBill (edit_set cur nxt t row)) = BlTransactionIDs c @ (case t of None \<Rightarrow> [] | Some i \<Rightarrow> [i])"
    "same_bill (RwBill (edit_set cur nxt t row)) c" "BlStatus (RwBill (edit_set cur nxt t row)) = BillForecast"
    "RwOpen (edit_set cur nxt t row) = fst (sparseKeys (RwBill (edit_set cur nxt t row)))"
    "BlAccountID (RwBill (edit_set cur nxt t row)) = BlAccountID nxt" "BlDue (RwBill (edit_set cur nxt t row)) = BlDue nxt"
  using assms by (cases t; simp add: edit_set_def Let_def append_tx_def same_bill_def sparseKeys_def)+

lemma edited_simps [simp]:
  "BlID (edited e b) = BlID b" "BlDirection (edited e b) = BlDirection b" "BlOrigin (edited e b) = BlOrigin b"
  "BlStatus (edited e b) = BlStatus b" "BlTransactionIDs (edited e b) = BlTransactionIDs b" "BlCompetence (edited e b) = BlCompetence b"
  "BlAmount (edited e b) = opt_or (EdAmount e) (BlAmount b)" "BlCategoryID (edited e b) = opt_or (EdCategoryID e) (BlCategoryID b)"
  by (simp_all add: edited_def)

text \<open>An accepted edit that writes: with the adjustment of what was recognised, or without one.\<close>

lemma edit_cases:
  assumes "BillEdited sp i e meta fresh read st = Inr (b', st')"
  obtains cur where "read i = Some cur" "st' = st"
  | cur where "read i = Some cur" "BlAmount (edited e cur) = BlAmount cur" "BlCategoryID (edited e cur) = BlCategoryID cur"
      "BillWrite [UpdBill i (forecastGuard cur) (edit_set cur (edited e cur) None)] st = Inr st'"
  | cur tx plan where "read i = Some cur" "BlOrigin cur \<noteq> OriginCardStatement"
      "AdjustBill the_sys (Facts cur) (Facts (edited e cur)) (BlCompetence cur) = Inr tx" "BillValidate (edited e cur) = None"
      "planPost sp tx (billMeta meta (edited e cur)) fresh = Inr plan"
      "BillWrite (map Led (PlItems plan) @ [UpdBill i (forecastGuard cur) (edit_set cur (edited e cur) (Some (PlTxID plan)))]) st = Inr st'"
proof -
  obtain cur where cur: "read i = Some cur" using assms by (auto simp: BillEdited_def split: option.splits)
  define nxt where "nxt = edited e cur"
  define plan_of where "plan_of = (if BlAmount nxt \<noteq> BlAmount cur \<or> BlCategoryID nxt \<noteq> BlCategoryID cur
      then (case AdjustBill the_sys (Facts cur) (Facts nxt) (BlCompetence cur) of
              Inl err \<Rightarrow> Inl (ErrBillLedger (ErrTx err))
            | Inr tx \<Rightarrow>
              (case planPost sp tx (billMeta meta nxt) fresh of
                 Inl err \<Rightarrow> Inl (ErrBillLedger err) | Inr plan \<Rightarrow> Inr (Some plan)))
      else Inr None)"
  have valid: "BillValidate nxt = None"
    using assms cur by (auto simp: BillEdited_def nxt_def Let_def split: option.splits if_splits)
  have card: "BlOrigin cur = OriginCardStatement \<Longrightarrow> BlAmount nxt = BlAmount cur \<and> BlCategoryID nxt = BlCategoryID cur"
    using assms cur by (auto simp: BillEdited_def nxt_def Let_def split: option.splits if_splits)
  obtain plan where plan: "plan_of = Inr plan" and rest: "(if nxt = cur then Inr (cur, st)
      else let txID = map_option PlTxID plan;
               items = (case plan of None \<Rightarrow> [] | Some p \<Rightarrow> map Led (PlItems p)) @
                       [UpdBill i (forecastGuard cur) (edit_set cur nxt txID)]
        in (case BillWrite items st of
              Inl err \<Rightarrow> Inl (billCancelError err)
            | Inr st' \<Rightarrow> Inr (case txID of None \<Rightarrow> nxt | Some i \<Rightarrow> append_tx i nxt, st'))) = Inr (b', st')"
    using assms cur unfolding BillEdited_def plan_of_def nxt_def Let_def
    by (simp split: option.splits if_split_asm sum.splits)
  show thesis
  proof (cases "nxt = cur")
    case True
    then show ?thesis using rest that(1) [OF cur] by simp
  next
    case False
    show ?thesis
    proof (cases plan)
      case None
      then have "BlAmount nxt = BlAmount cur" "BlCategoryID nxt = BlCategoryID cur"
        using plan by (auto simp: plan_of_def split: if_splits sum.splits)
      moreover have "BillWrite [UpdBill i (forecastGuard cur) (edit_set cur nxt None)] st = Inr st'"
        using rest False None by (auto split: sum.splits)
      ultimately show ?thesis using that(2) [OF cur] by (simp add: nxt_def)
    next
      case (Some p)
      then have ch: "BlAmount nxt \<noteq> BlAmount cur \<or> BlCategoryID nxt \<noteq> BlCategoryID cur"
        and "\<exists>tx. AdjustBill the_sys (Facts cur) (Facts nxt) (BlCompetence cur) = Inr tx \<and> planPost sp tx (billMeta meta nxt) fresh = Inr p"
        using plan by (auto simp: plan_of_def split: if_splits sum.splits)
      moreover have "BillWrite (map Led (PlItems p) @ [UpdBill i (forecastGuard cur) (edit_set cur nxt (Some (PlTxID p)))]) st = Inr st'"
        using rest False Some by (auto simp: Let_def split: sum.splits)
      ultimately show ?thesis using that(3) [OF cur] card valid unfolding nxt_def by blast
    qed
  qed
qed


lemma forecast_net: "bill_ok led b \<Longrightarrow> BlStatus b = BillForecast \<Longrightarrow> ids_net led (BlTransactionIDs b) a = base b a"
  by (simp add: bill_ok_def)

lemma edit_inv:
  assumes "BillEdited sp i e meta fresh read st = Inr (b', st')" and inv: "bills_inv st seen" and rd: "reads_from seen read"
  shows "bills_inv st' (seen \<union> versions st')"
  using assms(1)
proof (cases rule: edit_cases)
  case (1 cur)
  have "\<exists>r. BsBills st (BlID b) = Some r \<and> version_ok (RwBill r) b" if "b \<in> versions st" for b
  proof -
    from that obtain j r where r: "BsBills st j = Some r" "RwBill r = b" by (auto simp: versions_def)
    then show ?thesis using row_okD(2) [OF inv r(1)] version_refl by auto
  qed
  then show ?thesis using inv 1 by (auto simp: bills_inv_def)
next
  case (2 cur)
  obtain row where row: "BsBills st i = Some row" "version_ok (RwBill row) cur" and id: "BlID cur = i"
    by (rule read_version [OF inv rd 2(1)])
  define c where "c = RwBill row"
  define r' where "r' = edit_set cur (edited e cur) None row"
  have g: "forecastGuard cur row" and st': "st' = st\<lparr>BsBills := (BsBills st)(i \<mapsto> r')\<rparr>"
    using 2(4) row(1) by (auto simp: BillWrite_def r'_def split: if_splits)
  have st: "BlStatus c = BillForecast" "length (BlTransactionIDs c) = length (BlTransactionIDs cur)"
    "BlAccountID c = BlAccountID cur" "BlDue c = BlDue cur"
    using g by (simp_all add: forecastGuard_def c_def)
  note v = version_equal [OF row(2) [folded c_def] st(2)]
  note ok = row_okD [OF inv row(1), folded c_def]
  note ed = edit_bill [OF c_def [symmetric] st(3,4) v(2,3) [symmetric] st(1) _ ok(3), of "edited e cur" None, folded r'_def]
  have same: "BlAmount (RwBill r') = BlAmount c" "BlCategoryID (RwBill r') = BlCategoryID c" "BlTransactionIDs (RwBill r') = BlTransactionIDs c"
    "same_bill (RwBill r') c" "BlStatus (RwBill r') = BillForecast" "RwOpen r' = fst (sparseKeys (RwBill r'))"
    using ed v id ok(2) 2(2,3) by simp_all
  have "base (RwBill r') a = base c a" for a by (rule base_cong) (use same in \<open>simp_all add: same_bill_def\<close>)
  then have "bill_ok (BsLedger st) (RwBill r')"
    using ok(1) st(1) same by (simp add: bill_ok_def reversal_last_def same_bill_def)
  then have "row_ok (BsLedger st) i r'" using same ok(2) by (simp add: row_ok_def same_bill_def)
  moreover have "version_ok (RwBill r') x" if "version_ok (RwBill row) x" for x
    by (rule version_same [OF that]) (use st same in \<open>simp_all flip: c_def\<close>)
  ultimately show ?thesis
    using inv row(1) by (intro update_inv [of st seen i row "BsLedger st" r']) (simp_all add: st' bills_inv_def)
next
  case (3 cur tx plan)
  obtain row where row: "BsBills st i = Some row" "version_ok (RwBill row) cur" and id: "BlID cur = i"
    by (rule read_version [OF inv rd 3(1)])
  define c where "c = RwBill row"
  define nxt where "nxt = edited e cur"
  define r' where "r' = edit_set cur nxt (Some (PlTxID plan)) row"
  have led: "ledger_inv (BsLedger st)" using inv by (simp add: bills_inv_def)
  obtain led' where pst: "posted_in (BsLedger st) led' (PlTxID plan) tx" and g: "forecastGuard cur row"
    and st': "st' = st\<lparr>BsLedger := led', BsBills := (BsBills st)(i \<mapsto> r')\<rparr>"
    by (rule plan_commit [OF 3(5,6) led AdjustBill_adjusts [OF 3(3)]]) (simp add: row r'_def nxt_def)
  have st: "BlStatus c = BillForecast" "length (BlTransactionIDs c) = length (BlTransactionIDs cur)"
    "BlAccountID c = BlAccountID cur" "BlDue c = BlDue cur"
    using g by (simp_all add: forecastGuard_def c_def)
  note v = version_equal [OF row(2) [folded c_def] st(2)]
  note ok = row_okD [OF inv row(1), folded c_def]
  note ed = edit_bill [OF c_def [symmetric] st(3,4) v(2,3) [symmetric] st(1) _ ok(3), of nxt "Some (PlTxID plan)", folded r'_def]
  have new: "BlAmount (RwBill r') = BlAmount nxt" "BlCategoryID (RwBill r') = BlCategoryID nxt"
    "BlTransactionIDs (RwBill r') = BlTransactionIDs c @ [PlTxID plan]"
    "same_bill (RwBill r') c" "BlStatus (RwBill r') = BillForecast" "RwOpen r' = fst (sparseKeys (RwBill r'))"
    using ed v id ok(2) by (simp_all add: nxt_def)
  obtain w n where wn: "RecognizeBill the_sys (Facts cur) (BlCompetence cur) = Inr w" "RecognizeBill the_sys (Facts nxt) (BlCompetence cur) = Inr n"
    using 3(3) by (auto simp: AdjustBill_def nxt_def split: sum.splits)
  have eff: "effect tx a = recognised (Facts nxt) a - recognised (Facts cur) a" for a
    using AdjustBill_effect [OF wn 3(3) [folded nxt_def]] recognised_tx [OF wn(1)] recognised_tx [OF wn(2)] by simp
  note net = net_posted [OF pst led ok(4)]
  have nc: "BlOrigin c \<noteq> OriginCardStatement" using 3(2) v by simp
  have "base c a = base cur a" "base (RwBill r') a = base nxt a" for a
    by (rule base_cong; use v new in \<open>simp add: same_bill_def nxt_def\<close>)+
  then have b: "base c a = recognised (Facts cur) a" "base (RwBill r') a = recognised (Facts nxt) a" for a
    using 3(2) by (simp_all add: base_def nxt_def)
  have "ids_net led' (BlTransactionIDs (RwBill r')) a = base (RwBill r') a" for a
    using net(2) [of a] forecast_net [OF ok(1) st(1), of a] by (simp only: new(3) eff b)
  then have "bill_ok led' (RwBill r')"
    using net(3) new nc valid_amount [OF 3(4) [folded nxt_def]] by (simp add: bill_ok_def same_bill_def)
  then show ?thesis
    using new st(1) by (intro append_inv [OF inv row(1) pst, of r' "RwBill r'"]) (simp_all add: st' flip: c_def)
qed

lemma create_inv:
  assumes rec: "RecognizeBill the_sys (Facts b) (BlCompetence b) = Inr tx" and plan: "planPost sp tx meta fresh = Inr plan"
    and w: "BillWrite (map Led (PlItems plan) @ PutBill (newBillItem (b\<lparr>BlTransactionIDs := [PlTxID plan]\<rparr>)) # extra) st = Inr st'"
    and extra: "\<And>x s. x \<in> set extra \<Longrightarrow> BsBills (bill_write x s) = BsBills s \<and> BsLedger (bill_write x s) = BsLedger s"
    and inv: "bills_inv st seen" and b: "BlStatus b = BillForecast" "BlOrigin b \<noteq> OriginCardStatement" "BillValidate b = None"
  shows "bills_inv st' (seen \<union> versions st')"
proof -
  define b' where "b' = b\<lparr>BlTransactionIDs := [PlTxID plan]\<rparr>"
  have led: "ledger_inv (BsLedger st)" using inv by (simp add: bills_inv_def)
  obtain led' where pst: "posted_in (BsLedger st) led' (PlTxID plan) tx"
    and new: "BsBills st (BlID b) = None" and st': "st' = fold bill_write (PutBill (newBillItem b') # extra) (st\<lparr>BsLedger := led'\<rparr>)"
    by (rule plan_commit [OF plan w led RecognizeBill_adjusts [OF rec]]) (simp add: newBillItem_def b'_def)
  have fold: "BsBills (fold bill_write extra s) = BsBills s \<and> BsLedger (fold bill_write extra s) = BsLedger s" for s
    using extra by (induction extra arbitrary: s) simp_all
  have "ids_net led' [PlTxID plan] a = recognised (Facts b) a" for a
    using net_posted(2) [OF pst led, of "[]" a] recognised_tx [OF rec] by simp
  moreover have "base b' a = recognised (Facts b) a" for a using b(2) by (simp add: base_def b'_def Facts_def)
  ultimately have "bill_ok led' b'"
    using posted_inD [OF pst] b valid_amount [OF b(3)] by (simp add: bill_ok_def b'_def)
  then have "row_ok led' (BlID b) (newBillItem b')" by (simp add: row_ok_def newBillItem_def b'_def)
  then show ?thesis
    using posted_inD [OF pst] new fold inv
    by (intro insert_inv [of st seen "BlID b" led' "newBillItem b'"]) (simp_all add: st' newBillItem_def b'_def)
qed


text \<open>A write that touches neither bills nor books.\<close>

lemma same_rows_inv:
  assumes "BsBills st' = BsBills st \<and> BsLedger st' = BsLedger st" "bills_inv st seen"
  shows "bills_inv st' (seen \<union> versions st')"
proof -
  have "\<exists>r. BsBills st (BlID b) = Some r \<and> version_ok (RwBill r) b" if "b \<in> versions st" for b
  proof -
    from that obtain j r where r: "BsBills st j = Some r" "RwBill r = b" by (auto simp: versions_def)
    then show ?thesis using row_okD(2) [OF assms(2) r(1)] version_refl by auto
  qed
  moreover have "versions st' = versions st" using assms(1) by (simp add: versions_def)
  ultimately show ?thesis using assms by (auto simp: bills_inv_def)
qed

lemma credit_inv:
  assumes op: "recordInvoiceCreditOnce derive_id sp invoiceID noteID amount date meta read st = (r, st')"
    and inv: "bills_inv st seen" and rd: "reads_from seen read"
  shows "bills_inv st' (seen \<union> versions st')"
proof (cases "st' = st")
  case True
  then show ?thesis using inv by (intro same_rows_inv) simp_all
next
  case False
  define i where "i = derive_id ''billing-invoice'' invoiceID"
  obtain b where b: "read i = Some b" using op False by (auto simp: recordInvoiceCreditOnce_def Let_def i_def split: option.splits)
  obtain row where row: "BsBills st i = Some row" "version_ok (RwBill row) b" by (rule read_version [OF inv rd b])
  define cnd :: "bill_row \<Rightarrow> bool" where "cnd = (\<lambda>row. BlStatus (RwBill row) = BillPaid \<and> BlCredited (RwBill row) = BlCredited b)"
  define cr :: "Bill \<Rightarrow> Bill" where "cr = (\<lambda>r. r\<lparr>BlCredited := wrap64 (BlCredited b + amount)\<rparr>)"
  obtain tx plan meta' where tx: "CreditBill (Facts b) amount date = Inr tx" and plan: "planPost sp tx meta' '''' = Inr plan"
    and w: "BillWrite (map Led (PlItems plan) @ [UpdBill i cnd (upd_bill cr)]) st = Inr st'"
    using op b False
    by (auto simp: recordInvoiceCreditOnce_def Let_def i_def cnd_def cr_def split: if_splits sum.splits)
  have led: "ledger_inv (BsLedger st)" using inv by (simp add: bills_inv_def)
  define r' where "r' = upd_bill cr row"
  obtain led' where pst: "posted_in (BsLedger st) led' (PlTxID plan) tx" and g: "cnd row"
    and st': "st' = st\<lparr>BsLedger := led', BsBills := (BsBills st)(i \<mapsto> r')\<rparr>"
    by (rule plan_commit [OF plan w led CreditBill_adjusts [OF tx]]) (simp add: row r'_def)
  define c where "c = RwBill row"
  have p: "BlStatus c = BillPaid" using g by (simp add: cnd_def c_def)
  have r': "RwBill r' = cr c" "RwOpen r' = RwOpen row" by (simp_all add: r'_def upd_bill_def c_def)
  have same: "BlTransactionIDs (cr c) = BlTransactionIDs c" "same_bill (cr c) c" "BlStatus (cr c) = BlStatus c" "BlAmount (cr c) = BlAmount c"
    "BlCategoryID (cr c) = BlCategoryID c" "BlDue (cr c) = BlDue c" "BlAccountID (cr c) = BlAccountID c" "Facts (cr c) = Facts c"
    by (simp_all add: cr_def same_bill_def Facts_def)
  note ok = row_okD [OF inv row(1), folded c_def]
  have "bill_ok led' c"
    using posted_inD [OF pst] led by (intro bill_ok_grows [OF _ _ _ _ ok(1)] ledger_inv_distinct) simp_all
  moreover have "base (cr c) a = base c a" for a by (rule base_cong) (use same in \<open>simp_all add: same_bill_def\<close>)
  ultimately have "bill_ok led' (cr c)" using same p by (simp add: bill_ok_def settled_by_def)
  then have "row_ok led' i r'" using ok same p by (simp add: row_ok_def r' same_bill_def sparseKeys_def)
  moreover have "version_ok (RwBill r') x" if "version_ok (RwBill row) x" for x
    by (rule version_same [OF that]) (use same in \<open>simp_all add: r' flip: c_def\<close>)
  ultimately show ?thesis
    using posted_inD [OF pst] row(1) inv by (intro update_inv [of st seen i row led' r']) (simp_all add: st')
qed

subsection \<open>The states bills reach\<close>

text \<open>
  A bill is made by the API, the importer (any origin but a card statement), a recurrence or the
  close of a card statement; a settlement may also put the cash into a bank account
  (\<open>planSettleInto\<close>).
\<close>

inductive bill_step :: "Bill set \<Rightarrow> bill_store \<Rightarrow> bill_store \<Rightarrow> bool" for seen where
  create: "BillCreate derive_id sp b meta freshBill freshTx reread st = Inr (b', st') \<Longrightarrow> BlOrigin b \<noteq> OriginCardStatement \<Longrightarrow>
    st' \<noteq> st \<Longrightarrow> bill_step seen st st'"
| occurrence: "CreateFromOccurrence sp d rid meta freshBill freshTx reread st = Inr (True, b', st') \<Longrightarrow> bill_step seen st st'"
| confirm: "ConfirmExpectedOccurrence derive_id sp p amount meta freshBill freshTx reread st = Inr (True, b', st') \<Longrightarrow>
    bill_step seen st st'"
| pend: "CreatePendingOccurrence sp rec nominal due pend st = Inr (made, st') \<Longrightarrow> bill_step seen st st'"
| skip: "SkipPendingOccurrence sp rid nominal pend locks st = Inr (made, st') \<Longrightarrow> bill_step seen st st'"
| statement: "statementBillItem b = Inr item \<Longrightarrow> BlOrigin b = OriginCardStatement \<Longrightarrow> BlStatus b = BillForecast \<Longrightarrow>
    BlTransactionIDs b = [] \<Longrightarrow> BillWrite [item] st = Inr st' \<Longrightarrow> bill_step seen st st'"
| settle: "BillSettle sp i paid dc date meta fresh read read2 reread st = Inr (b', st') \<Longrightarrow> reads_from seen read \<Longrightarrow>
    reads_from seen read2 \<Longrightarrow> in64 paid \<Longrightarrow> bill_step seen st st'"
| settle_into: "planSettleInto sp i paid acct credit date meta fresh read st = Inr p \<Longrightarrow> reads_from seen read \<Longrightarrow>
    in64 paid \<Longrightarrow> BillWrite (SpItems p) st = Inr st' \<Longrightarrow> bill_step seen st st'"
| cancel: "BillCancel sp i date meta fresh read st = Inr (b', st') \<Longrightarrow> reads_from seen read \<Longrightarrow> bill_step seen st st'"
| restore: "RestoreCancelled sp i date meta fresh read st = Inr (b', st') \<Longrightarrow> reads_from seen read \<Longrightarrow> bill_step seen st st'"
| edit: "BillEdited sp i e meta fresh read st = Inr (b', st') \<Longrightarrow> reads_from seen read \<Longrightarrow> bill_step seen st st'"
| unsettle: "Unsettle sp i date meta fresh read st = Inr (b', st') \<Longrightarrow> reads_from seen read \<Longrightarrow> bill_step seen st st'"
| credit: "recordInvoiceCreditOnce derive_id sp invoiceID noteID amount date meta read st = (r, st') \<Longrightarrow> reads_from seen read \<Longrightarrow>
    bill_step seen st st'"

inductive bills_reachable :: "bill_store \<Rightarrow> Bill set \<Rightarrow> bool" where
  start: "bills_reachable \<lparr>BsLedger = EnsureSpace, BsBills = Map.empty, BsLocks = Map.empty, BsRecurrences = recs,
    BsPending = Map.empty\<rparr> {}"
| ledger: "bills_reachable st seen \<Longrightarrow> ledger_step (BsLedger st) led \<Longrightarrow> bills_reachable (st\<lparr>BsLedger := led\<rparr>) seen"
| recurrences: "bills_reachable st seen \<Longrightarrow> bills_reachable (st\<lparr>BsRecurrences := recs\<rparr>) seen"
| step: "bills_reachable st seen \<Longrightarrow> bill_step seen st st' \<Longrightarrow> bills_reachable st' (seen \<union> versions st')"

lemma create_guards_inv:
  assumes "createWithGuards sp b lock check meta fresh reread extra st = Inr (b', True, st')"
    and "extra = [] \<or> (\<exists>r d. extra = [DelPending r d])"
    and "lock = None \<or> (\<exists>r d x. lock = Some (PutLock r d x))" "check = None \<or> (\<exists>r c. check = Some (CheckRecurrence r c))"
    and "bills_inv st seen" "BlStatus b = BillForecast" "BlOrigin b \<noteq> OriginCardStatement"
    "BillValidate b = None"
  shows "bills_inv st' (seen \<union> versions st')"
proof -
  obtain tx plan where r: "RecognizeBill the_sys (Facts b) (BlCompetence b) = Inr tx" and p: "planPost sp tx (billMeta meta b) fresh = Inr plan"
    and w: "BillWrite (map Led (PlItems plan) @ PutBill (newBillItem (b\<lparr>BlTransactionIDs := [PlTxID plan]\<rparr>)) #
      ((case lock of None \<Rightarrow> [] | Some l \<Rightarrow> [l]) @ (case check of None \<Rightarrow> [] | Some c \<Rightarrow> [c]) @ extra)) st = Inr st'"
    using assms(1) by (auto simp: createWithGuards_def Let_def split: sum.splits if_splits)
  show ?thesis
    by (rule create_inv [OF r p w _ assms(5-8)]) (use assms(2-4) in auto)
qed

lemma step_inv: "bill_step seen st st' \<Longrightarrow> bills_inv st seen \<Longrightarrow> bills_inv st' (seen \<union> versions st')"
proof (induction rule: bill_step.induct)
  case (create derive_id sp b meta freshBill freshTx reread st b' st')
  define b1 where "b1 = b\<lparr>BlID := (if PmIdempotencyKey meta \<noteq> '''' then derive_id ''bill'' (PmIdempotencyKey meta) else freshBill),
                  BlStatus := BillForecast, BlPaidDate := mk_date 0 0 0, BlTransactionIDs := []\<rparr>"
  obtain created where c: "createWithGuards sp b1 None None meta freshTx reread [] st = Inr (b', created, st')"
    using create.hyps(1) by (auto simp: BillCreate_def Let_def b1_def split: option.splits sum.splits)
  have "created = True" using c create.hyps(3)
    by (auto simp: createWithGuards_def Let_def split: sum.splits if_splits)
  with c have "createWithGuards sp b1 None None meta freshTx reread [] st = Inr (b', True, st')" by simp
  moreover have "BillValidate b1 = None"
    using create.hyps(1) by (auto simp: BillCreate_def Let_def b1_def split: option.splits)
  ultimately show ?case using create_guards_inv create by (simp add: b1_def)
next
  case (occurrence sp d rid meta freshBill freshTx reread st b' st')
  define b1 where "b1 = (DfBill d)\<lparr>BlID := freshBill, BlStatus := BillForecast, BlPaidDate := mk_date 0 0 0, BlTransactionIDs := [],
                  BlOrigin := OriginRecurrence, BlOriginRef := OccurrenceRef rid (DfNominal d)\<rparr>"
  have "createWithGuards sp b1 (Some (PutLock rid (DfNominal d) (bill_lock (BlID b1)))) (Some (recurrenceUnchanged rid b1)) meta freshTx reread [] st
      = Inr (b', True, st')"
    using occurrence.hyps by (auto simp: CreateFromOccurrence_def Let_def b1_def split: option.splits sum.splits)
  moreover have "BillValidate b1 = None"
    using occurrence.hyps by (auto simp: CreateFromOccurrence_def Let_def b1_def split: option.splits)
  ultimately show ?case
    using create_guards_inv occurrence by (simp add: b1_def recurrenceUnchanged_def)
next
  case (confirm derive_id sp p amount meta freshBill freshTx reread st b' st')
  obtain b1 lck where "createWithGuards sp b1 (Some (PutLock (PoRecurrenceID p) (PoNominal p) lck)) (Some (expectedRecurrenceUnchanged p))
      meta freshTx reread [DelPending (PoRecurrenceID p) (PoNominal p)] st = Inr (b', True, st')"
    "BillValidate b1 = None" "BlStatus b1 = BillForecast" "BlOrigin b1 = OriginRecurrence"
    using confirm.hyps by (auto simp: ConfirmExpectedOccurrence_def Let_def split: option.splits sum.splits if_splits)
  then show ?case using create_guards_inv confirm by (simp add: expectedRecurrenceUnchanged_def)
next
  case (pend sp rec nominal due pend st made st')
  then have "BsBills st' = BsBills st \<and> BsLedger st' = BsLedger st"
    by (auto simp: CreatePendingOccurrence_def BillWrite_def Let_def split: option.splits sum.splits if_splits)
  then show ?case using pend.prems by (rule same_rows_inv)
next
  case (skip sp rid nominal pend locks st made st')
  then have "BsBills st' = BsBills st \<and> BsLedger st' = BsLedger st"
    by (auto simp: SkipPendingOccurrence_def BillWrite_def split: option.splits sum.splits if_splits)
  then show ?case using skip.prems by (rule same_rows_inv)
next
  case (statement b item st st')
  then have item: "item = PutBill (newBillItem b)" by (auto simp: statementBillItem_def split: option.splits)
  then have new: "BsBills st (BlID b) = None" and st': "st' = st\<lparr>BsBills := (BsBills st)(BlID b \<mapsto> newBillItem b)\<rparr>"
    using statement.hyps(5) by (auto simp: BillWrite_def newBillItem_def split: if_splits)
  have valid: "0 < BlAmount b \<and> BlAmount b \<le> MaxLegAmount"
    using statement.hyps(1) valid_amount by (auto simp: statementBillItem_def split: option.splits)
  have "row_ok (BsLedger st) (BlID b) (newBillItem b)"
    using statement.hyps(2-4) valid by (simp add: row_ok_def newBillItem_def bill_ok_def reversal_last_def base_def)
  then show ?case
    using statement.prems new by (intro insert_inv [of st seen "BlID b" "BsLedger st" "newBillItem b"])
      (simp_all add: st' bills_inv_def chart_grows_refl)
next
  case (settle sp i paid dc date meta fresh read read2 reread st b' st')
  obtain b p where b: "read2 i = Some b" and p: "planSettleBill sp b paid dc date meta '''' fresh st = Inr p" "BillWrite (SpItems p) st = Inr st'"
    using settle.hyps(1) by (auto simp: BillSettle_def planSettle_def split: option.splits if_splits sum.splits)
  obtain row where row: "BsBills st i = Some row" "version_ok (RwBill row) b" "BlID b = i"
    by (rule read_version [OF settle.prems settle.hyps(3) b])
  show ?case using settle_inv [OF p settle.prems] row settle.hyps(4) by simp
next
  case (settle_into sp i paid acct credit date meta fresh read st p st')
  obtain b where b: "read i = Some b" and p: "planSettleBill sp b paid '''' date meta acct fresh st = Inr p"
    using settle_into.hyps(1) by (auto simp: planSettleInto_def split: option.splits if_splits)
  obtain row where row: "BsBills st i = Some row" "version_ok (RwBill row) b" "BlID b = i"
    by (rule read_version [OF settle_into.prems settle_into.hyps(2) b])
  show ?case using settle_inv [OF p settle_into.hyps(4) settle_into.prems] row settle_into.hyps(3) by simp
next
  case (cancel sp i date meta fresh read st b' st')
  obtain b items txID where b: "read i = Some b" and p: "cancelItems sp b date meta fresh = Inr (items, txID)" "BillWrite items st = Inr st'"
    using cancel.hyps(1) by (auto simp: BillCancel_def Let_def split: option.splits if_splits sum.splits prod.splits)
  obtain row where row: "BsBills st i = Some row" "version_ok (RwBill row) b" "BlID b = i"
    by (rule read_version [OF cancel.prems cancel.hyps(2) b])
  show ?case using cancel_inv [OF p cancel.prems] row by simp
qed (auto intro: restore_inv edit_inv unsettle_inv credit_inv)

lemma bills_reachable_inv: "bills_reachable st seen \<Longrightarrow> bills_inv st seen"
proof (induction rule: bills_reachable.induct)
  case (start recs)
  show ?case by (simp add: bills_inv_def EnsureSpace_inv chart_grows_refl)
next
  case (ledger st seen led)
  have "ledger_inv led" "set (LsTxs (BsLedger st)) \<subseteq> set (LsTxs led)" "ledger_inv (BsLedger st)"
    using ledger ledger_step_inv ledger_step_grows by (auto simp: bills_inv_def)
  moreover have "chart_grows (BsLedger st) led" "chart_grows EnsureSpace led"
    using ledger ledger_step_chart chart_grows_trans by (auto simp: bills_inv_def)
  ultimately show ?case using ledger.IH row_ok_grows by (auto simp: bills_inv_def)
next
  case (recurrences st seen recs)
  then show ?case by (simp add: bills_inv_def)
next
  case (step st seen st')
  then show ?case using step_inv by blast
qed

end
