(* ===== verification/BillProps.thy ===== *)
theory BillProps
  imports BillsInv
begin

text \<open>
  The properties of bills: their agreement with the ledger in every reachable state, and two
  runs that end where the code's comments say no run ends.
\<close>

subsection \<open>Agreement with the ledger\<close>

lemma settled_effect:
  assumes "SettleBill sys f paid dc d = Inr tx" "in64 paid" "in64 (BfAmount f)" "BfClears f = ''''"
  shows "effect tx a = side f * (on (control sys f) (BfAmount f) a - on (BfAccountID f) paid a + on dc (paid - BfAmount f) a)"
  using SettleBill_effect(1) [OF assms(1-3), of a] assms(4) by simp

text \<open>C3: However the operations on bills interleave, and however stale their reads are, a bill and
  the ledger agree: the transactions a forecast bill lists have moved, account by account, exactly
  its recognition; those of a canceled bill have moved nothing. The last transaction of a paid
  bill is its settlement, of some amount paid; together its transactions have put the bill's
  amount on its category, taken what the settlement paid from its account, and put the
  difference, when there is one, on an income or expense category of the chart that is not the
  system's own, so never on payables or receivables: those hold nothing of a paid bill whose own
  category and account are other accounts. (A card statement's bill is described by its
  purchases.)\<close>

theorem bill_agrees_with_ledger:
  assumes "bills_reachable st seen" "BsBills st i = Some row" "BlOrigin (RwBill row) \<noteq> OriginCardStatement"
  shows "let b = RwBill row; f = Facts b; led = BsLedger st; moved = ids_net led (BlTransactionIDs b) in
    case BlStatus b of
      BillForecast \<Rightarrow> \<forall>a. moved a = side f * (on (BlCategoryID b) (BlAmount b) a - on (control the_sys f) (BlAmount b) a)
    | BillCanceled \<Rightarrow> \<forall>a. moved a = 0
    | BillPaid \<Rightarrow> (\<exists>tx paid dc d.
        lookup_tx led (last (BlTransactionIDs b)) = Some tx \<and> SettleBill the_sys f paid dc d = Inr tx \<and>
        (paid = BlAmount b \<or> is_category led dc \<and> dc \<noteq> control the_sys f) \<and>
        (\<forall>a. moved a = side f * (on (BlCategoryID b) (BlAmount b) a - on (BlAccountID b) paid a + on dc (paid - BlAmount b) a))) \<and>
        (control the_sys f \<notin> {BlCategoryID b, BlAccountID b} \<longrightarrow> moved (control the_sys f) = 0)
    | StatusOther _ \<Rightarrow> False"
proof -
  define b where "b = RwBill row"
  note inv = bills_reachable_inv [OF assms(1)]
  have ok: "bill_ok (BsLedger st) b"
    using row_okD(1) [OF inv assms(2)] by (simp add: b_def)
  have base: "base b a = side (Facts b) * (on (BlCategoryID b) (BlAmount b) a - on (control the_sys (Facts b)) (BlAmount b) a)" for a
    using assms(3) by (simp add: base_def recognised_def flip: b_def) (simp add: Facts_def)
  show ?thesis
  proof (cases "BlStatus b")
    case BillPaid
    then obtain tx paid dc d where tx: "lookup_tx (BsLedger st) (last (BlTransactionIDs b)) = Some tx"
      "SettleBill the_sys (Facts b) paid dc d = Inr tx" "in64 paid" "paid \<noteq> BlAmount b \<longrightarrow> is_category (BsLedger st) dc"
      using ok by (auto simp: bill_ok_def settled_by_def)
    have cat: "paid = BlAmount b \<or> is_category (BsLedger st) dc \<and> dc \<noteq> control the_sys (Facts b)"
      using tx(4) category_not_control inv by (auto simp: bills_inv_def)
    have ne: "BlTransactionIDs b \<noteq> []" using ok BillPaid by (simp add: bill_ok_def)
    have amt: "in64 (BfAmount (Facts b))" "BfAmount (Facts b) = BlAmount b" "BfAccountID (Facts b) = BlAccountID b" "BfClears (Facts b) = ''''"
      using ok assms(3) by (auto simp: bill_ok_def Facts_def in64_def MaxLegAmount_def b_def)
    have net: "ids_net (BsLedger st) (BlTransactionIDs b) a = base b a + effect tx a" for a
      using ids_net_simps(2) [of "BsLedger st" "butlast (BlTransactionIDs b)" "last (BlTransactionIDs b)" a] ne ok BillPaid tx(1)
      by (simp add: bill_ok_def id_effect_def)
    have moved: "ids_net (BsLedger st) (BlTransactionIDs b) a =
        side (Facts b) * (on (BlCategoryID b) (BlAmount b) a - on (BlAccountID b) paid a + on dc (paid - BlAmount b) a)" for a
      using net [of a] settled_effect [OF tx(2,3) amt(1,4), of a] by (simp add: base amt algebra_simps)
    have "ids_net (BsLedger st) (BlTransactionIDs b) (control the_sys (Facts b)) = 0"
      if "control the_sys (Facts b) \<notin> {BlCategoryID b, BlAccountID b}"
      using that cat moved [of "control the_sys (Facts b)"] by (auto simp: on_def)
    then show ?thesis using BillPaid tx(1,2) cat moved unfolding Let_def b_def [symmetric] by (simp only: BillStatus.case) blast
  qed (use ok base in \<open>simp_all add: bill_ok_def Let_def flip: b_def\<close>)
qed

text \<open>C26: The list of open bills is exact: a row carries the open index's key, made of its direction, its
  current due date and its id, if and only if the bill is a forecast.\<close>

theorem open_list_is_exact:
  assumes "bills_reachable st seen" "BsBills st i = Some row"
  shows "RwOpen row = (if BlStatus (RwBill row) = BillForecast
    then Some (BlDirection (RwBill row), BlDue (RwBill row), i) else None)"
  using row_okD [OF bills_reachable_inv [OF assms(1)] assms(2)] by (simp add: sparseKeys_def)

text \<open>C28: Whatever bills and ledger operations ran, the ledger's cached balances and summaries are still
  what its transactions derive: a rebuild reports no drift.\<close>

theorem bill_operations_keep_caches:
  assumes "bills_reachable st seen" "length (LsTxs (BsLedger st)) \<le> 1000000"
    and "Require sp Configure = None" "Require sp Read = None"
  shows "Rebuild accts ks sp app (BsLedger st) = Inr ([], BsLedger st)"
  using bills_reachable_inv [OF assms(1)] no_drift assms(2-4) by (simp add: bills_inv_def)

subsection \<open>A space with a bill\<close>

definition rent_category :: LedgerAccount where
  "rent_category = (sample_cash ''rent'')\<lparr>LaClass := ClassExpense\<rparr>"

definition bill_chart :: ledger_store where
  "bill_chart = snd (''x'', projr (CreateAccount sample_space rent_category sample_chart))"

definition bills0 :: bill_store where
  "bills0 = \<lparr>BsLedger = bill_chart, BsBills = Map.empty, BsLocks = Map.empty, BsRecurrences = Map.empty, BsPending = Map.empty\<rparr>"

definition rent_bill :: "bool \<Rightarrow> BillOrigin \<Rightarrow> Bill" where
  "rent_bill auto origin =
     \<lparr>BlID = '''', BlDirection = Payable, BlAmount = 1000, BlAccountID = ''a'', BlCategoryID = ''rent'', BlDescription = ''Rent'',
      BlCompetence = mk_date 2026 3 1, BlDue = mk_date 2026 3 10, BlPaidDate = mk_date 0 0 0, BlStatus = BillForecast,
      BlOrigin = origin, BlOriginRef = ''ref'', BlAutoSettle = auto, BlPaymentGroup = '''', BlTransactionIDs = [], BlCredited = 0\<rparr>"

lemma bills0_reachable: "bills_reachable bills0 {}"
proof -
  have c: "CreateAccount sample_space rent_category sample_chart = Inr bill_chart"
    using inr_projr [of "CreateAccount sample_space rent_category sample_chart"]
    by (simp add: bill_chart_def) (rule inr_projr, code_simp)
  have e: "bills_reachable \<lparr>BsLedger = led, BsBills = Map.empty, BsLocks = Map.empty, BsRecurrences = Map.empty, BsPending = Map.empty\<rparr> {}"
    if "ledger_reachable led" for led
    using that
  proof (induction rule: ledger_reachable.induct)
    case created
    show ?case by (rule bills_reachable.start)
  next
    case (step st st')
    then show ?case using bills_reachable.ledger by fastforce
  qed
  show ?thesis unfolding bills0_def
    by (rule e) (rule ledger_reachable.step [OF sample_chart_reachable ledger_step.create_account [OF c]])
qed

text \<open>Reading version \<open>b\<close> of bill \<open>b1\<close>.\<close>

definition read_of :: "Bill \<Rightarrow> bill_reads" where
  "read_of b = (\<lambda>i. if i = BlID b then Some b else None)"

lemma read_of_from: "b \<in> seen \<Longrightarrow> reads_from seen (read_of b)"
  by (auto simp: reads_from_def read_of_def split: if_splits)

definition the_bill :: "bill_store \<Rightarrow> Bill" where
  "the_bill st = RwBill (the (BsBills st ''b1''))"

lemma the_bill_version: "BsBills st ''b1'' \<noteq> None \<Longrightarrow> the_bill st \<in> seen \<union> versions st"
  by (force simp: the_bill_def versions_def)


definition edit_nothing :: BillEdit where
  "edit_nothing = \<lparr>EdAmount = None, EdCategoryID = None, EdAccountID = None, EdDescription = None, EdDue = None, EdAutoSettle = None\<rparr>"

definition bills1 :: "(bill_error, Bill option \<times> bill_store) result" where
  "bills1 = BillCreate (\<lambda>k x. x) sample_space (rent_bill True OriginManual) (sample_meta '''') ''b1'' ''t1'' Map.empty bills0"

definition b1 :: "bool \<Rightarrow> Date \<Rightarrow> Bill" where
  "b1 auto due = (rent_bill auto OriginManual)\<lparr>BlID := ''b1'', BlDue := due, BlTransactionIDs := [''t1'']\<rparr>"

definition row1 :: "bool \<Rightarrow> Date \<Rightarrow> (Date \<times> string) option \<Rightarrow> bill_row" where
  "row1 auto due sched = \<lparr>RwBill = b1 auto due, RwOpen = Some (Payable, due, ''b1''), RwSchedule = sched\<rparr>"

definition with_row :: "bill_row \<Rightarrow> bill_store" where
  "with_row r = (snd (projr bills1))\<lparr>BsBills := (BsBills (snd (projr bills1)))(''b1'' \<mapsto> r)\<rparr>"

abbreviation "due1 \<equiv> mk_date 2026 3 10"
abbreviation "due2 \<equiv> mk_date 2026 3 12"

lemma bills1_ok: "\<not> isl bills1" "BsBills (snd (projr bills1)) ''b1'' = Some (row1 True due1 (Some (due1, ''b1'')))"
  by code_simp+

lemma bills1_with_row: "with_row (row1 True due1 (Some (due1, ''b1''))) = snd (projr bills1)"
  using bills1_ok(2) by (simp add: with_row_def fun_upd_idem)

text \<open>An edit that changes neither what is recognised nor the account writes the row alone.\<close>

lemma plain_edit:
  assumes "read i = Some cur" "CanEdit cur" "BlOrigin cur \<noteq> OriginCardStatement" "edited e cur \<noteq> cur"
    and "EdAmount e = None" "EdCategoryID e = None" "EdAccountID e = None" "BillValidate (edited e cur) = None"
    and "Require sp Write = None" "Require sp (Write OR Settle) = None"
    and "BsBills st i = Some row" "forecastGuard cur row"
  shows "BillEdited sp i e meta fresh read st =
    Inr (edited e cur, st\<lparr>BsBills := (BsBills st)(i \<mapsto> edit_set cur (edited e cur) None row)\<rparr>)"
proof -
  have n: "BlAccountID (edited e cur) = BlAccountID cur"
    using assms(7) by (simp add: edited_def opt_or_def)
  have r: "(if P then Require sp (Write OR Settle) else None) = None" for P using assms(10) by simp
  have w: "BillWrite [UpdBill i (forecastGuard cur) (edit_set cur (edited e cur) None)] st =
      Inr (st\<lparr>BsBills := (BsBills st)(i \<mapsto> edit_set cur (edited e cur) None row)\<rparr>)"
    using assms(11,12) by (simp add: BillWrite_def)
  show ?thesis
    using assms(1-4,8,9) n unfolding BillEdited_def r Let_def
    by (simp add: w assms(5,6) opt_or_def)
qed

text \<open>One person switches the automatic settlement off; another, who read the bill before that, moves its due date.\<close>

lemma race_switch_off:
  "BillEdited sample_space ''b1'' (edit_nothing\<lparr>EdAutoSettle := Some False\<rparr>) (sample_meta '''') ''t2'' (read_of (b1 True due1)) (with_row (row1 True due1 (Some (due1, ''b1'')))) =
     Inr (b1 False due1, with_row (row1 False due1 None))"
proof -
  let ?e = "edit_nothing\<lparr>EdAutoSettle := Some False\<rparr>"
  have e: "edited ?e (b1 True due1) = b1 False due1" by (simp add: edited_def edit_nothing_def opt_or_def b1_def rent_bill_def)
  have s: "edit_set (b1 True due1) (b1 False due1) None (row1 True due1 (Some (due1, ''b1''))) = row1 False due1 None"
    by (simp add: edit_set_def Let_def row1_def b1_def rent_bill_def)
  show ?thesis
    by (subst plain_edit [of _ _ "b1 True due1" _ _ _ "row1 True due1 (Some (due1, ''b1''))"])
      (simp_all add: e s with_row_def, code_simp+)
qed

lemma race_move_date:
  "BillEdited sample_space ''b1'' (edit_nothing\<lparr>EdDue := Some due2\<rparr>) (sample_meta '''') ''t3'' (read_of (b1 True due1)) (with_row (row1 False due1 None)) =
     Inr (b1 True due2, with_row (row1 False due2 (Some (due2, ''b1''))))"
proof -
  let ?e = "edit_nothing\<lparr>EdDue := Some due2\<rparr>"
  have e: "edited ?e (b1 True due1) = b1 True due2" by (simp add: edited_def edit_nothing_def opt_or_def b1_def rent_bill_def)
  have s: "edit_set (b1 True due1) (b1 True due2) None (row1 False due1 None) = row1 False due2 (Some (due2, ''b1''))"
    by (simp add: edit_set_def Let_def row1_def b1_def rent_bill_def sparseKeys_def)
  show ?thesis
    by (subst plain_edit [of _ _ "b1 True due1" _ _ _ "row1 False due1 None"])
      (simp_all add: e s with_row_def, code_simp+)
qed


lemma bills1_reachable: "bills_reachable (snd (projr bills1)) (versions (snd (projr bills1)))"
proof -
  have "bills1 = Inr (fst (projr bills1), snd (projr bills1))" using bills1_ok(1) by (cases bills1) simp_all
  have ne: "snd (projr bills1) \<noteq> bills0" using bills1_ok(2) by (auto simp: bills0_def)
  have o: "BlOrigin (rent_bill True OriginManual) \<noteq> OriginCardStatement" by (simp add: rent_bill_def)
  have "bill_step {} bills0 (snd (projr bills1))"
    by (rule bill_step.create [OF trans [OF bills1_def [symmetric] \<open>bills1 = _\<close>] o ne])
  from bills_reachable.step [OF bills0_reachable this] show ?thesis by simp
qed

lemma b1_seen: "b1 True due1 \<in> versions (snd (projr bills1))"
  using bills1_ok(2) by (force simp: versions_def row1_def)

text \<open>C36: A bill whose automatic settlement was switched off can stay on the job's work list and is then
  settled by the job: an edit does not check that the flag is as it was read, so an edit of the
  due date that read the bill before the switch writes the work list's key back, and neither the
  job nor the settlement looks at the flag.\<close>

theorem switched_off_bill_is_settled:
  "\<exists>st seen row. bills_reachable st seen \<and> BsBills st ''b1'' = Some row \<and> \<not> BlAutoSettle (RwBill row) \<and>
     DueForAutoSettle due2 st ''b1'' \<and>
     \<not> isl (AutoSettle_step sample_space (RwBill row) (sample_meta '''') ''t9'' (read_of (RwBill row)) (read_of (RwBill row)) (read_of (RwBill row)) st)"
proof -
  define seen where "seen = versions (snd (projr bills1)) \<union> versions (with_row (row1 False due1 None))"
  have r0: "bills_reachable (with_row (row1 True due1 (Some (due1, ''b1'')))) (versions (snd (projr bills1)))"
    using bills1_reachable by (simp only: bills1_with_row)
  have 1: "bills_reachable (with_row (row1 False due1 None)) seen"
    unfolding seen_def
    by (rule bills_reachable.step [OF r0 bill_step.edit [OF race_switch_off read_of_from [OF b1_seen]]])
  have "b1 True due1 \<in> seen" using b1_seen by (simp add: seen_def)
  then have 2: "bills_reachable (with_row (row1 False due2 (Some (due2, ''b1'')))) (seen \<union> versions (with_row (row1 False due2 (Some (due2, ''b1'')))))"
    by (intro bills_reachable.step [OF 1 bill_step.edit [OF race_move_date read_of_from]])
  have pay: "\<not> isl (AutoSettle_step sample_space (b1 False due2) (sample_meta '''') ''t9'' (read_of (b1 False due2)) (read_of (b1 False due2))
      (read_of (b1 False due2)) (with_row (row1 False due2 (Some (due2, ''b1'')))))"
    by code_simp
  show ?thesis
    by (intro exI conjI) (rule 2, simp add: with_row_def, use pay in \<open>simp_all add: row1_def b1_def rent_bill_def with_row_def DueForAutoSettle_def\<close>)
qed


text \<open>The rent is settled for eleven instead of ten; the difference goes to the rent itself.\<close>

definition settled1 :: "(bill_error, Bill \<times> bill_store) result" where
  "settled1 = BillSettle sample_space ''b1'' 1100 ''rent'' (mk_date 2026 3 11) (sample_meta '''') ''t2''
     (read_of (b1 True due1)) (read_of (b1 True due1)) (read_of (b1 True due1)) (snd (projr bills1))"

definition paid1 :: Bill where
  "paid1 = (b1 True due1)\<lparr>BlStatus := BillPaid, BlPaidDate := mk_date 2026 3 11, BlTransactionIDs := [''t1'', ''t2'']\<rparr>"

lemma settled1_ok: "\<not> isl settled1"
  "BsBills (snd (projr settled1)) ''b1'' = Some \<lparr>RwBill = paid1, RwOpen = None, RwSchedule = None\<rparr>"
  by code_simp+

lemma settled1_reachable: "\<exists>seen. bills_reachable (snd (projr settled1)) seen"
proof -
  have "settled1 = Inr (fst (projr settled1), snd (projr settled1))" using settled1_ok(1) by (cases settled1) simp_all
  note s = trans [OF settled1_def [symmetric] this]
  have "in64 1100" by (simp add: in64_def)
  from bills_reachable.step [OF bills1_reachable bill_step.settle [OF s read_of_from read_of_from this]]
  show ?thesis using b1_seen by blast
qed

theorem bill_agrees_with_ledger_witness:
  "ids_net (BsLedger (snd (projr bills1))) [''t1''] ''rent'' = 1000 \<and> ids_net (BsLedger (snd (projr bills1))) [''t1''] ''sys-payables'' = - 1000 \<and>
   ids_net (BsLedger (snd (projr settled1))) [''t1'', ''t2''] ''sys-payables'' = 0"
proof -
  have o: "BlOrigin (RwBill (row1 True due1 (Some (due1, ''b1'')))) \<noteq> OriginCardStatement"
    "BlOrigin (RwBill \<lparr>RwBill = paid1, RwOpen = None, RwSchedule = None\<rparr>) \<noteq> OriginCardStatement"
    by (simp_all add: row1_def paid1_def b1_def rent_bill_def)
  obtain seen where s: "bills_reachable (snd (projr settled1)) seen" using settled1_reachable by blast
  have "ids_net (BsLedger (snd (projr settled1))) [''t1'', ''t2''] ''sys-payables'' = 0"
    using bill_agrees_with_ledger [OF s settled1_ok(2) o(2)]
    by (simp add: Let_def paid1_def b1_def rent_bill_def Facts_def control_def)
  then show ?thesis
    using bill_agrees_with_ledger [OF bills1_reachable bills1_ok(2) o(1)]
    by (simp add: Let_def row1_def b1_def rent_bill_def Facts_def side_def control_def on_def)
qed

theorem open_list_is_exact_witness: "RwOpen (the (BsBills (snd (projr bills1)) ''b1'')) = Some (Payable, due1, ''b1'')"
  using open_list_is_exact [OF bills1_reachable bills1_ok(2)] bills1_ok(2) by (simp add: row1_def b1_def rent_bill_def)

theorem bill_operations_keep_caches_witness:
  "Rebuild [''rent''] [] sample_space True (BsLedger (snd (projr bills1))) = Inr ([], BsLedger (snd (projr bills1)))"
proof -
  have "length (LsTxs (BsLedger (snd (projr bills1)))) = 1" by code_simp
  then show ?thesis using bill_operations_keep_caches [OF bills1_reachable _ sample_space_may(1,2)] by simp
qed

subsection \<open>One bill per occurrence\<close>

text \<open>Anything that can happen next.\<close>

definition bills_next :: "bill_store \<Rightarrow> bill_store \<Rightarrow> bool" where
  "bills_next st st' \<longleftrightarrow> (\<exists>led. ledger_step (BsLedger st) led \<and> st' = st\<lparr>BsLedger := led\<rparr>) \<or>
     (\<exists>recs. st' = st\<lparr>BsRecurrences := recs\<rparr>) \<or> (\<exists>seen. bill_step seen st st')"

lemma BillWrite_locks: "BillWrite items st = Inr st' \<Longrightarrow> BsLocks st k = Some x \<Longrightarrow> BsLocks st' k = Some x"
proof -
  have "BsLocks (fold bill_write items s) k = BsLocks s k" if "\<forall>i \<in> set items. \<forall>r d b. i = PutLock r d b \<longrightarrow> (r, d) \<noteq> k" for s
    using that
  proof (induction items arbitrary: s)
    case (Cons i items)
    then show ?case by (cases i) auto
  qed simp
  moreover assume "BillWrite items st = Inr st'" "BsLocks st k = Some x"
  ultimately show ?thesis by (fastforce simp: BillWrite_def list_all_iff split: if_splits)
qed

lemma createWithGuards_cases:
  assumes "createWithGuards sp b lock check meta fresh reread extra st = Inr (b', c, st')"
  shows "c \<and> (\<exists>items. BillWrite items st = Inr st' \<and> (\<forall>l. lock = Some l \<longrightarrow> l \<in> set items)) \<or> \<not> c \<and> st' = st"
proof -
  obtain tx plan where p: "RecognizeBill the_sys (Facts b) (BlCompetence b) = Inr tx" "planPost sp tx (billMeta meta b) fresh = Inr plan"
    using assms by (auto simp: createWithGuards_def split: sum.splits)
  define items where "items = map Led (PlItems plan) @ PutBill (newBillItem (b\<lparr>BlTransactionIDs := [PlTxID plan]\<rparr>)) #
      ((case lock of None \<Rightarrow> [] | Some l \<Rightarrow> [l]) @ (case check of None \<Rightarrow> [] | Some c \<Rightarrow> [c]) @ extra)"
  show ?thesis
  proof (cases "BillWrite items st")
    case (Inl err)
    then show ?thesis using assms p by (auto simp: createWithGuards_def Let_def items_def split: if_splits)
  next
    case (Inr s)
    then have "c \<and> st' = s" using assms p by (auto simp: createWithGuards_def Let_def items_def)
    moreover have "\<forall>l. lock = Some l \<longrightarrow> l \<in> set items" by (simp add: items_def)
    ultimately show ?thesis using Inr by blast
  qed
qed

lemma BillWrite_unit: "\<exists>items. BillWrite items st = Inr st' \<Longrightarrow> BsLocks st k = Some x \<Longrightarrow> BsLocks st' k = Some x"
  using BillWrite_locks by blast

text \<open>Every step is a write, or nothing.\<close>

lemma step_writes: "bill_step seen st st' \<Longrightarrow> st' = st \<or> (\<exists>items. BillWrite items st = Inr st')"
proof (induction rule: bill_step.induct)
  case (create derive_id sp b meta freshBill freshTx reread st b' st')
  obtain b1 c where "createWithGuards sp b1 None None meta freshTx reread [] st = Inr (b', c, st')"
    using create.hyps(1) by (auto simp: BillCreate_def Let_def split: option.splits sum.splits)
  from createWithGuards_cases [OF this] show ?case by blast
next
  case (occurrence sp d rid meta freshBill freshTx reread st b' st')
  obtain b1 l k where "createWithGuards sp b1 l k meta freshTx reread [] st = Inr (b', True, st')"
    using occurrence.hyps by (auto simp: CreateFromOccurrence_def Let_def split: option.splits sum.splits)
  from createWithGuards_cases [OF this] show ?case by blast
next
  case (confirm derive_id sp p amount meta freshBill freshTx reread st b' st')
  obtain b1 l k x where "createWithGuards sp b1 l k meta freshTx reread x st = Inr (b', True, st')"
    using confirm.hyps by (auto simp: ConfirmExpectedOccurrence_def Let_def split: option.splits sum.splits if_splits)
  from createWithGuards_cases [OF this] show ?case by blast
next
  case (pend sp rec nominal due pend st made st')
  then show ?case by (auto simp: CreatePendingOccurrence_def Let_def split: option.splits sum.splits if_splits)
next
  case (skip sp rid nominal pend locks st made st')
  then show ?case by (auto simp: SkipPendingOccurrence_def split: option.splits sum.splits if_splits)
next
  case (credit derive_id sp invoiceID noteID amount date meta read st r st')
  then show ?case
    by (auto simp: recordInvoiceCreditOnce_def Let_def split: option.splits if_splits sum.splits)
next
  case (edit sp i e meta fresh read st b' st')
  from edit.hyps(1) show ?case by (cases rule: edit_cases) blast+
next
  case (settle sp i paid dc date meta fresh read read2 reread st b' st')
  then show ?case by (auto simp: BillSettle_def split: option.splits if_split_asm sum.splits)
next
  case (cancel sp i date meta fresh read st b' st')
  then show ?case by (auto simp: BillCancel_def Let_def split: option.splits if_split_asm sum.splits prod.splits)
next
  case (restore sp i date meta fresh read st b' st')
  then show ?case by (auto simp: RestoreCancelled_def Let_def split: option.splits if_split_asm sum.splits)
next
  case (unsettle sp i date meta fresh read st b' st')
  then show ?case by (auto simp: Unsettle_def Let_def split: option.splits if_split_asm sum.splits)
qed blast+

lemma next_locks: "bills_next\<^sup>*\<^sup>* st st' \<Longrightarrow> BsLocks st k = Some x \<Longrightarrow> BsLocks st' k = Some x"
proof (induction rule: rtranclp_induct)
  case (step s t)
  then have s: "BsLocks s k = Some x" by simp
  from step.hyps(2) consider (led) led where "t = s\<lparr>BsLedger := led\<rparr>" | (recs) recs where "t = s\<lparr>BsRecurrences := recs\<rparr>"
    | (op) seen where "bill_step seen s t"
    unfolding bills_next_def by blast
  then show ?case
  proof cases
    case op
    then show ?thesis using step_writes [OF op] BillWrite_locks s by blast
  qed (simp_all add: s)
qed simp


text \<open>C13: Once the job has made the bill of an occurrence, no later run makes another for it, whatever
  happened in between and whatever recurrence, draft or idempotency data the later run holds: a
  run that is answered at all answers that nothing was created, and writes nothing.\<close>

theorem one_bill_per_occurrence:
  assumes "CreateFromOccurrence sp d rid meta fb ft reread st = Inr (True, b, st1)" "bills_next\<^sup>*\<^sup>* st1 st2"
    and "CreateFromOccurrence sp' d' rid meta' fb' ft' reread' st2 = Inr (c, b', st3)" "DfNominal d' = DfNominal d"
  shows "\<not> c \<and> st3 = st2"
proof -
  have run: "\<exists>b x chk. createWithGuards sp b (Some (PutLock rid (DfNominal d) x)) chk meta ft rr [] st = Inr (b', c, st')"
    if "CreateFromOccurrence sp d rid meta fb ft rr st = Inr (c, b', st')" for sp d meta fb ft rr st c b' st'
    using that by (auto simp: CreateFromOccurrence_def Let_def split: option.splits sum.splits)
  obtain b1 x chk where 1: "createWithGuards sp b1 (Some (PutLock rid (DfNominal d) x)) chk meta ft reread [] st = Inr (b, True, st1)"
    using run [OF assms(1)] by blast
  then obtain items where items: "BillWrite items st = Inr st1" "PutLock rid (DfNominal d) x \<in> set items"
    using createWithGuards_cases [OF 1] by blast
  have "BsLocks st1 (rid, DfNominal d) \<noteq> None"
  proof -
    have w: "BsLocks (fold bill_write xs s) k \<noteq> None" if "(\<exists>r d y. PutLock r d y \<in> set xs \<and> (r, d) = k) \<or> BsLocks s k \<noteq> None" for xs s k
      using that
    proof (induction xs arbitrary: s)
      case (Cons i xs)
      show ?case using Cons.IH [of "bill_write i s"] Cons.prems by (cases i) auto
    qed simp
    have "st1 = fold bill_write items st" using items(1) by (simp add: BillWrite_def split: if_splits)
    then show ?thesis using w [of items "(rid, DfNominal d)" st] items(2) by blast
  qed
  then have locked: "BsLocks st2 (rid, DfNominal d) \<noteq> None" using next_locks [OF assms(2)] by blast
  obtain b2 x2 chk2 where 2: "createWithGuards sp' b2 (Some (PutLock rid (DfNominal d) x2)) chk2 meta' ft' reread' [] st2 = Inr (b', c, st3)"
    using run [OF assms(3)] assms(4) by metis
  have "\<not> c"
  proof
    assume c
    then obtain items2 where "BillWrite items2 st2 = Inr st3" "PutLock rid (DfNominal d) x2 \<in> set items2"
      using createWithGuards_cases [OF 2] by blast
    then show False using locked by (auto simp: BillWrite_def list_all_iff split: if_splits)
  qed
  then show ?thesis using createWithGuards_cases [OF 2] by blast
qed

definition rent_draft :: Draft where
  "rent_draft = \<lparr>DfNominal = mk_date 2026 3 10, DfBill = rent_bill False OriginManual\<rparr>"

definition bills0r :: bill_store where
  "bills0r = bills0\<lparr>BsRecurrences := [''r1'' \<mapsto> \<lparr>RrRec = rent_rule\<lparr>RcAmount := 1000\<rparr>, RrCursor = mk_date 0 0 0, RrSchedule = None\<rparr>]\<rparr>"

definition job_run :: "string \<Rightarrow> string \<Rightarrow> bill_store \<Rightarrow> (bill_error, bool \<times> Bill option \<times> bill_store) result" where
  "job_run fb ft st = CreateFromOccurrence sample_space rent_draft ''r1'' (sample_meta '''') fb ft Map.empty st"

text \<open>A run that finds the lock is answered: nothing was created.\<close>

lemma repeated_run:
  assumes r: "RecognizeBill the_sys (Facts b) (BlCompetence b) = Inr tx" "planPost sp tx (billMeta meta b) fresh = Inr plan"
    and l: "BsLocks st (rid, d) \<noteq> None" and c: "bill_cond (CheckRecurrence rid chk) st"
  shows "createWithGuards sp b (Some (PutLock rid d x)) (Some (CheckRecurrence rid chk)) meta fresh rr [] st = Inr (None, False, st)"
proof -
  define items where "items = map Led (PlItems plan) @ [PutBill (newBillItem (b\<lparr>BlTransactionIDs := [PlTxID plan]\<rparr>)), PutLock rid d x, CheckRecurrence rid chk]"
  have fit: "length (PlItems plan) \<le> 27" "distinct (map item_key (PlItems plan))"
    using plan_fits r(2) unfolding planPost_def by blast+
  have "distinct (map bill_key items)"
    using fit(2) led_keys [of "PlItems plan"] by (auto simp: items_def newBillItem_def)
  then have w: "BillWrite items st = Inl (Cancelled (map (\<lambda>i. \<not> bill_cond i st) items))"
    using fit(1) l by (auto simp: BillWrite_def items_def)
  have "failed_at (Cancelled (map (\<lambda>i. \<not> bill_cond i st) items)) (Suc (length (PlItems plan)))"
    "\<not> failed_at (Cancelled (map (\<lambda>i. \<not> bill_cond i st) items)) (Suc (Suc (length (PlItems plan))))"
    using l c by (auto simp: failed_at_def items_def nth_append)
  then show ?thesis using r w by (simp add: createWithGuards_def Let_def items_def)
qed

definition occ_bill :: "string \<Rightarrow> Bill" where
  "occ_bill i = (rent_bill False OriginRecurrence)\<lparr>BlID := i, BlOriginRef := ''r1@2026-03-10''\<rparr>"

definition made :: "string \<Rightarrow> string \<Rightarrow> bill_store \<Rightarrow> (bill_error, Bill option \<times> bool \<times> bill_store) result" where
  "made i t st = createWithGuards sample_space (occ_bill i) (Some (PutLock ''r1'' due1 (bill_lock i))) (Some (recurrenceUnchanged ''r1'' (occ_bill i)))
     (sample_meta '''') t Map.empty [] st"

definition after_run :: bill_store where
  "after_run = snd (snd (projr (made ''b1'' ''t1'' bills0r)))"

lemma occ_bill_valid: "BillValidate (occ_bill ''b1'') = None" "BillValidate (occ_bill ''b2'') = None"
  by code_simp+

lemma job_run_made:
  "BillValidate (occ_bill i) = None \<Longrightarrow> job_run i t st = (case made i t st of Inl err \<Rightarrow> Inl err | Inr (b', c, st') \<Rightarrow> Inr (c, b', st'))"
proof -
  have ref: "OccurrenceRef ''r1'' (DfNominal rent_draft) = ''r1@2026-03-10''" by code_simp
  have b: "(DfBill rent_draft)\<lparr>BlID := i, BlStatus := BillForecast, BlPaidDate := mk_date 0 0 0, BlTransactionIDs := [],
      BlOrigin := OriginRecurrence, BlOriginRef := ''r1@2026-03-10''\<rparr> = occ_bill i"
    by (simp add: rent_draft_def rent_bill_def occ_bill_def)
  have d: "DfNominal rent_draft = due1" "BlID (occ_bill i) = i" by (simp_all add: rent_draft_def occ_bill_def)
  have q: "Require sample_space (if BlAutoSettle (DfBill rent_draft) then Write OR Settle else Write) = None" by code_simp
  assume "BillValidate (occ_bill i) = None"
  then show ?thesis
    unfolding job_run_def CreateFromOccurrence_def Let_def ref b by (simp add: q d made_def)
qed

lemma first_run: "\<not> isl (made ''b1'' ''t1'' bills0r)" "fst (snd (projr (made ''b1'' ''t1'' bills0r)))"
  by code_simp+


lemma after_run_lock: "BsLocks after_run (''r1'', due1) \<noteq> None"
  by code_simp

lemma after_run_recurrence: "bill_cond (recurrenceUnchanged ''r1'' (occ_bill ''b2'')) after_run"
  by code_simp

lemma second_plan: "\<not> isl (RecognizeBill the_sys (Facts (occ_bill ''b2'')) (BlCompetence (occ_bill ''b2'')))"
    "\<not> isl (planPost sample_space (projr (RecognizeBill the_sys (Facts (occ_bill ''b2'')) (BlCompetence (occ_bill ''b2'')))) (billMeta (sample_meta '''') (occ_bill ''b2'')) ''t2'')"
  by code_simp+

lemma second_run: "job_run ''b2'' ''t2'' after_run = Inr (False, None, after_run)"
proof -
  have "made ''b2'' ''t2'' after_run = Inr (None, False, after_run)"
    unfolding made_def recurrenceUnchanged_def
    by (rule repeated_run [OF inr_projr [OF second_plan(1)] inr_projr [OF second_plan(2)] after_run_lock after_run_recurrence [unfolded recurrenceUnchanged_def]])
  then show ?thesis by (simp add: job_run_made [OF occ_bill_valid(2)])
qed

theorem one_bill_per_occurrence_witness:
  "job_run ''b1'' ''t1'' bills0r = Inr (True, fst (projr (made ''b1'' ''t1'' bills0r)), after_run) \<and> \<not> fst (projr (job_run ''b2'' ''t2'' after_run))"
proof -
  have 1: "job_run ''b1'' ''t1'' bills0r = Inr (True, fst (projr (made ''b1'' ''t1'' bills0r)), after_run)"
    using first_run unfolding job_run_made [OF occ_bill_valid(1)] after_run_def
    by (cases "made ''b1'' ''t1'' bills0r") auto
  have "\<not> False \<and> after_run = after_run"
    using one_bill_per_occurrence [OF trans [OF job_run_def [symmetric] 1] rtranclp.rtrancl_refl trans [OF job_run_def [symmetric] second_run] refl] .
  then show ?thesis using 1 second_run by simp
qed

end
