(* ===== verification/Recurring.thy ===== *)
theory Recurring
  imports BillProps
begin

text \<open>
  \<open>api/internal/repositories/recurrences.go\<close>, the target checks of \<open>recurrence_targets.go\<close> and the part of
  \<open>services/finance_recurrences.go\<close> that turns a recurrence paid from an account into bills. The row of a
  recurrence is a \<open>rec_row\<close> of theory \<open>Bills\<close>; its work-list key is the day alone, the space and the id
  being those of the row. \<open>read\<close> is what the recurrences table shows a reader, \<open>cards\<close> the ids that have
  a row in the cards table. As in theory \<open>Schedule\<close> an outer \<open>None\<close> means that the call does not return.
\<close>

type_synonym rec_reads = "string \<rightharpoonup> rec_row"

datatype rec_error = ErrRecSpace space_error | ErrRecInvalid fin_recurrence_error | ErrRecTarget bill_error | ErrRecNotFound
  | ErrRecurrenceWouldEnd | ErrRecConcurrent | ErrRecTransaction

subsection \<open>Targets\<close>

definition checkCardTarget :: "string set \<Rightarrow> string \<Rightarrow> ledger_store \<Rightarrow> bill_error option" where
  "checkCardTarget cards cardID st =
     (if cardID \<notin> cards then Some ErrBillUnknownAccount
      else case getAccount cardID st of
        None \<Rightarrow> Some ErrBillUnknownAccount
      | Some acct \<Rightarrow> if RowArchived acct then Some ErrBillAccounts else None)"

definition checkTarget :: "string set \<Rightarrow> FinRecurrence \<Rightarrow> ledger_store \<Rightarrow> bill_error option" where
  "checkTarget cards rec st =
     (case checkCategory (RcDirection rec) (RcCategoryID rec) st of Some err \<Rightarrow> Some err
      | None \<Rightarrow> if IsCard rec then checkCardTarget cards (RcCardID rec) st else checkAssetAccount (RcAccountID rec) st)"

subsection \<open>Rows\<close>

text \<open>\<open>recurrence()\<close>: a row without a mode is read as fixed.\<close>

definition recurrence_of :: "rec_row \<Rightarrow> FinRecurrence" where
  "recurrence_of row =
     (if RcAmountMode (RrRec row) = AmountUnset then (RrRec row)\<lparr>RcAmountMode := AmountFixed\<rparr> else RrRec row)"

definition scheduleKeysFor :: "FinRecurrence \<Rightarrow> Date \<Rightarrow> Date option option" where
  "scheduleKeysFor rec cursor = NextMaterialiseDate rec cursor"

definition newRecurrenceItem :: "FinRecurrence \<Rightarrow> Date \<Rightarrow> rec_row option" where
  "newRecurrenceItem rec cursor =
     map_option (\<lambda>key. \<lparr>RrRec = rec, RrCursor = cursor, RrSchedule = key\<rparr>) (scheduleKeysFor rec cursor)"

definition RecurrenceCreate ::
  "(string \<Rightarrow> string \<Rightarrow> string) \<Rightarrow> string set \<Rightarrow> ResolvedSpace \<Rightarrow> FinRecurrence \<Rightarrow> PostMeta \<Rightarrow> string \<Rightarrow> Date \<Rightarrow> rec_reads \<Rightarrow>
     bill_store \<Rightarrow> (rec_error, FinRecurrence \<times> bill_store) result option" where
  "RecurrenceCreate derive_id cards sp rec meta fresh today reread st =
     (let rec = (if RcAmountMode rec = AmountUnset then rec\<lparr>RcAmountMode := AmountFixed\<rparr> else rec)
      in case Require sp (if RcAutoSettle rec then Write OR Settle else Write) of
        Some err \<Rightarrow> Some (Inl (ErrRecSpace err))
      | None \<Rightarrow>
        let rec = rec\<lparr>RcID := (if PmIdempotencyKey meta \<noteq> '''' then derive_id ''recurrence'' (PmIdempotencyKey meta) else fresh),
                      RcArchived := False, RcNeedsAttention := ''''\<rparr>
        in case ValidateAt rec today of Some err \<Rightarrow> Some (Inl (ErrRecInvalid err))
      | None \<Rightarrow>
        (case checkTarget cards rec (BsLedger st) of Some err \<Rightarrow> Some (Inl (ErrRecTarget err))
         | None \<Rightarrow>
           Option.bind (newRecurrenceItem rec (mk_date 0 0 0)) (\<lambda>row.
             Some (case BillWrite [PutRecurrence row] st of
                     Inr st' \<Rightarrow> Inr (rec, st')
                   | Inl err \<Rightarrow>
                       (case (if PmIdempotencyKey meta \<noteq> '''' \<and> onlyConditionFailed err \<and> Require sp Read = None
                              then reread (RcID rec) else None) of
                          Some existing \<Rightarrow> Inr (recurrence_of existing, st)
                        | None \<Rightarrow> Inl ErrRecTransaction)))))"

subsection \<open>Editing\<close>

text \<open>\<open>RpEnd\<close> is \<open>patch.Optional\<close>: absent, null (an inner \<open>None\<close>) or a date.\<close>

record RecurrencePatch =
  RpAmount :: "Cents option"
  RpCategoryID :: "string option"
  RpAccountID :: "string option"
  RpDescription :: "string option"
  RpAutoSettle :: "bool option"
  RpCardID :: "string option"
  RpInstallments :: "int option"
  RpEnd :: "Date option option"
  RpArchive :: bool

definition given :: "string option \<Rightarrow> bool" where
  "given s \<longleftrightarrow> (case s of None \<Rightarrow> False | Some t \<Rightarrow> t \<noteq> '''')"

definition patched :: "RecurrencePatch \<Rightarrow> FinRecurrence \<Rightarrow> FinRecurrence" where
  "patched p rec =
     (let rec = rec\<lparr>RcAmount := opt_or (RpAmount p) (RcAmount rec), RcCategoryID := opt_or (RpCategoryID p) (RcCategoryID rec)\<rparr>;
          rec = (if given (RpCardID p)
                 then rec\<lparr>RcCardID := the (RpCardID p), RcAccountID := '''', RcAutoSettle := False,
                          RcInstallments := (if RcInstallments rec = 0 then 1 else RcInstallments rec)\<rparr> else rec);
          rec = (if given (RpAccountID p)
                 then rec\<lparr>RcAccountID := the (RpAccountID p), RcCardID := '''', RcInstallments := 0\<rparr> else rec);
          rec = rec\<lparr>RcInstallments := opt_or (RpInstallments p) (RcInstallments rec),
                    RcDescription := opt_or (RpDescription p) (RcDescription rec),
                    RcAutoSettle := opt_or (RpAutoSettle p) (RcAutoSettle rec)\<rparr>
      in (case RpEnd p of None \<Rightarrow> rec
          | Some e \<Rightarrow> rec\<lparr>RcSchedule := (RcSchedule rec)\<lparr>SchEnd := opt_or e (mk_date 0 0 0)\<rparr>\<rparr>))"

definition endExtended :: "RecurrencePatch \<Rightarrow> FinRecurrence \<Rightarrow> FinRecurrence \<Rightarrow> bool" where
  "endExtended p before rec \<longleftrightarrow> RpEnd p \<noteq> None \<and> \<not> IsZero (SchEnd (RcSchedule before)) \<and>
     (IsZero (SchEnd (RcSchedule rec)) \<or> After (SchEnd (RcSchedule rec)) (SchEnd (RcSchedule before)))"

text \<open>
  The update writes the amount, category, description, automatic settlement and target of the rule as
  patched, whatever the row holds by then; the end, the archive flag and the cursor only when they change.
\<close>

definition rec_set :: "RecurrencePatch \<Rightarrow> FinRecurrence \<Rightarrow> Date \<Rightarrow> Date \<Rightarrow> Date option \<Rightarrow> rec_row \<Rightarrow> rec_row" where
  "rec_set p rec cursor next key row =
     (let r = (RrRec row)\<lparr>RcAmount := RcAmount rec, RcCategoryID := RcCategoryID rec, RcDescription := RcDescription rec,
                 RcAutoSettle := RcAutoSettle rec, RcNeedsAttention := ''''\<rparr>;
          r = (if IsCard rec then r\<lparr>RcCardID := RcCardID rec, RcInstallments := RcInstallments rec, RcAccountID := ''''\<rparr>
               else r\<lparr>RcAccountID := RcAccountID rec, RcCardID := '''', RcInstallments := 0\<rparr>);
          r = (if RpEnd p = None then r else r\<lparr>RcSchedule := (RcSchedule r)\<lparr>SchEnd := SchEnd (RcSchedule rec)\<rparr>\<rparr>);
          r = (if RpArchive p then r\<lparr>RcArchived := True\<rparr> else r)
      in \<lparr>RrRec = r, RrCursor = (if next \<noteq> cursor then next else RrCursor row), RrSchedule = key\<rparr>)"

definition RecurrenceUpdate ::
  "string set \<Rightarrow> ResolvedSpace \<Rightarrow> string \<Rightarrow> RecurrencePatch \<Rightarrow> Date \<Rightarrow> rec_reads \<Rightarrow> bill_store \<Rightarrow>
     (rec_error, bill_store) result option" where
  "RecurrenceUpdate cards sp recID p today read st =
     (case Require sp (if RpAutoSettle p = Some True then Write OR Settle else Write) of
        Some err \<Rightarrow> Some (Inl (ErrRecSpace err))
      | None \<Rightarrow>
        (case read recID of None \<Rightarrow> Some (Inl ErrRecNotFound)
         | Some row \<Rightarrow>
           let before = recurrence_of row; rec = patched p before; cursor = RrCursor row in
           if given (RpCardID p) \<and> given (RpAccountID p) then Some (Inl (ErrRecInvalid RecTwoTargets))
           else case (if RcAutoSettle rec \<and> (RcAmount rec \<noteq> RcAmount before \<or> RcAccountID rec \<noteq> RcAccountID before \<or>
                           RcCategoryID rec \<noteq> RcCategoryID before \<or> endExtended p before rec)
                      then Require sp (Write OR Settle) else None) of
             Some err \<Rightarrow> Some (Inl (ErrRecSpace err))
           | None \<Rightarrow>
             (case (if IsZero cursor then ValidateAt rec (AddDays today (- catchUpSlackDays)) else FinRecurrenceValidate rec) of
                Some err \<Rightarrow> Some (Inl (ErrRecInvalid err))
              | None \<Rightarrow>
                Option.bind (if RpEnd p \<noteq> None \<and> \<not> RpArchive p \<and> \<not> RcArchived rec then Ended rec cursor today else Some False) (\<lambda>ends.
                  if ends then Some (Inl ErrRecurrenceWouldEnd)
                  else let rec = (if RpArchive p then rec\<lparr>RcArchived := True\<rparr> else rec)
                    in case checkTarget cards rec (BsLedger st) of Some err \<Rightarrow> Some (Inl (ErrRecTarget err))
                     | None \<Rightarrow>
                       let floor = AddDays (fst (Horizon today)) (- 1);
                           next = (if endExtended p before rec \<and> \<not> IsZero cursor \<and> Before cursor floor then floor else cursor)
                       in Option.bind (scheduleKeysFor rec next) (\<lambda>key.
                            Some (case BillWrite [UpdRecurrence recID (\<lambda>r. RrCursor r = cursor) (rec_set p rec cursor next key)] st of
                                    Inr st' \<Rightarrow> Inr st'
                                  | Inl err \<Rightarrow> if onlyConditionFailed err then Inl ErrRecConcurrent else Inl ErrRecTransaction))))))"

definition RecurrenceArchive :: "ResolvedSpace \<Rightarrow> string \<Rightarrow> bill_store \<Rightarrow> (rec_error, bill_store) result" where
  "RecurrenceArchive sp recID st =
     (case Require sp Write of
        Some err \<Rightarrow> Inl (ErrRecSpace err)
      | None \<Rightarrow>
        (case BillWrite [UpdRecurrence recID (\<lambda>r. True)
                (\<lambda>r. r\<lparr>RrRec := (RrRec r)\<lparr>RcArchived := True\<rparr>, RrSchedule := None\<rparr>)] st of
           Inr st' \<Rightarrow> Inr st'
         | Inl err \<Rightarrow> if onlyConditionFailed err then Inl ErrRecNotFound else Inl ErrRecTransaction))"

definition FlagAttention :: "ResolvedSpace \<Rightarrow> string \<Rightarrow> string \<Rightarrow> bill_store \<Rightarrow> (rec_error, bill_store) result" where
  "FlagAttention sp recID reason st =
     (case Require sp Write of
        Some err \<Rightarrow> Inl (ErrRecSpace err)
      | None \<Rightarrow>
        (case BillWrite [UpdRecurrence recID (\<lambda>r. True) (\<lambda>r. r\<lparr>RrRec := (RrRec r)\<lparr>RcNeedsAttention := reason\<rparr>\<rparr>)] st of
           Inr st' \<Rightarrow> Inr st'
         | Inl err \<Rightarrow> if onlyConditionFailed err then Inl ErrRecNotFound else Inl ErrRecTransaction))"

definition MarkMaterialised :: "ResolvedSpace \<Rightarrow> string \<Rightarrow> Date \<Rightarrow> rec_reads \<Rightarrow> bill_store \<Rightarrow> (rec_error, bill_store) result option" where
  "MarkMaterialised sp recID cursor read st =
     (if IsZero cursor then Some (Inr st)
      else case Require sp Write of
        Some err \<Rightarrow> Some (Inl (ErrRecSpace err))
      | None \<Rightarrow>
        (case read recID of None \<Rightarrow> Some (Inl ErrRecNotFound)
         | Some row \<Rightarrow>
           Option.bind (scheduleKeysFor (recurrence_of row) cursor) (\<lambda>key.
             Some (case BillWrite [UpdRecurrence recID (\<lambda>r. IsZero (RrCursor r) \<or> RrCursor r < cursor)
                       (\<lambda>r. r\<lparr>RrRec := (RrRec r)\<lparr>RcNeedsAttention := ''''\<rparr>, RrCursor := cursor, RrSchedule := key\<rparr>)] st of
                     Inr st' \<Rightarrow> Inr st'
                   | Inl err \<Rightarrow> if onlyConditionFailed err then Inr st else Inl ErrRecTransaction))))"


subsection \<open>The daily job on one recurrence paid from an account\<close>

definition maxDraftsPerRun :: nat where "maxDraftsPerRun = 60"

record JobResult =
  JrExamined :: nat
  JrDone :: nat
  JrSkipped :: nat
  JrFailed :: nat

definition job_skipped :: "JobResult \<Rightarrow> JobResult" where
  "job_skipped res = res\<lparr>JrSkipped := JrSkipped res + 1\<rparr>"

definition job_fail :: "JobResult \<Rightarrow> JobResult" where
  "job_fail res = res\<lparr>JrFailed := JrFailed res + 1\<rparr>"

definition job_meta :: PostMeta where
  "job_meta = \<lparr>PmOrigin = ''recurrence'', PmActor = ''scheduler'', PmRequestID = '''', PmIdempotencyKey = '''', PmMemo = '''',
     PmRef = '''', PmTxID = ''''\<rparr>"

text \<open>The loop over the drafts: the cursor it reached, or \<open>None\<close> when it stopped at a failure.\<close>

fun work_drafts ::
  "(Draft \<Rightarrow> bill_store \<Rightarrow> (bill_error, bool \<times> bill_store) result) \<Rightarrow> Draft list \<Rightarrow> Date \<Rightarrow> JobResult \<Rightarrow> bill_store \<Rightarrow>
     JobResult \<times> Date option \<times> bill_store" where
  "work_drafts create [] cursor res st = (res, Some cursor, st)"
| "work_drafts create (d # ds) cursor res st =
     (case create d st of
        Inl err \<Rightarrow> (if err = ErrRecurrenceChanged then job_skipped res else job_fail res, None, st)
      | Inr (created, st') \<Rightarrow>
          work_drafts create ds (DfNominal d)
            (if created then res\<lparr>JrDone := JrDone res + 1\<rparr> else job_skipped res) st')"

text \<open>
  \<open>gone\<close> is the space guard's answer: an error, gone, or not. \<open>fb\<close> and \<open>ft\<close> are the fresh ids drawn for
  the bill and the transaction of an occurrence.
\<close>

definition materialise_account ::
  "(unit + bool) \<Rightarrow> ResolvedSpace \<Rightarrow> FinRecurrence \<Rightarrow> Date \<Rightarrow> Date \<Rightarrow> (Date \<Rightarrow> string) \<Rightarrow> (Date \<Rightarrow> string) \<Rightarrow> bill_reads \<Rightarrow>
     pending_reads \<Rightarrow> rec_reads \<Rightarrow> JobResult \<Rightarrow> bill_store \<Rightarrow> (JobResult \<times> bill_store) option" where
  "materialise_account gone sp rec cursor today fb ft reread pend read res st =
     (case gone of Inl _ \<Rightarrow> Some (job_fail res, st)
      | Inr True \<Rightarrow> Some (job_skipped res, st)
      | Inr False \<Rightarrow>
        Option.bind (Materialise rec cursor today) (\<lambda>m. case m of
          Inl _ \<Rightarrow> Some (job_fail res, st)
        | Inr drafts \<Rightarrow>
          let drafts = (if RcAmountMode rec = AmountExpected then filter (\<lambda>d. \<not> After (DfNominal d) today) drafts else drafts);
              drafts = take maxDraftsPerRun drafts;
              create = (\<lambda>d st. if RcAmountMode rec = AmountExpected
                then CreatePendingOccurrence sp rec (DfNominal d) (BlDue (DfBill d)) pend st
                else (case CreateFromOccurrence sp d (RcID rec) job_meta (fb (DfNominal d)) (ft (DfNominal d)) reread st of
                        Inl err \<Rightarrow> Inl err | Inr (created, _, st') \<Rightarrow> Inr (created, st')))
          in (case work_drafts create drafts cursor res st of
                (res, None, st) \<Rightarrow> Some (res, st)
              | (res, Some cursor, st) \<Rightarrow>
                  let cursor = (if drafts = [] \<and> RcAmountMode rec \<noteq> AmountExpected then snd (Horizon today) else cursor)
                  in Option.bind (MarkMaterialised sp (RcID rec) cursor read st) (\<lambda>r.
                       Some (case r of Inl _ \<Rightarrow> (job_fail res, st) | Inr st' \<Rightarrow> (res, st'))))))"

subsection \<open>What one run leaves\<close>

lemma CreateFromOccurrence_items:
  assumes "CreateFromOccurrence sp d rid meta fb ft reread st = Inr (c, b, st')"
  obtains b1 where "createWithGuards sp b1 (Some (PutLock rid (DfNominal d) (bill_lock (BlID b1)))) (Some (recurrenceUnchanged rid b1))
      meta ft reread [] st = Inr (b, c, st')" "BlAmount b1 = BlAmount (DfBill d)" "BlAccountID b1 = BlAccountID (DfBill d)"
    "BlCategoryID b1 = BlCategoryID (DfBill d)" "BlAutoSettle b1 = BlAutoSettle (DfBill d)"
  using assms that [of "(DfBill d)\<lparr>BlID := fb, BlStatus := BillForecast, BlPaidDate := mk_date 0 0 0, BlTransactionIDs := [],
      BlOrigin := OriginRecurrence, BlOriginRef := OccurrenceRef rid (DfNominal d)\<rparr>"]
  by (auto simp: CreateFromOccurrence_def Let_def split: option.splits sum.splits)

text \<open>The items of a creation, as one list.\<close>

lemma createWithGuards_run:
  assumes "createWithGuards sp b lock check meta fresh reread extra st = r"
  obtains (refused) e where "r = Inl (ErrBillLedger e)"
  | (run) plan :: ledgerPlan where "r = (let items = map Led (PlItems plan) @ PutBill (newBillItem (b\<lparr>BlTransactionIDs := [PlTxID plan]\<rparr>)) #
        (case lock of None \<Rightarrow> [] | Some l \<Rightarrow> [l]) @ (case check of None \<Rightarrow> [] | Some c \<Rightarrow> [c]) @ extra;
        n = length (PlItems plan); lk = Suc n; ck = lk + (if lock = None then 0 else 1); ex = ck + (if check = None then 0 else 1)
      in case BillWrite items st of
           Inr st' \<Rightarrow> Inr (Some (b\<lparr>BlTransactionIDs := [PlTxID plan]\<rparr>), True, st')
         | Inl err \<Rightarrow>
             if check \<noteq> None \<and> failed_at err ck then Inl ErrRecurrenceChanged
             else if lock \<noteq> None \<and> failed_at err lk then Inr (None, False, st)
             else if extra \<noteq> [] \<and> failed_at err ex then Inl ErrOccurrenceAlreadyHandled
             else if failed_at err n \<and> PmIdempotencyKey meta \<noteq> '''' \<and> reread (BlID b) \<noteq> None
             then Inr (reread (BlID b), False, st)
             else Inl (ErrBillLedger (classifyPostCancel err (PlMarkerIdx plan))))"
proof (cases "RecognizeBill the_sys (Facts b) (BlCompetence b)")
  case (Inl e)
  then show ?thesis using assms by (intro refused [of "ErrTx e"]) (auto simp: createWithGuards_def)
next
  case (Inr tx)
  note tx = this
  show ?thesis
  proof (cases "planPost sp tx (billMeta meta b) fresh")
    case (Inl e)
    then show ?thesis using assms tx by (intro refused [of e]) (auto simp: createWithGuards_def)
  next
    case (Inr plan)
    show ?thesis
      by (rule run [of plan]) (use assms tx Inr in \<open>auto simp: createWithGuards_def Let_def split: option.splits sum.splits\<close>)
  qed
qed


lemma failed_at_cond:
  "BillWrite items st = Inl err \<Longrightarrow> failed_at err i \<Longrightarrow> i < length items \<and> \<not> bill_cond (items ! i) st"
  by (auto simp: BillWrite_def failed_at_def split: if_splits)

lemma fold_recurrences:
  "list_all (\<lambda>i. case i of PutRecurrence _ \<Rightarrow> False | UpdRecurrence _ _ _ \<Rightarrow> False | _ \<Rightarrow> True) items \<Longrightarrow>
     BsRecurrences (fold bill_write items s) = BsRecurrences s"
proof (induction items arbitrary: s)
  case (Cons i items)
  then show ?case by (cases i) simp_all
qed simp

lemma fold_locks: "PutLock r d y \<in> set items \<Longrightarrow> BsLocks (fold bill_write items s) (r, d) \<noteq> None"
proof -
  have "BsLocks (fold bill_write xs s) k \<noteq> None"
    if "(\<exists>r d y. PutLock r d y \<in> set xs \<and> (r, d) = k) \<or> BsLocks s k \<noteq> None" for xs s k
    using that
  proof (induction xs arbitrary: s)
    case (Cons i xs)
    show ?case using Cons.IH [of "bill_write i s"] Cons.prems by (cases i) auto
  qed simp
  then show "PutLock r d y \<in> set items \<Longrightarrow> ?thesis" by blast
qed

text \<open>An answered run has its occurrence's lock, and leaves the rules and the other locks alone.\<close>

lemma occurrence_handled:
  assumes "CreateFromOccurrence sp d rid meta fb ft reread st = Inr (c, b, st')" "PmIdempotencyKey meta = ''''"
  shows "BsLocks st' (rid, DfNominal d) \<noteq> None" "BsRecurrences st' = BsRecurrences st"
    "BsLocks st k = Some x \<Longrightarrow> BsLocks st' k = Some x"
proof -
  obtain b1 where g: "createWithGuards sp b1 (Some (PutLock rid (DfNominal d) (bill_lock (BlID b1)))) (Some (recurrenceUnchanged rid b1))
      meta ft reread [] st = Inr (b, c, st')"
    using CreateFromOccurrence_items [OF assms(1)] by blast
  from g have all: "BsLocks st' (rid, DfNominal d) \<noteq> None \<and> BsRecurrences st' = BsRecurrences st \<and>
      (BsLocks st k = Some x \<longrightarrow> BsLocks st' k = Some x)"
  proof (cases rule: createWithGuards_run)
    case (run plan)
    define items where "items = map Led (PlItems plan) @ [PutBill (newBillItem (b1\<lparr>BlTransactionIDs := [PlTxID plan]\<rparr>)),
      PutLock rid (DfNominal d) (bill_lock (BlID b1)), recurrenceUnchanged rid b1]"
    have lock: "items ! Suc (length (PlItems plan)) = PutLock rid (DfNominal d) (bill_lock (BlID b1))"
      by (simp add: items_def nth_append)
    show ?thesis
    proof (cases "BillWrite items st")
      case (Inl err)
      then have "failed_at err (Suc (length (PlItems plan)))" "st' = st"
        using run assms(2) by (auto simp: items_def Let_def split: if_splits)
      then show ?thesis using failed_at_cond [OF Inl] lock by fastforce
    next
      case (Inr s)
      then have s: "st' = s" "s = fold bill_write items st"
        using run by (auto simp: items_def Let_def BillWrite_def split: if_splits)
      have "BsRecurrences s = BsRecurrences st"
        unfolding s(2) by (rule fold_recurrences) (auto simp: items_def recurrenceUnchanged_def list_all_iff)
      moreover have "BsLocks s (rid, DfNominal d) \<noteq> None"
        unfolding s(2) by (rule fold_locks [of _ _ "bill_lock (BlID b1)"]) (simp add: items_def)
      ultimately show ?thesis using BillWrite_locks [OF Inr] s(1) by blast
    qed
  qed simp
  then show "BsLocks st' (rid, DfNominal d) \<noteq> None" "BsRecurrences st' = BsRecurrences st"
    "BsLocks st k = Some x \<Longrightarrow> BsLocks st' k = Some x" by simp_all
qed



text \<open>The creation the job uses for a rule of fixed amount.\<close>

definition bill_create ::
  "ResolvedSpace \<Rightarrow> string \<Rightarrow> (Date \<Rightarrow> string) \<Rightarrow> (Date \<Rightarrow> string) \<Rightarrow> bill_reads \<Rightarrow> Draft \<Rightarrow> bill_store \<Rightarrow>
     (bill_error, bool \<times> bill_store) result" where
  "bill_create sp rid fb ft reread = (\<lambda>d st.
     case CreateFromOccurrence sp d rid job_meta (fb (DfNominal d)) (ft (DfNominal d)) reread st of
       Inl err \<Rightarrow> Inl err | Inr (created, _, st') \<Rightarrow> Inr (created, st'))"

lemma bill_create_handled:
  assumes "bill_create sp rid fb ft reread d st = Inr (c, st')"
  shows "BsLocks st' (rid, DfNominal d) \<noteq> None" "BsRecurrences st' = BsRecurrences st"
    "BsLocks st k \<noteq> None \<Longrightarrow> BsLocks st' k \<noteq> None"
proof -
  obtain b where "CreateFromOccurrence sp d rid job_meta (fb (DfNominal d)) (ft (DfNominal d)) reread st = Inr (c, b, st')"
    using assms by (auto simp: bill_create_def split: sum.splits)
  note h = occurrence_handled [OF this]
  show "BsLocks st' (rid, DfNominal d) \<noteq> None" "BsRecurrences st' = BsRecurrences st"
    using h(1,2) by (simp_all add: job_meta_def)
  show "BsLocks st k \<noteq> None \<Longrightarrow> BsLocks st' k \<noteq> None" using h(3) by (fastforce simp: job_meta_def)
qed




subsection \<open>Every owed occurrence is handled\<close>

text \<open>A row the job works: a valid rule of fixed amount paid from an account, not archived.\<close>

definition works :: "string \<Rightarrow> Date \<Rightarrow> rec_row \<Rightarrow> bool" where
  "works rid today row \<longleftrightarrow> recurrence_ok (RrRec row) \<and> \<not> IsCard (RrRec row) \<and> \<not> RcArchived (RrRec row) \<and>
     RcAmountMode (RrRec row) = AmountFixed \<and> RcID (RrRec row) = rid \<and> (IsZero (RrCursor row) \<or> plain (RrCursor row)) \<and>
     (IsZero (RrCursor row) \<longrightarrow> ValidateAt (RrRec row) (AddDays today (- catchUpSlackDays)) = None)"

definition still_owed :: "Date \<Rightarrow> rec_row \<Rightarrow> Date list" where
  "still_owed today row = owed (RrRec row) (RrCursor row) (horizon_end today)"





lemma still_owed_plain: "works rid today row \<Longrightarrow> d \<in> set (still_owed today row) \<Longrightarrow> plain d"
  using window_modern [OF recurrence_ok_schedule] by (auto simp: works_def still_owed_def owed_def)










text \<open>The work-list key always exists, so a run answers.\<close>

lemma next_key:
  assumes ok: "recurrence_ok r" "IsZero c \<or> plain c"
  shows "NextMaterialiseDate r c = Some (if RcArchived r then None
    else case window (RcSchedule r) (owed_from r c) (max (owed_from r c) (day_number (SchStart (RcSchedule r))) + MaxSpanDays) of
      [] \<Rightarrow> None
    | d # _ \<Rightarrow> Some (if IsCard r then d else First (MonthAdd (MonthOf d) (- 1))))"
proof -
  let ?s = "RcSchedule r"
  define lo where "lo = (if \<not> IsZero c \<and> \<not> Before c (SchStart ?s) then AddDays c 1 else SchStart ?s)"
  have start: "plain (SchStart ?s)" using ok(1) by (simp add: recurrence_ok_def)
  have less: "c < SchStart ?s \<longleftrightarrow> day_number c < day_number (SchStart ?s)" if "plain c"
    using that start day_number_less_iff by (simp add: plain_def)
  have lo: "plain lo" "day_number lo = max (owed_from r c) (day_number (SchStart ?s))"
    using start ok(2) less not_zero_plain plain_is_modern [of c]
    by (auto simp: lo_def owed_from_def plain_def AddDays_nonneg max_def)
  have hi: "AddDays lo MaxSpanDays = civil (day_number lo + MaxSpanDays)"
    using plain_is_modern [OF lo(1)] by (simp add: AddDays_nonneg MaxSpanDays_def)
  have v: "valid_date lo" using lo(1) by (simp add: plain_def)
  have win: "window ?s (day_number lo) b = window ?s (owed_from r c) b" for b by (simp add: window_def lo(2))
  have "Occurrences ?s lo (AddDays lo MaxSpanDays) =
      Some (Inr (map (occ ?s) (window ?s (day_number lo) (day_number lo + MaxSpanDays))))"
    using Occurrences_window [OF recurrence_ok_schedule [OF ok(1)] v, of "civil (day_number lo + MaxSpanDays)"] by (simp add: hi)
  then show ?thesis
    unfolding NextMaterialiseDate_def Let_def lo_def [symmetric] win by (auto simp: lo(2) occ_def split: list.splits)
qed

lemma recurrence_of_ok: "recurrence_ok (RrRec row) \<Longrightarrow> recurrence_ok (recurrence_of row)"
  by (cases "RcAmountMode (RrRec row) = AmountUnset")
    (simp_all add: recurrence_of_def recurrence_ok_def FinRecurrenceValidate_def IsCard_def cong: if_cong)

lemma MarkMaterialised_returns:
  assumes "\<forall>row. read rid = Some row \<longrightarrow> recurrence_ok (RrRec row)" "plain c"
  shows "\<exists>r. MarkMaterialised sp rid c read st = Some r"
proof -
  have "\<exists>key. scheduleKeysFor (recurrence_of row) c = Some key" if "read rid = Some row" for row
    using that assms next_key [OF recurrence_of_ok, of row c] by (auto simp: scheduleKeysFor_def)
  then show ?thesis by (fastforce simp: MarkMaterialised_def split: option.splits)
qed

text \<open>The cursor of a run that stops at no failure is the one it began with or an occurrence it handled.\<close>

lemma work_drafts_cursor:
  "work_drafts create ds c res st = (res', Some c', st') \<Longrightarrow> c' = (if ds = [] then c else DfNominal (last ds))"
proof (induction ds arbitrary: c res st)
  case (Cons d ds)
  then show ?case by (cases ds) (auto split: sum.splits)
qed simp

text \<open>C33: The daily job answers on a rule of fixed amount that is paid from an account, in a space that is
  there: none of its searches for occurrences runs on for ever. The rule validates, is not archived,
  starts on 1 March 2019 or later and, when nothing was made of it yet, passes the check of a first
  run; what the job reads of it again to move its cursor validates too; its cursor and the day of the
  run are 1 March 2019 or later. (Rules charged to a card or of an expected amount are not covered.)\<close>

theorem materialise_account_answers:
  assumes "works rid today row" "plain today" "\<forall>row'. read rid = Some row' \<longrightarrow> recurrence_ok (RrRec row')"
  shows "materialise_account (Inr False) sp (recurrence_of row) (RrCursor row) today fb ft reread pend read res st \<noteq> None"
proof -
  let ?r = "RrRec row" and ?w = "still_owed today row"
  have ok: "recurrence_ok ?r" "\<not> IsCard ?r" "\<not> RcArchived ?r" "RcAmountMode ?r = AmountFixed" "RcID ?r = rid"
    "IsZero (RrCursor row) \<or> plain (RrCursor row)"
    "IsZero (RrCursor row) \<Longrightarrow> ValidateAt ?r (AddDays today (- catchUpSlackDays)) = None"
    using assms(1) by (simp_all add: works_def)
  have rec: "recurrence_of row = ?r" using ok(4) by (simp add: recurrence_of_def)
  define ds where "ds = take maxDraftsPerRun (map (draft_of ?r \<circ> occ (RcSchedule ?r)) ?w)"
  have mat: "Materialise ?r (RrCursor row) today = Some (Inr (map (draft_of ?r \<circ> occ (RcSchedule ?r)) ?w))"
    using Materialise_owed [OF ok(1,2,3) assms(2) ok(6,7)] by (simp add: still_owed_def)
  have plain_ds: "plain (DfNominal d)" if "d \<in> set ds" for d
    using that still_owed_plain [OF assms(1)] by (auto simp: ds_def draft_of_def occ_def dest!: in_set_takeD)
  obtain r1 out s1 where work: "work_drafts (bill_create sp rid fb ft reread) ds (RrCursor row) res st = (r1, out, s1)"
    by (cases "work_drafts (bill_create sp rid fb ft reread) ds (RrCursor row) res st") auto
  show ?thesis
  proof (cases out)
    case None
    then show ?thesis using work ok(4,5) unfolding materialise_account_def rec
      by (simp add: mat ds_def [symmetric] bill_create_def [symmetric] Let_def)
  next
    case (Some c)
    define c' where "c' = (if ds = [] then snd (Horizon today) else c)"
    have "plain c'"
      using work_drafts_cursor [OF work [unfolded Some]] plain_ds last_in_set horizon_plain(1) [OF assms(2)]
      by (auto simp: c'_def horizon_end_def)
    then obtain r where r: "MarkMaterialised sp rid c' read s1 = Some r" using MarkMaterialised_returns assms(3) by blast
    then show ?thesis using work Some ok(4,5) unfolding materialise_account_def rec
      by (auto simp: mat ds_def [symmetric] bill_create_def [symmetric] Let_def c'_def split: if_splits)
  qed
qed



subsection \<open>A rule the job runs on\<close>

definition job_rule :: FinRecurrence where
  "job_rule = rent_rule\<lparr>RcAmount := 1000, RcSchedule := (every_month (DayOfMonth 30) (mk_date 2026 1 1))\<lparr>SchAdjust := AdjustNone\<rparr>\<rparr>"

abbreviation "job_day \<equiv> mk_date 2026 4 30"
abbreviation "job_today \<equiv> mk_date 2026 3 15"

definition job_row :: rec_row where
  "job_row = \<lparr>RrRec = job_rule, RrCursor = mk_date 2026 4 29, RrSchedule = None\<rparr>"

definition job_store :: bill_store where
  "job_store = bills0\<lparr>BsRecurrences := [''r1'' \<mapsto> job_row]\<rparr>"

lemma job_days: "plain job_today" "plain job_day" "plain (mk_date 2026 4 29)" "plain (mk_date 2026 1 1)"
  by (rule plain_2020; simp add: valid_date_def month_length_def)+

lemma job_rule_ok: "recurrence_ok job_rule"
proof -
  have "FinRecurrenceValidate job_rule = None" by code_simp
  then show ?thesis using job_days(4) by (simp add: recurrence_ok_def job_rule_def every_month_def IsZero_def)
qed

lemma job_row_works: "works ''r1'' job_today job_row"
  using job_rule_ok job_days(3)
  by (simp add: works_def job_row_def IsCard_def job_rule_def rent_rule_def IsZero_def)

lemma job_horizon: "horizon_end job_today = job_day"
proof -
  have m: "modern_month (mk_month 2026 3)" "modern_month (mk_month 2026 4)" by (simp_all add: modern_month_2020)
  then have "MonthAdd (mk_month 2026 3) 1 = mk_month 2026 4"
    by (intro MonthAdd_of_index) (simp_all add: month_index_def)
  then show ?thesis using Last_modern(1) [OF m(2)]
    by (simp add: horizon_end_def Horizon_def Let_def MonthOf_def month_length_def)
qed

lemma job_owed: "still_owed job_today job_row = [job_day]"
proof (rule strict_sorted_equal)
  have d: "d = job_day" if "mk_date 2026 4 29 < d" "d \<le> job_day" for d
    using that by (cases d) (auto simp: less_Date_def less_eq_Date_def)
  have "Includes (DayOfMonth 30) job_day = Some True" by code_simp
  then show "set (still_owed job_today job_row) = set [job_day]"
    using d job_days set_owed [OF job_rule_ok, of "mk_date 2026 4 29" job_day]
    by (auto simp: still_owed_def job_horizon job_row_def job_rule_def every_month_def IsZero_def plain_def
        less_Date_def less_eq_Date_def)
qed (simp_all add: still_owed_def sorted_owed)

definition job_draft :: Draft where
  "job_draft = draft_of job_rule (occ (RcSchedule job_rule) job_day)"

definition job_bill :: Bill where
  "job_bill = (occ_bill ''b1'')\<lparr>BlDescription := '''', BlCompetence := job_day, BlDue := job_day, BlOriginRef := ''r1@2026-04-30''\<rparr>"

definition job_made :: "(bill_error, Bill option \<times> bool \<times> bill_store) result" where
  "job_made = createWithGuards sample_space job_bill (Some (PutLock ''r1'' job_day (bill_lock ''b1''))) (Some (recurrenceUnchanged ''r1'' job_bill))
     job_meta ''t1'' Map.empty [] job_store"

lemma job_bill_valid: "BillValidate job_bill = None"
  by code_simp

lemma job_made_ok: "\<not> isl job_made" "fst (snd (projr job_made))"
  by code_simp+

lemma job_creates:
  "bill_create sample_space ''r1'' (\<lambda>d. ''b1'') (\<lambda>d. ''t1'') Map.empty job_draft job_store = Inr (True, snd (snd (projr job_made)))"
proof -
  have d: "DfNominal job_draft = job_day" by (simp add: job_draft_def draft_of_def occ_def)
  have ref: "OccurrenceRef ''r1'' (DfNominal job_draft) = ''r1@2026-04-30''" unfolding d by code_simp
  have b: "(DfBill job_draft)\<lparr>BlID := ''b1'', BlStatus := BillForecast, BlPaidDate := mk_date 0 0 0, BlTransactionIDs := [],
      BlOrigin := OriginRecurrence, BlOriginRef := ''r1@2026-04-30''\<rparr> = job_bill"
    by (simp add: job_draft_def draft_of_def occ_def job_bill_def occ_bill_def rent_bill_def job_rule_def rent_rule_def every_month_def)
  have q: "Require sample_space (if BlAutoSettle (DfBill job_draft) then Write OR Settle else Write) = None" by code_simp
  have i: "BlID job_bill = ''b1''" by (simp add: job_bill_def occ_bill_def)
  show ?thesis
    using job_made_ok unfolding bill_create_def CreateFromOccurrence_def Let_def ref b
    by (cases job_made) (auto simp: q d i job_bill_valid job_made_def)
qed


definition after_job :: bill_store where
  "after_job = snd (snd (projr job_made))"

definition no_result :: JobResult where
  "no_result = \<lparr>JrExamined = 0, JrDone = 0, JrSkipped = 0, JrFailed = 0\<rparr>"

definition job_result :: "(JobResult \<times> bill_store) option" where
  "job_result = materialise_account (Inr False) sample_space (recurrence_of job_row) (RrCursor job_row) job_today (\<lambda>d. ''b1'')
     (\<lambda>d. ''t1'') Map.empty Map.empty [''r1'' \<mapsto> job_row] no_result job_store"

lemma job_result: "\<exists>res' st'. job_result = Some (res', st') \<and> JrFailed res' = JrFailed no_result"
proof -
  let ?r = "RrRec job_row"
  have ok: "recurrence_ok ?r" "\<not> IsCard ?r" "\<not> RcArchived ?r" "RcAmountMode ?r = AmountFixed" "RcID ?r = ''r1''"
    "IsZero (RrCursor job_row) \<or> plain (RrCursor job_row)"
    "IsZero (RrCursor job_row) \<Longrightarrow> ValidateAt ?r (AddDays job_today (- catchUpSlackDays)) = None"
    using job_row_works by (simp_all add: works_def)
  have rec: "recurrence_of job_row = ?r" using ok(4) by (simp add: recurrence_of_def)
  have mat: "Materialise ?r (RrCursor job_row) job_today = Some (Inr [job_draft])"
    using Materialise_owed [OF ok(1,2,3) job_days(1) ok(6,7)] job_owed
    by (simp add: still_owed_def job_draft_def) (simp add: job_row_def)
  have create: "bill_create sample_space ''r1'' (\<lambda>d. ''b1'') (\<lambda>d. ''t1'') Map.empty job_draft job_store = Inr (True, after_job)"
    using job_creates by (simp add: after_job_def)
  obtain b where made: "CreateFromOccurrence sample_space job_draft ''r1'' job_meta ''b1'' ''t1'' Map.empty job_store = Inr (True, b, after_job)"
    using create by (auto simp: bill_create_def split: sum.splits)
  have d: "DfNominal job_draft = job_day" by (simp add: job_draft_def draft_of_def occ_def)
  have row: "BsRecurrences after_job ''r1'' = Some job_row"
    using bill_create_handled(2) [OF create] by (simp add: job_store_def)
  obtain key where key: "scheduleKeysFor (recurrence_of job_row) job_day = Some key"
    using next_key [OF recurrence_of_ok [OF ok(1)], of job_day] job_days(2) by (simp add: scheduleKeysFor_def)
  have may: "Require sample_space Write = None" by code_simp
  have "\<exists>st'. MarkMaterialised sample_space ''r1'' job_day [''r1'' \<mapsto> job_row] after_job = Some (Inr st')"
  proof -
    have "RrCursor job_row < job_day" by (simp add: job_row_def less_Date_def)
    then show ?thesis using row by (simp add: MarkMaterialised_def may key BillWrite_def not_zero_plain [OF job_days(2)])
  qed
  then obtain st' where mark: "MarkMaterialised sample_space ''r1'' job_day [''r1'' \<mapsto> job_row] after_job = Some (Inr st')" by blast
  show ?thesis
    unfolding job_result_def materialise_account_def rec
    using ok(4,5) by (simp add: mat made d mark maxDraftsPerRun_def no_result_def)
qed

theorem materialise_account_answers_witness: "job_result \<noteq> None"
proof -
  have read: "\<forall>row'. [''r1'' \<mapsto> job_row] ''r1'' = Some row' \<longrightarrow> recurrence_ok (RrRec row')"
    using job_row_works by (simp add: works_def)
  show ?thesis unfolding job_result_def
    by (rule materialise_account_answers) (rule job_row_works, rule job_days(1), rule read)
qed

text \<open>A second run, the day after: nothing more is owed, and the run says so without a failure.\<close>

abbreviation "job_next_day \<equiv> mk_date 2026 3 16"

lemma job_next_day: "plain job_next_day" "job_today \<le> job_next_day" "horizon_end job_next_day = horizon_end job_today"
proof -
  show "plain job_next_day" by (rule plain_2020) (simp_all add: valid_date_def month_length_def)
qed (simp_all add: less_eq_Date_def less_Date_def horizon_end_def Horizon_def MonthOf_def Let_def)




subsection \<open>The work list\<close>

lemma first_before_horizon:
  assumes "plain today" "d \<le> horizon_end today" "valid_date d" "2020 \<le> Year d"
  shows "First (MonthAdd (MonthOf d) (- 1)) \<le> today"
proof -
  have m: "modern_month (MonthOf today)" using plain_month [of "day_number today"] assms(1) by (simp add: plain_def civil_day_number)
  have l: "modern_month (MonthAdd (MonthOf today) 1)" using m by simp
  have e: "horizon_end today = Last (MonthAdd (MonthOf today) 1)" by (simp add: horizon_end_def Horizon_def Let_def)
  have me: "MonthOf (horizon_end today) = MonthAdd (MonthOf today) 1" using Last_modern(1) [OF l] by (simp add: MonthOf_def e)
  have b: "1 \<le> Month d" "Month d \<le> 12" using assms(3) by (simp_all add: valid_date_def)
  have md: "modern_month (MonthOf d)"
    using plain_month [of "day_number d"] plain_2020 [OF assms(3,4)] by (simp add: plain_def civil_day_number)
  define k where "k = (if Month d = 1 then mk_month (Year d - 1) 12 else mk_month (Year d) (Month d - 1))"
  have i: "month_index k = month_index (MonthOf d) - 1" using b by (auto simp: k_def month_index_def MonthOf_def)
  have "modern_month (MonthOf (mk_date 2019 3 1))"
    using plain_month [of first_plain_day] civil_day_number [of "mk_date 2019 3 1"] day_number_first_plain
    by (simp add: valid_date_def month_length_def)
  then have k: "modern_month k"
    by (rule modern_month_mono) (use b assms(4) in \<open>auto simp: k_def month_index_def MonthOf_def\<close>)
  have "month_index (MonthOf d) \<le> month_index (MonthOf today) + 1"
    using date_less_month [of "horizon_end today" d] assms(2) md m l by (force simp: me)
  then consider "month_index k < month_index (MonthOf today)" | "month_index k = month_index (MonthOf today)" using i by linarith
  then have "First k \<le> today"
  proof cases
    case 1
    then show ?thesis using date_less_month [of "First k" today] k m by simp
  next
    case 2
    then have "k = MonthOf today" using month_index_inj [OF k m] by simp
    moreover have "1 \<le> Day today" using assms(1) by (simp add: plain_def valid_date_def)
    ultimately show ?thesis using First_modern [OF m] by (cases today) (auto simp: MonthOf_def less_eq_Date_def less_Date_def)
  qed
  moreover have "MonthAdd (MonthOf d) (- 1) = k" by (rule MonthAdd_of_index [OF md k]) (simp add: i)
  ultimately show ?thesis by simp
qed

text \<open>C27: The work list misses no rule: from the day on which a rule paid from an account owes an occurrence
  that lies within five years of its cursor, the key written with that cursor puts it on the list.\<close>

theorem listed_when_owed:
  assumes "recurrence_ok r" "\<not> IsCard r" "\<not> RcArchived r" "2020 \<le> Year (SchStart (RcSchedule r))"
    and "IsZero cursor \<or> plain cursor" "plain today"
    and "d \<in> set (owed r cursor (horizon_end today))" "day_number d < owed_from r cursor + MaxSpanDays"
  shows "\<exists>k. NextMaterialiseDate r cursor = Some (Some k) \<and> k \<le> today"
proof -
  let ?s = "RcSchedule r" and ?lo = "owed_from r cursor"
  define w where "w = window ?s ?lo (max ?lo (day_number (SchStart ?s)) + MaxSpanDays)"
  note dd = assms(7) [unfolded set_owed [OF assms(1,5) horizon_plain(1) [OF assms(6)]]]
  obtain n where n: "d = civil n" "included (sched_expr ?s) d" "?lo \<le> n" "day_number (SchStart ?s) \<le> n"
      "IsZero (SchEnd ?s) \<or> n \<le> day_number (SchEnd ?s)"
    using assms(7) by (auto simp: owed_def set_window)
  have "n < max ?lo (day_number (SchStart ?s)) + MaxSpanDays" using assms(8) by (simp add: n(1))
  then have "d \<in> set w" using n by (auto simp: w_def set_window)
  then obtain f rest where w: "w = f # rest" "f \<le> d"
    using sorted_window [of ?s ?lo "max ?lo (day_number (SchStart ?s)) + MaxSpanDays"]
    by (cases w) (auto simp: w_def [symmetric] order_less_imp_le)
  have f: "f \<in> set w" by (simp add: w(1))
  then have fo: "SchStart ?s \<le> f" "valid_date f"
  proof -
    obtain m where m: "f = civil m" "day_number (SchStart ?s) \<le> m" using f by (auto simp: w_def set_window)
    have "valid_date (SchStart ?s)" using assms(1) by (simp add: recurrence_ok_def plain_def)
    then show "SchStart ?s \<le> f" using m day_number_le_iff [of "SchStart ?s" f] by simp
    show "valid_date f" by (simp add: m(1))
  qed
  then have "2020 \<le> Year f" using assms(4) by (auto simp: less_eq_Date_def less_Date_def)
  then have "First (MonthAdd (MonthOf f) (- 1)) \<le> today"
    using first_before_horizon [OF assms(6)] fo(2) w(2) dd by (meson order_trans)
  moreover have "NextMaterialiseDate r cursor = Some (Some (First (MonthAdd (MonthOf f) (- 1))))"
    using next_key [OF assms(1,5)] assms(2,3) by (simp add: w_def [symmetric] w(1))
  ultimately show ?thesis by blast
qed

theorem listed_when_owed_witness: "\<exists>k. NextMaterialiseDate job_rule (mk_date 2026 4 29) = Some (Some k) \<and> k \<le> job_today"
proof -
  have "job_day \<in> set (owed job_rule (mk_date 2026 4 29) (horizon_end job_today))"
    using job_owed by (simp add: still_owed_def job_row_def)
  moreover have "day_number job_day < owed_from job_rule (mk_date 2026 4 29) + MaxSpanDays"
    unfolding owed_from_def by code_simp
  moreover have "\<not> IsCard job_rule" "\<not> RcArchived job_rule" "2020 \<le> Year (SchStart (RcSchedule job_rule))"
    by (simp_all add: IsCard_def job_rule_def rent_rule_def every_month_def)
  ultimately show ?thesis using job_days(3) by (intro listed_when_owed [OF job_rule_ok _ _ _ _ job_days(1)]) simp_all
qed

end
