(* ===== verification/RecurringRaces.thy ===== *)
theory RecurringRaces
  imports Recurring
begin

text \<open>
  What theory \<open>Recurring\<close> does not promise: three ways in which two writers of the same recurrence, each
  doing what \<open>recurrences.go\<close> and \<open>bills.go\<close> let it, leave what neither asked for.
\<close>

subsection \<open>Three races\<close>

text \<open>How an answer goes through the checks before it.\<close>

lemma answers:
  "(case e of Some err \<Rightarrow> Some (Inl (f err)) | None \<Rightarrow> x) = Some (Inr y) \<longleftrightarrow> e = None \<and> x = Some (Inr y)"
  "(if c then Some (Inl err) else x) = Some (Inr y) \<longleftrightarrow> \<not> c \<and> x = Some (Inr y)"
  "Option.bind m g = Some (Inr y) \<longleftrightarrow> (\<exists>z. m = Some z \<and> g z = Some (Inr y))"
  "Some (case w of Inr s \<Rightarrow> Inr s | Inl err \<Rightarrow> if h err then Inl e1 else Inl e2) = Some (Inr y) \<longleftrightarrow> w = Inr y"
  by (auto simp: Option.bind_eq_Some_conv split: option.splits sum.splits)

text \<open>C38: An edit decides from the rule it read, and its write is conditioned on the cursor alone. An edit of
  the description alone that goes through goes through over every other state of the stored rule
  with the cursor that was read, by anyone who may write, with or without the right to settle; and
  it puts the amount, the category and the automatic settlement it read back over whatever the row
  holds by then.\<close>

theorem edit_overwrites_later_edit:
  assumes "RecurrenceUpdate cards sp rid p today read st = Some (Inr st')" "read rid = Some row"
    and "RpAmount p = None" "RpAutoSettle p = None" "RpCategoryID p = None" "RpEnd p = None"
    and "\<not> given (RpCardID p)" "\<not> given (RpAccountID p)"
    and "RrCursor now = RrCursor row" "Require sp2 Write = None"
  shows "\<exists>st'' new. RecurrenceUpdate cards sp2 rid p today read (st\<lparr>BsRecurrences := (BsRecurrences st)(rid \<mapsto> now)\<rparr>) = Some (Inr st'') \<and>
    BsRecurrences st'' rid = Some new \<and> RcAmount (RrRec new) = RcAmount (RrRec row) \<and>
    RcCategoryID (RrRec new) = RcCategoryID (RrRec row) \<and> RcAutoSettle (RrRec new) = RcAutoSettle (RrRec row)"
proof -
  let ?rec = "patched p (recurrence_of row)" and ?st = "st\<lparr>BsRecurrences := (BsRecurrences st)(rid \<mapsto> now)\<rparr>"
  have p: "RcAmount ?rec = RcAmount (recurrence_of row)" "RcAutoSettle ?rec = RcAutoSettle (recurrence_of row)"
    "RcCategoryID ?rec = RcCategoryID (recurrence_of row)" "RcAccountID ?rec = RcAccountID (recurrence_of row)"
    "endExtended p (recurrence_of row) r = False" for r
    using assms(3-8) by (simp_all add: patched_def opt_or_def Let_def endExtended_def)
  have o: "RcAmount (recurrence_of row) = RcAmount (RrRec row)" "RcAutoSettle (recurrence_of row) = RcAutoSettle (RrRec row)"
    "RcCategoryID (recurrence_of row) = RcCategoryID (RrRec row)"
    by (simp_all add: recurrence_of_def)
  define rec' where "rec' = (if RpArchive p then ?rec\<lparr>RcArchived := True\<rparr> else ?rec)"
  have r: "RcAmount rec' = RcAmount ?rec" "RcAutoSettle rec' = RcAutoSettle ?rec" "RcCategoryID rec' = RcCategoryID ?rec"
    by (simp_all add: rec'_def)
  have "(if IsZero (RrCursor row) then ValidateAt ?rec (AddDays today (- catchUpSlackDays)) else FinRecurrenceValidate ?rec) = None \<and>
      checkTarget cards rec' (BsLedger st) = None \<and> (\<exists>key. scheduleKeysFor rec' (RrCursor row) = Some key)"
    using assms(1) unfolding RecurrenceUpdate_def Let_def rec'_def assms(2)
    by (simp only: answers option.case p(5) simp_thms if_False) blast
  then obtain key where k: "(if IsZero (RrCursor row) then ValidateAt ?rec (AddDays today (- catchUpSlackDays)) else FinRecurrenceValidate ?rec) = None"
    "checkTarget cards rec' (BsLedger st) = None" "scheduleKeysFor rec' (RrCursor row) = Some key" by blast
  define st'' where "st'' = ?st\<lparr>BsRecurrences := (BsRecurrences ?st)(rid \<mapsto> rec_set p rec' (RrCursor row) (RrCursor row) key now)\<rparr>"
  have w: "BillWrite [UpdRecurrence rid (\<lambda>r. RrCursor r = RrCursor row) (rec_set p rec' (RrCursor row) (RrCursor row) key)] ?st = Inr st''"
    using assms(9) by (simp add: BillWrite_def st''_def)
  have "RecurrenceUpdate cards sp2 rid p today read ?st = Some (Inr st'')"
    unfolding RecurrenceUpdate_def Let_def assms(2) option.case rec'_def [symmetric]
    using k w by (simp add: assms(4,6,7,8,10) p)
  moreover have "BsRecurrences st'' rid = Some (rec_set p rec' (RrCursor row) (RrCursor row) key now)" by (simp add: st''_def)
  ultimately show ?thesis using p o r by (auto simp: rec_set_def Let_def)
qed

text \<open>C39: Making a bill from an occurrence does not look at the schedule of the rule: a bill the job makes from the
  rule it read is made all the same when the rule was given an earlier end since.\<close>

theorem end_moved_is_not_noticed:
  assumes "CreateFromOccurrence sp d rid meta fb ft reread st = Inr (True, b, st')" "BsRecurrences st rid = Some row"
  shows "\<exists>st''. CreateFromOccurrence sp d rid meta fb ft reread
      (st\<lparr>BsRecurrences := (BsRecurrences st)(rid \<mapsto> row\<lparr>RrRec := (RrRec row)\<lparr>RcSchedule := s\<rparr>\<rparr>)\<rparr>) = Inr (True, b, st'')"
proof -
  define st2 where "st2 = st\<lparr>BsRecurrences := (BsRecurrences st)(rid \<mapsto> row\<lparr>RrRec := (RrRec row)\<lparr>RcSchedule := s\<rparr>\<rparr>)\<rparr>"
  have cond: "BsLedger st2 = BsLedger st" "BsBills st2 = BsBills st" "BsLocks st2 = BsLocks st" by (simp_all add: st2_def)
  have chk: "bill_cond (recurrenceUnchanged rid b1) st2 = bill_cond (recurrenceUnchanged rid b1) st" for b1
    using assms(2) by (simp add: st2_def recurrenceUnchanged_def)
  have same: "\<exists>st''. createWithGuards sp b1 (Some (PutLock rid nominal l)) (Some (recurrenceUnchanged rid b1)) meta ft reread [] st2 = Inr (b, True, st'')"
    if g: "createWithGuards sp b1 (Some (PutLock rid nominal l)) (Some (recurrenceUnchanged rid b1)) meta ft reread [] st = Inr (b, True, st')"
    for b1 nominal l
  proof -
    obtain tx plan where t: "RecognizeBill the_sys (Facts b1) (BlCompetence b1) = Inr tx" "planPost sp tx (billMeta meta b1) ft = Inr plan"
      using g by (auto simp: createWithGuards_def split: sum.splits)
    define items where "items = map Led (PlItems plan) @ [PutBill (newBillItem (b1\<lparr>BlTransactionIDs := [PlTxID plan]\<rparr>)),
      PutLock rid nominal l, recurrenceUnchanged rid b1]"
    have run: "\<not> isl (BillWrite items st)" and b: "b = Some (b1\<lparr>BlTransactionIDs := [PlTxID plan]\<rparr>)"
      using g t by (auto simp: createWithGuards_def Let_def items_def split: sum.splits if_splits)
    have "list_all (\<lambda>i. bill_cond i st2) items = list_all (\<lambda>i. bill_cond i st) items"
      unfolding list_all_iff by (rule ball_cong [OF refl]) (use chk cond in \<open>auto simp: items_def\<close>)
    then obtain s2 where "BillWrite items st2 = Inr s2" using run by (simp add: BillWrite_def split: if_splits)
    then show ?thesis using t b by (simp add: createWithGuards_def Let_def items_def)
  qed
  let ?b = "(DfBill d)\<lparr>BlID := fb, BlStatus := BillForecast, BlPaidDate := mk_date 0 0 0, BlTransactionIDs := [],
      BlOrigin := OriginRecurrence, BlOriginRef := OccurrenceRef rid (DfNominal d)\<rparr>"
  have may: "Require sp (if BlAutoSettle (DfBill d) then Write OR Settle else Write) = None" "BillValidate ?b = None"
    using assms(1) by (auto simp: CreateFromOccurrence_def Let_def split: option.splits)
  have "createWithGuards sp ?b (Some (PutLock rid (DfNominal d) (bill_lock fb))) (Some (recurrenceUnchanged rid ?b)) meta ft reread [] st = Inr (b, True, st')"
    using assms(1) by (auto simp: CreateFromOccurrence_def Let_def may split: sum.splits prod.splits)
  from same [OF this] obtain st'' where
    "createWithGuards sp ?b (Some (PutLock rid (DfNominal d) (bill_lock fb))) (Some (recurrenceUnchanged rid ?b)) meta ft reread [] st2 = Inr (b, True, st'')" ..
  then show ?thesis by (simp add: CreateFromOccurrence_def Let_def may st2_def [symmetric])
qed

text \<open>C40: Putting an expected occurrence on the list of those that wait does not look at its lock. One that was
  confirmed before and is put there again can no longer be confirmed or skipped: either answer
  makes nothing and leaves it waiting.\<close>


theorem handled_occurrence_keeps_waiting:
  assumes "BsLocks st (RcID rec, nominal) = Some l" "LkState l \<noteq> ''skipped''"
    and "CreatePendingOccurrence sp rec nominal due pend st = Inr (True, st1)"
  shows "BsPending st1 (RcID rec, nominal) = Some (pendingItem rec nominal due) \<and>
    (\<forall>derive_id sp' amount meta fb ft reread made b st2. ConfirmExpectedOccurrence derive_id sp' (pendingItem rec nominal due) amount
        meta fb ft reread st1 = Inr (made, b, st2) \<longrightarrow> \<not> made \<and> st2 = st1) \<and>
    (\<forall>sp'. isl (SkipPendingOccurrence sp' (RcID rec) nominal (BsPending st1) (BsLocks st1) st1))"
proof (intro conjI allI impI)
  obtain chk where "BillWrite [PutPending (pendingItem rec nominal due), CheckRecurrence (RcID rec) chk] st = Inr st1"
    using assms(3) by (auto simp: CreatePendingOccurrence_def Let_def split: option.splits sum.splits if_splits)
  then have st1: "st1 = st\<lparr>BsPending := (BsPending st)((RcID rec, nominal) \<mapsto> pendingItem rec nominal due)\<rparr>"
    by (auto simp: BillWrite_def pendingItem_def split: if_splits)
  then show p: "BsPending st1 (RcID rec, nominal) = Some (pendingItem rec nominal due)" by simp
  have locked: "BsLocks st1 (RcID rec, nominal) = Some l" using assms(1) st1 by simp
  show "\<not> made" "st2 = st1" if c: "ConfirmExpectedOccurrence derive_id sp' (pendingItem rec nominal due) amount meta fb ft reread st1 = Inr (made, b, st2)"
    for derive_id sp' amount meta fb ft reread made b st2
  proof -
    obtain b1 x chk extra where "createWithGuards sp' b1 (Some (PutLock (RcID rec) nominal x)) chk meta ft reread extra st1 = Inr (b, made, st2)"
      using c by (auto simp: ConfirmExpectedOccurrence_def Let_def pendingItem_def split: option.splits sum.splits if_splits)
    from createWithGuards_cases [OF this] have "\<not> made \<and> st2 = st1"
      using locked by (auto simp: BillWrite_def list_all_iff split: if_splits)
    then show "\<not> made" "st2 = st1" by simp_all
  qed
  show "isl (SkipPendingOccurrence sp' (RcID rec) nominal (BsPending st1) (BsLocks st1) st1)" for sp'
    using p locked assms(2)
    by (auto simp: SkipPendingOccurrence_def BillWrite_def occurrenceWasSkipped_def onlyConditionFailed_def split: option.splits)
qed

subsection \<open>Each race, run\<close>

definition described :: "string \<Rightarrow> RecurrencePatch" where
  "described t = \<lparr>RpAmount = None, RpCategoryID = None, RpAccountID = None, RpDescription = Some t, RpAutoSettle = None,
     RpCardID = None, RpInstallments = None, RpEnd = None, RpArchive = False\<rparr>"

definition editor :: ResolvedSpace where
  "editor = sample_space\<lparr>SpVerbs := Read OR Write\<rparr>"

definition settling_row :: rec_row where
  "settling_row = job_row\<lparr>RrRec := job_rule\<lparr>RcAutoSettle := True\<rparr>\<rparr>"

lemma settling_ok: "recurrence_ok (job_rule\<lparr>RcAutoSettle := True, RcDescription := ''Rent''\<rparr>)"
proof -
  have "FinRecurrenceValidate (job_rule\<lparr>RcAutoSettle := True, RcDescription := ''Rent''\<rparr>) = None" by code_simp
  then show ?thesis using job_days(4) by (simp add: recurrence_ok_def job_rule_def every_month_def IsZero_def)
qed

definition edited_store :: "(rec_error, bill_store) result option" where
  "edited_store = RecurrenceUpdate {} editor ''r1'' (described ''Rent'') job_today [''r1'' \<mapsto> settling_row] job_store"

lemma edited_store: "\<exists>st'. edited_store = Some (Inr st')"
proof -
  let ?rec = "job_rule\<lparr>RcAutoSettle := True, RcDescription := ''Rent''\<rparr>" and ?c = "mk_date 2026 4 29"
  have row: "recurrence_of settling_row = job_rule\<lparr>RcAutoSettle := True\<rparr>" "RrCursor settling_row = ?c" "\<not> IsZero ?c"
    by (simp_all add: settling_row_def recurrence_of_def job_row_def job_rule_def rent_rule_def IsZero_def)
  have rec: "patched (described ''Rent'') (job_rule\<lparr>RcAutoSettle := True\<rparr>) = ?rec"
    by (simp add: patched_def described_def given_def opt_or_def)
  have may: "Require editor (if RpAutoSettle (described ''Rent'') = Some True then Write OR Settle else Write) = None" by code_simp
  have tgt: "checkTarget {} ?rec (BsLedger job_store) = None" by code_simp
  have valid: "FinRecurrenceValidate ?rec = None" using settling_ok by (simp add: recurrence_ok_def)
  obtain key where key: "scheduleKeysFor ?rec ?c = Some key"
    using next_key [OF settling_ok, of ?c] job_days(3) by (simp add: scheduleKeysFor_def)
  have d: "RpEnd (described ''Rent'') = None" "\<not> RpArchive (described ''Rent'')" "\<not> given (RpCardID (described ''Rent''))"
    by (simp_all add: described_def given_def)
  have store: "BsRecurrences job_store ''r1'' = Some job_row" "RrCursor job_row = ?c"
    by (simp_all add: job_store_def job_row_def)
  show ?thesis
    unfolding edited_store_def RecurrenceUpdate_def
    by (simp add: may row rec Let_def valid d tgt endExtended_def key BillWrite_def store)
qed

theorem edit_overwrites_later_edit_witness:
  "\<not> RcAutoSettle job_rule \<and> Require editor Settle \<noteq> None \<and>
   (\<exists>st' new. edited_store = Some (Inr st') \<and> BsRecurrences st' ''r1'' = Some new \<and> RcAutoSettle (RrRec new))"
proof (intro conjI)
  show "\<not> RcAutoSettle job_rule" "Require editor Settle \<noteq> None" by code_simp+
  have may: "Require editor Write = None" by code_simp
  obtain st' where e: "edited_store = Some (Inr st')" using edited_store by blast
  have d: "RpAmount (described ''Rent'') = None" "RpAutoSettle (described ''Rent'') = None" "RpCategoryID (described ''Rent'') = None"
    "RpEnd (described ''Rent'') = None" "\<not> given (RpCardID (described ''Rent''))" "\<not> given (RpAccountID (described ''Rent''))"
    by (simp_all add: described_def given_def)
  have row: "[''r1'' \<mapsto> settling_row] ''r1'' = Some settling_row" "RrCursor job_row = RrCursor settling_row"
    by (simp_all add: settling_row_def)
  have same: "job_store\<lparr>BsRecurrences := (BsRecurrences job_store)(''r1'' \<mapsto> job_row)\<rparr> = job_store"
    by (simp add: job_store_def)
  obtain st2 new where "edited_store = Some (Inr st2)" "BsRecurrences st2 ''r1'' = Some new"
    "RcAutoSettle (RrRec new) = RcAutoSettle (RrRec settling_row)"
    using edit_overwrites_later_edit [OF e [unfolded edited_store_def] row(1) d row(2) may]
    unfolding same edited_store_def by blast
  then show "\<exists>st' new. edited_store = Some (Inr st') \<and> BsRecurrences st' ''r1'' = Some new \<and> RcAutoSettle (RrRec new)"
    by (auto simp: settling_row_def)
qed

text \<open>The rule now ends on 15 April; the bill of 30 April is made from the rule read before.\<close>

definition ended_row :: rec_row where
  "ended_row = job_row\<lparr>RrRec := job_rule\<lparr>RcSchedule := (RcSchedule job_rule)\<lparr>SchEnd := mk_date 2026 4 15\<rparr>\<rparr>\<rparr>"

theorem end_moved_is_not_noticed_witness:
  "SchEnd (RcSchedule (RrRec ended_row)) < DfNominal job_draft \<and>
   (\<exists>b st''. CreateFromOccurrence sample_space job_draft ''r1'' job_meta ''b1'' ''t1'' Map.empty
      (job_store\<lparr>BsRecurrences := [''r1'' \<mapsto> ended_row]\<rparr>) = Inr (True, b, st''))"
proof
  show "SchEnd (RcSchedule (RrRec ended_row)) < DfNominal job_draft"
    by (simp add: ended_row_def job_draft_def draft_of_def occ_def less_Date_def)
  obtain b where made: "CreateFromOccurrence sample_space job_draft ''r1'' job_meta ''b1'' ''t1'' Map.empty job_store =
      Inr (True, b, snd (snd (projr job_made)))"
    using job_creates by (auto simp: bill_create_def split: sum.splits)
  have row: "BsRecurrences job_store ''r1'' = Some job_row" by (simp add: job_store_def)
  have "job_store\<lparr>BsRecurrences := [''r1'' \<mapsto> ended_row]\<rparr> = job_store\<lparr>BsRecurrences := (BsRecurrences job_store)(''r1'' \<mapsto>
      job_row\<lparr>RrRec := (RrRec job_row)\<lparr>RcSchedule := (RcSchedule job_rule)\<lparr>SchEnd := mk_date 2026 4 15\<rparr>\<rparr>\<rparr>)\<rparr>"
    by (simp add: job_store_def ended_row_def job_row_def)
  then show "\<exists>b st''. CreateFromOccurrence sample_space job_draft ''r1'' job_meta ''b1'' ''t1'' Map.empty
      (job_store\<lparr>BsRecurrences := [''r1'' \<mapsto> ended_row]\<rparr>) = Inr (True, b, st'')"
    using end_moved_is_not_noticed [OF made row, of "(RcSchedule job_rule)\<lparr>SchEnd := mk_date 2026 4 15\<rparr>"] by auto
qed

text \<open>An expected rule whose occurrence of 30 April was confirmed.\<close>

definition expected_rule :: FinRecurrence where
  "expected_rule = job_rule\<lparr>RcAmountMode := AmountExpected\<rparr>"

definition confirmed_store :: bill_store where
  "confirmed_store = bills0\<lparr>BsRecurrences := [''r1'' \<mapsto> job_row\<lparr>RrRec := expected_rule\<rparr>], BsLocks := [(''r1'', job_day) \<mapsto> bill_lock ''b1'']\<rparr>"

theorem handled_occurrence_keeps_waiting_witness:
  "\<exists>st1. CreatePendingOccurrence sample_space expected_rule job_day job_day Map.empty confirmed_store = Inr (True, st1) \<and>
    BsPending st1 (''r1'', job_day) \<noteq> None \<and> isl (SkipPendingOccurrence sample_space ''r1'' job_day (BsPending st1) (BsLocks st1) st1)"
proof -
  have may: "Require sample_space Write = None" by code_simp
  have id: "RcID expected_rule = ''r1''" by (simp add: expected_rule_def job_rule_def rent_rule_def)
  have s: "BsPending confirmed_store = Map.empty" "BsLocks confirmed_store (''r1'', job_day) = Some (bill_lock ''b1'')"
    "BsRecurrences confirmed_store ''r1'' = Some (job_row\<lparr>RrRec := expected_rule\<rparr>)"
    by (simp_all add: confirmed_store_def bills0_def)
  have l: "LkState (bill_lock ''b1'') \<noteq> ''skipped''" by (simp add: bill_lock_def)
  have "\<exists>st1. CreatePendingOccurrence sample_space expected_rule job_day job_day Map.empty confirmed_store = Inr (True, st1)"
    by (simp add: CreatePendingOccurrence_def may Let_def BillWrite_def id s pendingItem_def)
      (simp add: expected_rule_def job_rule_def rent_rule_def every_month_def IsZero_def)
  then obtain st1 where p: "CreatePendingOccurrence sample_space expected_rule job_day job_day Map.empty confirmed_store = Inr (True, st1)" ..
  show ?thesis
    using handled_occurrence_keeps_waiting [OF s(2) [folded id] l p] p by (auto simp: id)
qed

end
