(* ===== verification/Invoicing.thy ===== *)
theory Invoicing
  imports Lines Dunner Tenant "HOL-Library.List_Lexorder" "HOL-Library.Char_ord"
begin

text \<open>
  The daily sweep that turns a due period of a subscription into an issued invoice:
  \<open>api/internal/services/invoicing.go\<close> over \<open>repositories/invoices.go\<close> (\<open>Create\<close>, \<open>GetByGenerationKey\<close>,
  \<open>Finalize\<close>, \<open>Transition\<close>) and \<open>repositories/subscriptions.go\<close> (\<open>ListItems\<close>, \<open>Transition\<close>,
  \<open>ApplyScheduledChange\<close>). The store holds the rows of one tenant in one mode. Each transaction meets the
  next outcome of a list: it works, is refused for a conflict, is not written, or is written without an
  answer; a run that dies is one whose transactions, from some point on, are not written. Reads that
  fail end a run as a write that fails does. The catalogue, the usage, the levels and the organization
  are what the run reads. Realtime rows are not modelled; the charge creator is the list of the invoices
  it is handed. Numbers do not reach the end of 64 bits.
\<close>

subsection \<open>The rows of a tenant\<close>

record sweep_store =
  TnInvoices :: "string \<rightharpoonup> invoice_row"
  TnKeys :: "string \<rightharpoonup> string"
  TnLines :: "string \<rightharpoonup> InvoiceItem list"
  TnMarkers :: "string \<rightharpoonup> string"
  TnCounters :: "int \<rightharpoonup> int"
  TnSubs :: "string \<rightharpoonup> subscription_row"
  TnItems :: "string \<Rightarrow> SubscriptionItem list"
  TnOutbox :: "(string \<times> EventType) list"
  TnAudit :: "audit_entry list"
  TnCharges :: "string list"
  TnOutcomes :: "outcome list"

datatype sweep_error =
    ErrRepo repo_error | ErrAlreadyGenerated | ErrStore | ErrTransactionConflict | ErrNotDraft
  | ErrSweepMetadata metadata_error | ErrLines items_error | ErrNoItems | ErrItem item_error | ErrCatalog
  | ErrUsageRead | ErrLevelsNotWired | ErrLevelsRead | ErrOrganizationRead | ErrPanic

text \<open>One transaction: what it answers and what it leaves.\<close>

definition transact ::
  "(sweep_store \<Rightarrow> (sweep_error, 'a \<times> sweep_store) result) \<Rightarrow> sweep_store \<Rightarrow> (sweep_error, 'a) result \<times> sweep_store" where
  "transact body st =
     (let st1 = st\<lparr>TnOutcomes := tl (TnOutcomes st)\<rparr>
      in case (case TnOutcomes st of [] \<Rightarrow> Works | o1 # _ \<Rightarrow> o1) of
           Works \<Rightarrow> (case body st1 of Inl err \<Rightarrow> (Inl err, st1) | Inr (x, st2) \<Rightarrow> (Inr x, st2))
         | Conflicted \<Rightarrow> (Inl ErrTransactionConflict, st1)
         | NotWritten \<Rightarrow> (Inl ErrStore, st1)
         | NotAnswered \<Rightarrow> (Inl ErrStore, case body st1 of Inl _ \<Rightarrow> st1 | Inr (_, st2) \<Rightarrow> st2))"

text \<open>The rows theory \<open>Dunner\<close> describes, of one invoice or one subscription of the tenant.\<close>

definition invoice_view :: "string \<Rightarrow> invoice_row \<Rightarrow> sweep_store \<Rightarrow> store" where
  "invoice_view i row st = \<lparr>StInvoice = row, StSubscription = None, StOutbox = TnOutbox st, StAudit = TnAudit st\<rparr>"

definition put_invoice_view :: "string \<Rightarrow> store \<Rightarrow> sweep_store \<Rightarrow> sweep_store" where
  "put_invoice_view i v st = st\<lparr>TnInvoices := (TnInvoices st)(i \<mapsto> StInvoice v), TnOutbox := StOutbox v, TnAudit := StAudit v\<rparr>"

definition note_change :: "string \<Rightarrow> EventType list \<Rightarrow> Cause \<Rightarrow> string \<Rightarrow> sweep_store \<Rightarrow> sweep_store" where
  "note_change eid events cause actor st =
     st\<lparr>TnOutbox := TnOutbox st @ map (Pair eid) events,
        TnAudit := TnAudit st @ [\<lparr>AuditEntityID = eid, AuditAction = hd events, AuditCause = cause, AuditActor = actor\<rparr>]\<rparr>"

subsection \<open>The invoice repository\<close>

text \<open>The invoice row, its lines and the marker of its key, or none of them.\<close>

definition InvoiceCreate ::
  "Invoice \<Rightarrow> InvoiceItem list \<Rightarrow> string \<Rightarrow> sweep_store \<Rightarrow> (sweep_error, unit) result \<times> sweep_store" where
  "InvoiceCreate i items key st =
     (if InvStatus i \<noteq> InvoiceDraft then (Inl ErrNotDraft, st)
      else case MetadataValidate (InvMetadata i) of Some err \<Rightarrow> (Inl (ErrSweepMetadata err), st)
      | None \<Rightarrow> transact (\<lambda>st.
          if TnInvoices st (InvID i) \<noteq> None \<or> TnLines st (InvID i) \<noteq> None \<or> key \<noteq> '''' \<and> TnMarkers st key \<noteq> None
          then Inl ErrAlreadyGenerated
          else Inr ((), st\<lparr>TnInvoices := (TnInvoices st)(InvID i \<mapsto> \<lparr>RowInvoice = i, RowSchedule = Unscheduled\<rparr>),
                           TnKeys := (TnKeys st)(InvID i \<mapsto> key),
                           TnLines := (TnLines st)(InvID i \<mapsto> items),
                           TnMarkers := (if key \<noteq> '''' then (TnMarkers st)(key \<mapsto> InvID i) else TnMarkers st)\<rparr>)) st)"

definition GetByGenerationKey :: "string \<Rightarrow> sweep_store \<Rightarrow> Invoice option" where
  "GetByGenerationKey key st =
     (case TnMarkers st key of None \<Rightarrow> None | Some i \<Rightarrow> map_option RowInvoice (TnInvoices st i))"

definition numberingAttempts :: nat where "numberingAttempts = 12"

definition currentNumber :: "int \<Rightarrow> sweep_store \<Rightarrow> int" where
  "currentNumber year st = (case TnCounters st year of None \<Rightarrow> 0 | Some n \<Rightarrow> n)"

text \<open>
  One attempt's write: the number goes to the invoice if the counter is still what was read and the
  invoice still a draft. \<open>i\<close> is the copy the caller read, \<open>u\<close> that copy as it will be.
\<close>

definition finalize_write ::
  "Invoice \<Rightarrow> Invoice \<Rightarrow> EventType list \<Rightarrow> Date \<Rightarrow> Cause \<Rightarrow> string \<Rightarrow> int \<Rightarrow> sweep_store \<Rightarrow> (sweep_error, unit \<times> sweep_store) result" where
  "finalize_write i u events settlement cause actor current st =
     (let year = Year (Start (InvPeriod i))
      in case TnInvoices st (InvID i) of
           None \<Rightarrow> Inl (ErrRepo ErrConcurrentModification)
         | Some row \<Rightarrow>
             if InvStatus (RowInvoice row) \<noteq> InvoiceDraft \<or> (case TnCounters st year of None \<Rightarrow> False | Some n \<Rightarrow> n \<noteq> current)
             then Inl (ErrRepo ErrConcurrentModification)
             else let r = (RowInvoice row)\<lparr>InvStatus := InvoiceOpen, InvNumber := current + 1, InvDueDate := InvDueDate u\<rparr>;
                      r = (if CollectionSettingsIsZero (InvCollection u) then r else r\<lparr>InvCollection := InvCollection u\<rparr>);
                      sched = (if IsZero settlement then RowSchedule row else SettlementOn settlement)
                  in Inr ((), note_change (InvID i) events cause actor
                       (st\<lparr>TnInvoices := (TnInvoices st)(InvID i \<mapsto> \<lparr>RowInvoice = r, RowSchedule = sched\<rparr>),
                           TnCounters := (TnCounters st)(year \<mapsto> current + 1)\<rparr>)))"

text \<open>\<open>others k\<close> is what the other writers do between the read and the write with \<open>k\<close> attempts left.\<close>

fun finalize_attempts ::
  "nat \<Rightarrow> (nat \<Rightarrow> sweep_store \<Rightarrow> sweep_store) \<Rightarrow> Invoice \<Rightarrow> Invoice \<Rightarrow> EventType list \<Rightarrow> Date \<Rightarrow> Cause \<Rightarrow> string \<Rightarrow> sweep_store \<Rightarrow>
     (sweep_error, Invoice) result \<times> sweep_store" where
  "finalize_attempts 0 others i u events settlement cause actor st = (Inl (ErrRepo ErrConcurrentModification), st)"
| "finalize_attempts (Suc k) others i u events settlement cause actor st =
     (let current = currentNumber (Year (Start (InvPeriod i))) st
      in if actor = '''' then (Inl (ErrRepo ErrNoActor), st)
         else case transact (finalize_write i u events settlement cause actor current) (others k st) of
           (Inr _, st') \<Rightarrow> (Inr (u\<lparr>InvNumber := current + 1\<rparr>), st')
         | (Inl err, st') \<Rightarrow>
             if err \<noteq> ErrRepo ErrConcurrentModification \<and> err \<noteq> ErrTransactionConflict then (Inl err, st')
             else case TnInvoices st' (InvID i) of
               None \<Rightarrow> (Inl (ErrRepo ErrNotFound), st')
             | Some row \<Rightarrow>
                 if InvStatus (RowInvoice row) \<noteq> InvoiceDraft then (Inl (ErrRepo ErrConcurrentModification), st')
                 else finalize_attempts k others i u events settlement cause actor st')"

definition Finalize ::
  "(nat \<Rightarrow> sweep_store \<Rightarrow> sweep_store) \<Rightarrow> Invoice \<Rightarrow> Date \<Rightarrow> Date \<Rightarrow> Cause \<Rightarrow> string \<Rightarrow> sweep_store \<Rightarrow>
     (sweep_error, Invoice) result \<times> sweep_store" where
  "Finalize others i dueDate settlement cause actor st =
     (case InvoiceTransition i InvoiceOpen cause of
        Inl err \<Rightarrow> (Inl (ErrRepo (ErrTransition err)), st)
      | Inr (updated, events) \<Rightarrow>
          finalize_attempts numberingAttempts others i (updated\<lparr>InvDueDate := dueDate\<rparr>) events settlement cause actor st)"

definition TransitionInvoice ::
  "Invoice \<Rightarrow> InvoiceStatus \<Rightarrow> Cause \<Rightarrow> string \<Rightarrow> int \<Rightarrow> sweep_store \<Rightarrow> (sweep_error, Invoice) result \<times> sweep_store" where
  "TransitionInvoice i dst cause actor now st =
     (case InvoiceTransition i dst cause of
        Inl err \<Rightarrow> (Inl (ErrRepo (ErrTransition err)), st)
      | Inr _ \<Rightarrow>
          if actor = '''' then (Inl (ErrRepo ErrNoActor), st)
          else transact (\<lambda>st.
            case TnInvoices st (InvID i) of
              None \<Rightarrow> Inl (ErrRepo ErrConcurrentModification)
            | Some row \<Rightarrow>
                (case InvoiceRepositoryTransition i dst cause actor now (invoice_view (InvID i) row st) of
                   Inl err \<Rightarrow> Inl (ErrRepo err)
                 | Inr (i', v) \<Rightarrow> Inr (i', put_invoice_view (InvID i) v st))) st)"

subsection \<open>The subscription repository\<close>

definition ListItems :: "string \<Rightarrow> sweep_store \<Rightarrow> SubscriptionItem list" where
  "ListItems sid st = take 50 (TnItems st sid)"

definition subscription_view :: "invoice_row \<Rightarrow> subscription_row option \<Rightarrow> sweep_store \<Rightarrow> store" where
  "subscription_view any row st = \<lparr>StInvoice = any, StSubscription = row, StOutbox = TnOutbox st, StAudit = TnAudit st\<rparr>"

text \<open>Theory \<open>Dunner\<close>'s transition of a subscription looks at no invoice: any row does.\<close>

definition no_invoice :: invoice_row where
  "no_invoice = \<lparr>RowInvoice = \<lparr>InvID = '''', InvOrganizationID = '''', InvLivemode = False, InvCustomerID = '''',
      InvSubscriptionID = '''', InvStatus = InvoiceDraft, InvOwnerKey = '''', InvReference = '''', InvPayerMessage = '''',
      InvPixExpiresInSeconds = 0, InvPDFKey = '''', InvPolicy = [],
      InvCollection = \<lparr>FineBasisPoints = 0, MonthlyInterestBasisPoints = 0\<rparr>, InvDunningStep = 0, InvLastRemindedAt = None,
      InvNumber = 0, InvPeriod = \<lparr>Start = mk_date 0 0 0, End = mk_date 0 0 0\<rparr>, InvDueDate = mk_date 0 0 0,
      InvCurrency = '''', InvSubtotal = 0, InvDiscount = 0, InvTotal = 0, InvAmountPaid = 0, InvCreditedTotal = 0,
      InvPaidAt = None, InvAttemptCount = 0, InvMetadata = []\<rparr>, RowSchedule = Unscheduled\<rparr>"

definition TransitionSubscription ::
  "Subscription \<Rightarrow> SubscriptionStatus \<Rightarrow> Cause \<Rightarrow> string \<Rightarrow> sweep_store \<Rightarrow> (sweep_error, Subscription) result \<times> sweep_store" where
  "TransitionSubscription s dst cause actor st =
     (case SubscriptionTransition s dst cause of
        Inl err \<Rightarrow> (Inl (ErrRepo (ErrTransition err)), st)
      | Inr (updated, _) \<Rightarrow>
          if sweepable updated \<and> nextSweepDate updated = None then (Inl ErrPanic, st)
          else if actor = '''' then (Inl (ErrRepo ErrNoActor), st)
          else transact (\<lambda>st.
            case SubscriptionRepositoryTransition s dst cause actor (subscription_view no_invoice (TnSubs st (SubID s)) st) of
              Inl err \<Rightarrow> Inl (ErrRepo err)
            | Inr (s', v) \<Rightarrow> Inr (s', st\<lparr>TnSubs := (TnSubs st)(SubID s := StSubscription v), TnOutbox := StOutbox v,
                                         TnAudit := StAudit v\<rparr>)) st)"

fun validate_items :: "SubscriptionItem list \<Rightarrow> item_error option" where
  "validate_items [] = None"
| "validate_items (it # its) = (case SubscriptionItemValidate it of Some err \<Rightarrow> Some err | None \<Rightarrow> validate_items its)"

text \<open>Deleting rows that are not there is no error; putting one that is there is.\<close>

definition swap_items :: "SubscriptionItem list \<Rightarrow> SubscriptionItem list \<Rightarrow> SubscriptionItem list \<Rightarrow> SubscriptionItem list" where
  "swap_items old new rows = sort_key SiID (filter (\<lambda>it. SiID it \<notin> SiID ` set old) rows @ new)"

definition changeItems ::
  "Subscription \<Rightarrow> SubscriptionItem list \<Rightarrow> SubscriptionItem list \<Rightarrow> BillingTiming \<Rightarrow> string \<Rightarrow> Cause \<Rightarrow> string \<Rightarrow> bool \<Rightarrow> sweep_store \<Rightarrow>
     (sweep_error, Subscription) result \<times> sweep_store" where
  "changeItems s oldItems newItems timing ownerKey cause actor renew st =
     (if newItems = [] then (Inl ErrNoItems, st)
      else case SubscriptionTransition (s\<lparr>SubTiming := timing, SubOwnerKey := ownerKey\<rparr>) (SubStatus s) cause of
        Inl err \<Rightarrow> (Inl (ErrRepo (ErrTransition err)), st)
      | Inr (updated, events) \<Rightarrow>
          let updated = updated\<lparr>SubPendingChange := None\<rparr>;
              updated = (if renew then updated\<lparr>SubPeriodIndex := SubPeriodIndex updated + 1\<rparr> else updated);
              events = (if renew then events @ [EventSubscriptionRenewed] else events)
          in case validate_items newItems of Some err \<Rightarrow> (Inl (ErrItem err), st)
          | None \<Rightarrow>
            (case nextSweepDate updated of None \<Rightarrow> (Inl ErrPanic, st)
             | Some sweep \<Rightarrow>
               if actor = '''' then (Inl (ErrRepo ErrNoActor), st)
               else transact (\<lambda>st.
                 case TnSubs st (SubID s) of
                   None \<Rightarrow> Inl (ErrRepo ErrConcurrentModification)
                 | Some row \<Rightarrow>
                     if SubStatus (RowSubscription row) \<noteq> SubStatus s \<or>
                        (\<exists>it \<in> set newItems. SiID it \<in> SiID ` (set (TnItems st (SubID s)) - set oldItems))
                     then Inl (ErrRepo ErrConcurrentModification)
                     else let r = (RowSubscription row)\<lparr>SubStatus := SubStatus updated, SubTiming := timing, SubOwnerKey := ownerKey,
                                    SubPendingChange := None, SubPeriodIndex := SubPeriodIndex updated\<rparr>
                          in Inr (updated, note_change (SubID s) events cause actor
                               (st\<lparr>TnSubs := (TnSubs st)(SubID s \<mapsto> \<lparr>RowSubscription = r, RowSweepOn = Some sweep\<rparr>),
                                   TnItems := (TnItems st)(SubID s := swap_items oldItems newItems (TnItems st (SubID s)))\<rparr>))) st))"

definition ApplyScheduledChange ::
  "Subscription \<Rightarrow> SubscriptionItem list \<Rightarrow> SubscriptionItem list \<Rightarrow> BillingTiming \<Rightarrow> string \<Rightarrow> string \<Rightarrow> sweep_store \<Rightarrow>
     (sweep_error, Subscription) result \<times> sweep_store" where
  "ApplyScheduledChange s oldItems newItems timing ownerKey actor st =
     changeItems s oldItems newItems timing ownerKey CauseScheduler actor True st"

subsection \<open>Generating the invoice of a period\<close>

text \<open>What a run reads, and which optional collaborators it was given.\<close>

record reads =
  RdPrice :: "string \<Rightarrow> Price option"
  RdProduct :: "string \<Rightarrow> Product option"
  RdUsage :: "string \<Rightarrow> Date \<Rightarrow> UsageRecord list option"
  RdExternalRef :: "string \<Rightarrow> string option"
  RdLevelsWired :: bool
  RdCarried :: "string \<Rightarrow> string \<Rightarrow> Date \<Rightarrow> int option"
  RdLevels :: "string \<Rightarrow> string \<Rightarrow> Period \<Rightarrow> LevelRecord list option"
  RdOrgsWired :: bool
  RdOrganization :: "Organization option"
  RdChargesWired :: bool

definition maxLevel :: "reads \<Rightarrow> Subscription \<Rightarrow> Price \<Rightarrow> Period \<Rightarrow> (sweep_error, int) result" where
  "maxLevel rd sub price period =
     (if \<not> RdLevelsWired rd then Inl ErrLevelsNotWired
      else case RdExternalRef rd (SubCustomerID sub) of
        None \<Rightarrow> Inl ErrLevelsRead
      | Some ref \<Rightarrow>
          if ref = '''' then Inl ErrLevelsRead
          else case RdCarried rd ref (PriceMeter price) (Start period) of
            None \<Rightarrow> Inl ErrLevelsRead
          | Some carried \<Rightarrow>
              (case RdLevels rd ref (PriceMeter price) period of
                 None \<Rightarrow> Inl ErrLevelsRead | Some records \<Rightarrow> Inr (MaxLevel records carried period)))"

definition buildLine ::
  "reads \<Rightarrow> Subscription \<Rightarrow> SubscriptionItem \<Rightarrow> Price \<Rightarrow> Product \<Rightarrow> Period \<Rightarrow> (sweep_error, InvoiceItem) result" where
  "buildLine rd sub item price product period =
     (if PriceType' price \<noteq> PriceMetered then Inr (FixedLine price (Label price (ProdName product)) period (SiQuantity item))
      else if PriceAggregation price = AggregationMax then
        (case maxLevel rd sub price period of Inl err \<Rightarrow> Inl err
         | Inr units \<Rightarrow> Inr (MeteredLine price (Label price (ProdName product)) period units))
      else case RdUsage rd (SiID item) (Start period) of
        None \<Rightarrow> Inl ErrUsageRead
      | Some records \<Rightarrow>
          Inr (MeteredLine price (Label price (ProdName product)) period (SumUsage (DeduplicateUsage records) period)))"

fun build_lines ::
  "reads \<Rightarrow> Subscription \<Rightarrow> Period \<Rightarrow> SubscriptionItem list \<Rightarrow> (sweep_error, InvoiceItem list \<times> DunningSchedule list) result" where
  "build_lines rd sub period [] = Inr ([], [])"
| "build_lines rd sub period (item # items) =
     (case RdPrice rd (SiPriceID item) of None \<Rightarrow> Inl ErrCatalog
      | Some price \<Rightarrow>
        (case RdProduct rd (PriceProductID price) of None \<Rightarrow> Inl ErrCatalog
         | Some product \<Rightarrow>
           (case buildLine rd sub item price product period of Inl err \<Rightarrow> Inl err
            | Inr line \<Rightarrow>
              (case build_lines rd sub period items of Inl err \<Rightarrow> Inl err
               | Inr (lines, policies) \<Rightarrow> Inr (line # lines, ProdDunningPolicy product # policies)))))"

definition resolvePolicy :: "reads \<Rightarrow> DunningSchedule list \<Rightarrow> (sweep_error, DunningSchedule) result" where
  "resolvePolicy rd products =
     (if \<not> RdOrgsWired rd then Inr (ResolveDunningPolicy [] products)
      else case RdOrganization rd of None \<Rightarrow> Inl ErrOrganizationRead
      | Some org \<Rightarrow> Inr (ResolveDunningPolicy (OrgDunningPolicy org) products))"

definition finalize ::
  "reads \<Rightarrow> (nat \<Rightarrow> sweep_store \<Rightarrow> sweep_store) \<Rightarrow> Invoice \<Rightarrow> Date \<Rightarrow> Date \<Rightarrow> Cause \<Rightarrow> string \<Rightarrow> sweep_store \<Rightarrow>
     (sweep_error, Invoice) result \<times> sweep_store" where
  "finalize rd others i dueDate settlement cause actor st =
     (let i = (if RdOrgsWired rd \<and> RdChargesWired rd
               then (case RdOrganization rd of None \<Rightarrow> i
                     | Some org \<Rightarrow> if Rail org = RailBYOK then i\<lparr>InvCollection := OrgCollection org\<rparr> else i)
               else i)
      in case Finalize others i dueDate settlement cause actor st of
           (Inl err, st') \<Rightarrow> (Inl err, st')
         | (Inr i', st') \<Rightarrow>
             (Inr i', if RdChargesWired rd \<and> \<not> NothingDue i' then st'\<lparr>TnCharges := TnCharges st' @ [InvID i']\<rparr> else st'))"

definition issue ::
  "reads \<Rightarrow> (nat \<Rightarrow> sweep_store \<Rightarrow> sweep_store) \<Rightarrow> Invoice \<Rightarrow> Subscription \<Rightarrow> Period \<Rightarrow> string \<Rightarrow> int \<Rightarrow> sweep_store \<Rightarrow>
     (sweep_error, Invoice) result \<times> sweep_store" where
  "issue rd others i sub period actor now st =
     (case DueDate period (SubTiming sub) (SubNetDays sub) of
        None \<Rightarrow> (Inl ErrPanic, st)
      | Some dueDate \<Rightarrow>
          if NothingDue i then
            (case finalize rd others i dueDate (mk_date 0 0 0) CauseScheduler actor st of
               (Inl err, st1) \<Rightarrow> (Inl err, st1)
             | (Inr i1, st1) \<Rightarrow> TransitionInvoice i1 InvoicePaid CauseNothingDue actor now st1)
          else finalize rd others i dueDate (FirstDunningDate (Schedule i) dueDate) CauseScheduler actor st)"

definition draft_invoice :: "string \<Rightarrow> Subscription \<Rightarrow> Period \<Rightarrow> DunningSchedule \<Rightarrow> Invoice" where
  "draft_invoice fresh sub period policy = (RowInvoice no_invoice)\<lparr>InvID := fresh, InvOrganizationID := SubOrganizationID sub,
     InvLivemode := SubLivemode sub, InvCustomerID := SubCustomerID sub, InvSubscriptionID := SubID sub,
     InvOwnerKey := SubOwnerKey sub, InvStatus := InvoiceDraft, InvPeriod := period, InvCurrency := CurrencyBRL,
     InvMetadata := MetadataClone (SubMetadata sub), InvPolicy := policy\<rparr>"

definition GenerateForPeriod ::
  "reads \<Rightarrow> (nat \<Rightarrow> sweep_store \<Rightarrow> sweep_store) \<Rightarrow> string \<Rightarrow> Subscription \<Rightarrow> SubscriptionItem list \<Rightarrow> Period \<Rightarrow> string \<Rightarrow> int \<Rightarrow>
     sweep_store \<Rightarrow> (sweep_error, Invoice) result \<times> sweep_store" where
  "GenerateForPeriod rd others fresh sub items period actor now st =
     (if items = [] then (Inl ErrNoItems, st)
      else case build_lines rd sub period items of Inl err \<Rightarrow> (Inl err, st)
      | Inr (lines, policies) \<Rightarrow>
        (case resolvePolicy rd policies of Inl err \<Rightarrow> (Inl err, st)
         | Inr policy \<Rightarrow>
           (case ApplyToInvoice (draft_invoice fresh sub period policy) lines 0 of Inl err \<Rightarrow> (Inl (ErrLines err), st)
            | Inr i \<Rightarrow>
              (case InvoiceCreate i lines (GenerationKey (SubID sub) (Start period)) st of
                 (Inl err, st1) \<Rightarrow> (Inl err, st1)
               | (Inr _, st1) \<Rightarrow> issue rd others i sub period actor now st1))))"

subsection \<open>The sweep\<close>

definition issueLeftoverDraft ::
  "reads \<Rightarrow> (nat \<Rightarrow> sweep_store \<Rightarrow> sweep_store) \<Rightarrow> Subscription \<Rightarrow> Period \<Rightarrow> string \<Rightarrow> int \<Rightarrow> sweep_store \<Rightarrow>
     (sweep_error, unit) result \<times> sweep_store" where
  "issueLeftoverDraft rd others sub period actor now st =
     (case GetByGenerationKey (GenerationKey (SubID sub) (Start period)) st of
        None \<Rightarrow> (Inl (ErrRepo ErrNotFound), st)
      | Some i \<Rightarrow>
          if InvStatus i \<noteq> InvoiceDraft then (Inr (), st)
          else (case issue rd others i sub period actor now st of
                  (Inl err, st1) \<Rightarrow> (Inl err, st1) | (Inr _, st1) \<Rightarrow> (Inr (), st1)))"

definition tolerated :: "sweep_error \<Rightarrow> bool" where
  "tolerated err \<longleftrightarrow> err = ErrRepo ErrConcurrentModification \<or> err = ErrRepo (ErrTransition ErrInvalidTransition)"

definition endAtBoundary ::
  "reads \<Rightarrow> (nat \<Rightarrow> sweep_store \<Rightarrow> sweep_store) \<Rightarrow> string \<Rightarrow> Subscription \<Rightarrow> SubscriptionItem list \<Rightarrow> string \<Rightarrow> int \<Rightarrow> sweep_store \<Rightarrow>
     (sweep_error, unit) result \<times> sweep_store" where
  "endAtBoundary rd others fresh sub items actor now st =
     (case (if SubTiming sub = BillArrears
            then (case PeriodToInvoice sub of None \<Rightarrow> (Inl ErrPanic, st)
                  | Some period \<Rightarrow>
                      (case GenerateForPeriod rd others fresh sub items period actor now st of
                         (Inl err, st1) \<Rightarrow> (if err = ErrAlreadyGenerated then Inr () else Inl err, st1)
                       | (Inr _, st1) \<Rightarrow> (Inr (), st1)))
            else (Inr (), st)) of
        (Inl err, st1) \<Rightarrow> (Inl err, st1)
      | (Inr _, st1) \<Rightarrow>
          (case TransitionSubscription sub SubscriptionCanceled CauseScheduler actor st1 of
             (Inl err, st2) \<Rightarrow> (if tolerated err then Inr () else Inl err, st2)
           | (Inr _, st2) \<Rightarrow> (Inr (), st2)))"

text \<open>The items of a scheduled change: one of each price, the timing and the owner of the last.\<close>

fun scheduled_items ::
  "reads \<Rightarrow> Subscription \<Rightarrow> (nat \<Rightarrow> string) \<Rightarrow> nat \<Rightarrow> string list \<Rightarrow> BillingTiming \<Rightarrow> string \<Rightarrow>
     (sweep_error, SubscriptionItem list \<times> BillingTiming \<times> string) result" where
  "scheduled_items rd sub ids k [] timing owner = Inr ([], timing, owner)"
| "scheduled_items rd sub ids k (p # ps) timing owner =
     (case RdPrice rd p of None \<Rightarrow> Inl ErrCatalog
      | Some price \<Rightarrow>
        (case RdProduct rd (PriceProductID price) of None \<Rightarrow> Inl ErrCatalog
         | Some product \<Rightarrow>
           (case scheduled_items rd sub ids (Suc k) ps (PriceTiming price) (ProdOwnerKey product) of
              Inl err \<Rightarrow> Inl err
            | Inr (items, timing, owner) \<Rightarrow>
                Inr (\<lparr>SiID = ids k, SiOrganizationID = SubOrganizationID sub, SiLivemode = SubLivemode sub,
                      SiSubscriptionID = SubID sub, SiPriceID = p, SiQuantity = 1\<rparr> # items, timing, owner))))"

definition changeAtBoundary ::
  "reads \<Rightarrow> (nat \<Rightarrow> sweep_store \<Rightarrow> sweep_store) \<Rightarrow> (nat \<Rightarrow> string) \<Rightarrow> Subscription \<Rightarrow> SubscriptionItem list \<Rightarrow> PendingChange \<Rightarrow> string \<Rightarrow>
     int \<Rightarrow> sweep_store \<Rightarrow> (sweep_error, unit) result \<times> sweep_store" where
  "changeAtBoundary rd others ids sub items pc actor now st =
     (case (if SubTiming sub = BillArrears
            then (case PeriodToInvoice sub of None \<Rightarrow> (Inl ErrPanic, st)
                  | Some period \<Rightarrow>
                      (case GenerateForPeriod rd others (ids 0) sub items period actor now st of
                         (Inl err, st1) \<Rightarrow> (if err = ErrAlreadyGenerated then Inr () else Inl err, st1)
                       | (Inr _, st1) \<Rightarrow> (Inr (), st1)))
            else (Inr (), st)) of
        (Inl err, st1) \<Rightarrow> (Inl err, st1)
      | (Inr _, st1) \<Rightarrow>
          (case scheduled_items rd sub ids 2 (PcPriceIDs pc) (SubTiming sub) (SubOwnerKey sub) of
             Inl err \<Rightarrow> (Inl err, st1)
           | Inr (newItems, timing, owner) \<Rightarrow>
               (case ApplyScheduledChange sub items newItems timing owner actor st1 of
                  (Inl err, st2) \<Rightarrow> (Inl err, st2)
                | (Inr sub', st2) \<Rightarrow>
                    if timing = BillAdvance then
                      (case CurrentPeriod sub' of None \<Rightarrow> (Inl ErrPanic, st2)
                       | Some period \<Rightarrow>
                           (case GenerateForPeriod rd others (ids 1) sub' newItems period actor now st2 of
                              (Inl err, st3) \<Rightarrow> (if err = ErrAlreadyGenerated then Inr () else Inl err, st3)
                            | (Inr _, st3) \<Rightarrow> (Inr (), st3)))
                    else (Inr (), st2))))"

text \<open>\<open>sub\<close> is the subscription as the due index showed it.\<close>

definition invoiceOne ::
  "reads \<Rightarrow> (nat \<Rightarrow> sweep_store \<Rightarrow> sweep_store) \<Rightarrow> (nat \<Rightarrow> string) \<Rightarrow> Subscription \<Rightarrow> string \<Rightarrow> int \<Rightarrow> sweep_store \<Rightarrow>
     (sweep_error, unit) result \<times> sweep_store" where
  "invoiceOne rd others ids sub actor now st =
     (let items = ListItems (SubID sub) st
      in if items = [] then (Inl ErrNoItems, st)
         else if SubCancelAtPeriodEnd sub then endAtBoundary rd others (ids 0) sub items actor now st
         else case (case SubPendingChange sub of None \<Rightarrow> None
                    | Some pc \<Rightarrow> if Some (PcAt pc) = map_option End (CurrentPeriod sub) then Some pc else None) of
           Some pc \<Rightarrow> changeAtBoundary rd others ids sub items pc actor now st
         | None \<Rightarrow>
           (case PeriodToInvoice sub of None \<Rightarrow> (Inl ErrPanic, st)
            | Some period \<Rightarrow>
              (case (case GenerateForPeriod rd others (ids 0) sub items period actor now st of
                       (Inr _, st1) \<Rightarrow> (Inr (), Inr (), st1)
                     | (Inl err, st1) \<Rightarrow>
                         if err \<noteq> ErrAlreadyGenerated then (Inl err, Inr (), st1)
                         else (case issueLeftoverDraft rd others sub period actor now st1 of
                                 (Inl err, st2) \<Rightarrow> (Inl err, Inr (), st2)
                               | (Inr _, st2) \<Rightarrow> (Inr (), Inl ErrAlreadyGenerated, st2))) of
                 (Inl err, _, st2) \<Rightarrow> (Inl err, st2)
               | (Inr _, genErr, st2) \<Rightarrow>
                   (case TransitionSubscription sub SubscriptionActive CauseRenewal actor st2 of
                      (Inl err, st3) \<Rightarrow> (if tolerated err then genErr else Inl err, st3)
                    | (Inr _, st3) \<Rightarrow> (genErr, st3)))))"

record SweepResult =
  SwExamined :: nat
  SwInvoiced :: nat
  SwSkipped :: nat
  SwFailed :: nat
  SwSuspended :: nat

text \<open>\<open>suspended\<close> and \<open>guard\<close> are what the two questions about the tenant answer.\<close>

definition sweepOne ::
  "reads \<Rightarrow> (nat \<Rightarrow> sweep_store \<Rightarrow> sweep_store) \<Rightarrow> (nat \<Rightarrow> string) \<Rightarrow> bool option \<Rightarrow> bool option \<Rightarrow> Subscription \<Rightarrow> string \<Rightarrow> int \<Rightarrow>
     SweepResult \<times> sweep_store \<Rightarrow> SweepResult \<times> sweep_store" where
  "sweepOne rd others ids suspended guard sub actor now =
     (\<lambda>(r, st). case suspended of None \<Rightarrow> (r\<lparr>SwFailed := SwFailed r + 1\<rparr>, st)
      | Some True \<Rightarrow> (r\<lparr>SwSuspended := SwSuspended r + 1\<rparr>, st)
      | Some False \<Rightarrow>
        (case guard of None \<Rightarrow> (r\<lparr>SwFailed := SwFailed r + 1\<rparr>, st)
         | Some True \<Rightarrow> (r\<lparr>SwSuspended := SwSuspended r + 1\<rparr>, st)
         | Some False \<Rightarrow>
           (case invoiceOne rd others ids sub actor now st of
              (Inr _, st') \<Rightarrow> (r\<lparr>SwInvoiced := SwInvoiced r + 1\<rparr>, st')
            | (Inl err, st') \<Rightarrow>
                if err = ErrAlreadyGenerated then (r\<lparr>SwSkipped := SwSkipped r + 1\<rparr>, st')
                else (r\<lparr>SwFailed := SwFailed r + 1\<rparr>, st'))))"

text \<open>One worker over the subscriptions the due index showed; fresh ids are drawn per subscription.\<close>

definition RunDailySweep ::
  "reads \<Rightarrow> (string \<Rightarrow> nat \<Rightarrow> sweep_store \<Rightarrow> sweep_store) \<Rightarrow> (string \<Rightarrow> nat \<Rightarrow> string) \<Rightarrow> bool option \<Rightarrow> bool option \<Rightarrow> Subscription list \<Rightarrow>
     string \<Rightarrow> int \<Rightarrow> sweep_store \<Rightarrow> SweepResult \<times> sweep_store" where
  "RunDailySweep rd others ids suspended guard due actor now st =
     fold (\<lambda>sub (r, st). sweepOne rd (others (SubID sub)) (ids (SubID sub)) suspended guard sub actor now
             (r\<lparr>SwExamined := SwExamined r + 1\<rparr>, st)) due
       (\<lparr>SwExamined = 0, SwInvoiced = 0, SwSkipped = 0, SwFailed = 0, SwSuspended = 0\<rparr>, st)"

text \<open>\<open>Issue\<close>: an operator finishes a draft. \<open>sub\<close> is the subscription read, if the invoice has one.\<close>

definition InvoicerIssue ::
  "reads \<Rightarrow> (nat \<Rightarrow> sweep_store \<Rightarrow> sweep_store) \<Rightarrow> Invoice \<Rightarrow> string \<Rightarrow> int \<Rightarrow> sweep_store \<Rightarrow> (sweep_error, Invoice) result \<times> sweep_store" where
  "InvoicerIssue rd others i actor now st =
     (case (if InvSubscriptionID i = '''' then Some (BillArrears, 0)
            else map_option (\<lambda>row. (SubTiming (RowSubscription row), SubNetDays (RowSubscription row))) (TnSubs st (InvSubscriptionID i))) of
        None \<Rightarrow> (Inl (ErrRepo ErrNotFound), st)
      | Some (timing, netDays) \<Rightarrow>
        (case DueDate (InvPeriod i) timing netDays of None \<Rightarrow> (Inl ErrPanic, st)
         | Some dueDate \<Rightarrow>
           let settlement = (if NothingDue i then mk_date 0 0 0 else FirstDunningDate (Schedule i) dueDate)
           in (case finalize rd others i dueDate settlement CauseManual actor st of
                 (Inl err, st1) \<Rightarrow> (Inl err, st1)
               | (Inr i1, st1) \<Rightarrow>
                   if NothingDue i1 then TransitionInvoice i1 InvoicePaid CauseNothingDue actor now st1 else (Inr i1, st1))))"

end
