(* ===== verification/InvoicingProps.thy ===== *)
theory InvoicingProps
  imports Invoicing
begin

text \<open>
  What the daily sweep of theory \<open>Invoicing\<close> keeps, whatever writes interleave and wherever a run dies: invoice
  numbers without gaps, one invoice per generation key, no renewal past a period that was not issued; and
  that the next run finishes what a run that died began.
\<close>

subsection \<open>Every write of the invoices of a tenant\<close>

definition invoice_year :: "invoice_row \<Rightarrow> int" where
  "invoice_year row = Year (Start (InvPeriod (RowInvoice row)))"

text \<open>A copy read before has the period of the row: no write changes it, none deletes the row.\<close>

definition copy_of :: "Invoice \<Rightarrow> sweep_store \<Rightarrow> bool" where
  "copy_of i st \<longleftrightarrow> (\<exists>row. TnInvoices st (InvID i) = Some row \<and> InvPeriod (RowInvoice row) = InvPeriod i)"

definition same_invoices :: "sweep_store \<Rightarrow> sweep_store \<Rightarrow> bool" where
  "same_invoices st st' \<longleftrightarrow> TnInvoices st' = TnInvoices st \<and> TnKeys st' = TnKeys st \<and> TnLines st' = TnLines st \<and>
     TnMarkers st' = TnMarkers st \<and> TnCounters st' = TnCounters st"

text \<open>
  \<open>current\<close> is a number read earlier: 0 where there is no counter. A transition is any but the one to
  open of a draft, which \<open>Finalize\<close> alone makes. \<open>chase\<close> stands for the writes that touch neither the
  status nor the number: the dunning step, the credited total, the key of the document.
\<close>

inductive sweep_step :: "sweep_store \<Rightarrow> sweep_store \<Rightarrow> bool" where
  create: "InvoiceCreate i items key st = (r, st') \<Longrightarrow> InvNumber i = 0 \<Longrightarrow> sweep_step st st'"
| finalize: "transact (finalize_write i u events settlement cause actor current) st = (r, st') \<Longrightarrow> copy_of i st \<Longrightarrow>
    0 \<le> current \<Longrightarrow> TnCounters st (Year (Start (InvPeriod i))) = None \<longrightarrow> current = 0 \<Longrightarrow> sweep_step st st'"
| transition: "TransitionInvoice i dst cause actor now st = (r, st') \<Longrightarrow> InvStatus i \<noteq> InvoiceDraft \<or> dst \<noteq> InvoiceOpen \<Longrightarrow>
    sweep_step st st'"
| chase: "TnInvoices st i = Some row \<Longrightarrow> InvID r = InvID (RowInvoice row) \<Longrightarrow> InvPeriod r = InvPeriod (RowInvoice row) \<Longrightarrow>
    InvNumber r = InvNumber (RowInvoice row) \<Longrightarrow> InvStatus r = InvStatus (RowInvoice row) \<Longrightarrow> InvTotal r = InvTotal (RowInvoice row) \<Longrightarrow>
    sweep_step st (st\<lparr>TnInvoices := (TnInvoices st)(i \<mapsto> \<lparr>RowInvoice = r, RowSchedule = sched\<rparr>)\<rparr>)"
| beside: "same_invoices st st' \<Longrightarrow> sweep_step st st'"

definition empty_tenant :: "sweep_store \<Rightarrow> bool" where
  "empty_tenant st \<longleftrightarrow> TnInvoices st = Map.empty \<and> TnKeys st = Map.empty \<and> TnLines st = Map.empty \<and>
     TnMarkers st = Map.empty \<and> TnCounters st = Map.empty"

subsection \<open>What each write does\<close>

lemma transact_cases:
  assumes "transact body st = (r, st')"
  obtains (nothing) "same_invoices st st'" "TnSubs st' = TnSubs st" "TnItems st' = TnItems st" "\<And>x. r \<noteq> Inr x"
  | (body) x st1 st2 where "same_invoices st st1" "TnSubs st1 = TnSubs st" "TnItems st1 = TnItems st" "TnOutcomes st1 = tl (TnOutcomes st)"
      "body st1 = Inr (x, st2)" "st' = st2" "r = Inr x \<or> r = Inl ErrStore"
proof -
  define s1 where "s1 = st\<lparr>TnOutcomes := tl (TnOutcomes st)\<rparr>"
  have s1: "same_invoices st s1" "TnSubs s1 = TnSubs st" "TnItems s1 = TnItems st" "TnOutcomes s1 = tl (TnOutcomes st)"
    by (simp_all add: s1_def same_invoices_def)
  define o1 where "o1 = (case TnOutcomes st of [] \<Rightarrow> Works | o1 # _ \<Rightarrow> o1)"
  have t: "transact body st = (case o1 of Works \<Rightarrow> (case body s1 of Inl err \<Rightarrow> (Inl err, s1) | Inr (x, st2) \<Rightarrow> (Inr x, st2))
      | Conflicted \<Rightarrow> (Inl ErrTransactionConflict, s1) | NotWritten \<Rightarrow> (Inl ErrStore, s1)
      | NotAnswered \<Rightarrow> (Inl ErrStore, case body s1 of Inl _ \<Rightarrow> s1 | Inr (_, st2) \<Rightarrow> st2))"
    by (simp only: transact_def Let_def s1_def o1_def)
  show thesis
  proof (cases "body s1")
    case (Inl e)
    then have "st' = s1" "\<And>x. r \<noteq> Inr x" using assms unfolding t by (cases o1; force)+
    then show thesis using that(1) s1 by simp
  next
    case (Inr p)
    obtain x s2 where p: "p = (x, s2)" by (cases p)
    show thesis
    proof (cases "st' = s1 \<and> (\<forall>x. r \<noteq> Inr x)")
      case True
      then show thesis using that(1) s1 by simp
    next
      case False
      then have "st' = s2" "r = Inr x \<or> r = Inl ErrStore" using assms Inr p unfolding t by (cases o1; force)+
      then show thesis using that(2) [OF s1 Inr [unfolded p]] by blast
    qed
  qed
qed

lemma InvoiceCreate_cases:
  assumes "InvoiceCreate i items key st = (r, st')"
  obtains (nothing) "same_invoices st st'" "TnSubs st' = TnSubs st" "TnItems st' = TnItems st" "\<And>x. r \<noteq> Inr x"
  | (made) st1 where "same_invoices st st1" "InvStatus i = InvoiceDraft" "TnInvoices st (InvID i) = None" "TnLines st (InvID i) = None"
      "key = '''' \<or> TnMarkers st key = None" "r = Inr () \<or> r = Inl ErrStore" "TnSubs st1 = TnSubs st" "TnItems st1 = TnItems st"
      "st' = st1\<lparr>TnInvoices := (TnInvoices st)(InvID i \<mapsto> \<lparr>RowInvoice = i, RowSchedule = Unscheduled\<rparr>), TnKeys := (TnKeys st)(InvID i \<mapsto> key),
         TnLines := (TnLines st)(InvID i \<mapsto> items), TnMarkers := (if key \<noteq> '''' then (TnMarkers st)(key \<mapsto> InvID i) else TnMarkers st)\<rparr>"
proof (cases "InvStatus i \<noteq> InvoiceDraft \<or> MetadataValidate (InvMetadata i) \<noteq> None")
  case True
  then show thesis using assms by (intro that(1)) (auto simp: InvoiceCreate_def same_invoices_def split: if_splits option.splits)
next
  case False
  then have t: "transact (\<lambda>st. if TnInvoices st (InvID i) \<noteq> None \<or> TnLines st (InvID i) \<noteq> None \<or> key \<noteq> '''' \<and> TnMarkers st key \<noteq> None
          then Inl ErrAlreadyGenerated
          else Inr ((), st\<lparr>TnInvoices := (TnInvoices st)(InvID i \<mapsto> \<lparr>RowInvoice = i, RowSchedule = Unscheduled\<rparr>),
                           TnKeys := (TnKeys st)(InvID i \<mapsto> key),
                           TnLines := (TnLines st)(InvID i \<mapsto> items),
                           TnMarkers := (if key \<noteq> '''' then (TnMarkers st)(key \<mapsto> InvID i) else TnMarkers st)\<rparr>)) st = (r, st')"
    using assms by (auto simp: InvoiceCreate_def split: option.splits)
  from t show thesis
  proof (cases rule: transact_cases)
    case nothing
    then show thesis using that(1) by blast
  next
    case (body x st1 st2)
    then show thesis using False by (intro that(2) [of st1]) (auto simp: same_invoices_def split: if_splits)
  qed
qed

lemma InvoiceRepositoryTransition_frame:
  assumes t: "InvoiceRepositoryTransition i dst cause actor now st = Inr (i', st')"
  shows "InvStatus i' = dst \<and> InvStatus (RowInvoice (StInvoice st)) = InvStatus i \<and>
    (\<exists>a b c. RowInvoice (StInvoice st') = (RowInvoice (StInvoice st))\<lparr>InvStatus := dst, InvAttemptCount := a, InvAmountPaid := b, InvPaidAt := c\<rparr>)"
proof -
  obtain u evs where u: "InvoiceTransition i dst cause = Inr (u, evs)"
    using t by (cases "InvoiceTransition i dst cause") (auto simp: InvoiceRepositoryTransition_def)
  have actor: "actor \<noteq> []" using t by (auto simp: InvoiceRepositoryTransition_def u)
  define r where "r = RowInvoice (StInvoice st)"
  define v where "v = (if dst = InvoicePaid
     then u\<lparr>InvAmountPaid := InvTotal u, InvPaidAt := (if InvPaidAt u = None then Some now else InvPaidAt u)\<rparr> else u)"
  define s1 where "s1 = (if InvAttemptCount v \<noteq> InvAttemptCount i then r\<lparr>InvStatus := dst, InvAttemptCount := InvAttemptCount v\<rparr>
     else r\<lparr>InvStatus := dst\<rparr>)"
  define s2 where "s2 = (if dst = InvoicePaid then s1\<lparr>InvAmountPaid := InvTotal v\<rparr> else s1)"
  define s3 where "s3 = (if dst = InvoicePaid \<and> InvPaidAt i = None then s2\<lparr>InvPaidAt := Some now\<rparr> else s2)"
  define sched where "sched = (if dst = InvoicePaid \<and> InvAmountPaid v > 0 then FinanceReplay (the (InvPaidAt v))
                       else if dst \<noteq> InvoiceOpen then Unscheduled else RowSchedule (StInvoice st))"
  have "(if InvStatus r \<noteq> InvStatus i then Inl ErrConcurrentModification
     else Inr (v, record_change (InvID i) evs cause actor (st\<lparr>StInvoice := \<lparr>RowInvoice = s3, RowSchedule = sched\<rparr>\<rparr>))) = Inr (i', st')"
    using t actor
    by (simp only: InvoiceRepositoryTransition_def u Let_def s3_def s2_def s1_def sched_def v_def r_def sum.case prod.case if_False)
  then have e: "InvStatus r = InvStatus i" "i' = v" "RowInvoice (StInvoice st') = s3"
    by (auto simp: record_change_def split: if_split_asm)
  have "InvStatus v = dst" using InvoiceTransition_frame [OF u] by (simp add: v_def)
  moreover have "\<exists>a b c. s3 = r\<lparr>InvStatus := dst, InvAttemptCount := a, InvAmountPaid := b, InvPaidAt := c\<rparr>"
    by (intro exI [of _ "InvAttemptCount s3"] exI [of _ "InvAmountPaid s3"] exI [of _ "InvPaidAt s3"], rule Invoice.equality)
      (simp_all add: s3_def s2_def s1_def)
  ultimately show ?thesis using e by (simp add: r_def)
qed

lemma TransitionInvoice_cases:
  assumes "TransitionInvoice i dst cause actor now st = (r, st')"
  obtains (nothing) "same_invoices st st'" "TnSubs st' = TnSubs st" "TnItems st' = TnItems st" "\<And>x. r \<noteq> Inr x"
  | (moved) st1 row row' i' ev where "same_invoices st st1" "TnInvoices st (InvID i) = Some row" "InvStatus (RowInvoice row) = InvStatus i"
      "apply_table invoiceTransitions (InvStatus i) dst cause = Inr ev" "InvStatus (RowInvoice row') = dst"
      "InvID (RowInvoice row') = InvID (RowInvoice row)" "InvNumber (RowInvoice row') = InvNumber (RowInvoice row)"
      "InvPeriod (RowInvoice row') = InvPeriod (RowInvoice row)" "InvTotal (RowInvoice row') = InvTotal (RowInvoice row)"
      "TnInvoices st' = (TnInvoices st)(InvID i \<mapsto> row')" "TnKeys st' = TnKeys st" "TnLines st' = TnLines st" "TnMarkers st' = TnMarkers st"
      "TnCounters st' = TnCounters st" "TnSubs st' = TnSubs st" "TnItems st' = TnItems st" "r = Inr i' \<or> r = Inl ErrStore" "InvStatus i' = dst"
proof (cases "InvoiceTransition i dst cause")
  case (Inl e)
  then show thesis using assms by (intro that(1)) (auto simp: TransitionInvoice_def same_invoices_def)
next
  case (Inr p)
  obtain u evs where p: "p = (u, evs)" by (cases p)
  obtain ev where ev: "evs = [ev]" "apply_table invoiceTransitions (InvStatus i) dst cause = Inr ev"
    using invoice.transition_Inr [OF Inr [unfolded p]] by blast
  show thesis
  proof (cases "actor = ''''")
    case True
    then show thesis using assms Inr p by (intro that(1)) (auto simp: TransitionInvoice_def same_invoices_def)
  next
    case False
    then have t: "transact (\<lambda>st.
            case TnInvoices st (InvID i) of
              None \<Rightarrow> Inl (ErrRepo ErrConcurrentModification)
            | Some row \<Rightarrow>
                (case InvoiceRepositoryTransition i dst cause actor now (invoice_view (InvID i) row st) of
                   Inl err \<Rightarrow> Inl (ErrRepo err)
                 | Inr (i', v) \<Rightarrow> Inr (i', put_invoice_view (InvID i) v st))) st = (r, st')"
      using assms Inr p by (simp add: TransitionInvoice_def)
    from t show thesis
    proof (cases rule: transact_cases)
      case nothing
      then show thesis using that(1) by blast
    next
      case (body x st1 st2)
      then obtain row v where row: "TnInvoices st1 (InvID i) = Some row"
        "InvoiceRepositoryTransition i dst cause actor now (invoice_view (InvID i) row st1) = Inr (x, v)" "st2 = put_invoice_view (InvID i) v st1"
        by (auto split: option.splits sum.splits)
      have m: "InvStatus (RowInvoice row) = InvStatus i" "InvStatus (RowInvoice (StInvoice v)) = dst"
        "InvID (RowInvoice (StInvoice v)) = InvID (RowInvoice row)" "InvNumber (RowInvoice (StInvoice v)) = InvNumber (RowInvoice row)"
        "InvPeriod (RowInvoice (StInvoice v)) = InvPeriod (RowInvoice row)" "InvTotal (RowInvoice (StInvoice v)) = InvTotal (RowInvoice row)"
        "InvStatus x = dst"
        using InvoiceRepositoryTransition_frame [OF row(2)] by (auto simp: invoice_view_def)
      show thesis
        by (rule that(2) [of st1 row ev "StInvoice v" x])
          (use body row m ev in \<open>auto simp: same_invoices_def put_invoice_view_def\<close>)
    qed
  qed
qed

lemma finalize_write_cases:
  assumes "transact (finalize_write i u events settlement cause actor current) st = (r, st')"
  obtains (nothing) "same_invoices st st'" "TnSubs st' = TnSubs st" "TnItems st' = TnItems st" "r \<noteq> Inr ()"
  | (numbered) row row' where "TnInvoices st (InvID i) = Some row" "InvStatus (RowInvoice row) = InvoiceDraft"
      "TnCounters st (Year (Start (InvPeriod i))) = None \<or> TnCounters st (Year (Start (InvPeriod i))) = Some current"
      "InvStatus (RowInvoice row') = InvoiceOpen" "InvNumber (RowInvoice row') = current + 1"
      "InvID (RowInvoice row') = InvID (RowInvoice row)" "InvPeriod (RowInvoice row') = InvPeriod (RowInvoice row)"
      "InvTotal (RowInvoice row') = InvTotal (RowInvoice row)"
      "TnInvoices st' = (TnInvoices st)(InvID i \<mapsto> row')" "TnKeys st' = TnKeys st" "TnLines st' = TnLines st" "TnMarkers st' = TnMarkers st"
      "TnCounters st' = (TnCounters st)(Year (Start (InvPeriod i)) \<mapsto> current + 1)" "TnSubs st' = TnSubs st" "TnItems st' = TnItems st"
      "r = Inr () \<or> r = Inl ErrStore"
  using assms
proof (cases rule: transact_cases)
  case nothing
  then show thesis using that(1) by blast
next
  case (body x st1 st2)
  then obtain row where row: "TnInvoices st1 (InvID i) = Some row" "InvStatus (RowInvoice row) = InvoiceDraft"
    "TnCounters st1 (Year (Start (InvPeriod i))) = None \<or> TnCounters st1 (Year (Start (InvPeriod i))) = Some current"
    by (auto simp: finalize_write_def Let_def split: option.splits if_splits)
  define r1 where "r1 = (RowInvoice row)\<lparr>InvStatus := InvoiceOpen, InvNumber := current + 1, InvDueDate := InvDueDate u\<rparr>"
  define r2 where "r2 = (if CollectionSettingsIsZero (InvCollection u) then r1 else r1\<lparr>InvCollection := InvCollection u\<rparr>)"
  define row' where "row' = \<lparr>RowInvoice = r2, RowSchedule = (if IsZero settlement then RowSchedule row else SettlementOn settlement)\<rparr>"
  have f: "InvStatus (RowInvoice row') = InvoiceOpen" "InvNumber (RowInvoice row') = current + 1"
      "InvID (RowInvoice row') = InvID (RowInvoice row)" "InvPeriod (RowInvoice row') = InvPeriod (RowInvoice row)"
      "InvTotal (RowInvoice row') = InvTotal (RowInvoice row)"
    by (simp_all add: row'_def r2_def r1_def)
  have "st2 = note_change (InvID i) events cause actor
     (st1\<lparr>TnInvoices := (TnInvoices st1)(InvID i \<mapsto> row'), TnCounters := (TnCounters st1)(Year (Start (InvPeriod i)) \<mapsto> current + 1)\<rparr>)"
    using body(5) row by (auto simp: finalize_write_def Let_def row'_def r2_def r1_def split: option.splits if_splits)
  then show thesis using that(2) [of row row'] body row f by (simp add: same_invoices_def note_change_def)
qed

subsection \<open>Numbers and keys\<close>

definition invoice_row_ok :: "string \<Rightarrow> invoice_row \<Rightarrow> bool" where
  "invoice_row_ok i row \<longleftrightarrow> InvID (RowInvoice row) = i \<and>
     (InvStatus (RowInvoice row) = InvoiceDraft \<longrightarrow> InvNumber (RowInvoice row) = 0) \<and>
     (InvStatus (RowInvoice row) \<in> {InvoiceOpen, InvoicePaid, InvoiceUncollectible} \<longrightarrow> InvNumber (RowInvoice row) \<noteq> 0)"

definition carries :: "int \<Rightarrow> int \<Rightarrow> string \<Rightarrow> sweep_store \<Rightarrow> bool" where
  "carries y n i st \<longleftrightarrow> n \<noteq> 0 \<and> (\<exists>row. TnInvoices st i = Some row \<and> invoice_year row = y \<and> InvNumber (RowInvoice row) = n)"

definition sweep_inv :: "sweep_store \<Rightarrow> bool" where
  "sweep_inv st \<longleftrightarrow>
     (\<forall>i row. TnInvoices st i = Some row \<longrightarrow> invoice_row_ok i row) \<and>
     (\<forall>y n. 1 \<le> n \<and> n \<le> currentNumber y st \<longleftrightarrow> (\<exists>i. carries y n i st)) \<and>
     (\<forall>y n i j. carries y n i st \<longrightarrow> carries y n j st \<longrightarrow> i = j) \<and>
     (\<forall>y. 0 \<le> currentNumber y st) \<and>
     (\<forall>k i. TnMarkers st k = Some i \<longleftrightarrow> k \<noteq> '''' \<and> TnKeys st i = Some k) \<and>
     (\<forall>i. (TnKeys st i = None) = (TnInvoices st i = None) \<and> (TnLines st i = None) = (TnInvoices st i = None))"

lemma inv_same: "same_invoices st st' \<Longrightarrow> sweep_inv st' = sweep_inv st"
  by (simp add: same_invoices_def sweep_inv_def currentNumber_def carries_def)

text \<open>A row replaced by one with the same number, period and identifier.\<close>

lemma inv_update:
  assumes inv: "sweep_inv st" and row: "TnInvoices st i = Some row"
    and r: "InvID (RowInvoice row') = InvID (RowInvoice row)" "InvPeriod (RowInvoice row') = InvPeriod (RowInvoice row)"
      "InvNumber (RowInvoice row') = InvNumber (RowInvoice row)"
    and s: "InvStatus (RowInvoice row') = InvoiceDraft \<longrightarrow> InvStatus (RowInvoice row) = InvoiceDraft"
      "InvStatus (RowInvoice row') \<in> {InvoiceOpen, InvoicePaid, InvoiceUncollectible} \<longrightarrow>
        InvStatus (RowInvoice row) \<in> {InvoiceOpen, InvoicePaid, InvoiceUncollectible}"
    and st': "TnInvoices st' = (TnInvoices st)(i \<mapsto> row')" "TnKeys st' = TnKeys st" "TnLines st' = TnLines st" "TnMarkers st' = TnMarkers st"
      "TnCounters st' = TnCounters st"
  shows "sweep_inv st'"
proof -
  have c: "currentNumber y st' = currentNumber y st" for y by (simp add: currentNumber_def st')
  have "carries y n j st' = carries y n j st" for y n j
    using row r by (cases "j = i") (simp_all add: carries_def st' invoice_year_def)
  then have k: "carries y n j st' = carries y n j st" for y n j .
  have "invoice_row_ok i row" using inv row by (simp add: sweep_inv_def)
  then have "invoice_row_ok i row'" using r s unfolding invoice_row_ok_def by metis
  then have rows: "invoice_row_ok j x" if "TnInvoices st' j = Some x" for j x
    using that inv by (cases "j = i") (simp_all add: st' sweep_inv_def)
  show ?thesis using inv row rows unfolding sweep_inv_def c k by (simp add: st')
qed

end
