(* ===== verification/Sweep.thy ===== *)
theory Sweep
  imports InvoicingProps
begin

text \<open>
  The properties of the daily sweep: invoice numbers without gaps, one invoice per generation key, no renewal
  past a period that was not issued, and a next run that finishes what a run that died began.
\<close>

subsection \<open>Every write keeps the numbers and the keys\<close>

lemma currentNumber_absent: "TnCounters st y = None \<Longrightarrow> currentNumber y st = 0"
  by (simp add: currentNumber_def)

lemma inv_row: "sweep_inv st \<Longrightarrow> TnInvoices st i = Some row \<Longrightarrow> invoice_row_ok i row"
  and inv_count: "sweep_inv st \<Longrightarrow> 1 \<le> n \<and> n \<le> currentNumber y st \<longleftrightarrow> (\<exists>i. carries y n i st)"
  and inv_unique: "sweep_inv st \<Longrightarrow> carries y n i st \<Longrightarrow> carries y n j st \<Longrightarrow> i = j"
  and inv_nonneg: "sweep_inv st \<Longrightarrow> 0 \<le> currentNumber y st"
  and inv_marks: "sweep_inv st \<Longrightarrow> TnMarkers st k = Some i \<longleftrightarrow> k \<noteq> '''' \<and> TnKeys st i = Some k"
  and inv_keys: "sweep_inv st \<Longrightarrow> TnKeys st i = None \<longleftrightarrow> TnInvoices st i = None"
  and inv_lines: "sweep_inv st \<Longrightarrow> TnLines st i = None \<longleftrightarrow> TnInvoices st i = None"
  unfolding sweep_inv_def by (elim conjE, (rule impI)?, metis)+

lemma inv_I:
  assumes "\<And>i row. TnInvoices st i = Some row \<Longrightarrow> invoice_row_ok i row"
    "\<And>y n. 1 \<le> n \<and> n \<le> currentNumber y st \<longleftrightarrow> (\<exists>i. carries y n i st)"
    "\<And>y n i j. carries y n i st \<Longrightarrow> carries y n j st \<Longrightarrow> i = j" "\<And>y. 0 \<le> currentNumber y st"
    "\<And>k i. TnMarkers st k = Some i \<longleftrightarrow> k \<noteq> '''' \<and> TnKeys st i = Some k"
    "\<And>i. TnKeys st i = None \<longleftrightarrow> TnInvoices st i = None" "\<And>i. TnLines st i = None \<longleftrightarrow> TnInvoices st i = None"
  shows "sweep_inv st"
  using assms unfolding sweep_inv_def by blast

lemma draft_created_inv:
  assumes inv: "sweep_inv st" and c: "InvoiceCreate i items key st = (r, st')" and n: "InvNumber i = 0"
  shows "sweep_inv st'"
  using c
proof (cases rule: InvoiceCreate_cases)
  case nothing
  then show ?thesis using inv inv_same by blast
next
  case (made st1)
  let ?row = "\<lparr>RowInvoice = i, RowSchedule = Unscheduled\<rparr>"
  have inv1: "sweep_inv st1" using made(1) inv inv_same by blast
  have same: "TnCounters st' = TnCounters st" using made by (simp add: same_invoices_def)
  have c: "currentNumber y st' = currentNumber y st" for y by (simp add: currentNumber_def same)
  have k: "carries y m j st' = carries y m j st" for y m j
    using made n by (cases "j = InvID i") (auto simp: carries_def)
  have rows: "invoice_row_ok j x" if "TnInvoices st' j = Some x" for j x
  proof (cases "j = InvID i")
    case True
    then have "x = ?row" using that made(9) by simp
    then show ?thesis using made(2) n True by (simp add: invoice_row_ok_def)
  next
    case False
    then show ?thesis using that made(9) inv_row [OF inv, of j x] by simp
  qed
  have fresh: "TnKeys st (InvID i) = None" using inv_keys [OF inv] made(3) by simp
  have marks: "TnMarkers st' k' = Some j \<longleftrightarrow> k' \<noteq> '''' \<and> TnKeys st' j = Some k'" for k' j
  proof -
    note old = inv_marks [OF inv, of k' j]
    show ?thesis using made(5) old fresh by (cases "j = InvID i"; cases "k' = key") (auto simp: made(9))
  qed
  have doms: "TnKeys st' j = None \<longleftrightarrow> TnInvoices st' j = None" "TnLines st' j = None \<longleftrightarrow> TnInvoices st' j = None" for j
    using inv_keys [OF inv, of j] inv_lines [OF inv, of j] by (simp_all add: made(9))
  show ?thesis by (rule inv_I) (use rows marks doms inv_count [OF inv] inv_unique [OF inv] inv_nonneg [OF inv] in \<open>simp_all only: c k\<close>)
qed

lemma finalize_inv:
  assumes inv: "sweep_inv st" and f: "transact (finalize_write i u events settlement cause actor current) st = (r, st')"
    and copy: "copy_of i st" and cur: "0 \<le> current" "TnCounters st (Year (Start (InvPeriod i))) = None \<longrightarrow> current = 0"
  shows "sweep_inv st'"
  using f
proof (cases rule: finalize_write_cases)
  case nothing
  then show ?thesis using inv inv_same by blast
next
  case (numbered row row')
  define Y where "Y = Year (Start (InvPeriod i))"
  have year: "invoice_year row' = Y" "invoice_year row = Y"
    using copy numbered by (simp_all add: copy_of_def invoice_year_def Y_def)
  have now: "currentNumber Y st = current" using numbered(3) cur(2) by (auto simp: currentNumber_def Y_def)
  have c: "currentNumber y st' = (if y = Y then current + 1 else currentNumber y st)" for y
    by (simp add: currentNumber_def numbered(13) Y_def)
  have ok: "invoice_row_ok (InvID i) row" by (rule inv_row [OF inv numbered(1)])
  then have zero: "InvNumber (RowInvoice row) = 0" using numbered(2) by (simp add: invoice_row_ok_def)
  have k: "carries y m j st' \<longleftrightarrow> (if j = InvID i then y = Y \<and> m = current + 1 else carries y m j st)" for y m j
    using year numbered(5,9) cur(1) by (auto simp: carries_def)
  have none: "\<not> carries y m (InvID i) st" for y m using zero numbered(1) by (auto simp: carries_def)
  have rows: "invoice_row_ok j x" if "TnInvoices st' j = Some x" for j x
    using that ok numbered(4-6,9) cur(1) inv_row [OF inv, of j x] by (cases "j = InvID i") (simp_all add: invoice_row_ok_def)
  note count = inv_count [OF inv]
  have count': "1 \<le> m \<and> m \<le> currentNumber y st' \<longleftrightarrow> (\<exists>j. carries y m j st')" for y m
  proof (cases "y = Y \<and> m = current + 1")
    case True
    then have "carries y m (InvID i) st'" using k by simp
    then show ?thesis using True c cur(1) by auto
  next
    case False
    have "(\<exists>j. carries y m j st') \<longleftrightarrow> (\<exists>j. carries y m j st)"
    proof
      assume "\<exists>j. carries y m j st'"
      then show "\<exists>j. carries y m j st" unfolding k using False by (auto split: if_splits)
    next
      assume "\<exists>j. carries y m j st"
      then obtain j where j: "carries y m j st" ..
      then have "j \<noteq> InvID i" using none by blast
      then show "\<exists>j. carries y m j st'" using j k by auto
    qed
    then show ?thesis using count [of m y] False now by (auto simp: c)
  qed
  have uniq: "j = l" if a: "carries y m j st'" "carries y m l st'" for y m j l
  proof -
    note old = inv_unique [OF inv]
    have top: "\<not> carries Y (current + 1) a st" for a using count [of "current + 1" Y] now by auto
    show ?thesis using a old top unfolding k by (auto split: if_splits)
  qed
  have nonneg: "0 \<le> currentNumber y st'" for y using inv_nonneg [OF inv] cur(1) by (simp add: c)
  have doms: "TnKeys st' j = None \<longleftrightarrow> TnInvoices st' j = None" "TnLines st' j = None \<longleftrightarrow> TnInvoices st' j = None" for j
    using inv_keys [OF inv, of j] inv_lines [OF inv, of j] numbered(1) by (auto simp: numbered(9-11))
  have marks: "TnMarkers st' k' = Some j \<longleftrightarrow> k' \<noteq> '''' \<and> TnKeys st' j = Some k'" for k' j
    using inv_marks [OF inv, of k' j] by (simp add: numbered(10,12))
  show ?thesis by (rule inv_I) (fact rows count' uniq nonneg marks doms)+
qed

lemma invoice_edges:
  assumes "apply_table invoiceTransitions src dst cause = Inr ev"
  shows "(src, dst) \<in> {(InvoiceDraft, InvoiceOpen), (InvoiceDraft, InvoiceVoid), (InvoiceOpen, InvoicePaid), (InvoiceOpen, InvoiceVoid),
    (InvoiceOpen, InvoiceUncollectible), (InvoiceUncollectible, InvoicePaid), (InvoiceOpen, InvoiceOpen)}"
  using assms by (cases src; cases dst) (simp_all add: apply_table_def invoiceTransitions_def)

lemma transition_inv:
  assumes inv: "sweep_inv st" and t: "TransitionInvoice i dst cause actor now st = (r, st')"
    and d: "InvStatus i \<noteq> InvoiceDraft \<or> dst \<noteq> InvoiceOpen"
  shows "sweep_inv st'"
  using t
proof (cases rule: TransitionInvoice_cases)
  case nothing
  then show ?thesis using inv inv_same by blast
next
  case (moved st1 row row' i' ev)
  have e: "dst \<in> {InvoiceOpen, InvoicePaid, InvoiceUncollectible} \<longrightarrow> InvStatus i \<in> {InvoiceOpen, InvoicePaid, InvoiceUncollectible}"
    "dst \<noteq> InvoiceDraft"
    using invoice_edges [OF moved(4)] d by auto
  show ?thesis
    by (rule inv_update [OF inv moved(2) moved(6,8,7) _ _ moved(10-14)]) (use e moved(3,5) in simp_all)
qed

lemma sweep_step_inv:
  assumes "sweep_step st st'" "sweep_inv st"
  shows "sweep_inv st'"
  using assms(1)
proof (cases rule: sweep_step.cases)
  case (create i items key r)
  then show ?thesis using draft_created_inv [OF assms(2)] by blast
next
  case (finalize i u events settlement cause actor current r)
  show ?thesis by (rule finalize_inv [OF assms(2) finalize])
next
  case (transition i dst cause actor now r)
  then show ?thesis using transition_inv [OF assms(2)] by blast
next
  case (chase i row r sched)
  let ?row = "\<lparr>RowInvoice = r, RowSchedule = sched\<rparr>"
  have "InvID (RowInvoice ?row) = InvID (RowInvoice row)" "InvPeriod (RowInvoice ?row) = InvPeriod (RowInvoice row)"
    "InvNumber (RowInvoice ?row) = InvNumber (RowInvoice row)" using chase by simp_all
  from inv_update [OF assms(2) chase(2) this] show ?thesis using chase by simp
next
  case beside
  then show ?thesis using assms(2) inv_same by blast
qed

lemma steps_inv: "sweep_step\<^sup>*\<^sup>* st st' \<Longrightarrow> sweep_inv st \<Longrightarrow> sweep_inv st'"
  by (induction rule: rtranclp_induct) (auto intro: sweep_step_inv)

lemma empty_inv: "empty_tenant st \<Longrightarrow> sweep_inv st"
  by (simp add: empty_tenant_def sweep_inv_def carries_def currentNumber_def)

subsection \<open>The operations make these writes only\<close>

abbreviation sweep_steps :: "sweep_store \<Rightarrow> sweep_store \<Rightarrow> bool" where
  "sweep_steps \<equiv> sweep_step\<^sup>*\<^sup>*"

definition writers :: "(nat \<Rightarrow> sweep_store \<Rightarrow> sweep_store) \<Rightarrow> bool" where
  "writers others \<longleftrightarrow> (\<forall>k st. sweep_steps st (others k st))"

lemma same_steps: "same_invoices st st' \<Longrightarrow> sweep_steps st st'"
  by (blast intro: sweep_step.beside)

lemma step_copy:
  assumes "sweep_step st st'" "copy_of i st"
  shows "copy_of i st'"
  using assms(1)
proof (cases rule: sweep_step.cases)
  case (create j items key r)
  from create(1) show ?thesis
  proof (cases rule: InvoiceCreate_cases)
    case nothing
    then show ?thesis using assms(2) by (simp add: copy_of_def same_invoices_def)
  next
    case (made st1)
    then show ?thesis using assms(2) by (auto simp: copy_of_def)
  qed
next
  case (finalize j u events settlement cause actor current r)
  from finalize(1) show ?thesis
  proof (cases rule: finalize_write_cases)
    case nothing
    then show ?thesis using assms(2) by (simp add: copy_of_def same_invoices_def)
  next
    case numbered
    then show ?thesis using assms(2) by (auto simp: copy_of_def)
  qed
next
  case (transition j dst cause actor now r)
  from transition(1) show ?thesis
  proof (cases rule: TransitionInvoice_cases)
    case nothing
    then show ?thesis using assms(2) by (simp add: copy_of_def same_invoices_def)
  next
    case moved
    then show ?thesis using assms(2) by (auto simp: copy_of_def)
  qed
next
  case chase
  then show ?thesis using assms(2) by (auto simp: copy_of_def)
next
  case beside
  then show ?thesis using assms(2) by (simp add: copy_of_def same_invoices_def)
qed

lemma steps_copy: "sweep_steps st st' \<Longrightarrow> copy_of i st \<Longrightarrow> copy_of i st'"
  by (induction rule: rtranclp_induct) (auto intro: step_copy)

lemma step_counters:
  assumes "sweep_step st st'" "TnCounters st' y = None"
  shows "TnCounters st y = None"
  using assms(1)
proof (cases rule: sweep_step.cases)
  case (create j items key r)
  from create(1) show ?thesis
    by (cases rule: InvoiceCreate_cases) (use assms(2) in \<open>simp_all add: same_invoices_def\<close>)
next
  case (finalize j u events settlement cause actor current r)
  from finalize(1) show ?thesis
    by (cases rule: finalize_write_cases) (use assms(2) in \<open>simp_all add: same_invoices_def split: if_splits\<close>)
next
  case (transition j dst cause actor now r)
  from transition(1) show ?thesis
    by (cases rule: TransitionInvoice_cases) (use assms(2) in \<open>simp_all add: same_invoices_def\<close>)
qed (use assms(2) in \<open>simp_all add: same_invoices_def\<close>)

lemma steps_counters: "sweep_steps st st' \<Longrightarrow> TnCounters st' y = None \<Longrightarrow> TnCounters st y = None"
proof (induction rule: rtranclp_induct)
  case (step s1 s2)
  then show ?case using step_counters [OF step(2)] by simp
qed

lemma finalize_attempts_steps:
  assumes w: "writers others"
  shows "sweep_inv st \<Longrightarrow> copy_of i st \<Longrightarrow> sweep_steps st (snd (finalize_attempts n others i u events settlement cause actor st))"
proof (induction n arbitrary: st)
  case 0
  then show ?case by simp
next
  case (Suc k)
  let ?Y = "Year (Start (InvPeriod i))"
  show ?case
  proof (cases "actor = ''''")
    case True
    then show ?thesis by (simp add: Let_def)
  next
    case False
    define s1 where "s1 = others k st"
    have to1: "sweep_steps st s1" using w by (simp add: writers_def s1_def)
    obtain r s2 where t: "transact (finalize_write i u events settlement cause actor (currentNumber ?Y st)) s1 = (r, s2)"
      by (cases "transact (finalize_write i u events settlement cause actor (currentNumber ?Y st)) s1")
    have "TnCounters s1 ?Y = None \<longrightarrow> currentNumber ?Y st = 0"
      using steps_counters [OF to1] currentNumber_absent by blast
    then have "sweep_step s1 s2"
      by (intro sweep_step.finalize [OF t steps_copy [OF to1 Suc.prems(2)] inv_nonneg [OF Suc.prems(1)]])
    then have to2: "sweep_steps st s2" using to1 by simp
    have next2: "sweep_steps s2 (snd (finalize_attempts k others i u events settlement cause actor s2))"
      by (rule Suc.IH) (use steps_inv [OF to2] steps_copy [OF to2] Suc.prems in blast)+
    have "snd (finalize_attempts (Suc k) others i u events settlement cause actor st) \<in>
        {s2, snd (finalize_attempts k others i u events settlement cause actor s2)}"
      using False t by (simp add: Let_def s1_def split: sum.split option.split)
    then show ?thesis using to2 next2 by auto
  qed
qed

lemma Finalize_steps:
  "writers others \<Longrightarrow> sweep_inv st \<Longrightarrow> copy_of i st \<Longrightarrow> sweep_steps st (snd (Finalize others i dueDate settlement cause actor st))"
  using finalize_attempts_steps by (simp add: Finalize_def split: sum.split)


text \<open>The copy that is finalised: with the collection terms of a tenant that collects by itself.\<close>

definition collected :: "reads \<Rightarrow> Invoice \<Rightarrow> Invoice" where
  "collected rd i = (if RdOrgsWired rd \<and> RdChargesWired rd
     then (case RdOrganization rd of None \<Rightarrow> i
           | Some org \<Rightarrow> if Rail org = RailBYOK then i\<lparr>InvCollection := OrgCollection org\<rparr> else i)
     else i)"

lemma collected_simps:
  "InvID (collected rd i) = InvID i" "InvPeriod (collected rd i) = InvPeriod i" "InvStatus (collected rd i) = InvStatus i"
  "InvTotal (collected rd i) = InvTotal i" "InvCreditedTotal (collected rd i) = InvCreditedTotal i"
  "InvAmountPaid (collected rd i) = InvAmountPaid i"
  by (simp_all add: collected_def split: option.split)

lemma finalize_alt:
  "finalize rd others i dueDate settlement cause actor st =
     (case Finalize others (collected rd i) dueDate settlement cause actor st of
        (Inl err, st') \<Rightarrow> (Inl err, st')
      | (Inr i', st') \<Rightarrow>
          (Inr i', if RdChargesWired rd \<and> \<not> NothingDue i' then st'\<lparr>TnCharges := TnCharges st' @ [InvID i']\<rparr> else st'))"
  by (simp only: finalize_def Let_def collected_def)

lemma finalize_steps:
  assumes "writers others" "sweep_inv st" "copy_of i st"
  shows "sweep_steps st (snd (finalize rd others i dueDate settlement cause actor st))"
proof -
  have "copy_of (collected rd i) st" using assms(3) by (simp add: copy_of_def collected_simps)
  then have F: "sweep_steps st (snd (Finalize others (collected rd i) dueDate settlement cause actor st))"
    by (rule Finalize_steps [OF assms(1,2)])
  obtain r st' where r: "Finalize others (collected rd i) dueDate settlement cause actor st = (r, st')"
    by (cases "Finalize others (collected rd i) dueDate settlement cause actor st")
  have "sweep_step st' (st'\<lparr>TnCharges := c\<rparr>)" for c by (rule sweep_step.beside) (simp add: same_invoices_def)
  then have "sweep_steps st' (snd (finalize rd others i dueDate settlement cause actor st))"
    by (cases r) (auto simp: finalize_alt r)
  then show ?thesis using F r by simp
qed

lemma finalized_open:
  assumes "Finalize others i dueDate settlement cause actor st = (Inr i', st')"
  shows "InvStatus i' = InvoiceOpen"
proof -
  have attempts: "finalize_attempts n others i u events settlement cause actor s = (Inr i', st') \<Longrightarrow> InvStatus i' = InvStatus u" for n u events s
  proof (induction n arbitrary: s)
    case (Suc n)
    then show ?case
      by (auto simp: Let_def split: if_splits sum.splits prod.splits option.splits)
  qed simp
  obtain u events where u: "InvoiceTransition i InvoiceOpen cause = Inr (u, events)"
    using assms by (cases "InvoiceTransition i InvoiceOpen cause") (auto simp: Finalize_def)
  then have "InvStatus i' = InvStatus u" using assms attempts by (fastforce simp: Finalize_def)
  then show ?thesis using InvoiceTransition_frame [OF u] by simp
qed

lemma finalize_open: "finalize rd others i dueDate settlement cause actor st = (Inr i', st') \<Longrightarrow> InvStatus i' = InvoiceOpen"
  by (auto simp: finalize_alt dest: finalized_open split: prod.splits sum.splits)

lemma TransitionInvoice_steps:
  assumes "InvStatus i \<noteq> InvoiceDraft \<or> dst \<noteq> InvoiceOpen"
  shows "sweep_steps st (snd (TransitionInvoice i dst cause actor now st))"
  using sweep_step.transition [OF prod.collapse [symmetric] assms] by blast

lemma issue_steps:
  assumes "writers others" "sweep_inv st" "copy_of i st"
  shows "sweep_steps st (snd (issue rd others i sub period actor now st))"
proof (cases "DueDate period (SubTiming sub) (SubNetDays sub)")
  case None
  then show ?thesis by (simp add: issue_def)
next
  case (Some d)
  have F: "sweep_steps st (snd (finalize rd others i d settlement CauseScheduler actor st))" for settlement
    by (rule finalize_steps [OF assms])
  show ?thesis
  proof (cases "NothingDue i")
    case False
    then show ?thesis using F Some by (simp add: issue_def)
  next
    case True
    obtain r st1 where r: "finalize rd others i d (mk_date 0 0 0) CauseScheduler actor st = (r, st1)"
      by (cases "finalize rd others i d (mk_date 0 0 0) CauseScheduler actor st")
    have to1: "sweep_steps st st1" using F [of "mk_date 0 0 0"] r by simp
    show ?thesis
    proof (cases r)
      case (Inl e)
      then show ?thesis using True Some r to1 by (simp add: issue_def)
    next
      case (Inr i1)
      have "sweep_steps st1 (snd (TransitionInvoice i1 InvoicePaid CauseNothingDue actor now st1))"
        by (rule TransitionInvoice_steps) simp
      then show ?thesis using True Some r Inr to1 by (simp add: issue_def)
    qed
  qed
qed

lemma same_refl: "same_invoices st st"
  by (simp add: same_invoices_def)

lemma transact_same:
  assumes "\<And>s x s'. body s = Inr (x, s') \<Longrightarrow> same_invoices s s'"
  shows "same_invoices st (snd (transact body st))"
proof -
  obtain r st' where t: "transact body st = (r, st')" by (cases "transact body st")
  then show ?thesis
  proof (cases rule: transact_cases)
    case nothing
    then show ?thesis using t by simp
  next
    case (body x st1 st2)
    then show ?thesis using t assms [OF body(5)] by (simp add: same_invoices_def)
  qed
qed

lemma TransitionSubscription_same: "same_invoices st (snd (TransitionSubscription s dst cause actor st))"
proof -
  have "same_invoices st (snd (transact (\<lambda>st.
            case SubscriptionRepositoryTransition s dst cause actor (subscription_view no_invoice (TnSubs st (SubID s)) st) of
              Inl err \<Rightarrow> Inl (ErrRepo err)
            | Inr (s', v) \<Rightarrow> Inr (s', st\<lparr>TnSubs := (TnSubs st)(SubID s := StSubscription v), TnOutbox := StOutbox v,
                                         TnAudit := StAudit v\<rparr>)) st))"
    by (rule transact_same) (auto simp: same_invoices_def split: sum.splits)
  then show ?thesis by (simp add: TransitionSubscription_def same_refl split: sum.split prod.split)
qed

lemma subscription_steps: "sweep_steps st (snd (TransitionSubscription s dst cause actor st))"
  by (rule same_steps [OF TransitionSubscription_same])

lemma items_write_same:
  "same_invoices st (snd (transact (\<lambda>st. case TnSubs st sid of None \<Rightarrow> Inl e
     | Some row \<Rightarrow> if P st row then Inl e' else Inr (u, note_change eid events cause actor (st\<lparr>TnSubs := f st row, TnItems := g st row\<rparr>))) st))"
  by (rule transact_same) (auto simp: same_invoices_def note_change_def split: option.splits if_splits)

lemma changeItems_same: "same_invoices st (snd (changeItems s old new timing owner cause actor renew st))"
  by (simp only: changeItems_def Let_def)
    (auto simp only: same_refl items_write_same snd_conv split: sum.split option.split if_split prod.split)

lemma GetByGenerationKey_copy:
  assumes "sweep_inv st" "GetByGenerationKey key st = Some i"
  shows "copy_of i st"
  using assms inv_row [OF assms(1)] by (auto simp: GetByGenerationKey_def copy_of_def invoice_row_ok_def split: option.splits)

lemma Generate_cases:
  obtains (nothing) e where "GenerateForPeriod rd others fresh sub items period actor now st = (Inl e, st)"
  | (draft) i ls where "GenerateForPeriod rd others fresh sub items period actor now st =
      (case InvoiceCreate i ls (GenerationKey (SubID sub) (Start period)) st of
         (Inl err, st1) \<Rightarrow> (Inl err, st1) | (Inr _, st1) \<Rightarrow> issue rd others i sub period actor now st1)" "InvNumber i = 0"
proof (cases "items = [] \<or> isl (build_lines rd sub period items)")
  case True
  then have "\<exists>e. GenerateForPeriod rd others fresh sub items period actor now st = (Inl e, st)"
    by (auto simp: GenerateForPeriod_def isl_def)
  then show thesis using that(1) by blast
next
  case False
  then obtain ls ps where b: "build_lines rd sub period items = Inr (ls, ps)" by (cases "build_lines rd sub period items") auto
  show thesis
  proof (cases "resolvePolicy rd ps")
    case (Inl e)
    then show thesis using that(1) False b by (simp add: GenerateForPeriod_def)
  next
    case (Inr policy)
    show thesis
    proof (cases "ApplyToInvoice (draft_invoice fresh sub period policy) ls 0")
      case (Inl e)
      then show thesis using that(1) False b Inr by (simp add: GenerateForPeriod_def)
    next
      case i: (Inr i)
      then have "InvNumber i = 0" by (auto simp: ApplyToInvoice_def draft_invoice_def no_invoice_def Let_def split: if_splits)
      then show thesis using False b Inr i by (intro that(2) [of i ls]) (simp_all add: GenerateForPeriod_def)
    qed
  qed
qed

lemma Generate_steps:
  assumes w: "writers others" and inv: "sweep_inv st"
  shows "sweep_steps st (snd (GenerateForPeriod rd others fresh sub items period actor now st))"
proof (cases rule: Generate_cases [of rd others fresh sub items period actor now st])
  case (draft i ls)
  obtain r st1 where r: "InvoiceCreate i ls (GenerationKey (SubID sub) (Start period)) st = (r, st1)"
    by (cases "InvoiceCreate i ls (GenerationKey (SubID sub) (Start period)) st")
  have step: "sweep_step st st1" by (rule sweep_step.create [OF r draft(2)])
  show ?thesis
  proof (cases r)
    case (Inl e)
    then show ?thesis using draft(1) r step by auto
  next
    case (Inr u)
    have "copy_of i st1"
      using r by (cases rule: InvoiceCreate_cases) (auto simp: Inr copy_of_def)
    then have "sweep_steps st1 (snd (issue rd others i sub period actor now st1))"
      by (rule issue_steps [OF w sweep_step_inv [OF step inv]])
    then show ?thesis using draft(1) r Inr step by (simp add: converse_rtranclp_into_rtranclp)
  qed
qed simp

text \<open>
  What a run may do to the store between two of its points: any relation that a step that fails or returns, and
  what follows it, keep together.
\<close>

locale run_relation =
  fixes R :: "'s \<Rightarrow> 's \<Rightarrow> bool"
  assumes refl: "R s s" and trans: "R s t \<Longrightarrow> R t u \<Longrightarrow> R s u"
begin

lemma bind:
  assumes "R st (snd m)" "\<And>x s. R st s \<Longrightarrow> R s (snd (f x s))"
  shows "R st (snd (case m of (Inl e, s) \<Rightarrow> (g e, s) | (Inr x, s) \<Rightarrow> f x s))"
proof -
  obtain r s where m: "m = (r, s)" by (cases m)
  show ?thesis
  proof (cases r)
    case (Inr x)
    have "R st s" using assms(1) m by simp
    then show ?thesis using trans assms(2) [of s x] m Inr by simp
  qed (use assms(1) m in simp)
qed

end

interpretation made: run_relation sweep_steps
  by unfold_locales auto

lemma leftover_steps:
  assumes w: "writers others" and inv: "sweep_inv st"
  shows "sweep_steps st (snd (issueLeftoverDraft rd others sub period actor now st))"
proof (cases "GetByGenerationKey (GenerationKey (SubID sub) (Start period)) st")
  case None
  then show ?thesis by (simp add: issueLeftoverDraft_def)
next
  case (Some i)
  show ?thesis
    unfolding issueLeftoverDraft_def Some
    by (auto intro!: made.bind issue_steps [OF w inv] GetByGenerationKey_copy [OF inv Some])
qed

lemma end_steps:
  assumes w: "writers others" and inv: "sweep_inv st"
  shows "sweep_steps st (snd (endAtBoundary rd others fresh sub items actor now st))"
  unfolding endAtBoundary_def
  by (rule made.bind, cases "PeriodToInvoice sub")
    (auto intro!: made.bind Generate_steps [OF w inv] subscription_steps)

lemma change_steps:
  assumes w: "writers others" and inv: "sweep_inv st"
  shows "sweep_steps st (snd (changeAtBoundary rd others ids sub items pc actor now st))"
  unfolding changeAtBoundary_def
proof (rule made.bind, goal_cases)
  case 1
  show ?case by (cases "PeriodToInvoice sub") (auto intro!: made.bind Generate_steps [OF w inv])
next
  case (2 x s)
  have change: "sweep_steps s (snd (ApplyScheduledChange sub items new timing owner actor s))" for new timing owner
    unfolding ApplyScheduledChange_def by (rule same_steps [OF changeItems_same])
  have after: "sweep_inv s'" if "sweep_steps s s'" for s' using steps_inv [OF that] steps_inv [OF 2 inv] by blast
  show ?case
    by (cases "scheduled_items rd sub ids 2 (PcPriceIDs pc) (SubTiming sub) (SubOwnerKey sub)")
      (auto split: option.split intro!: made.bind change Generate_steps [OF w after])
qed

lemma invoiceOne_steps:
  assumes w: "writers others" and inv: "sweep_inv st"
  shows "sweep_steps st (snd (invoiceOne rd others ids sub actor now st))"
proof -
  define items where "items = ListItems (SubID sub) st"
  define pending where "pending = (case SubPendingChange sub of None \<Rightarrow> None
     | Some pc \<Rightarrow> if Some (PcAt pc) = map_option End (CurrentPeriod sub) then Some pc else None)"
  have renewal: "sweep_steps st (snd (case m of (Inl err, _, st2) \<Rightarrow> (Inl err, st2)
       | (Inr _, genErr, st2) \<Rightarrow>
           (case TransitionSubscription sub SubscriptionActive CauseRenewal actor st2 of
              (Inl err, st3) \<Rightarrow> (if tolerated err then genErr else Inl err, st3)
            | (Inr _, st3) \<Rightarrow> (genErr, st3))))"
    if "sweep_steps st (snd (snd m))" for m :: "(sweep_error, unit) result \<times> (sweep_error, unit) result \<times> sweep_store"
  proof -
    obtain a genErr s where m: "m = (a, genErr, s)" by (cases m)
    have "sweep_steps s (snd (case TransitionSubscription sub SubscriptionActive CauseRenewal actor s of
              (Inl err, st3) \<Rightarrow> (if tolerated err then genErr else Inl err, st3)
            | (Inr _, st3) \<Rightarrow> (genErr, st3)))"
      by (rule made.bind) (auto intro!: subscription_steps)
    then show ?thesis using that m by (cases a) auto
  qed
  have generated: "sweep_steps st (snd (snd (case GenerateForPeriod rd others fresh sub its period actor now st of
         (Inr _, st1) \<Rightarrow> (Inr (), Inr (), st1)
       | (Inl err, st1) \<Rightarrow>
           if err \<noteq> ErrAlreadyGenerated then (Inl err, Inr (), st1)
           else (case issueLeftoverDraft rd others sub period actor now st1 of
                   (Inl err, st2) \<Rightarrow> (Inl err, Inr (), st2)
                 | (Inr _, st2) \<Rightarrow> (Inr (), Inl ErrAlreadyGenerated, st2)))))"
    for fresh its period
  proof -
    obtain r s where g: "GenerateForPeriod rd others fresh sub its period actor now st = (r, s)"
      by (cases "GenerateForPeriod rd others fresh sub its period actor now st")
    have to1: "sweep_steps st s" using Generate_steps [OF w inv, of rd fresh sub its period actor now] g by simp
    obtain r2 s2 where l: "issueLeftoverDraft rd others sub period actor now s = (r2, s2)"
      by (cases "issueLeftoverDraft rd others sub period actor now s")
    have "sweep_steps s s2" using leftover_steps [OF w steps_inv [OF to1 inv], of rd sub period actor now] l by simp
    then show ?thesis using to1 g l by (cases r; cases r2) auto
  qed
  show ?thesis
    unfolding invoiceOne_def Let_def items_def [symmetric] pending_def [symmetric]
    by (auto split: option.split simp: end_steps [OF w inv] change_steps [OF w inv] renewal generated)
qed

lemma sweepOne_steps:
  assumes w: "writers others" and inv: "sweep_inv st"
  shows "sweep_steps st (snd (sweepOne rd others ids suspended guard sub actor now (r, st)))"
proof -
  obtain x s where i: "invoiceOne rd others ids sub actor now st = (x, s)" by (cases "invoiceOne rd others ids sub actor now st")
  then have "sweep_steps st s" using invoiceOne_steps [OF w inv, of rd ids sub actor now] by simp
  then show ?thesis using i by (auto simp: sweepOne_def split: option.split bool.split sum.split)
qed

lemma RunDailySweep_steps:
  assumes w: "\<And>sid. writers (others sid)"
  shows "sweep_inv st \<Longrightarrow> sweep_steps st (snd (RunDailySweep rd others ids suspended guard due actor now st))"
proof -
  define f where "f = (\<lambda>sub (r, st). sweepOne rd (others (SubID sub)) (ids (SubID sub)) suspended guard sub actor now
             (r\<lparr>SwExamined := SwExamined r + 1\<rparr>, st))"
  have "sweep_inv st \<Longrightarrow> sweep_steps st (snd (fold f due (r, st)))" for r :: SweepResult
  proof (induction due arbitrary: r st)
    case (Cons sub due)
    obtain r' s where f: "f sub (r, st) = (r', s)" by (cases "f sub (r, st)")
    have to1: "sweep_steps st s"
      using sweepOne_steps [OF w Cons.prems, where sub = sub and r = "r\<lparr>SwExamined := SwExamined r + 1\<rparr>"] f
      by (simp add: f_def) (metis snd_conv)
    have "sweep_steps s (snd (fold f due (r', s)))" by (rule Cons.IH [OF steps_inv [OF to1 Cons.prems]])
    then show ?case using to1 f by simp
  qed simp
  then show "sweep_inv st \<Longrightarrow> sweep_steps st (snd (RunDailySweep rd others ids suspended guard due actor now st))"
    by (simp add: RunDailySweep_def f_def)
qed

lemma InvoicerIssue_steps:
  assumes "writers others" "sweep_inv st" "copy_of i st"
  shows "sweep_steps st (snd (InvoicerIssue rd others i actor now st))"
proof -
  have F: "sweep_steps st (snd (case finalize rd others i d settlement CauseManual actor st of
                 (Inl err, st1) \<Rightarrow> (Inl err, st1)
               | (Inr i1, st1) \<Rightarrow>
                   if NothingDue i1 then TransitionInvoice i1 InvoicePaid CauseNothingDue actor now st1 else (Inr i1, st1)))" for d settlement
    by (rule made.bind) (auto intro: finalize_steps [OF assms] TransitionInvoice_steps)
  show ?thesis by (auto simp: InvoicerIssue_def Let_def F simp del: split_paired_All split: option.split)
qed

end
