(* ===== verification/SweepProps.thy ===== *)
theory SweepProps
  imports Sweep
begin

text \<open>
  What the properties of the daily sweep rest on: an issued invoice and the marker of a key stay, a whole run
  keeps the numbers and the keys, issuing answers only when the invoice is issued, and a renewal is written
  only past a period whose invoice was issued.
\<close>

subsection \<open>What stays\<close>

definition issued :: "string \<Rightarrow> sweep_store \<Rightarrow> bool" where
  "issued i st \<longleftrightarrow> (\<exists>row. TnInvoices st i = Some row \<and> InvStatus (RowInvoice row) \<noteq> InvoiceDraft)"

lemma step_stays:
  assumes "sweep_step st st'"
  shows "(issued i st \<longrightarrow> issued i st') \<and> (TnMarkers st k = Some j \<longrightarrow> TnMarkers st' k = Some j)"
  using assms
proof (cases rule: sweep_step.cases)
  case (create x items key r)
  from create(1) show ?thesis
  proof (cases rule: InvoiceCreate_cases)
    case nothing
    then show ?thesis by (simp add: issued_def same_invoices_def)
  next
    case (made st1)
    then show ?thesis by (auto simp: issued_def)
  qed
next
  case (finalize x u events settlement cause actor current r)
  from finalize(1) show ?thesis
  proof (cases rule: finalize_write_cases)
    case nothing
    then show ?thesis by (simp add: issued_def same_invoices_def)
  next
    case numbered
    then show ?thesis by (auto simp: issued_def)
  qed
next
  case (transition x dst cause actor now r)
  from transition(1) show ?thesis
  proof (cases rule: TransitionInvoice_cases)
    case nothing
    then show ?thesis by (simp add: issued_def same_invoices_def)
  next
    case (moved st1 row row' i' ev)
    have "dst \<noteq> InvoiceDraft" using invoice_edges [OF moved(4)] by auto
    then show ?thesis using moved by (auto simp: issued_def)
  qed
next
  case chase
  then show ?thesis by (auto simp: issued_def)
next
  case beside
  then show ?thesis by (simp add: issued_def same_invoices_def)
qed

lemma steps_stay:
  "sweep_steps st st' \<Longrightarrow> (issued i st \<longrightarrow> issued i st') \<and> (TnMarkers st k = Some j \<longrightarrow> TnMarkers st' k = Some j)"
proof (induction rule: rtranclp_induct)
  case (step s1 s2)
  then show ?case using step_stays [OF step(2), of i k j] by blast
qed simp

lemma steps_issued: "sweep_steps st st' \<Longrightarrow> issued i st \<Longrightarrow> issued i st'"
  and steps_marks: "sweep_steps st st' \<Longrightarrow> TnMarkers st k = Some j \<Longrightarrow> TnMarkers st' k = Some j"
  using steps_stay by blast+

subsection \<open>Numbers and keys\<close>

lemma run_inv:
  assumes "empty_tenant st0" "sweep_steps st0 st" "\<And>sid. writers (others sid)"
    and "RunDailySweep rd others ids suspended guard due actor now st = (r, st')"
  shows "sweep_inv st'"
proof -
  have inv: "sweep_inv st" by (rule steps_inv [OF assms(2) empty_inv [OF assms(1)]])
  have "sweep_steps st (snd (RunDailySweep rd others ids suspended guard due actor now st))"
    by (rule RunDailySweep_steps [OF assms(3) inv])
  then show ?thesis using steps_inv [OF _ inv] assms(4) by simp
qed

lemma numbered_carries:
  assumes "sweep_inv st" "TnInvoices st i = Some row" "InvStatus (RowInvoice row) \<in> {InvoiceOpen, InvoicePaid, InvoiceUncollectible}"
  shows "\<exists>n. carries (invoice_year row) n i st"
proof -
  have "InvNumber (RowInvoice row) \<noteq> 0" using inv_row [OF assms(1,2)] assms(3) unfolding invoice_row_ok_def by blast
  then show ?thesis using assms(2) by (simp add: carries_def)
qed

subsection \<open>Issued before renewed\<close>

lemma finalize_attempts_issued:
  "finalize_attempts n others i u events settlement cause actor st = (Inr i', st') \<Longrightarrow> issued (InvID i) st' \<and> InvID i' = InvID u"
proof (induction n arbitrary: st)
  case (Suc k)
  let ?Y = "Year (Start (InvPeriod i))"
  obtain r s2 where t: "transact (finalize_write i u events settlement cause actor (currentNumber ?Y st)) (others k st) = (r, s2)"
    by (cases "transact (finalize_write i u events settlement cause actor (currentNumber ?Y st)) (others k st)")
  have actor: "actor \<noteq> ''''" using Suc.prems by (auto simp: Let_def)
  show ?case
  proof (cases r)
    case (Inl e)
    then show ?thesis using Suc.prems t actor
      by (auto simp: Let_def split: if_splits option.splits dest!: Suc.IH)
  next
    case (Inr x)
    then have "st' = s2" "InvID i' = InvID u" using Suc.prems t actor by (auto simp: Let_def)
    moreover from t Inr have "issued (InvID i) s2"
      by (cases rule: finalize_write_cases) (auto simp: issued_def)
    ultimately show ?thesis by simp
  qed
qed simp

lemma Finalize_issued:
  assumes "Finalize others i dueDate settlement cause actor st = (Inr i', st')"
  shows "issued (InvID i) st' \<and> InvID i' = InvID i"
proof -
  obtain u events where u: "InvoiceTransition i InvoiceOpen cause = Inr (u, events)"
    using assms by (cases "InvoiceTransition i InvoiceOpen cause") (auto simp: Finalize_def)
  have "InvID u = InvID i" using InvoiceTransition_frame [OF u] by simp
  then show ?thesis using finalize_attempts_issued assms u by (fastforce simp: Finalize_def)
qed

lemma finalize_issued:
  assumes "finalize rd others i dueDate settlement cause actor st = (Inr i', st')"
  shows "issued (InvID i) st'"
proof -
  obtain x s where F: "Finalize others (collected rd i) dueDate settlement cause actor st = (x, s)"
    by (cases "Finalize others (collected rd i) dueDate settlement cause actor st")
  then have "x = Inr i'" "TnInvoices st' = TnInvoices s"
    using assms by (cases x; auto simp: finalize_alt split: if_splits)+
  then show ?thesis using Finalize_issued [of others "collected rd i"] F by (auto simp: issued_def collected_simps)
qed

lemma issue_issued:
  assumes "issue rd others i sub period actor now st = (Inr i', st')"
  shows "issued (InvID i) st'"
proof -
  obtain d where d: "DueDate period (SubTiming sub) (SubNetDays sub) = Some d"
    using assms by (auto simp: issue_def split: option.splits)
  show ?thesis
  proof (cases "NothingDue i")
    case False
    then show ?thesis using assms d finalize_issued by (fastforce simp: issue_def)
  next
    case True
    then obtain i1 st1 where f: "finalize rd others i d (mk_date 0 0 0) CauseScheduler actor st = (Inr i1, st1)"
      "TransitionInvoice i1 InvoicePaid CauseNothingDue actor now st1 = (Inr i', st')"
      using assms d by (auto simp: issue_def split: prod.splits sum.splits)
    have "sweep_steps st1 st'"
      using TransitionInvoice_steps [of i1 InvoicePaid st1 CauseNothingDue actor now] f(2) by simp
    then show ?thesis using steps_issued finalize_issued [OF f(1)] by blast
  qed
qed

text \<open>The invoice of a key is in the books and is not a draft.\<close>

definition period_issued :: "string \<Rightarrow> sweep_store \<Rightarrow> bool" where
  "period_issued key st \<longleftrightarrow> (\<exists>i. GetByGenerationKey key st = Some i \<and> InvStatus i \<noteq> InvoiceDraft)"

lemma period_issued_iff: "period_issued key st \<longleftrightarrow> (\<exists>j. TnMarkers st key = Some j \<and> issued j st)"
  by (auto simp: period_issued_def GetByGenerationKey_def issued_def split: option.splits)

lemma steps_period_issued: "sweep_steps st st' \<Longrightarrow> period_issued key st \<Longrightarrow> period_issued key st'"
  unfolding period_issued_iff using steps_issued steps_marks by blast

lemma key_nonempty: "GenerationKey sid d \<noteq> ''''"
  by (simp add: GenerationKey_def)

lemma Generate_issued:
  assumes w: "writers others" and inv: "sweep_inv st"
    and g: "GenerateForPeriod rd others fresh sub items period actor now st = (Inr i', st')"
  shows "period_issued (GenerationKey (SubID sub) (Start period)) st'"
proof -
  let ?key = "GenerationKey (SubID sub) (Start period)"
  obtain ls ps policy i where i: "build_lines rd sub period items = Inr (ls, ps)" "resolvePolicy rd ps = Inr policy"
    "ApplyToInvoice (draft_invoice fresh sub period policy) ls 0 = Inr i" "items \<noteq> []"
    using g by (auto simp: GenerateForPeriod_def split: if_splits sum.splits)
  obtain r st1 where c: "InvoiceCreate i ls ?key st = (r, st1)" by (cases "InvoiceCreate i ls ?key st")
  then have r: "r = Inr ()" and iss: "issue rd others i sub period actor now st1 = (Inr i', st')"
    using g i by (auto simp: GenerateForPeriod_def split: sum.splits)
  have "InvNumber i = 0" using i(3) by (auto simp: ApplyToInvoice_def draft_invoice_def no_invoice_def Let_def split: if_splits)
  then have step: "sweep_step st st1" by (rule sweep_step.create [OF c])
  from c have made: "TnMarkers st1 ?key = Some (InvID i) \<and> copy_of i st1"
    by (cases rule: InvoiceCreate_cases) (auto simp: r copy_of_def key_nonempty)
  have "sweep_steps st1 st'"
    using issue_steps [OF w sweep_step_inv [OF step inv], of i rd sub period actor now] made iss by simp
  then have "TnMarkers st' ?key = Some (InvID i)" using steps_marks made by blast
  then show ?thesis using issue_issued [OF iss] period_issued_iff by blast
qed

lemma leftover_issued:
  assumes w: "writers others" and inv: "sweep_inv st"
    and l: "issueLeftoverDraft rd others sub period actor now st = (Inr (), st')"
  shows "period_issued (GenerationKey (SubID sub) (Start period)) st'"
proof -
  let ?key = "GenerationKey (SubID sub) (Start period)"
  obtain i where i: "GetByGenerationKey ?key st = Some i"
    using l by (auto simp: issueLeftoverDraft_def split: option.splits)
  show ?thesis
  proof (cases "InvStatus i = InvoiceDraft")
    case False
    then show ?thesis using l i by (auto simp: issueLeftoverDraft_def period_issued_def)
  next
    case True
    then obtain i' where iss: "issue rd others i sub period actor now st = (Inr i', st')"
      using l i by (auto simp: issueLeftoverDraft_def split: prod.splits sum.splits)
    obtain j row where j: "TnMarkers st ?key = Some j" "TnInvoices st j = Some row" "i = RowInvoice row"
      using i by (auto simp: GetByGenerationKey_def split: option.splits)
    have "InvID i = j" using inv_row [OF inv j(2)] j(3) unfolding invoice_row_ok_def by blast
    moreover have "sweep_steps st st'"
      using issue_steps [OF w inv GetByGenerationKey_copy [OF inv i], of rd sub period actor now] iss by simp
    ultimately show ?thesis using issue_issued [OF iss] steps_marks j(1) period_issued_iff by blast
  qed
qed


text \<open>Issuing does not answer that a period is already generated.\<close>

lemma transact_Inl:
  assumes "fst (transact body st) = Inl e"
  shows "e = ErrTransactionConflict \<or> e = ErrStore \<or> (\<exists>s. body s = Inl e)"
proof -
  obtain r s where "transact body st = (r, s)" by (cases "transact body st")
  then show ?thesis using assms by (auto simp: transact_def Let_def split: list.splits outcome.splits sum.splits)
qed

lemma finalize_attempts_error: "fst (finalize_attempts n others i u events settlement cause actor st) \<noteq> Inl ErrAlreadyGenerated"
proof (induction n arbitrary: st)
  case (Suc k)
  let ?Y = "Year (Start (InvPeriod i))"
  let ?t = "transact (finalize_write i u events settlement cause actor (currentNumber ?Y st)) (others k st)"
  have e: "fst ?t \<noteq> Inl ErrAlreadyGenerated"
    by (rule notI, drule transact_Inl) (auto simp: finalize_write_def Let_def split: option.splits if_splits)
  obtain r s where t: "?t = (r, s)" by (cases ?t)
  show ?case using e Suc.IH t by (cases r) (auto simp: Let_def split: option.split)
qed simp

lemma TransitionInvoice_error: "fst (TransitionInvoice i dst cause actor now st) \<noteq> Inl ErrAlreadyGenerated"
  unfolding TransitionInvoice_def
  by (rule notI) (auto split: sum.splits if_splits option.splits dest!: transact_Inl)

lemma finalize_error: "fst (finalize rd others i dueDate settlement cause actor st) \<noteq> Inl ErrAlreadyGenerated"
proof -
  have "fst (Finalize others (collected rd i) dueDate settlement cause actor st) \<noteq> Inl ErrAlreadyGenerated"
    using finalize_attempts_error by (simp add: Finalize_def split: sum.split)
  then show ?thesis by (auto simp: finalize_alt split: prod.split sum.split)
qed

lemma issue_error: "fst (issue rd others i sub period actor now st) \<noteq> Inl ErrAlreadyGenerated"
proof (cases "DueDate period (SubTiming sub) (SubNetDays sub)")
  case (Some d)
  obtain r s where f: "finalize rd others i d (mk_date 0 0 0) CauseScheduler actor st = (r, s)"
    by (cases "finalize rd others i d (mk_date 0 0 0) CauseScheduler actor st")
  show ?thesis
    using finalize_error [of rd others i d "mk_date 0 0 0" CauseScheduler actor st] f finalize_error Some
      TransitionInvoice_error [of _ InvoicePaid CauseNothingDue actor now s]
    by (cases r) (simp_all add: issue_def)
qed (simp add: issue_def)

lemma leftover_error: "fst (issueLeftoverDraft rd others sub period actor now st) \<noteq> Inl ErrAlreadyGenerated"
proof -
  have "fst (case issue rd others i sub period actor now st of
                  (Inl err, st1) \<Rightarrow> (Inl err, st1) | (Inr _, st1) \<Rightarrow> (Inr (), st1)) \<noteq> Inl ErrAlreadyGenerated" for i
    using issue_error [of rd others i sub period actor now st] by (auto split: prod.split sum.split)
  then show ?thesis by (simp add: issueLeftoverDraft_def split: option.split)
qed

definition plain_renewal :: "Subscription \<Rightarrow> bool" where
  "plain_renewal sub \<longleftrightarrow> \<not> SubCancelAtPeriodEnd sub \<and>
     (case SubPendingChange sub of None \<Rightarrow> True | Some pc \<Rightarrow> Some (PcAt pc) \<noteq> map_option End (CurrentPeriod sub))"

lemma invoiceOne_plain:
  assumes "plain_renewal sub" "ListItems (SubID sub) st \<noteq> []" "PeriodToInvoice sub = Some period"
  shows "invoiceOne rd others ids sub actor now st =
    (case (case GenerateForPeriod rd others (ids 0) sub (ListItems (SubID sub) st) period actor now st of
             (Inr _, st1) \<Rightarrow> (Inr (), Inr (), st1)
           | (Inl err, st1) \<Rightarrow>
               if err \<noteq> ErrAlreadyGenerated then (Inl err, Inr (), st1)
               else (case issueLeftoverDraft rd others sub period actor now st1 of
                       (Inl err, st2) \<Rightarrow> (Inl err, Inr (), st2)
                     | (Inr _, st2) \<Rightarrow> (Inr (), Inl ErrAlreadyGenerated, st2))) of
       (Inl err, _, st2) \<Rightarrow> (Inl err, st2)
     | (Inr _, genErr, st2) \<Rightarrow>
         (case TransitionSubscription sub SubscriptionActive CauseRenewal actor st2 of
            (Inl err, st3) \<Rightarrow> (if tolerated err then genErr else Inl err, st3)
          | (Inr _, st3) \<Rightarrow> (genErr, st3)))"
proof -
  have "(case SubPendingChange sub of None \<Rightarrow> None
     | Some pc \<Rightarrow> if Some (PcAt pc) = map_option End (CurrentPeriod sub) then Some pc else None) = None"
    using assms(1) by (auto simp: plain_renewal_def split: option.splits)
  then show ?thesis using assms by (simp add: invoiceOne_def plain_renewal_def)
qed

lemma renewal_issued:
  assumes "writers others" "sweep_inv st" "plain_renewal sub" "PeriodToInvoice sub = Some period"
    and "invoiceOne rd others ids sub actor now st = (r, st')" "r = Inr () \<or> r = Inl ErrAlreadyGenerated"
  shows "period_issued (GenerationKey (SubID sub) (Start period)) st'"
proof -
  let ?key = "GenerationKey (SubID sub) (Start period)"
  have items: "ListItems (SubID sub) st \<noteq> []" using assms(5,6) by (auto simp: invoiceOne_def Let_def)
  obtain x s where x: "GenerateForPeriod rd others (ids 0) sub (ListItems (SubID sub) st) period actor now st = (x, s)"
    by (cases "GenerateForPeriod rd others (ids 0) sub (ListItems (SubID sub) st) period actor now st")
  have to1: "sweep_steps st s"
    using Generate_steps [OF assms(1,2), of rd "ids 0" sub "ListItems (SubID sub) st" period actor now] x by simp
  obtain y s2 where y: "issueLeftoverDraft rd others sub period actor now s = (y, s2)"
    by (cases "issueLeftoverDraft rd others sub period actor now s")
  note run = assms(5) [unfolded invoiceOne_plain [OF assms(3) items assms(4)] x, simplified]
  have "\<exists>s3. period_issued ?key s3 \<and> st' = snd (TransitionSubscription sub SubscriptionActive CauseRenewal actor s3)"
  proof (cases x)
    case (Inr i)
    have "period_issued ?key s" by (rule Generate_issued [OF assms(1,2) x [unfolded Inr]])
    moreover have "st' = snd (TransitionSubscription sub SubscriptionActive CauseRenewal actor s)"
      using run Inr by (auto split: prod.splits sum.splits)
    ultimately show ?thesis by blast
  next
    case (Inl err)
    have err: "err = ErrAlreadyGenerated" using run Inl assms(6) by (auto split: if_splits)
    obtain u where u: "y = Inr u" using run Inl err y assms(6) leftover_error [of rd others sub period actor now s]
      by (cases y) auto
    have "period_issued ?key s2"
      using leftover_issued [OF assms(1) steps_inv [OF to1 assms(2)]] y u by simp
    moreover have "st' = snd (TransitionSubscription sub SubscriptionActive CauseRenewal actor s2)"
      using run Inl err y u by (auto split: prod.splits sum.splits)
    ultimately show ?thesis by blast
  qed
  then show ?thesis using steps_period_issued [OF subscription_steps] by blast
qed

end
