(* ===== verification/SweepLive.thy ===== *)
theory SweepLive
  imports SweepProps
begin

text \<open>
  What a run of the sweep does when nothing fails, what a run that dies leaves behind, and that the next run
  finishes it; the boundary at which it does not; and the properties of the sweep, with a tenant to apply them to.
\<close>

subsection \<open>Nothing fails\<close>

definition idle :: "nat \<Rightarrow> sweep_store \<Rightarrow> sweep_store" where
  "idle k st = st"

lemma transact_clean:
  "TnOutcomes st = [] \<Longrightarrow> transact body st = (case body st of Inl err \<Rightarrow> (Inl err, st) | Inr (x, st') \<Rightarrow> (Inr x, st'))"
proof -
  assume e: "TnOutcomes st = []"
  then have same: "st\<lparr>TnOutcomes := []\<rparr> = st" by (intro sweep_store.equality) simp_all
  show ?thesis using e by (simp add: transact_def Let_def same)
qed

definition same_subscriptions :: "sweep_store \<Rightarrow> sweep_store \<Rightarrow> bool" where
  "same_subscriptions st st' \<longleftrightarrow> TnSubs st' = TnSubs st \<and> TnItems st' = TnItems st"

definition calm :: "sweep_store \<Rightarrow> sweep_store \<Rightarrow> bool" where
  "calm st st' \<longleftrightarrow> same_subscriptions st st' \<and> TnOutcomes st' = []"

lemma open_edge: "apply_table invoiceTransitions InvoiceDraft InvoiceOpen CauseScheduler = Inr EventInvoiceFinalized"
  by code_simp

lemma paid_edge: "apply_table invoiceTransitions InvoiceOpen InvoicePaid CauseNothingDue = Inr EventInvoicePaid"
  by code_simp

lemma renew_edge: "apply_table subscriptionTransitions SubscriptionActive SubscriptionActive CauseRenewal = Inr EventSubscriptionRenewed"
  by code_simp

lemma cancel_edge: "apply_table subscriptionTransitions SubscriptionActive SubscriptionCanceled CauseScheduler = Inr EventSubscriptionCanceled"
  by code_simp

lemma Finalize_clean:
  assumes "TnOutcomes st = []" "InvStatus i = InvoiceDraft" "actor \<noteq> ''''"
    and row: "TnInvoices st (InvID i) = Some row" "InvStatus (RowInvoice row) = InvoiceDraft"
  shows "\<exists>i' st' row'. Finalize idle i d settlement CauseScheduler actor st = (Inr i', st') \<and> calm st st' \<and>
    InvStatus i' = InvoiceOpen \<and> InvID i' = InvID i \<and> InvTotal i' = InvTotal i \<and>
    TnInvoices st' (InvID i) = Some row' \<and> InvStatus (RowInvoice row') = InvoiceOpen"
proof -
  obtain u where u: "InvoiceTransition i InvoiceOpen CauseScheduler = Inr (u, [EventInvoiceFinalized])"
    using assms(2) open_edge by (simp add: InvoiceTransition_def Let_def)
  have f: "InvStatus u = InvoiceOpen \<and> InvID u = InvID i \<and> InvTotal u = InvTotal i"
    using InvoiceTransition_frame [OF u] by simp
  let ?Y = "Year (Start (InvPeriod i))" and ?u = "u\<lparr>InvDueDate := d\<rparr>" and ?ev = "[EventInvoiceFinalized]"
  have free: "\<not> (case TnCounters st ?Y of None \<Rightarrow> False | Some n \<Rightarrow> n \<noteq> currentNumber ?Y st)"
    by (simp add: currentNumber_def split: option.split)
  obtain s where s: "finalize_write i ?u ?ev settlement CauseScheduler actor (currentNumber ?Y st) st = Inr ((), s)"
    "calm st s" "\<exists>row'. TnInvoices s (InvID i) = Some row' \<and> InvStatus (RowInvoice row') = InvoiceOpen"
    using row free assms(1) by (auto simp: finalize_write_def Let_def calm_def same_subscriptions_def note_change_def)
  have "transact (finalize_write i ?u ?ev settlement CauseScheduler actor (currentNumber ?Y st)) (idle k st) = (Inr (), s)" for k
    using s(1) assms(1) by (simp add: transact_clean idle_def)
  then have "finalize_attempts (Suc k) idle i ?u ?ev settlement CauseScheduler actor st = (Inr (?u\<lparr>InvNumber := currentNumber ?Y st + 1\<rparr>), s)" for k
    using assms(3) by (simp add: Let_def)
  then have "Finalize idle i d settlement CauseScheduler actor st = (Inr (?u\<lparr>InvNumber := currentNumber ?Y st + 1\<rparr>), s)"
    using u by (simp add: Finalize_def numberingAttempts_def eval_nat_numeral)
  then show ?thesis using f s(2,3) by auto
qed

lemma TransitionInvoice_clean:
  assumes "TnOutcomes st = []" "InvStatus i = InvoiceOpen" "actor \<noteq> ''''" "NothingDue i"
    and row: "TnInvoices st (InvID i) = Some row" "InvStatus (RowInvoice row) = InvoiceOpen"
  shows "\<exists>i' st'. TransitionInvoice i InvoicePaid CauseNothingDue actor now st = (Inr i', st') \<and> calm st st'"
proof -
  obtain u where u: "InvoiceTransition i InvoicePaid CauseNothingDue = Inr (u, [EventInvoicePaid])"
    using assms(2,4) paid_edge by (simp add: InvoiceTransition_def Let_def)
  obtain i' v where v: "InvoiceRepositoryTransition i InvoicePaid CauseNothingDue actor now (invoice_view (InvID i) row st) = Inr (i', v)"
    using u assms(2,3) row(2) by (simp add: InvoiceRepositoryTransition_def Let_def invoice_view_def)
  show ?thesis
    using u v assms(1,3) row(1)
    by (simp add: TransitionInvoice_def transact_clean calm_def same_subscriptions_def put_invoice_view_def)
qed

lemma issue_clean:
  assumes clean: "TnOutcomes st = []" and draft: "InvStatus i = InvoiceDraft" and actor: "actor \<noteq> ''''"
    and row: "TnInvoices st (InvID i) = Some row" "InvStatus (RowInvoice row) = InvoiceDraft"
    and due: "DueDate period (SubTiming sub) (SubNetDays sub) = Some d"
  shows "\<exists>i' st'. issue rd idle i sub period actor now st = (Inr i', st') \<and> calm st st'"
proof -
  have fin: "\<exists>i' st' row'. finalize rd idle i d settlement CauseScheduler actor st = (Inr i', st') \<and> calm st st' \<and>
    InvStatus i' = InvoiceOpen \<and> InvID i' = InvID i \<and> InvTotal i' = InvTotal i \<and>
    TnInvoices st' (InvID i) = Some row' \<and> InvStatus (RowInvoice row') = InvoiceOpen" for settlement
    using Finalize_clean [of st "collected rd i" actor row d settlement] clean draft actor row
    by (fastforce simp: collected_simps finalize_alt calm_def same_subscriptions_def)
  show ?thesis
  proof (cases "NothingDue i")
    case False
    then show ?thesis using fin due by (fastforce simp: issue_def)
  next
    case True
    obtain i1 st1 row1 where f: "finalize rd idle i d (mk_date 0 0 0) CauseScheduler actor st = (Inr i1, st1)" "calm st st1"
      "InvStatus i1 = InvoiceOpen" "InvID i1 = InvID i" "InvTotal i1 = InvTotal i"
      "TnInvoices st1 (InvID i) = Some row1" "InvStatus (RowInvoice row1) = InvoiceOpen"
      using fin by blast
    have "TnOutcomes st1 = []" "NothingDue i1" using f(2,5) True by (simp_all add: calm_def NothingDue_def)
    then obtain i2 st2 where t: "TransitionInvoice i1 InvoicePaid CauseNothingDue actor now st1 = (Inr i2, st2)" "calm st1 st2"
      using TransitionInvoice_clean [of st1 i1 actor row1 now] f actor by metis
    have "calm st st2" using f(2) t(2) by (simp add: calm_def same_subscriptions_def)
    then show ?thesis using True due f(1) t(1) by (simp add: issue_def)
  qed
qed

text \<open>The lines, the policy and the totals of the period can be made, and the metadata fit.\<close>

definition billable :: "reads \<Rightarrow> Subscription \<Rightarrow> Period \<Rightarrow> SubscriptionItem list \<Rightarrow> bool" where
  "billable rd sub period items \<longleftrightarrow> items \<noteq> [] \<and> MetadataValidate (MetadataClone (SubMetadata sub)) = None \<and>
     DueDate period (SubTiming sub) (SubNetDays sub) \<noteq> None \<and>
     (case build_lines rd sub period items of Inl _ \<Rightarrow> False
      | Inr (ls, policies) \<Rightarrow> \<not> isl (resolvePolicy rd policies) \<and> \<not> isl (ApplyToInvoice (RowInvoice no_invoice) ls 0))"

lemma apply_any:
  assumes "\<not> isl (ApplyToInvoice (RowInvoice no_invoice) ls 0)"
  shows "\<exists>a b c. ApplyToInvoice i ls 0 = Inr (i\<lparr>InvSubtotal := a, InvDiscount := b, InvTotal := c\<rparr>)"
proof -
  have "ApplyToInvoice i ls 0 = Inr (i\<lparr>InvSubtotal := Subtotal ls, InvDiscount := 0, InvTotal := wrap64 (Subtotal ls)\<rparr>)"
    using assms by (simp add: ApplyToInvoice_def Let_def split: if_splits)
  then show ?thesis by blast
qed

lemma Generate_clean:
  assumes b: "billable rd sub period items" and clean: "TnOutcomes st = []" and actor: "actor \<noteq> ''''"
    and inv: "sweep_inv st" and fresh: "TnInvoices st fresh = None"
  shows "(TnMarkers st (GenerationKey (SubID sub) (Start period)) \<noteq> None \<longrightarrow>
       GenerateForPeriod rd others fresh sub items period actor now st = (Inl ErrAlreadyGenerated, st)) \<and>
    (TnMarkers st (GenerationKey (SubID sub) (Start period)) = None \<longrightarrow>
       (\<exists>i st'. GenerateForPeriod rd idle fresh sub items period actor now st = (Inr i, st') \<and> calm st st'))"
proof -
  let ?key = "GenerationKey (SubID sub) (Start period)"
  obtain ls ps policy where l: "build_lines rd sub period items = Inr (ls, ps)" "resolvePolicy rd ps = Inr policy"
    "\<not> isl (ApplyToInvoice (RowInvoice no_invoice) ls 0)"
    using b by (auto simp: billable_def split: sum.splits) (metis isl_def sum.exhaust)
  define d0 where "d0 = draft_invoice fresh sub period policy"
  obtain x y z where i: "ApplyToInvoice d0 ls 0 = Inr (d0\<lparr>InvSubtotal := x, InvDiscount := y, InvTotal := z\<rparr>)"
    using apply_any [OF l(3)] by blast
  define i where "i = d0\<lparr>InvSubtotal := x, InvDiscount := y, InvTotal := z\<rparr>"
  have f: "InvStatus i = InvoiceDraft" "InvID i = fresh" "InvMetadata i = MetadataClone (SubMetadata sub)"
    by (simp_all add: i_def d0_def draft_invoice_def)
  have items: "items \<noteq> []" "MetadataValidate (InvMetadata i) = None" using b f by (simp_all add: billable_def)
  obtain d where d: "DueDate period (SubTiming sub) (SubNetDays sub) = Some d" using b by (auto simp: billable_def)
  have lines: "TnLines st fresh = None" using inv_lines [OF inv, of fresh] fresh by simp
  have g: "GenerateForPeriod rd o' fresh sub items period actor now st =
      (case InvoiceCreate i ls ?key st of (Inl err, st1) \<Rightarrow> (Inl err, st1)
       | (Inr _, st1) \<Rightarrow> issue rd o' i sub period actor now st1)" for o'
    using l i items by (simp add: GenerateForPeriod_def d0_def [symmetric] i_def [symmetric])
  show ?thesis
  proof (intro conjI impI)
    assume m: "TnMarkers st ?key \<noteq> None"
    have "InvoiceCreate i ls ?key st = (Inl ErrAlreadyGenerated, st)"
      using m items(2) f(1) by (simp add: InvoiceCreate_def transact_clean [OF clean] key_nonempty)
    then show "GenerateForPeriod rd others fresh sub items period actor now st = (Inl ErrAlreadyGenerated, st)"
      using g by simp
  next
    assume m: "TnMarkers st ?key = None"
    then obtain s where c: "InvoiceCreate i ls ?key st = (Inr (), s)" "calm st s"
      "TnInvoices s fresh = Some \<lparr>RowInvoice = i, RowSchedule = Unscheduled\<rparr>"
      using items(2) f(1,2) fresh lines clean
      by (simp add: InvoiceCreate_def transact_clean [OF clean] calm_def same_subscriptions_def)
    have "\<exists>i' st'. issue rd idle i sub period actor now s = (Inr i', st') \<and> calm s st'"
      by (rule issue_clean [OF _ f(1) actor, where row = "\<lparr>RowInvoice = i, RowSchedule = Unscheduled\<rparr>", OF _ _ _ d])
        (use c f in \<open>simp_all add: calm_def\<close>)
    then show "\<exists>i st'. GenerateForPeriod rd idle fresh sub items period actor now st = (Inr i, st') \<and> calm st st'"
      using c g by (auto simp: calm_def same_subscriptions_def)
  qed
qed

lemma leftover_clean:
  assumes clean: "TnOutcomes st = []" and actor: "actor \<noteq> ''''" and inv: "sweep_inv st"
    and m: "TnMarkers st (GenerationKey (SubID sub) (Start period)) = Some j"
    and d: "DueDate period (SubTiming sub) (SubNetDays sub) = Some d"
  shows "\<exists>st'. issueLeftoverDraft rd idle sub period actor now st = (Inr (), st') \<and> calm st st'"
proof -
  have "TnKeys st j \<noteq> None" using inv_marks [OF inv, of "GenerationKey (SubID sub) (Start period)" j] m by simp
  then obtain row where row: "TnInvoices st j = Some row" using inv_keys [OF inv, of j] by auto
  then have get: "GetByGenerationKey (GenerationKey (SubID sub) (Start period)) st = Some (RowInvoice row)"
    using m by (simp add: GetByGenerationKey_def)
  have id: "InvID (RowInvoice row) = j" using inv_row [OF inv row] unfolding invoice_row_ok_def by blast
  show ?thesis
  proof (cases "InvStatus (RowInvoice row) = InvoiceDraft")
    case False
    then show ?thesis using get clean by (simp add: issueLeftoverDraft_def calm_def same_subscriptions_def)
  next
    case True
    have "\<exists>i' st'. issue rd idle (RowInvoice row) sub period actor now st = (Inr i', st') \<and> calm st st'"
      by (rule issue_clean [OF clean True actor _ True d]) (simp add: id row)
    then show ?thesis using True get by (auto simp: issueLeftoverDraft_def)
  qed
qed

text \<open>The subscription's row as a renewal leaves it: one period on, due again when that period starts.\<close>

definition renewed :: "Subscription \<Rightarrow> subscription_row \<Rightarrow> sweep_store \<Rightarrow> bool" where
  "renewed sub row st \<longleftrightarrow> TnSubs st (SubID sub) =
     Some \<lparr>RowSubscription = (RowSubscription row)\<lparr>SubStatus := SubscriptionActive, SubPeriodIndex := SubPeriodIndex sub + 1\<rparr>,
           RowSweepOn = nextSweepDate (sub\<lparr>SubPeriodIndex := SubPeriodIndex sub + 1\<rparr>)\<rparr>"

lemma next_sweep:
  assumes "RecurrenceValidate (SubRecurrence sub) = None"
  shows "nextSweepDate sub \<noteq> None"
  using walk_some [OF assms] by (auto simp: nextSweepDate_def NextPeriod_def)

lemma renewal_transition:
  assumes "SubStatus sub = SubscriptionActive"
  shows "SubscriptionTransition sub SubscriptionActive CauseRenewal =
    Inr (sub\<lparr>SubStatus := SubscriptionActive, SubPeriodIndex := SubPeriodIndex sub + 1\<rparr>, [EventSubscriptionRenewed])"
  using assms renew_edge by (simp add: SubscriptionTransition_def Let_def)

lemma active_update: "SubStatus sub = SubscriptionActive \<Longrightarrow> sub\<lparr>SubStatus := SubscriptionActive\<rparr> = sub"
  by (rule Subscription.equality) simp_all

lemma renew_clean:
  assumes clean: "TnOutcomes st = []" and actor: "actor \<noteq> ''''" and valid: "RecurrenceValidate (SubRecurrence sub) = None" and active: "SubStatus sub = SubscriptionActive"
    and row: "TnSubs st (SubID sub) = Some row" "SubStatus (RowSubscription row) = SubscriptionActive"
  shows "\<exists>s' st'. TransitionSubscription sub SubscriptionActive CauseRenewal actor st = (Inr s', st') \<and> renewed sub row st'"
proof -
  let ?sub = "sub\<lparr>SubPeriodIndex := SubPeriodIndex sub + 1\<rparr>"
  have t: "SubscriptionTransition sub SubscriptionActive CauseRenewal = Inr (?sub, [EventSubscriptionRenewed])"
    using renewal_transition [OF active] active_update [OF active] by simp
  have "RecurrenceValidate (SubRecurrence ?sub) = None" using valid by simp
  then obtain date where date: "nextSweepDate ?sub = Some date" using next_sweep [of ?sub] by auto
  have "sweepable ?sub" using active by (simp add: sweepable_def)
  then show ?thesis
    using t date actor row active
    by (simp add: TransitionSubscription_def transact_clean [OF clean] SubscriptionRepositoryTransition_def Let_def
        subscription_view_def record_change_def renewed_def)
qed


subsection \<open>A run that dies\<close>

interpretation kept: run_relation same_subscriptions
  by unfold_locales (simp_all add: same_subscriptions_def)

text \<open>The other writers do not touch the subscriptions.\<close>

definition elsewhere :: "(nat \<Rightarrow> sweep_store \<Rightarrow> sweep_store) \<Rightarrow> bool" where
  "elsewhere others \<longleftrightarrow> (\<forall>k st. same_subscriptions st (others k st))"

lemma InvoiceCreate_keeps: "same_subscriptions st (snd (InvoiceCreate i ls key st))"
proof -
  obtain r s where r: "InvoiceCreate i ls key st = (r, s)" by (cases "InvoiceCreate i ls key st")
  then show ?thesis by (cases rule: InvoiceCreate_cases) (simp_all add: r same_subscriptions_def)
qed

lemma TransitionInvoice_keeps: "same_subscriptions st (snd (TransitionInvoice i dst cause actor now st))"
proof -
  obtain r s where r: "TransitionInvoice i dst cause actor now st = (r, s)" by (cases "TransitionInvoice i dst cause actor now st")
  then show ?thesis by (cases rule: TransitionInvoice_cases) (simp_all add: r same_subscriptions_def)
qed

lemma finalize_attempts_keeps:
  assumes "elsewhere others"
  shows "same_subscriptions st (snd (finalize_attempts n others i u events settlement cause actor st))"
proof (induction n arbitrary: st)
  case (Suc k)
  let ?Y = "Year (Start (InvPeriod i))"
  obtain r s where t: "transact (finalize_write i u events settlement cause actor (currentNumber ?Y st)) (others k st) = (r, s)"
    by (cases "transact (finalize_write i u events settlement cause actor (currentNumber ?Y st)) (others k st)")
  then have "same_subscriptions (others k st) s"
    by (cases rule: finalize_write_cases) (simp_all add: same_subscriptions_def)
  then have to: "same_subscriptions st s" using assms kept.trans by (fastforce simp: elsewhere_def)
  have then_more: "same_subscriptions st (snd (finalize_attempts k others i u events settlement cause actor s))"
    using kept.trans [OF to Suc.IH] .
  show ?case using to then_more t by (simp add: Let_def kept.refl split: sum.split option.split)
qed (simp add: kept.refl)

lemma finalize_keeps:
  assumes "elsewhere others"
  shows "same_subscriptions st (snd (finalize rd others i d settlement cause actor st))"
proof -
  have F: "same_subscriptions st (snd (Finalize others (collected rd i) d settlement cause actor st))"
    using finalize_attempts_keeps [OF assms] by (simp add: Finalize_def kept.refl split: sum.split)
  show ?thesis
    unfolding finalize_alt by (rule kept.bind [OF F]) (simp add: same_subscriptions_def)
qed

lemma issue_keeps:
  assumes "elsewhere others"
  shows "same_subscriptions st (snd (issue rd others i sub period actor now st))"
  by (cases "DueDate period (SubTiming sub) (SubNetDays sub)")
    (auto simp: issue_def kept.refl intro!: kept.bind finalize_keeps [OF assms] TransitionInvoice_keeps)

lemma Generate_keeps:
  assumes "elsewhere others"
  shows "same_subscriptions st (snd (GenerateForPeriod rd others fresh sub items period actor now st))"
  by (cases rule: Generate_cases [of rd others fresh sub items period actor now st])
    (auto simp: kept.refl intro!: kept.bind InvoiceCreate_keeps issue_keeps [OF assms])

lemma leftover_keeps:
  assumes "elsewhere others"
  shows "same_subscriptions st (snd (issueLeftoverDraft rd others sub period actor now st))"
  by (auto simp: issueLeftoverDraft_def kept.refl split: option.split intro!: kept.bind issue_keeps [OF assms])


lemma renewal_writes:
  assumes "TransitionSubscription sub SubscriptionActive CauseRenewal actor st = (r, st')" "TnSubs st (SubID sub) = Some row"
  shows "(TnSubs st' = TnSubs st \<or> renewed sub row st') \<and> TnItems st' = TnItems st"
proof (cases "SubscriptionTransition sub SubscriptionActive CauseRenewal")
  case (Inl e)
  then show ?thesis using assms by (simp add: TransitionSubscription_def)
next
  case (Inr p)
  then obtain u evs where u: "SubscriptionTransition sub SubscriptionActive CauseRenewal = Inr (u, evs)" by (cases p) auto
  have f: "u = sub\<lparr>SubStatus := SubscriptionActive, SubPeriodIndex := SubPeriodIndex sub + 1\<rparr>"
    using SubscriptionTransition_frame [OF u] by simp
  obtain ev where "apply_table subscriptionTransitions (SubStatus sub) SubscriptionActive CauseRenewal = Inr ev"
    using subscription.transition_Inr [OF u] by blast
  from apply_table_edge [OF this] have active: "SubStatus sub = SubscriptionActive"
    by (auto simp: subscriptionTransitions_def mk_rule_def rule_allows_def)
  have u': "u = sub\<lparr>SubPeriodIndex := SubPeriodIndex sub + 1\<rparr>" using f active_update [OF active] by simp
  show ?thesis
  proof (cases "sweepable u \<and> nextSweepDate u = None \<or> actor = ''''")
    case True
    then have "st' = st" using assms(1) u by (auto simp: TransitionSubscription_def split: if_splits)
    then show ?thesis by simp
  next
    case False
    then have "transact (\<lambda>st.
            case SubscriptionRepositoryTransition sub SubscriptionActive CauseRenewal actor (subscription_view no_invoice (TnSubs st (SubID sub)) st) of
              Inl err \<Rightarrow> Inl (ErrRepo err)
            | Inr (s', v) \<Rightarrow> Inr (s', st\<lparr>TnSubs := (TnSubs st)(SubID sub := StSubscription v), TnOutbox := StOutbox v,
                                         TnAudit := StAudit v\<rparr>)) st = (r, st')"
      using assms(1) u by (auto simp: TransitionSubscription_def)
    then show ?thesis
    proof (cases rule: transact_cases)
      case nothing
      then show ?thesis by simp
    next
      case (body x s1 s2)
      have row: "TnSubs s1 (SubID sub) = Some row" using body(2) assms(2) by simp
      have "sweepable u" using u' active by (simp add: sweepable_def)
      then have "TnItems s2 = TnItems s1 \<and> TnSubs s2 (SubID sub) =
        Some \<lparr>RowSubscription = (RowSubscription row)\<lparr>SubStatus := SubscriptionActive, SubPeriodIndex := SubPeriodIndex sub + 1\<rparr>,
           RowSweepOn = nextSweepDate (sub\<lparr>SubPeriodIndex := SubPeriodIndex sub + 1\<rparr>)\<rparr>"
        using body(5) u row u' False
        by (auto simp: SubscriptionRepositoryTransition_def Let_def subscription_view_def record_change_def split: if_splits)
      then show ?thesis using body(3,6) by (simp add: renewed_def)
    qed
  qed
qed

lemma run_effect:
  assumes w: "writers others" "elsewhere others" and inv: "sweep_inv st" and plain: "plain_renewal sub"
    and period: "PeriodToInvoice sub = Some period" and row: "TnSubs st (SubID sub) = Some row"
    and run: "invoiceOne rd others ids sub actor now st = (r, st')"
  shows "(TnSubs st' = TnSubs st \<or> renewed sub row st' \<and> period_issued (GenerationKey (SubID sub) (Start period)) st') \<and>
    TnItems st' = TnItems st \<and> sweep_inv st'"
proof -
  let ?key = "GenerationKey (SubID sub) (Start period)"
  have inv': "sweep_inv st'" using steps_inv [OF invoiceOne_steps [OF w(1) inv] inv] run by (metis snd_conv)
  show ?thesis
  proof (cases "ListItems (SubID sub) st = []")
    case True
    then show ?thesis using run inv' by (auto simp: invoiceOne_def Let_def)
  next
    case items: False
    obtain x s where x: "GenerateForPeriod rd others (ids 0) sub (ListItems (SubID sub) st) period actor now st = (x, s)"
      by (cases "GenerateForPeriod rd others (ids 0) sub (ListItems (SubID sub) st) period actor now st")
    have to1: "sweep_steps st s" "same_subscriptions st s"
      using Generate_steps [OF w(1) inv, of rd "ids 0" sub "ListItems (SubID sub) st" period actor now]
        Generate_keeps [OF w(2), of st rd "ids 0" sub "ListItems (SubID sub) st" period actor now] x by simp_all
    have inv1: "sweep_inv s" by (rule steps_inv [OF to1(1) inv])
    obtain y s2 where y: "issueLeftoverDraft rd others sub period actor now s = (y, s2)"
      by (cases "issueLeftoverDraft rd others sub period actor now s")
    have to2: "same_subscriptions st s2"
      using leftover_keeps [OF w(2), of s rd sub period actor now] y kept.trans [OF to1(2)] by simp
    note run' = run [unfolded invoiceOne_plain [OF plain items period] x, simplified]
    have "(\<exists>s3. period_issued ?key s3 \<and> same_subscriptions st s3 \<and>
        st' = snd (TransitionSubscription sub SubscriptionActive CauseRenewal actor s3)) \<or> same_subscriptions st st'"
    proof (cases x)
      case (Inr i)
      then show ?thesis
        using Generate_issued [OF w(1) inv x [unfolded Inr]] run' to1(2) by (auto split: prod.splits sum.splits)
    next
      case x: (Inl err)
      show ?thesis
      proof (cases "err = ErrAlreadyGenerated")
        case False
        then show ?thesis using run' x to1(2) by simp
      next
        case True
        show ?thesis
        proof (cases y)
          case (Inl e)
          then show ?thesis using run' x True y to2 by simp
        next
          case (Inr u)
          then have "period_issued ?key s2" using leftover_issued [OF w(1) inv1] y by simp
          then show ?thesis using run' x True y Inr to2 by (auto split: prod.splits sum.splits)
        qed
      qed
    qed
    then show ?thesis
    proof
      assume "same_subscriptions st st'"
      then show ?thesis using inv' by (simp add: same_subscriptions_def)
    next
      assume "\<exists>s3. period_issued ?key s3 \<and> same_subscriptions st s3 \<and>
        st' = snd (TransitionSubscription sub SubscriptionActive CauseRenewal actor s3)"
      then obtain s3 where s3: "period_issued ?key s3" "same_subscriptions st s3"
        "st' = snd (TransitionSubscription sub SubscriptionActive CauseRenewal actor s3)" by blast
      obtain z where z: "TransitionSubscription sub SubscriptionActive CauseRenewal actor s3 = (z, st')"
        using s3(3) by (cases "TransitionSubscription sub SubscriptionActive CauseRenewal actor s3") simp
      have "period_issued ?key st'" using steps_period_issued [OF subscription_steps s3(1)] s3(3) by simp
      moreover have "(TnSubs st' = TnSubs s3 \<or> renewed sub row st') \<and> TnItems st' = TnItems s3"
        using renewal_writes [OF z] s3(2) row by (simp add: same_subscriptions_def)
      ultimately show ?thesis using s3(2) inv' by (auto simp: same_subscriptions_def)
    qed
  qed
qed


lemma clean_run:
  assumes inv: "sweep_inv st" and clean: "TnOutcomes st = []" and plain: "plain_renewal sub" and valid: "RecurrenceValidate (SubRecurrence sub) = None"
    and active: "SubStatus sub = SubscriptionActive" and period: "PeriodToInvoice sub = Some period"
    and row: "TnSubs st (SubID sub) = Some row" "SubStatus (RowSubscription row) = SubscriptionActive"
    and b: "billable rd sub period (ListItems (SubID sub) st)" and actor: "actor \<noteq> ''''" and fresh: "TnInvoices st (ids 0) = None"
  shows "\<exists>r st'. invoiceOne rd idle ids sub actor now st = (r, st') \<and> (r = Inr () \<or> r = Inl ErrAlreadyGenerated) \<and> renewed sub row st'"
proof -
  let ?key = "GenerationKey (SubID sub) (Start period)"
  have items: "ListItems (SubID sub) st \<noteq> []" using b by (simp add: billable_def)
  obtain d where d: "DueDate period (SubTiming sub) (SubNetDays sub) = Some d" using b by (auto simp: billable_def)
  note one = invoiceOne_plain [OF plain items period, of rd idle ids actor now]
  have renew: "\<exists>s' st'. TransitionSubscription sub SubscriptionActive CauseRenewal actor s = (Inr s', st') \<and> renewed sub row st'"
    if "calm st s" for s
    by (rule renew_clean) (use that actor valid active row in \<open>simp_all add: calm_def same_subscriptions_def\<close>)
  note gen = Generate_clean [OF b clean actor inv fresh, of _ now]
  show ?thesis
  proof (cases "TnMarkers st ?key")
    case None
    then obtain i s where g: "GenerateForPeriod rd idle (ids 0) sub (ListItems (SubID sub) st) period actor now st = (Inr i, s)" "calm st s"
      using gen by blast
    then show ?thesis using renew [OF g(2)] by (auto simp: one)
  next
    case (Some j)
    then have g: "GenerateForPeriod rd idle (ids 0) sub (ListItems (SubID sub) st) period actor now st = (Inl ErrAlreadyGenerated, st)"
      using gen [of idle] by simp
    obtain s where l: "issueLeftoverDraft rd idle sub period actor now st = (Inr (), s)" "calm st s"
      using leftover_clean [OF clean actor inv Some d, of rd now] by blast
    then show ?thesis using renew [OF l(2)] g by (auto simp: one)
  qed
qed

lemma idle_writers: "writers idle" "elsewhere idle"
  by (simp_all add: writers_def elsewhere_def idle_def kept.refl)

text \<open>C7: A plain renewal that dies is finished by the next run. Take an active subscription of a valid
  recurrence that is not to be cancelled at the period's end and has no change of plan due at its
  boundary, of a billable period, with a row nobody else writes. Wherever a run over it fails and
  whatever it leaves behind (no invoice, a draft, an issued invoice, an unanswered write), either it
  renewed the subscription and the period's invoice was issued, or the subscription's row is as it
  was and a run in which nothing fails, with a fresh id, renews it with the period's invoice issued.
  (The paths of a cancellation and of a change of plan do not finish a draft; see C37.)\<close>

theorem died_run_is_finished:
  assumes "sweep_inv st" "writers others" "elsewhere others" "plain_renewal sub" "RecurrenceValidate (SubRecurrence sub) = None"
    and "SubStatus sub = SubscriptionActive" "PeriodToInvoice sub = Some period"
    and "TnSubs st (SubID sub) = Some row" "SubStatus (RowSubscription row) = SubscriptionActive"
    and "billable rd sub period (ListItems (SubID sub) st)" "actor \<noteq> ''''"
    and "invoiceOne rd others ids sub actor now st = (r, st1)" "TnInvoices st1 (ids' 0) = None"
  shows "renewed sub row st1 \<and> period_issued (GenerationKey (SubID sub) (Start period)) st1 \<or>
    TnSubs st1 = TnSubs st \<and>
    (\<exists>r' st2. invoiceOne rd idle ids' sub actor now' (st1\<lparr>TnOutcomes := []\<rparr>) = (r', st2) \<and> (r' = Inr () \<or> r' = Inl ErrAlreadyGenerated) \<and>
       renewed sub row st2 \<and> period_issued (GenerationKey (SubID sub) (Start period)) st2)"
proof -
  let ?key = "GenerationKey (SubID sub) (Start period)"
  note one = run_effect [OF assms(2,3,1,4,7,8,12)]
  show ?thesis
  proof (cases "TnSubs st1 = TnSubs st")
    case False
    then show ?thesis using one by blast
  next
    case True
    let ?st = "st1\<lparr>TnOutcomes := []\<rparr>"
    have "same_invoices st1 ?st" by (simp add: same_invoices_def)
    then have inv: "sweep_inv ?st" using inv_same one by blast
    have b: "billable rd sub period (ListItems (SubID sub) ?st)" using assms(10) one by (simp add: ListItems_def)
    obtain r' st2 where run: "invoiceOne rd idle ids' sub actor now' ?st = (r', st2)" "r' = Inr () \<or> r' = Inl ErrAlreadyGenerated" "renewed sub row st2"
      using clean_run [OF inv _ assms(4,5,6,7) _ assms(9) b assms(11), of ids' now'] assms(8,13) True by auto
    have "period_issued ?key st2" by (rule renewal_issued [OF idle_writers(1) inv assms(4,7) run(1,2)])
    then show ?thesis using True run by blast
  qed
qed


subsection \<open>The boundary that loses an invoice\<close>

lemma cancel_clean:
  assumes clean: "TnOutcomes st = []" and actor: "actor \<noteq> ''''" and active: "SubStatus sub = SubscriptionActive"
    and row: "TnSubs st (SubID sub) = Some row" "SubStatus (RowSubscription row) = SubscriptionActive"
  shows "\<exists>s' st'. TransitionSubscription sub SubscriptionCanceled CauseScheduler actor st = (Inr s', st') \<and> same_invoices st st' \<and>
    TnSubs st' (SubID sub) = Some \<lparr>RowSubscription = (RowSubscription row)\<lparr>SubStatus := SubscriptionCanceled\<rparr>, RowSweepOn = None\<rparr>"
proof -
  have t: "SubscriptionTransition sub SubscriptionCanceled CauseScheduler = Inr (sub\<lparr>SubStatus := SubscriptionCanceled\<rparr>, [EventSubscriptionCanceled])"
    using active cancel_edge by (simp add: SubscriptionTransition_def Let_def)
  then show ?thesis
    using actor row active
    by (simp add: TransitionSubscription_def transact_clean [OF clean] SubscriptionRepositoryTransition_def Let_def sweepable_def
        subscription_view_def record_change_def same_invoices_def)
qed

text \<open>C37: A draft left behind at the end of a cancelled subscription is never issued: if the run that billed the last
  period in arrears died after writing the draft, the next run (in which nothing fails) answers that it
  invoiced the subscription and cancels it, the draft stays as it was, and no later sweep finds the
  subscription. Only an operator's own issue of the draft bills the period.\<close>

theorem cancellation_leaves_draft:
  assumes "sweep_inv st" "TnOutcomes st = []" "SubCancelAtPeriodEnd sub" "SubTiming sub = BillArrears"
    and "SubStatus sub = SubscriptionActive" "PeriodToInvoice sub = Some period"
    and "TnSubs st (SubID sub) = Some row" "SubStatus (RowSubscription row) = SubscriptionActive"
    and "billable rd sub period (ListItems (SubID sub) st)" "actor \<noteq> ''''" "TnInvoices st (ids 0) = None"
    and "GetByGenerationKey (GenerationKey (SubID sub) (Start period)) st = Some i" "InvStatus i = InvoiceDraft"
  shows "\<exists>st'. invoiceOne rd others ids sub actor now st = (Inr (), st') \<and> TnInvoices st' = TnInvoices st \<and>
    GetByGenerationKey (GenerationKey (SubID sub) (Start period)) st' = Some i \<and>
    TnSubs st' (SubID sub) = Some \<lparr>RowSubscription = (RowSubscription row)\<lparr>SubStatus := SubscriptionCanceled\<rparr>, RowSweepOn = None\<rparr>"
proof -
  let ?key = "GenerationKey (SubID sub) (Start period)"
  have "TnMarkers st ?key \<noteq> None" using assms(12) by (auto simp: GetByGenerationKey_def split: option.splits)
  then have g: "GenerateForPeriod rd others (ids 0) sub (ListItems (SubID sub) st) period actor now st = (Inl ErrAlreadyGenerated, st)"
    using Generate_clean [OF assms(9,2,10,1,11), of others now] by blast
  obtain s' st' where c: "TransitionSubscription sub SubscriptionCanceled CauseScheduler actor st = (Inr s', st')" "same_invoices st st'"
    "TnSubs st' (SubID sub) = Some \<lparr>RowSubscription = (RowSubscription row)\<lparr>SubStatus := SubscriptionCanceled\<rparr>, RowSweepOn = None\<rparr>"
    using cancel_clean [OF assms(2,10,5,7,8)] by blast
  have items: "ListItems (SubID sub) st \<noteq> []" using assms(9) by (simp add: billable_def)
  have "invoiceOne rd others ids sub actor now st = (Inr (), st')"
    using assms(3,4,6) g c(1) items by (simp add: invoiceOne_def endAtBoundary_def)
  then show ?thesis using c(2,3) assms(12) by (simp add: same_invoices_def GetByGenerationKey_def cong: option.case_cong)
qed

subsection \<open>Numbers, keys and renewals\<close>

text \<open>C5: Invoice numbers have no gaps: whatever runs and other writers did since the tenant had no invoices,
  and whatever fails or is interleaved in one more daily sweep, the numbers that the invoices of a year carry
  afterwards are exactly 1 up to the counter, each of them on one invoice, and every open, paid or
  uncollectible invoice carries one.\<close>

theorem gapless_numbering:
  assumes "empty_tenant st0" "sweep_steps st0 st" "\<And>sid. writers (others sid)"
    and "RunDailySweep rd others ids suspended guard due actor now st = (r, st')"
  shows "{n. \<exists>i. carries y n i st'} = {1..currentNumber y st'} \<and>
    (\<forall>n i j. carries y n i st' \<and> carries y n j st' \<longrightarrow> i = j) \<and>
    (\<forall>i row. TnInvoices st' i = Some row \<and> InvStatus (RowInvoice row) \<in> {InvoiceOpen, InvoicePaid, InvoiceUncollectible} \<longrightarrow>
      (\<exists>n. carries (invoice_year row) n i st'))"
proof -
  have inv: "sweep_inv st'" by (rule run_inv [OF assms(1-4)])
  have "{n. \<exists>i. carries y n i st'} = {1..currentNumber y st'}" using inv_count [OF inv, of _ y] by auto
  then show ?thesis using inv_unique [OF inv, of y] numbered_carries [OF inv] by blast
qed

text \<open>C8: No period is billed twice: whatever was interleaved and however runs failed, two invoices with the same
  generation key are one invoice, and the marker of the key names it.\<close>

theorem one_invoice_per_period:
  assumes "empty_tenant st0" "sweep_steps st0 st" "\<And>sid. writers (others sid)"
    and "RunDailySweep rd others ids suspended guard due actor now st = (r, st')"
    and "TnKeys st' i = Some key" "TnKeys st' j = Some key" "key \<noteq> ''''"
  shows "i = j \<and> TnMarkers st' key = Some i \<and> (\<exists>row. TnInvoices st' i = Some row)"
proof -
  have inv: "sweep_inv st'" by (rule run_inv [OF assms(1-4)])
  have "TnMarkers st' key = Some i" "TnMarkers st' key = Some j"
    using inv_marks [OF inv] assms(5-7) by blast+
  then show ?thesis using inv_keys [OF inv, of i] assms(5) by auto
qed

text \<open>C6: In a plain renewal (the subscription is not to be cancelled at the period's end and has no change of
  plan due at its boundary) no renewal runs past a period that was not billed: when the sweep answers
  that it invoiced the subscription or that the period was already invoiced, the invoice of that
  period is in the books and was issued, whatever fails and whatever other writers do meanwhile.
  (The paths of a cancellation and of a change of plan go on past a draft; see C37.)\<close>

theorem renewal_needs_issued_invoice:
  assumes "writers others" "sweep_inv st" "plain_renewal sub" "PeriodToInvoice sub = Some period"
    and "invoiceOne rd others ids sub actor now st = (r, st')" "r = Inr () \<or> r = Inl ErrAlreadyGenerated"
  shows "period_issued (GenerationKey (SubID sub) (Start period)) st'"
  by (rule renewal_issued [OF assms])

subsection \<open>A tenant with one subscription\<close>

definition gym_price :: Price where
  "gym_price = \<lparr>PriceID = ''price_1'', PriceOrganizationID = ''org_1'', PriceLivemode = True, PriceProductID = ''prod_1'',
     PriceType' = PriceFixed, PriceCurrency = CurrencyBRL, PriceName = ''Plan'', PriceUnitAmount = 9900,
     PriceRecurrence = \<lparr>RInterval = IntervalMonth, RCount = 1\<rparr>, PriceTiming = BillArrears, PriceAggregation = AggregationSum,
     PriceMeter = '''', PriceIncludedQuantity = 0, PriceArchived = False, PriceMetadata = []\<rparr>"

definition gym_product :: Product where
  "gym_product = \<lparr>ProdID = ''prod_1'', ProdOrganizationID = ''org_1'', ProdLivemode = True, ProdName = ''Gym'', ProdActive = True,
     ProdOwnerKey = '''', ProdDescription = '''', ProdURL = '''', ProdDunningPolicy = [], ProdDefaultPriceID = '''', ProdMetadata = []\<rparr>"

definition gym_reads :: reads where
  "gym_reads = \<lparr>RdPrice = \<lambda>_. Some gym_price, RdProduct = \<lambda>_. Some gym_product, RdUsage = \<lambda>_ _. None, RdExternalRef = \<lambda>_. None,
     RdLevelsWired = False, RdCarried = \<lambda>_ _ _. None, RdLevels = \<lambda>_ _ _. None, RdOrgsWired = False, RdOrganization = None,
     RdChargesWired = True\<rparr>"

definition gym_sub :: Subscription where
  "gym_sub = sample_subscription\<lparr>SubStatus := SubscriptionActive\<rparr>"

definition gym_tenant :: "Subscription \<Rightarrow> outcome list \<Rightarrow> sweep_store" where
  "gym_tenant sub outs = \<lparr>TnInvoices = Map.empty, TnKeys = Map.empty, TnLines = Map.empty, TnMarkers = Map.empty, TnCounters = Map.empty,
     TnSubs = [''sub_1'' \<mapsto> \<lparr>RowSubscription = sub, RowSweepOn = Some (mk_date 2026 2 28)\<rparr>],
     TnItems = \<lambda>_. [\<lparr>SiID = ''si_1'', SiOrganizationID = ''org_1'', SiLivemode = True, SiSubscriptionID = ''sub_1'',
       SiPriceID = ''price_1'', SiQuantity = 1\<rparr>],
     TnOutbox = [], TnAudit = [], TnCharges = [], TnOutcomes = outs\<rparr>"

definition gym_ids :: "char \<Rightarrow> nat \<Rightarrow> string" where
  "gym_ids c k = [CHR ''i'', c]"

lemma gym_empty: "empty_tenant (gym_tenant sub outs)" "sweep_inv (gym_tenant sub outs)"
  by (simp_all add: empty_tenant_def gym_tenant_def empty_inv)



definition gym_period :: Period where
  "gym_period = \<lparr>Start = mk_date 2026 1 31, End = AddMonths (mk_date 2026 1 31) 1\<rparr>"

lemma gym_valid: "RecurrenceValidate (SubRecurrence gym_sub) = None"
  by code_simp

lemma gym_anchor: "modern (mk_date 2026 1 31)"
  by code_simp

lemma gym_periods:
  "PeriodToInvoice gym_sub = Some gym_period" "PeriodToInvoice (gym_sub\<lparr>SubCancelAtPeriodEnd := True\<rparr>) = Some gym_period"
  using AddMonths_0 [OF gym_anchor]
  by (simp_all add: gym_period_def PeriodToInvoice_def CurrentPeriod_def PeriodAt_def Shift_def gym_sub_def sample_subscription_def wrap64_def)

lemma gym_due: "\<exists>d. DueDate gym_period BillArrears 5 = Some d"
proof -
  have "modern (if BillArrears = BillArrears then End gym_period else Start gym_period)"
    using modern_AddMonths [OF gym_anchor, of 1] by (simp add: gym_period_def)
  from due_date_is_business_day [OF this, of 5] show ?thesis by auto
qed

lemma gym_billable:
  "billable gym_reads gym_sub gym_period (ListItems ''sub_1'' (gym_tenant sub outs))"
  "billable gym_reads (gym_sub\<lparr>SubCancelAtPeriodEnd := True\<rparr>) gym_period (ListItems ''sub_1'' (gym_tenant sub outs))"
proof -
  have w: "wrap64 9900 = 9900" "wrap64 0 = 0" by (simp_all add: wrap64_id in64_def)
  have m: "MetadataValidate (MetadataClone []) = None" by code_simp
  show "billable gym_reads gym_sub gym_period (ListItems ''sub_1'' (gym_tenant sub outs))"
    "billable gym_reads (gym_sub\<lparr>SubCancelAtPeriodEnd := True\<rparr>) gym_period (ListItems ''sub_1'' (gym_tenant sub outs))"
    using gym_due w m
    by (auto simp: billable_def ListItems_def gym_tenant_def gym_sub_def sample_subscription_def gym_reads_def buildLine_def
        gym_price_def FixedLine_def resolvePolicy_def ApplyToInvoice_def Subtotal_def Let_def isl_def)
qed


definition gym_line :: InvoiceItem where
  "gym_line = FixedLine gym_price ''Plan'' gym_period 1"

definition gym_draft :: Invoice where
  "gym_draft = (draft_invoice ''ia'' gym_sub gym_period (ResolveDunningPolicy [] [[]]))\<lparr>InvSubtotal := 9900, InvDiscount := 0, InvTotal := 9900\<rparr>"

definition gym_key :: string where
  "gym_key = GenerationKey ''sub_1'' (Start gym_period)"

definition gym_left :: "Subscription \<Rightarrow> outcome list \<Rightarrow> sweep_store" where
  "gym_left sub outs = (gym_tenant sub outs)\<lparr>TnInvoices := [''ia'' \<mapsto> \<lparr>RowInvoice = gym_draft, RowSchedule = Unscheduled\<rparr>],
     TnKeys := [''ia'' \<mapsto> gym_key], TnLines := [''ia'' \<mapsto> [gym_line]], TnMarkers := [gym_key \<mapsto> ''ia'']\<rparr>"

lemma gym_draft_simps:
  "InvID gym_draft = ''ia''" "InvStatus gym_draft = InvoiceDraft" "InvTotal gym_draft = 9900" "InvPeriod gym_draft = gym_period"
  "InvNumber gym_draft = 0" "InvMetadata gym_draft = MetadataClone []"
  by (simp_all add: gym_draft_def draft_invoice_def no_invoice_def gym_sub_def sample_subscription_def)

lemma gym_create:
  "InvoiceCreate gym_draft [gym_line] gym_key (gym_tenant sub (Works # outs)) = (Inr (), gym_left sub outs)"
proof -
  have m: "MetadataValidate (MetadataClone []) = None" by code_simp
  have k: "gym_key \<noteq> ''''" by (simp add: gym_key_def key_nonempty)
  show ?thesis
    by (simp add: InvoiceCreate_def gym_draft_simps m transact_def Let_def k)
      (simp add: gym_tenant_def gym_left_def gym_draft_simps)
qed

lemma gym_died:
  "invoiceOne gym_reads idle (gym_ids CHR ''a'') gym_sub ''job'' 0 (gym_tenant gym_sub [Works, NotWritten]) =
     (Inl ErrStore, gym_left gym_sub [])"
proof -
  have w: "wrap64 9900 = 9900" "wrap64 0 = 0" by (simp_all add: wrap64_id in64_def)
  have sid: "SubID gym_sub = ''sub_1''" "SubTiming gym_sub = BillArrears" "SubNetDays gym_sub = 5"
    by (simp_all add: gym_sub_def sample_subscription_def)
  obtain d where d: "DueDate gym_period BillArrears 5 = Some d" using gym_due by blast
  have sums: "ApplyToInvoice (draft_invoice ''ia'' gym_sub gym_period (ResolveDunningPolicy [] [[]])) [gym_line] 0 = Inr gym_draft"
    using w by (simp add: ApplyToInvoice_def Subtotal_def Let_def gym_line_def FixedLine_def gym_price_def gym_draft_def)
  have lines: "build_lines gym_reads gym_sub gym_period (ListItems ''sub_1'' (gym_tenant gym_sub outs)) = Inr ([gym_line], [[]])" for outs
    by (simp add: ListItems_def gym_tenant_def gym_reads_def buildLine_def gym_price_def gym_product_def gym_line_def Label_def)
  have policy: "resolvePolicy gym_reads [[]] = Inr (ResolveDunningPolicy [] [[]])" by (simp add: resolvePolicy_def gym_reads_def)
  have items: "ListItems ''sub_1'' (gym_tenant gym_sub outs) \<noteq> []" for outs by (simp add: ListItems_def gym_tenant_def)
  have coll: "collected gym_reads i = i" for i by (simp add: collected_def gym_reads_def)
  obtain u evs where u: "InvoiceTransition gym_draft InvoiceOpen CauseScheduler = Inr (u, evs)"
    using open_edge by (simp add: InvoiceTransition_def Let_def gym_draft_simps)
  have stop: "transact body (idle k (gym_left gym_sub [NotWritten])) = (Inl ErrStore, gym_left gym_sub [])"
    for body :: "sweep_store \<Rightarrow> (sweep_error, unit \<times> sweep_store) result" and k
    by (simp add: transact_def idle_def gym_left_def gym_tenant_def)
  have "finalize_attempts (Suc k) idle gym_draft i evs settlement CauseScheduler ''job'' (gym_left gym_sub [NotWritten]) =
      (Inl ErrStore, gym_left gym_sub [])" for k i settlement
    by (simp add: Let_def stop)
  then have fin: "finalize gym_reads idle gym_draft d settlement CauseScheduler ''job'' (gym_left gym_sub [NotWritten]) =
      (Inl ErrStore, gym_left gym_sub [])" for settlement
    by (simp add: finalize_alt coll Finalize_def u numberingAttempts_def eval_nat_numeral)
  have iss: "issue gym_reads idle gym_draft gym_sub gym_period ''job'' 0 (gym_left gym_sub [NotWritten]) = (Inl ErrStore, gym_left gym_sub [])"
    by (simp add: issue_def sid d NothingDue_def gym_draft_simps fin)
  have gen: "GenerateForPeriod gym_reads idle ''ia'' gym_sub (ListItems ''sub_1'' (gym_tenant gym_sub [Works, NotWritten])) gym_period ''job'' 0
      (gym_tenant gym_sub [Works, NotWritten]) = (Inl ErrStore, gym_left gym_sub [])"
    using items by (simp add: GenerateForPeriod_def lines policy sums sid gym_create iss flip: gym_key_def)
  have plain: "plain_renewal gym_sub" by (simp add: plain_renewal_def gym_sub_def sample_subscription_def)
  show ?thesis
    using invoiceOne_plain [OF plain _ gym_periods(1), of "gym_tenant gym_sub [Works, NotWritten]" gym_reads idle "gym_ids CHR ''a''" "''job''" 0]
      items gen by (simp add: sid gym_ids_def)
qed

lemma gym_left_inv: "sweep_inv (gym_left sub outs)"
proof -
  have "sweep_step (gym_tenant sub (Works # outs)) (gym_left sub outs)"
    by (rule sweep_step.create [OF gym_create gym_draft_simps(5)])
  then show ?thesis by (rule sweep_step_inv) (rule gym_empty)
qed

theorem died_run_is_finished_witness:
  "\<exists>r' st2 row. invoiceOne gym_reads idle (gym_ids CHR ''b'') gym_sub ''job'' 1 (gym_left gym_sub []) = (r', st2) \<and>
     (r' = Inr () \<or> r' = Inl ErrAlreadyGenerated) \<and> renewed gym_sub row st2 \<and> period_issued gym_key st2"
proof -
  let ?row = "\<lparr>RowSubscription = gym_sub, RowSweepOn = Some (mk_date 2026 2 28)\<rparr>"
  have f: "SubID gym_sub = ''sub_1''" "SubStatus gym_sub = SubscriptionActive" "plain_renewal gym_sub"
    by (simp_all add: plain_renewal_def gym_sub_def sample_subscription_def)
  have left: "TnSubs (gym_left gym_sub []) ''sub_1'' = Some ?row" "TnInvoices (gym_left gym_sub []) (gym_ids CHR ''b'' 0) = None"
    "(gym_left gym_sub [])\<lparr>TnOutcomes := []\<rparr> = gym_left gym_sub []"
    by (simp_all add: gym_left_def gym_tenant_def gym_ids_def)
  have "TnSubs (gym_tenant gym_sub [Works, NotWritten]) (SubID gym_sub) = Some ?row" by (simp add: gym_tenant_def f)
  from died_run_is_finished [where ids' = "gym_ids CHR ''b''" and now' = 1,
      OF gym_empty(2) idle_writers f(3) gym_valid f(2) gym_periods(1) this _ _ _ gym_died left(2)]
  have "renewed gym_sub ?row (gym_left gym_sub []) \<or> (\<exists>r' st2. invoiceOne gym_reads idle (gym_ids CHR ''b'') gym_sub ''job'' 1 (gym_left gym_sub []) = (r', st2) \<and>
     (r' = Inr () \<or> r' = Inl ErrAlreadyGenerated) \<and> renewed gym_sub ?row st2 \<and> period_issued gym_key st2)"
    using gym_billable(1) by (auto simp: f left(3) gym_key_def)
  moreover have "\<not> renewed gym_sub ?row (gym_left gym_sub [])"
    by (simp add: renewed_def f left(1)) (simp add: gym_sub_def sample_subscription_def)
  ultimately show ?thesis by blast
qed


theorem cancellation_leaves_draft_witness:
  "\<exists>st'. invoiceOne gym_reads idle (gym_ids CHR ''b'') (gym_sub\<lparr>SubCancelAtPeriodEnd := True\<rparr>) ''job'' 1
       (gym_left (gym_sub\<lparr>SubCancelAtPeriodEnd := True\<rparr>) []) = (Inr (), st') \<and>
     GetByGenerationKey gym_key st' = Some gym_draft \<and> map_option RowSweepOn (TnSubs st' ''sub_1'') = Some None"
proof -
  let ?sub = "gym_sub\<lparr>SubCancelAtPeriodEnd := True\<rparr>"
  let ?st = "gym_left ?sub []" and ?row = "\<lparr>RowSubscription = ?sub, RowSweepOn = Some (mk_date 2026 2 28)\<rparr>"
  have f: "SubID ?sub = ''sub_1''" "SubCancelAtPeriodEnd ?sub" "SubTiming ?sub = BillArrears" "SubStatus ?sub = SubscriptionActive"
    by (simp_all add: gym_sub_def sample_subscription_def)
  have left: "TnOutcomes ?st = []" "TnSubs ?st (SubID ?sub) = Some ?row" "TnInvoices ?st (gym_ids CHR ''b'' 0) = None"
    "SubStatus (RowSubscription ?row) = SubscriptionActive" "''job'' \<noteq> ''''" "InvStatus gym_draft = InvoiceDraft"
    by (simp_all add: gym_left_def gym_tenant_def gym_ids_def f gym_draft_simps)
  have get: "GetByGenerationKey (GenerationKey (SubID ?sub) (Start gym_period)) ?st = Some gym_draft"
    by (simp add: GetByGenerationKey_def f gym_left_def gym_key_def)
  have "ListItems (SubID ?sub) ?st = ListItems ''sub_1'' (gym_tenant ?sub [])" by (simp add: ListItems_def f gym_left_def)
  then have b: "billable gym_reads ?sub gym_period (ListItems (SubID ?sub) ?st)" using gym_billable(2) by simp
  from cancellation_leaves_draft [where ids = "gym_ids CHR ''b''" and others = idle and now = 1,
      OF gym_left_inv left(1) f(2-4) gym_periods(2) left(2,4) b left(5,3) get left(6)]
  show ?thesis by (auto simp: f gym_key_def)
qed

lemma gym_left_steps: "sweep_steps (gym_tenant sub (Works # outs)) (gym_left sub outs)"
  using sweep_step.create [OF gym_create gym_draft_simps(5)] by blast

theorem gapless_numbering_witness:
  "{n. \<exists>i. carries 2026 n i (snd (RunDailySweep gym_reads (\<lambda>_. idle) (\<lambda>_. gym_ids CHR ''b'') (Some False) (Some False) [gym_sub] ''job'' 1 (gym_left gym_sub [])))} =
     {1..currentNumber 2026 (snd (RunDailySweep gym_reads (\<lambda>_. idle) (\<lambda>_. gym_ids CHR ''b'') (Some False) (Some False) [gym_sub] ''job'' 1 (gym_left gym_sub [])))}"
  using gapless_numbering [OF gym_empty(1) gym_left_steps idle_writers(1) prod.collapse [symmetric]] by blast

theorem one_invoice_per_period_witness:
  "TnMarkers (gym_left gym_sub []) gym_key = Some ''ia''"
proof -
  have run: "RunDailySweep gym_reads (\<lambda>_. idle) (\<lambda>_. gym_ids CHR ''b'') (Some False) (Some False) [] ''job'' 1 (gym_left gym_sub []) =
      (\<lparr>SwExamined = 0, SwInvoiced = 0, SwSkipped = 0, SwFailed = 0, SwSuspended = 0\<rparr>, gym_left gym_sub [])"
    by (simp add: RunDailySweep_def)
  have k: "TnKeys (gym_left gym_sub []) ''ia'' = Some gym_key" "gym_key \<noteq> ''''" by (simp_all add: gym_left_def gym_key_def key_nonempty)
  from one_invoice_per_period [OF gym_empty(1) gym_left_steps idle_writers(1) run k(1) k(1) k(2)] show ?thesis by blast
qed

theorem renewal_needs_issued_invoice_witness:
  "\<exists>r st'. invoiceOne gym_reads idle (gym_ids CHR ''b'') gym_sub ''job'' 1 (gym_left gym_sub []) = (r, st') \<and>
     (r = Inr () \<or> r = Inl ErrAlreadyGenerated) \<and> period_issued gym_key st'"
proof -
  let ?st = "gym_left gym_sub []" and ?row = "\<lparr>RowSubscription = gym_sub, RowSweepOn = Some (mk_date 2026 2 28)\<rparr>"
  have f: "SubID gym_sub = ''sub_1''" "SubStatus gym_sub = SubscriptionActive" "plain_renewal gym_sub"
    by (simp_all add: plain_renewal_def gym_sub_def sample_subscription_def)
  have left: "TnOutcomes ?st = []" "TnSubs ?st (SubID gym_sub) = Some ?row" "TnInvoices ?st (gym_ids CHR ''b'' 0) = None"
    "SubStatus (RowSubscription ?row) = SubscriptionActive" "''job'' \<noteq> ''''"
    by (simp_all add: gym_left_def gym_tenant_def gym_ids_def f)
  have "ListItems (SubID gym_sub) ?st = ListItems ''sub_1'' (gym_tenant gym_sub [])" by (simp add: ListItems_def f gym_left_def)
  then have b: "billable gym_reads gym_sub gym_period (ListItems (SubID gym_sub) ?st)" using gym_billable(1) by simp
  obtain r st' where run: "invoiceOne gym_reads idle (gym_ids CHR ''b'') gym_sub ''job'' 1 ?st = (r, st')" "r = Inr () \<or> r = Inl ErrAlreadyGenerated"
    using clean_run [where ids = "gym_ids CHR ''b''" and now = 1,
        OF gym_left_inv left(1) f(3) gym_valid f(2) gym_periods(1) left(2,4) b left(5,3)] by blast
  from renewal_needs_issued_invoice [OF idle_writers(1) gym_left_inv f(3) gym_periods(1) run] run
  show ?thesis by (auto simp: f gym_key_def)
qed

end
